(* ===== verification/Prelude.thy ===== *)
theory Prelude
  imports Main "HOL-Library.AList" "HOL-Library.List_Lexorder" "HOL-Library.Char_ord"
begin

text \<open>
  What the components share.

  \<^item> A Go \<open>map[string]T\<close> is an association list with distinct keys.  The order of
    the list stands for the order in which one \<open>range\<close> loop visits the map, which
    Go leaves open: a theorem about every list is a theorem about every order.
  \<^item> A \<open>sets.String\<close> is a list without repetitions, for the same reason;
    its method \<open>List()\<close> sorts it.
  \<^item> A call that returns a Go \<open>error\<close>, or that can panic, returns a value of
    \<open>gerr + 'a\<close>.
  \<^item> The string functions of Go's standard library that the code uses.
\<close>

named_theorems label_simps

subsection \<open>Errors\<close>

datatype gerr = NotFound | Conflict | Err string | Panic string

text \<open>The text of an error.\<close>

fun errText :: "gerr \<Rightarrow> string" where
  "errText NotFound = ''not found''"
| "errText Conflict = ''conflict''"
| "errText (Err s) = s"
| "errText (Panic s) = s"

fun is_err :: "gerr + 'a \<Rightarrow> bool" where
  "is_err (Inl _) = True"
| "is_err (Inr _) = False"

fun rbind :: "gerr + 'a \<Rightarrow> ('a \<Rightarrow> gerr + 'b) \<Rightarrow> gerr + 'b" where
  "rbind (Inl e) f = Inl e"
| "rbind (Inr x) f = f x"

lemma rbind_Inr_iff: "rbind m f = Inr y \<longleftrightarrow> (\<exists>x. m = Inr x \<and> f x = Inr y)"
  by (cases m) auto

subsection \<open>Go maps\<close>

type_synonym 'v gomap = "(string \<times> 'v) list"

abbreviation mget :: "'v gomap \<Rightarrow> string \<Rightarrow> 'v option" where
  "mget m k \<equiv> map_of m k"

abbreviation mput :: "string \<Rightarrow> 'v \<Rightarrow> 'v gomap \<Rightarrow> 'v gomap" where
  "mput k v m \<equiv> AList.update k v m"

abbreviation mdel :: "string \<Rightarrow> 'v gomap \<Rightarrow> 'v gomap" where
  "mdel k m \<equiv> AList.delete k m"

definition mhas :: "'v gomap \<Rightarrow> string \<Rightarrow> bool" where
  "mhas m k \<longleftrightarrow> map_of m k \<noteq> None"

definition mgetd :: "string gomap \<Rightarrow> string \<Rightarrow> string" where
  "mgetd m k = (case map_of m k of None \<Rightarrow> [] | Some v \<Rightarrow> v)"

definition mwf :: "'v gomap \<Rightarrow> bool" where
  "mwf m \<longleftrightarrow> distinct (map fst m)"

text \<open>Deleting a list of keys, and writing all the entries of another map.\<close>

fun mdels :: "string list \<Rightarrow> 'v gomap \<Rightarrow> 'v gomap" where
  "mdels [] m = m"
| "mdels (k # ks) m = mdels ks (mdel k m)"

fun mputs :: "'v gomap \<Rightarrow> 'v gomap \<Rightarrow> 'v gomap" where
  "mputs [] m = m"
| "mputs ((k, v) # kvs) m = mputs kvs (mput k v m)"

lemma mget_mput [simp]: "mget (mput k v m) k' = (if k' = k then Some v else mget m k')"
  by (simp add: update_conv')

lemma mget_mdel [simp]: "mget (mdel k m) k' = (if k' = k then None else mget m k')"
  by (simp add: delete_conv')

lemma mget_mdels [simp]: "mget (mdels ks m) k = (if k \<in> set ks then None else mget m k)"
  by (induction ks arbitrary: m) auto

lemma mhas_simps [simp]:
  "mhas (mput k v m) k' \<longleftrightarrow> k' = k \<or> mhas m k'"
  "mhas (mdel k m) k' \<longleftrightarrow> k' \<noteq> k \<and> mhas m k'"
  "mhas (mdels ks m) k' \<longleftrightarrow> k' \<notin> set ks \<and> mhas m k'"
  by (auto simp: mhas_def)

lemma mhas_Nil [simp]: "\<not> mhas [] k"
  by (simp add: mhas_def)

lemma mhas_Cons [simp]: "mhas ((k, v) # m) k' \<longleftrightarrow> k' = k \<or> mhas m k'"
  by (auto simp: mhas_def)

lemma mhas_iff: "mhas m k \<longleftrightarrow> k \<in> fst ` set m"
  by (simp add: mhas_def map_of_eq_None_iff)

lemma mhas_None: "\<not> mhas m k \<longleftrightarrow> mget m k = None"
  by (simp add: mhas_def)

lemma mwf_simps [simp]: "mwf []"
  "mwf m \<Longrightarrow> mwf (mput k v m)" "mwf m \<Longrightarrow> mwf (mdel k m)"
  by (simp_all add: mwf_def distinct_update distinct_delete)

lemma mwf_mdels [simp]: "mwf m \<Longrightarrow> mwf (mdels ks m)"
  by (induction ks arbitrary: m) auto

lemma mwf_mputs [simp]: "mwf m \<Longrightarrow> mwf (mputs kvs m)"
  by (induction kvs m rule: mputs.induct) auto

lemma mget_mputs_notin: "k \<notin> fst ` set kvs \<Longrightarrow> mget (mputs kvs m) k = mget m k"
  by (induction kvs m rule: mputs.induct) auto

lemma mget_mputs: "mwf kvs \<Longrightarrow>
    mget (mputs kvs m) k = (case mget kvs k of None \<Rightarrow> mget m k | Some v \<Rightarrow> Some v)"
proof (induction kvs m rule: mputs.induct)
  case (2 k' v kvs m)
  then have wf: "mwf kvs" and nin: "mget kvs k' = None"
    by (auto simp: mwf_def map_of_eq_None_iff)
  show ?case
    using "2.IH" [OF wf] nin by (cases "mget kvs k") auto
qed simp

lemma mwf_in_iff: "mwf m \<Longrightarrow> (k, v) \<in> set m \<longleftrightarrow> mget m k = Some v"
  by (simp add: mwf_def)

lemma mget_mem: "mget m k = Some v \<Longrightarrow> (k, v) \<in> set m"
  by (rule map_of_SomeD)

subsection \<open>String sets\<close>

type_synonym sset = "string list"

definition sinsert :: "string \<Rightarrow> sset \<Rightarrow> sset" where
  "sinsert x s = (if x \<in> set s then s else s @ [x])"

fun sinserts :: "string list \<Rightarrow> sset \<Rightarrow> sset" where
  "sinserts [] s = s"
| "sinserts (x # xs) s = sinserts xs (sinsert x s)"

definition sdelete :: "string \<Rightarrow> sset \<Rightarrow> sset" where
  "sdelete x s = filter (\<lambda>y. y \<noteq> x) s"

definition sdiff :: "sset \<Rightarrow> sset \<Rightarrow> sset" where
  "sdiff s t = filter (\<lambda>y. y \<notin> set t) s"

definition slist :: "sset \<Rightarrow> string list" where
  "slist s = sort s"

lemma set_sinsert [simp]: "set (sinsert x s) = insert x (set s)"
  by (auto simp: sinsert_def)

lemma set_sinserts [simp]: "set (sinserts xs s) = set xs \<union> set s"
  by (induction xs s rule: sinserts.induct) auto

lemma set_sdelete [simp]: "set (sdelete x s) = set s - {x}"
  by (auto simp: sdelete_def)

lemma set_sdiff [simp]: "set (sdiff s t) = set s - set t"
  by (auto simp: sdiff_def)

lemma set_slist [simp]: "set (slist s) = set s"
  by (simp add: slist_def)

lemma distinct_sset [simp]:
  "distinct s \<Longrightarrow> distinct (sinsert x s)" "distinct s \<Longrightarrow> distinct (sinserts xs s)"
  "distinct s \<Longrightarrow> distinct (sdelete x s)" "distinct s \<Longrightarrow> distinct (sdiff s t)"
  "distinct s \<Longrightarrow> distinct (slist s)"
  by (induction xs s rule: sinserts.induct)
    (simp_all add: sinsert_def sdelete_def sdiff_def slist_def)

subsection \<open>Go strings\<close>

definition hasPrefix :: "string \<Rightarrow> string \<Rightarrow> bool" where
  "hasPrefix s p \<longleftrightarrow> take (length p) s = p"

definition hasSuffix :: "string \<Rightarrow> string \<Rightarrow> bool" where
  "hasSuffix s p \<longleftrightarrow> hasPrefix (rev s) (rev p)"

definition trimSuffix :: "string \<Rightarrow> string \<Rightarrow> string" where
  "trimSuffix s p = (if hasSuffix s p then take (length s - length p) s else s)"

text \<open>\<open>strings.Split\<close> by a one-character separator: always at least one part.\<close>

fun splitOn :: "char \<Rightarrow> string \<Rightarrow> string list" where
  "splitOn c [] = [[]]"
| "splitOn c (x # xs) =
     (if x = c then [] # splitOn c xs
      else (case splitOn c xs of [] \<Rightarrow> [[x]] | p # ps \<Rightarrow> (x # p) # ps))"

lemma splitOn_nonempty [simp]: "splitOn c s \<noteq> []"
  by (induction s) (auto split: list.splits)

lemma splitOn_nosep: "c \<notin> set s \<Longrightarrow> splitOn c s = [s]"
  by (induction s) auto

lemma splitOn_append: "c \<notin> set s \<Longrightarrow> splitOn c (s @ c # t) = s # splitOn c t"
  by (induction s) auto

lemma hasPrefix_append [simp]: "hasPrefix (p @ s) p"
  by (simp add: hasPrefix_def)

lemma hasPrefix_iff: "hasPrefix s p \<longleftrightarrow> (\<exists>t. s = p @ t)"
  unfolding hasPrefix_def by (metis append_eq_conv_conj append_take_drop_id)

lemma hasPrefix_append_cases:
  "hasPrefix (q @ s) p \<Longrightarrow> hasPrefix q p \<or> hasPrefix p q"
  by (auto simp: hasPrefix_iff append_eq_append_conv2)

text \<open>
  \<open>strconv.ParseInt (s, 10, 64)\<close>: an optional sign, at least one decimal digit, nothing
  else, and a value in the range of 64 bits; an error otherwise.
\<close>

definition digitVal :: "char \<Rightarrow> nat option" where
  "digitVal c = (let n = (of_char c :: nat) in if 48 \<le> n \<and> n \<le> 57 then Some (n - 48) else None)"

fun parseDigits :: "string \<Rightarrow> nat \<Rightarrow> nat option" where
  "parseDigits [] acc = Some acc"
| "parseDigits (c # cs) acc =
     (case digitVal c of None \<Rightarrow> None | Some d \<Rightarrow> parseDigits cs (acc * 10 + d))"

definition parseNat :: "string \<Rightarrow> nat option" where
  "parseNat s = (if s = [] then None else parseDigits s 0)"

definition inInt64 :: "int \<Rightarrow> bool" where
  "inInt64 i \<longleftrightarrow> - 9223372036854775808 \<le> i \<and> i \<le> 9223372036854775807"

definition parseInt64 :: "string \<Rightarrow> int option" where
  "parseInt64 s =
     (let v = (case s of
                 [] \<Rightarrow> None
               | c # cs \<Rightarrow>
                   if c = CHR ''-'' then map_option (\<lambda>n. - int n) (parseNat cs)
                   else if c = CHR ''+'' then map_option int (parseNat cs)
                   else map_option int (parseNat s))
      in case v of None \<Rightarrow> None | Some i \<Rightarrow> if inInt64 i then Some i else None)"

lemma parseInt64_range: "parseInt64 s = Some i \<Longrightarrow> inInt64 i"
  by (auto simp: parseInt64_def Let_def split: option.splits if_splits)

text \<open>\<open>strconv.Itoa\<close>, and its inverse with a bound of 32 bits.\<close>

fun natStr :: "nat \<Rightarrow> string" where
  "natStr n = (if n < 10 then [char_of (48 + n)] else natStr (n div 10) @ [char_of (48 + n mod 10)])"

declare natStr.simps [simp del]

definition itoa :: "int \<Rightarrow> string" where
  "itoa i = (if i < 0 then CHR ''-'' # natStr (nat (- i)) else natStr (nat i))"

definition parseInt32 :: "string \<Rightarrow> int option" where
  "parseInt32 s =
     (case parseInt64 s of
        None \<Rightarrow> None
      | Some i \<Rightarrow> if - 2147483648 \<le> i \<and> i \<le> 2147483647 then Some i else None)"

lemma digitVal_digit: "d < 10 \<Longrightarrow> digitVal (char_of (48 + d)) = Some d"
  by (simp add: digitVal_def Let_def of_char_of take_bit_eq_mod)

lemma parseDigits_snoc:
  "parseDigits (s @ [c]) a = (case parseDigits s a of None \<Rightarrow> None | Some b \<Rightarrow> parseDigits [c] b)"
  by (induction s a rule: parseDigits.induct) (auto split: option.splits)

lemma parseDigits_natStr: "parseDigits (natStr n) 0 = Some n"
proof (induction n rule: natStr.induct)
  case (1 n)
  show ?case
  proof (cases "n < 10")
    case True
    then show ?thesis by (subst natStr.simps) (simp add: digitVal_digit)
  next
    case False
    with 1 have "parseDigits (natStr (n div 10)) 0 = Some (n div 10)" by simp
    moreover from False have "natStr n = natStr (n div 10) @ [char_of (48 + n mod 10)]" by (subst natStr.simps) simp
    moreover have "digitVal (char_of (48 + n mod 10)) = Some (n mod 10)" by (rule digitVal_digit) simp
    ultimately show ?thesis by (simp add: parseDigits_snoc)
  qed
qed

lemma natStr_hd: "\<exists>d t. d < (10::nat) \<and> natStr n = char_of (48 + d) # t"
proof (induction n rule: natStr.induct)
  case (1 n)
  show ?case
  proof (cases "n < 10")
    case True
    then show ?thesis by (subst natStr.simps) auto
  next
    case False
    with 1 obtain d t where "d < (10::nat)" "natStr (n div 10) = char_of (48 + d) # t" by blast
    with False show ?thesis by (subst natStr.simps) auto
  qed
qed

lemma digit_no_sign:
  assumes "d < (10::nat)"
  shows "char_of (48 + d) \<noteq> CHR ''-'' \<and> char_of (48 + d) \<noteq> CHR ''+''"
proof -
  have "digitVal CHR ''-'' = None" "digitVal CHR ''+'' = None" by code_simp+
  with digitVal_digit [OF assms] show ?thesis by auto
qed

lemma parseInt64_itoa:
  assumes "inInt64 i"
  shows "parseInt64 (itoa i) = Some i"
proof -
  obtain d t where d: "d < (10::nat)" "natStr (nat i) = char_of (48 + d) # t" using natStr_hd by blast
  have n: "parseNat (natStr m) = Some m" for m
    using natStr_hd [of m] by (auto simp: parseNat_def parseDigits_natStr)
  show ?thesis
  proof (cases "i < 0")
    case True
    with assms show ?thesis by (simp add: parseInt64_def itoa_def n)
  next
    case False
    with assms d digit_no_sign [OF d(1)] n [of "nat i"] show ?thesis by (simp add: parseInt64_def itoa_def)
  qed
qed

lemma parseInt32_itoa: "- 2147483648 \<le> i \<Longrightarrow> i \<le> 2147483647 \<Longrightarrow> parseInt32 (itoa i) = Some i"
  by (simp add: parseInt32_def parseInt64_itoa inInt64_def)

end
