(* ===== verification/Kube.thy ===== *)
theory Kube
  imports Prelude
begin

text \<open>
  The Kubernetes objects the controllers read and write, and the helpers on pods of
  \<^verbatim>\<open>pkg/controllers/utils/pod_utils.go\<close>, \<^verbatim>\<open>pkg/utils/common.go\<close>,
  \<^verbatim>\<open>pkg/utils/key.go\<close> and \<^verbatim>\<open>pkg/controllers/utils/podopslifecycle/delete.go\<close>.

  A pod is a record of the fields the modelled code uses.  A nil map or slice and an empty
  one are the same value here: the code treats them alike (reads of a nil map find nothing,
  writes are preceded by a nil check that installs an empty map).

  The label and annotation names, the list of well-known prefixes and the JSON form of the
  available-conditions annotation come from the package kube-api, which is not part of the
  repository.  They are the fields of the record \<open>api\<close>, a parameter of every definition that
  needs them; \<open>api_ok\<close> states what the code relies on: names are distinct, a
  prefix contains no slash and is not the beginning of another prefix, and the well-known
  prefixes are those that are followed by a lifecycle id.
\<close>

subsection \<open>Objects\<close>

text \<open>
  A variable of the environment, a volume mount, a volume and a toleration are pairs of the field
  that the code looks at (its name, the name of the volume, its key) and the rest; of the source of a
  volume the code looks at the name of a claim.  The affinity is
  a pointer that objects share: \<open>p_affinity\<close> is its address, \<open>None\<close> is nil.
\<close>

datatype cstatus = CTrue | CFalse | CUnknown

record cond =
  c_type :: string
  c_status :: cstatus
  c_time :: int
  c_msg :: string

record owner =
  o_kind :: string
  o_api :: string
  o_name :: string
  o_uid :: string
  o_ctrl :: bool

record container =
  k_name :: string
  k_image :: string
  k_env :: "(string \<times> string) list"
  k_mounts :: "(string \<times> string) list"
  k_rest :: string

record cstat =
  s_name :: string
  s_imageID :: string
  s_restarts :: int

datatype vsource = Claim string | OtherSource string

record pod =
  p_ns :: string
  p_name :: string
  p_labels :: "string gomap"
  p_annos :: "string gomap"
  p_finalizers :: "string list"
  p_owners :: "owner list"
  p_rv :: string
  p_deleting :: bool
  p_gates :: "string list"
  p_conds :: "cond list"
  p_phase :: string
  p_node :: string
  p_initContainers :: "container list"
  p_containers :: "container list"
  p_volumes :: "(string \<times> vsource) list"
  p_affinity :: "nat option"
  p_tolerations :: "(string \<times> string) list"
  p_cstats :: "cstat list"
  p_uid :: string
  p_created :: int

subsection \<open>Names of kube-api\<close>

datatype pfx = POperating | POperationType | POperationPermission | PUndoOperationType
  | PDoneOperationType | PPreCheck | PPreChecked | PPreparing | POperate | POperated
  | PPostCheck | PPostChecked | PCompleting

record api =
  pstr :: "pfx \<Rightarrow> string"
  wellKnown :: "pfx list"
  svcAvailL :: string
  creatingL :: string
  completingL :: string
  stayOfflineL :: string
  prepDeleteL :: string
  ctrlByL :: string
  clsUpdateL :: string
  delIndL :: string
  replIndL :: string
  replOriginL :: string
  replNewIdL :: string
  replByUpdL :: string
  instIdL :: string
  tmplHashL :: string
  tmplL :: string
  lastStatusAnno :: string
  svcReadyGate :: string
  protFinP :: string
  availAnno :: string
  dec_avail :: "string \<Rightarrow> gerr + string gomap"
  enc_avail :: "string gomap \<Rightarrow> string"

definition plainLabels :: "api \<Rightarrow> string list" where
  "plainLabels A = [svcAvailL A, creatingL A, completingL A, stayOfflineL A, prepDeleteL A, ctrlByL A,
     clsUpdateL A, delIndL A, replIndL A, replOriginL A, replNewIdL A, replByUpdL A, instIdL A, tmplHashL A, tmplL A]"

definition api_ok :: "api \<Rightarrow> bool" where
  "api_ok A \<longleftrightarrow>
     (\<forall>p. CHR ''/'' \<notin> set (pstr A p)) \<and>
     (\<forall>p q. hasPrefix (pstr A p) (pstr A q) \<longrightarrow> p = q) \<and>
     set (wellKnown A) = - {POperationPermission} \<and>
     (\<forall>l \<in> set (plainLabels A). \<forall>p. \<not> hasPrefix l (pstr A p)) \<and>
     distinct (plainLabels A)"

definition key :: "api \<Rightarrow> pfx \<Rightarrow> string \<Rightarrow> string" where
  "key A p i = pstr A p @ ''/'' @ i"

lemma api_okD:
  assumes "api_ok A"
  shows api_noslash: "CHR ''/'' \<notin> set (pstr A p)"
    and api_prefix: "hasPrefix (pstr A p) (pstr A q) \<Longrightarrow> p = q"
    and api_wellKnown: "set (wellKnown A) = - {POperationPermission}"
    and api_plain: "l \<in> set (plainLabels A) \<Longrightarrow> \<not> hasPrefix l (pstr A p)"
    and api_plain_distinct: "distinct (plainLabels A)"
  using assms by (auto simp: api_ok_def)

lemma key_prefix_iff: "api_ok A \<Longrightarrow> hasPrefix (key A p i) (pstr A q) \<longleftrightarrow> p = q"
  unfolding key_def
  by (metis api_prefix hasPrefix_append hasPrefix_append_cases)

lemma key_inj [label_simps]: "api_ok A \<Longrightarrow> key A p i = key A q j \<longleftrightarrow> p = q \<and> i = j"
  by (metis append_Cons append_Nil append_same_eq key_def key_prefix_iff same_append_eq list.inject)

lemma key_split: "api_ok A \<Longrightarrow> splitOn (CHR ''/'') (key A p i) = pstr A p # splitOn (CHR ''/'') i"
  by (simp add: key_def api_noslash splitOn_append)

lemma key_plain: "api_ok A \<Longrightarrow> l \<in> set (plainLabels A) \<Longrightarrow> key A p i \<noteq> l"
  using api_plain key_prefix_iff by blast

lemma key_not_plain [label_simps]:
  assumes "api_ok A"
  shows "key A p i \<noteq> svcAvailL A" "key A p i \<noteq> creatingL A" "key A p i \<noteq> completingL A"
    "key A p i \<noteq> stayOfflineL A" "key A p i \<noteq> prepDeleteL A" "key A p i \<noteq> ctrlByL A"
    "svcAvailL A \<noteq> key A p i" "creatingL A \<noteq> key A p i" "completingL A \<noteq> key A p i"
    "stayOfflineL A \<noteq> key A p i" "prepDeleteL A \<noteq> key A p i" "ctrlByL A \<noteq> key A p i"
proof -
  have k: "l \<in> set (plainLabels A) \<Longrightarrow> key A p i \<noteq> l" for l
    by (rule key_plain [OF assms])
  show "key A p i \<noteq> svcAvailL A" "key A p i \<noteq> creatingL A" "key A p i \<noteq> completingL A"
    "key A p i \<noteq> stayOfflineL A" "key A p i \<noteq> prepDeleteL A" "key A p i \<noteq> ctrlByL A"
    "svcAvailL A \<noteq> key A p i" "creatingL A \<noteq> key A p i" "completingL A \<noteq> key A p i"
    "stayOfflineL A \<noteq> key A p i" "prepDeleteL A \<noteq> key A p i" "ctrlByL A \<noteq> key A p i"
    using k [of "svcAvailL A"] k [of "creatingL A"] k [of "completingL A"]
      k [of "stayOfflineL A"] k [of "prepDeleteL A"] k [of "ctrlByL A"]
    unfolding plainLabels_def by auto
qed

lemma key_not_clsUpdate [label_simps]:
  "api_ok A \<Longrightarrow> key A p i \<noteq> clsUpdateL A" "api_ok A \<Longrightarrow> clsUpdateL A \<noteq> key A p i"
  using key_plain [of A "clsUpdateL A" p i] by (auto simp: plainLabels_def)

lemma plain_distinct [label_simps]:
  assumes "api_ok A"
  shows "svcAvailL A \<noteq> creatingL A" "svcAvailL A \<noteq> completingL A"
    "creatingL A \<noteq> svcAvailL A" "completingL A \<noteq> svcAvailL A"
    "svcAvailL A \<noteq> stayOfflineL A" "stayOfflineL A \<noteq> svcAvailL A"
    "svcAvailL A \<noteq> ctrlByL A" "ctrlByL A \<noteq> svcAvailL A"
  using api_plain_distinct [OF assms] by (auto simp: plainLabels_def)

text \<open>
  An instance with the naming scheme that the sources show
  (\<^verbatim>\<open>operating.podopslifecycle.kusionstack.io/pod-delete\<close>); it shows that the assumptions
  can hold.  The annotation is coded by the list of its entries.
\<close>

fun pfx_base :: "pfx \<Rightarrow> string" where
  "pfx_base POperating = ''operating''"
| "pfx_base POperationType = ''operation-type''"
| "pfx_base POperationPermission = ''operation-permission''"
| "pfx_base PUndoOperationType = ''undo-operation-type''"
| "pfx_base PDoneOperationType = ''done-operation-type''"
| "pfx_base PPreCheck = ''pre-check''"
| "pfx_base PPreChecked = ''pre-checked''"
| "pfx_base PPreparing = ''preparing''"
| "pfx_base POperate = ''operate''"
| "pfx_base POperated = ''operated''"
| "pfx_base PPostCheck = ''post-check''"
| "pfx_base PPostChecked = ''post-checked''"
| "pfx_base PCompleting = ''completing''"

fun dec_pairs :: "string \<Rightarrow> gerr + string gomap" where
  "dec_pairs s =
     (if s = [] then Inr []
      else (case splitOn (CHR '':'') s of
              [k, v] \<Rightarrow> Inr [(k, v)]
            | _ \<Rightarrow> Inl (Err ''invalid'')))"

fun enc_pairs :: "string gomap \<Rightarrow> string" where
  "enc_pairs [] = []"
| "enc_pairs ((k, v) # _) = k @ '':'' @ v"

definition api0 :: api where
  "api0 = \<lparr>pstr = (\<lambda>p. pfx_base p @ ''.podops''),
     wellKnown = [POperating, POperationType, PUndoOperationType, PDoneOperationType, PPreCheck,
       PPreChecked, PPreparing, POperate, POperated, PPostCheck, PPostChecked, PCompleting],
     svcAvailL = ''podops/service-available'', creatingL = ''podops/creating'',
     completingL = ''podops/completing'', stayOfflineL = ''podops/stay-offline'',
     prepDeleteL = ''podops/preparing-delete'', ctrlByL = ''kusionstack/control'',
     clsUpdateL = ''collaset/update'', delIndL = ''podops/to-delete'', replIndL = ''podops/replace'',
     replOriginL = ''podops/replace-origin'', replNewIdL = ''podops/replace-new'',
     replByUpdL = ''podops/replace-by-update'', instIdL = ''podops/instance-id'',
     tmplHashL = ''collaset/pvc-template-hash'', tmplL = ''collaset/pvc-template'',
     lastStatusAnno = ''collaset/last-status'',
     svcReadyGate = ''podops/service-ready'', protFinP = ''prot.podops'',
     availAnno = ''podops/available-conditions'',
     dec_avail = dec_pairs, enc_avail = enc_pairs\<rparr>"

lemma api0_ok: "api_ok api0"
proof -
  have 1: "CHR ''/'' \<notin> set (pstr api0 p)" for p
    by (cases p) (simp_all add: api0_def)
  have 2: "p = q" if "hasPrefix (pstr api0 p) (pstr api0 q)" for p q
    using that by (cases p; cases q) (simp_all add: api0_def hasPrefix_def)
  have 3: "p \<in> set (wellKnown api0) \<longleftrightarrow> p \<noteq> POperationPermission" for p
    by (cases p) (simp_all add: api0_def)
  have 4: "\<not> hasPrefix l (pstr api0 p)" if "l \<in> set (plainLabels api0)" for l p
    using that by (cases p) (auto simp: api0_def plainLabels_def hasPrefix_def)
  have 5: "distinct (plainLabels api0)"
    by (simp add: api0_def plainLabels_def)
  show ?thesis
    unfolding api_ok_def using 1 2 3 4 5 by auto
qed

end
