(* ===== verification/PodUtils.thy ===== *)
theory PodUtils
  imports Kube
begin

text \<open>
  \<^verbatim>\<open>pkg/controllers/utils/pod_utils.go\<close>, \<^verbatim>\<open>pkg/utils/common.go\<close>, \<^verbatim>\<open>pkg/utils/key.go\<close>,
  \<^verbatim>\<open>pkg/controllers/utils/finalizer.go\<close> and the API client.

  A lookup that returns an index and a pointer in Go (\<open>-1, nil\<close> when nothing is found) is an
  \<open>option\<close> of a pair here.
\<close>

subsection \<open>Conditions\<close>

fun condFrom :: "nat \<Rightarrow> cond list \<Rightarrow> string \<Rightarrow> (nat \<times> cond) option" where
  "condFrom i [] t = None"
| "condFrom i (c # cs) t = (if c_type c = t then Some (i, c) else condFrom (Suc i) cs t)"

definition GetPodConditionFromList :: "cond list \<Rightarrow> string \<Rightarrow> (nat \<times> cond) option" where
  "GetPodConditionFromList cs t = condFrom 0 cs t"

definition GetPodCondition :: "pod \<Rightarrow> string \<Rightarrow> (nat \<times> cond) option" where
  "GetPodCondition p t = GetPodConditionFromList (p_conds p) t"

definition condIsTrue :: "(nat \<times> cond) option \<Rightarrow> bool" where
  "condIsTrue c = (case c of None \<Rightarrow> False | Some (_, x) \<Rightarrow> c_status x = CTrue)"

definition IsPodReady :: "pod \<Rightarrow> bool" where
  "IsPodReady p = condIsTrue (GetPodCondition p ''Ready'')"

definition IsPodScheduled :: "pod \<Rightarrow> bool" where
  "IsPodScheduled p = condIsTrue (GetPodCondition p ''PodScheduled'')"

definition IsPodTerminal :: "pod \<Rightarrow> bool" where
  "IsPodTerminal p \<longleftrightarrow> p_phase p = ''Failed'' \<or> p_phase p = ''Succeeded''"

definition BeforeReady :: "pod \<Rightarrow> bool" where
  "BeforeReady p \<longleftrightarrow> p_node p = [] \<or> p_phase p \<noteq> ''Running'' \<or> \<not> IsPodReady p"

lemma condFrom_Some:
  "condFrom i cs t = Some (j, c) \<Longrightarrow>
     i \<le> j \<and> j - i < length cs \<and> c = cs ! (j - i) \<and> c_type c = t \<and> (\<forall>k < j - i. c_type (cs ! k) \<noteq> t)"
proof (induction i cs t rule: condFrom.induct)
  case (2 i c' cs t)
  show ?case
  proof (cases "c_type c' = t")
    case False
    with 2 have IH: "Suc i \<le> j" "j - Suc i < length cs" "c = cs ! (j - Suc i)" "c_type c = t"
      "\<forall>k < j - Suc i. c_type (cs ! k) \<noteq> t" by auto
    then have j: "j - i = Suc (j - Suc i)" by simp
    show ?thesis
      using IH False by (auto simp: j less_Suc_eq_0_disj)
  qed (use 2 in auto)
qed simp

lemma condFrom_None: "condFrom i cs t = None \<longleftrightarrow> t \<notin> c_type ` set cs"
  by (induction i cs t rule: condFrom.induct) auto

lemma GetPodCondition_None: "GetPodCondition p t = None \<longleftrightarrow> t \<notin> c_type ` set (p_conds p)"
  by (simp add: GetPodCondition_def GetPodConditionFromList_def condFrom_None)

lemma GetPodCondition_Some:
  "GetPodCondition p t = Some (j, c) \<Longrightarrow>
     j < length (p_conds p) \<and> c = p_conds p ! j \<and> c_type c = t \<and> (\<forall>k < j. c_type (p_conds p ! k) \<noteq> t)"
  unfolding GetPodCondition_def GetPodConditionFromList_def
  by (drule condFrom_Some) auto

subsection \<open>Labels and finalizers\<close>

definition IsPodServiceAvailable :: "api \<Rightarrow> pod \<Rightarrow> bool" where
  "IsPodServiceAvailable A p = mhas (p_labels p) (svcAvailL A)"

definition ControlledByKusionStack :: "api \<Rightarrow> pod \<Rightarrow> bool" where
  "ControlledByKusionStack A p \<longleftrightarrow> mget (p_labels p) (ctrlByL A) = Some ''true''"

definition ControlByKusionStack :: "api \<Rightarrow> pod \<Rightarrow> pod" where
  "ControlByKusionStack A p =
     (if mget (p_labels p) (ctrlByL A) = Some ''true'' then p
      else p\<lparr>p_labels := mput (ctrlByL A) ''true'' (p_labels p)\<rparr>)"

definition GetProtectionFinalizers :: "api \<Rightarrow> pod \<Rightarrow> string list" where
  "GetProtectionFinalizers A p = filter (\<lambda>f. hasPrefix f (protFinP A)) (p_finalizers p)"

definition PodAvailableConditions :: "api \<Rightarrow> pod \<Rightarrow> gerr + string gomap option" where
  "PodAvailableConditions A p =
     (case mget (p_annos p) (availAnno A) of
        None \<Rightarrow> Inr None
      | Some a \<Rightarrow> (case dec_avail A a of Inl e \<Rightarrow> Inl e | Inr m \<Rightarrow> Inr (Some m)))"

text \<open>The loop over the expected finalizers, in the order of the \<open>range\<close> loop.\<close>

fun unsatisfied :: "string list \<Rightarrow> string gomap \<Rightarrow> bool \<times> string gomap \<Rightarrow> bool \<times> string gomap" where
  "unsatisfied ex [] acc = acc"
| "unsatisfied ex ((k, f) # m) (sat, ns) =
     (if f \<notin> set ex then unsatisfied ex m (False, mput k f ns) else unsatisfied ex m (sat, ns))"

definition IsExpectedFinalizerSatisfied :: "api \<Rightarrow> pod \<Rightarrow> gerr + bool \<times> string gomap" where
  "IsExpectedFinalizerSatisfied A p =
     (case PodAvailableConditions A p of
        Inl e \<Rightarrow> Inl e
      | Inr None \<Rightarrow> Inr (True, [])
      | Inr (Some m) \<Rightarrow> Inr (unsatisfied (p_finalizers p) m (True, [])))"

lemma unsatisfied_fst: "fst (unsatisfied ex m (sat, ns)) \<longleftrightarrow> sat \<and> (\<forall>(k, f) \<in> set m. f \<in> set ex)"
  by (induction ex m "(sat, ns)" arbitrary: sat ns rule: unsatisfied.induct) auto

lemma unsatisfied_snd:
  "mwf m \<Longrightarrow> mget (snd (unsatisfied ex m (sat, ns))) k =
     (case mget m k of Some f \<Rightarrow> if f \<in> set ex then mget ns k else Some f | None \<Rightarrow> mget ns k)"
proof (induction m arbitrary: sat ns)
  case (Cons kv m)
  obtain k' f where kv: "kv = (k', f)" by (cases kv)
  from Cons.prems have wf: "mwf m" and nin: "mget m k' = None"
    by (auto simp: kv mwf_def map_of_eq_None_iff)
  show ?case
    using Cons.IH [OF wf] nin by (auto simp: kv split: option.splits)
qed simp

lemma IsExpectedFinalizerSatisfied_iff:
  "IsExpectedFinalizerSatisfied A p = Inr (b, ns) \<Longrightarrow>
     b \<longleftrightarrow> (\<forall>m. PodAvailableConditions A p = Inr (Some m) \<longrightarrow> snd ` set m \<subseteq> set (p_finalizers p))"
proof -
  assume r: "IsExpectedFinalizerSatisfied A p = Inr (b, ns)"
  then obtain c where c: "PodAvailableConditions A p = Inr c"
    by (cases "PodAvailableConditions A p") (auto simp: IsExpectedFinalizerSatisfied_def)
  show ?thesis
  proof (cases c)
    case (Some m)
    with r c have "b = fst (unsatisfied (p_finalizers p) m (True, []))"
      by (simp add: IsExpectedFinalizerSatisfied_def)
    with c Some show ?thesis by (auto simp: unsatisfied_fst)
  qed (use r c in \<open>simp add: IsExpectedFinalizerSatisfied_def\<close>)
qed

lemma PodAvailableConditions_labels [simp]:
  "PodAvailableConditions A (p\<lparr>p_labels := l\<rparr>) = PodAvailableConditions A p"
  by (simp add: PodAvailableConditions_def)

lemma IsExpectedFinalizerSatisfied_labels [simp]:
  "IsExpectedFinalizerSatisfied A (p\<lparr>p_labels := l\<rparr>) = IsExpectedFinalizerSatisfied A p"
  by (simp add: IsExpectedFinalizerSatisfied_def split: sum.splits option.splits)

lemma GetPodCondition_labels [simp]: "GetPodCondition (p\<lparr>p_labels := l\<rparr>) t = GetPodCondition p t"
  by (simp add: GetPodCondition_def)

lemma GetProtectionFinalizers_labels [simp]:
  "GetProtectionFinalizers A (p\<lparr>p_labels := l\<rparr>) = GetProtectionFinalizers A p"
  by (simp add: GetProtectionFinalizers_def)

definition ContainsFinalizer :: "pod \<Rightarrow> string \<Rightarrow> bool" where
  "ContainsFinalizer p f \<longleftrightarrow> f \<in> set (p_finalizers p)"

definition AddLabel :: "pod \<Rightarrow> string \<Rightarrow> string \<Rightarrow> bool \<times> pod" where
  "AddLabel p k v =
     (if mhas (p_labels p) k then (False, p) else (True, p\<lparr>p_labels := mput k v (p_labels p)\<rparr>))"

definition ObjectKeyString :: "pod \<Rightarrow> string" where
  "ObjectKeyString p = (if p_ns p = [] then p_name p else p_ns p @ ''/'' @ p_name p)"

definition controllerKey :: "pod \<Rightarrow> string" where
  "controllerKey p = p_ns p @ ''/'' @ p_name p"

text \<open>\<open>metav1.GetControllerOf\<close>: the owner that is marked as the controller.\<close>

definition GetControllerOf :: "pod \<Rightarrow> owner option" where
  "GetControllerOf p = find o_ctrl (p_owners p)"

subsection \<open>Requests and events\<close>

text \<open>What a reconciliation returns besides an error, and what a watch delivers.\<close>

record rresult =
  rr_requeue :: bool
  rr_after :: "int option"

definition noResult :: rresult where
  "noResult = \<lparr>rr_requeue = False, rr_after = None\<rparr>"

datatype 'o revent = RCreate 'o | RUpdate 'o 'o | RDelete 'o | RGeneric 'o

subsection \<open>The API client\<close>

text \<open>
  The client of controller-runtime and \<open>retry.RetryOnConflict\<close> of client-go are parameters.
  The cluster is a value of a type \<open>'w\<close> that every call receives and, when it writes, returns.
  An update returns the object as the server stored it.  \<open>retry_ok\<close> is the documented
  behaviour of the retry helper: the function runs one or more times, each run but the
  last one failed with a conflict, and the result is that of the last run.
\<close>

record 'w client =
  cl_get :: "'w \<Rightarrow> string \<Rightarrow> string \<Rightarrow> gerr + pod"
  cl_update :: "pod \<Rightarrow> 'w \<Rightarrow> (gerr + pod) \<times> 'w"
  cl_status :: "pod \<Rightarrow> 'w \<Rightarrow> (gerr + pod) \<times> 'w"
  cl_svc :: "'w \<Rightarrow> string \<Rightarrow> string \<Rightarrow> gerr + string gomap"
  cl_retry :: "('w \<Rightarrow> gerr option \<times> 'w) \<Rightarrow> 'w \<Rightarrow> gerr option \<times> 'w"

inductive retried :: "('w \<Rightarrow> gerr option \<times> 'w) \<Rightarrow> 'w \<Rightarrow> gerr option \<times> 'w \<Rightarrow> bool" for f where
  last: "retried f w (f w)"
| again: "f w = (Some Conflict, w') \<Longrightarrow> retried f w' r \<Longrightarrow> retried f w r"

definition retry_ok :: "'w client \<Rightarrow> bool" where
  "retry_ok C \<longleftrightarrow> (\<forall>f w. retried f w (cl_retry C f w))"

lemma retried_inv:
  assumes "retried f w r" and "P w" and "\<And>w. P w \<Longrightarrow> P (snd (f w))"
  shows "P (snd r)"
  using assms(1,2) by (induction rule: retried.induct) (use assms(3) in \<open>auto dest: assms(3)\<close>)

lemma retried_last:
  "retried f w r \<Longrightarrow> \<exists>w'. r = f w'"
  by (induction rule: retried.induct) auto

text \<open>
  The shape of every retried write of the controllers: read the object again, compute the
  new one (\<open>None\<close>: nothing to do), and write it with the given call.
\<close>

definition attempt :: "'w client \<Rightarrow> (pod \<Rightarrow> 'w \<Rightarrow> (gerr + pod) \<times> 'w) \<Rightarrow> string \<Rightarrow> string
    \<Rightarrow> (pod \<Rightarrow> pod option) \<Rightarrow> 'w \<Rightarrow> gerr option \<times> 'w" where
  "attempt C put ns n f w =
     (case cl_get C w ns n of
        Inl e \<Rightarrow> (Some e, w)
      | Inr p \<Rightarrow>
          (case f p of
             None \<Rightarrow> (None, w)
           | Some p' \<Rightarrow>
               (case put p' w of (Inl e, w') \<Rightarrow> (Some e, w') | (Inr _, w') \<Rightarrow> (None, w'))))"

text \<open>
  What the controllers rely on of the server: reads return the current object, a write stores the
  object that was sent with a new resource version, and a failed write changes nothing.
  \<open>objs\<close> is the set of stored pods by key.
\<close>

locale api_server =
  fixes C :: "'w client" and objs :: "'w \<Rightarrow> string \<Rightarrow> pod option"
  assumes get_current: "cl_get C w ns n = Inr p \<Longrightarrow> objs w (ns @ ''/'' @ n) = Some p \<and> p_ns p = ns \<and> p_name p = n"
    and update_ok: "cl_update C p w = (Inr p', w') \<Longrightarrow>
      (\<exists>rv. p' = p\<lparr>p_rv := rv\<rparr>) \<and> objs w' = (objs w)(controllerKey p \<mapsto> p')"
    and update_err: "cl_update C p w = (Inl e, w') \<Longrightarrow> objs w' = objs w"
    and status_ok: "cl_status C p w = (Inr p', w') \<Longrightarrow>
      (\<exists>rv. p' = p\<lparr>p_rv := rv\<rparr>) \<and> objs w' = (objs w)(controllerKey p \<mapsto> p')"
    and status_err: "cl_status C p w = (Inl e, w') \<Longrightarrow> objs w' = objs w"
    and retry: "retried f w (cl_retry C f w)"
begin

definition wrote :: "'w \<Rightarrow> 'w \<Rightarrow> string \<Rightarrow> (pod \<Rightarrow> pod \<Rightarrow> bool) \<Rightarrow> bool" where
  "wrote w w' k R \<longleftrightarrow> (\<exists>p q. objs w k = Some p \<and> R p q \<and> objs w' = (objs w)(k \<mapsto> q))"

lemma attempt_effect:
  assumes "put = cl_update C \<or> put = cl_status C"
    and "\<And>p q. f p = Some q \<Longrightarrow> controllerKey q = controllerKey p"
    and "attempt C put ns n f w = (r, w')"
  shows "objs w' = objs w \<or> r = None \<and> wrote w w' (ns @ ''/'' @ n) (\<lambda>p q. \<exists>q' rv. f p = Some q' \<and> q = q'\<lparr>p_rv := rv\<rparr>)"
proof (cases "cl_get C w ns n")
  case g: (Inr p)
  note get = get_current [OF g]
  show ?thesis
  proof (cases "f p")
    case f: (Some q)
    obtain x w1 where x: "put q w = (x, w1)" by fastforce
    have r: "attempt C put ns n f w = (case x of Inl e \<Rightarrow> (Some e, w1) | Inr _ \<Rightarrow> (None, w1))"
      by (simp add: attempt_def g f x)
    show ?thesis
    proof (cases x)
      case (Inl e)
      have "objs w1 = objs w"
        using assms(1) x unfolding Inl by (auto dest: update_err status_err)
      then show ?thesis using assms(3) r Inl by simp
    next
      case (Inr q')
      have u: "(\<exists>rv. q' = q\<lparr>p_rv := rv\<rparr>) \<and> objs w1 = (objs w)(controllerKey q \<mapsto> q')"
        using assms(1) x unfolding Inr by (auto dest: update_ok status_ok)
      have "r = None" "w' = w1" using assms(3) r Inr by simp_all
      moreover have "controllerKey q = ns @ ''/'' @ n"
        using assms(2) [OF f] get by (simp add: controllerKey_def)
      ultimately show ?thesis
        unfolding wrote_def using u get f by metis
    qed
  qed (use assms(3) g in \<open>simp add: attempt_def\<close>)
qed (use assms(3) in \<open>simp add: attempt_def\<close>)

lemma retry_attempt:
  assumes "put = cl_update C \<or> put = cl_status C"
    and "\<And>p q. f p = Some q \<Longrightarrow> controllerKey q = controllerKey p"
    and "cl_retry C (attempt C put ns n f) w = (r, w')"
  shows "objs w' = objs w \<or> r = None \<and> wrote w w' (ns @ ''/'' @ n) (\<lambda>p q. \<exists>q' rv. f p = Some q' \<and> q = q'\<lparr>p_rv := rv\<rparr>)"
proof -
  let ?R = "\<lambda>p q. \<exists>q' rv. f p = Some q' \<and> q = q'\<lparr>p_rv := rv\<rparr>"
  have eff: "objs (snd x) = objs w \<or> fst x = None \<and> wrote w (snd x) (ns @ ''/'' @ n) ?R"
    if "attempt C put ns n f w = x" for w x
    by (rule attempt_effect [OF assms(1,2)]) (simp_all add: that)
  have "objs (snd x) = objs w \<or> fst x = None \<and> wrote w (snd x) (ns @ ''/'' @ n) ?R"
    if "retried (attempt C put ns n f) w x" for x
    using that
  proof (induction rule: retried.induct)
    case (last w)
    show ?case by (rule eff) (rule refl)
  next
    case (again w w1 x)
    have "objs w1 = objs w" using eff [OF again(1)] by simp
    with again(3) show ?case by (simp add: wrote_def)
  qed
  from this [OF retry [of "attempt C put ns n f" w]] assms(3) show ?thesis by simp
qed

end

text \<open>An in-memory server: objects by key, optimistic locking on the resource version.\<close>

definition mem_update :: "pod \<Rightarrow> pod gomap \<Rightarrow> (gerr + pod) \<times> pod gomap" where
  "mem_update p w =
     (case mget w (controllerKey p) of
        None \<Rightarrow> (Inl NotFound, w)
      | Some q \<Rightarrow>
          if p_rv p = p_rv q
          then (let p' = p\<lparr>p_rv := p_rv p @ ''1''\<rparr> in (Inr p', mput (controllerKey p) p' w))
          else (Inl Conflict, w))"

fun mem_retry :: "nat \<Rightarrow> ('w \<Rightarrow> gerr option \<times> 'w) \<Rightarrow> 'w \<Rightarrow> gerr option \<times> 'w" where
  "mem_retry 0 f w = f w"
| "mem_retry (Suc n) f w =
     (case f w of (Some Conflict, w') \<Rightarrow> mem_retry n f w' | r \<Rightarrow> r)"

definition mem_client :: "pod gomap client" where
  "mem_client =
     \<lparr>cl_get = (\<lambda>w ns n. case mget w (ns @ ''/'' @ n) of
          None \<Rightarrow> Inl NotFound
        | Some p \<Rightarrow> if p_ns p = ns \<and> p_name p = n then Inr p else Inl NotFound),
      cl_update = mem_update, cl_status = mem_update,
      cl_svc = (\<lambda>w ns n. Inl NotFound),
      cl_retry = mem_retry 4\<rparr>"

lemma mem_retry_retried: "retried f w (mem_retry n f w)"
proof (induction n f w rule: mem_retry.induct)
  case (2 n f w)
  show ?case
  proof (cases "fst (f w) = Some Conflict")
    case True
    then obtain w' where w': "f w = (Some Conflict, w')" by (cases "f w") auto
    with 2 show ?thesis by (auto intro: retried.again)
  next
    case False
    then have "mem_retry (Suc n) f w = f w"
      by (auto split: prod.splits option.splits gerr.splits)
    then show ?thesis using retried.last [of f w] by simp
  qed
qed (simp add: retried.last)

lemma mem_client_retry_ok: "retry_ok mem_client"
  by (simp add: retry_ok_def mem_client_def mem_retry_retried)

lemma mem_update_ok:
  assumes "mem_update p w = (Inr p', w')"
  shows "(\<exists>rv. p' = p\<lparr>p_rv := rv\<rparr>) \<and> mget w' = (mget w)(controllerKey p \<mapsto> p')"
  using assms by (auto simp: mem_update_def Let_def fun_eq_iff split: option.splits if_splits)

lemma mem_update_err: "mem_update p w = (Inl e, w') \<Longrightarrow> w' = w"
  by (auto simp: mem_update_def Let_def split: option.splits if_splits)

interpretation mem: api_server mem_client mget
proof unfold_locales
  show "cl_get mem_client w ns n = Inr p \<Longrightarrow> mget w (ns @ ''/'' @ n) = Some p \<and> p_ns p = ns \<and> p_name p = n"
    for w ns n p by (auto simp: mem_client_def split: option.splits if_splits)
qed (auto simp: mem_client_def mem_retry_retried dest: mem_update_ok mem_update_err)

end
