(* ===== verification/LifecycleIds.thy ===== *)
theory LifecycleIds
  imports PodUtils
begin

text \<open>
  \<^verbatim>\<open>pkg/controllers/podopslifecycle/utils.go\<close>: reading the lifecycles off a pod's labels.

  A lifecycle with id \<open>i\<close> shows as labels \<open>prefix/i\<close>.  \<open>IDToLabelsMap\<close> collects the ids of
  the operating, operate and operated labels and returns, per id, the well-known
  labels it has, and the number of lifecycles per operation type.  The inner Go map is
  keyed by the prefix constants, here the datatype \<open>pfx\<close>.
\<close>

type_synonym idlabels = "(pfx \<times> string) list"

definition lhas :: "idlabels \<Rightarrow> pfx \<Rightarrow> bool" where
  "lhas ls q \<longleftrightarrow> map_of ls q \<noteq> None"

definition isLifecycleKey :: "api \<Rightarrow> string \<Rightarrow> bool" where
  "isLifecycleKey A k \<longleftrightarrow> hasPrefix k (pstr A POperating) \<or> hasPrefix k (pstr A POperate)
     \<or> hasPrefix k (pstr A POperated)"

fun collectIds :: "api \<Rightarrow> string gomap \<Rightarrow> sset \<Rightarrow> gerr + sset" where
  "collectIds A [] ids = Inr ids"
| "collectIds A ((k, v) # m) ids =
     (if isLifecycleKey A k
      then (case splitOn (CHR ''/'') k of
              s0 # s1 # ss \<Rightarrow> collectIds A m (sinsert s1 ids)
            | _ \<Rightarrow> Inl (Err ''invalid label''))
      else collectIds A m ids)"

definition bumpType :: "string \<Rightarrow> nat gomap \<Rightarrow> nat gomap" where
  "bumpType t m = (case mget m t of None \<Rightarrow> mput t 1 m | Some n \<Rightarrow> mput t (n + 1) m)"

definition idType :: "api \<Rightarrow> string gomap \<Rightarrow> string \<Rightarrow> string option" where
  "idType A m i =
     (case mget m (key A POperationType i) of
        Some t \<Rightarrow> Some t
      | None \<Rightarrow> mget m (key A PDoneOperationType i))"

fun idLabels :: "api \<Rightarrow> string gomap \<Rightarrow> string \<Rightarrow> pfx list \<Rightarrow> idlabels \<Rightarrow> idlabels" where
  "idLabels A m i [] ls = ls"
| "idLabels A m i (q # qs) ls =
     (case mget m (key A q i) of
        None \<Rightarrow> idLabels A m i qs ls
      | Some v \<Rightarrow> idLabels A m i qs (AList.update q v ls))"

fun idLoop :: "api \<Rightarrow> string gomap \<Rightarrow> string list \<Rightarrow> idlabels gomap \<times> nat gomap
    \<Rightarrow> idlabels gomap \<times> nat gomap" where
  "idLoop A m [] (idm, nums) = (idm, nums)"
| "idLoop A m (i # ids) (idm, nums) =
     (let nums' = (case idType A m i of None \<Rightarrow> nums | Some t \<Rightarrow> bumpType t nums);
          ls = idLabels A m i (wellKnown A) [];
          idm' = (if ls = [] then idm else mput i ls idm)
      in idLoop A m ids (idm', nums'))"

definition IDToLabelsMap :: "api \<Rightarrow> pod \<Rightarrow> gerr + idlabels gomap \<times> nat gomap" where
  "IDToLabelsMap A p =
     (case collectIds A (p_labels p) [] of
        Inl e \<Rightarrow> Inl e
      | Inr ids \<Rightarrow> Inr (idLoop A (p_labels p) ids ([], [])))"

definition IsLifecycleOnPod :: "api \<Rightarrow> string \<Rightarrow> pod option \<Rightarrow> gerr + bool" where
  "IsLifecycleOnPod A i po =
     (case po of
        None \<Rightarrow> Inr False
      | Some p \<Rightarrow> (case IDToLabelsMap A p of Inl e \<Rightarrow> Inl e | Inr (idm, _) \<Rightarrow> Inr (mhas idm i)))"

definition NumOfLifecycleOnPod :: "api \<Rightarrow> pod option \<Rightarrow> gerr + nat" where
  "NumOfLifecycleOnPod A po =
     (case po of
        None \<Rightarrow> Inr 0
      | Some p \<Rightarrow> (case IDToLabelsMap A p of Inl e \<Rightarrow> Inl e | Inr (idm, _) \<Rightarrow> Inr (length idm)))"

subsection \<open>What the loops compute\<close>

definition keyId :: "string \<Rightarrow> string option" where
  "keyId k = (case splitOn (CHR ''/'') k of s0 # s1 # ss \<Rightarrow> Some s1 | _ \<Rightarrow> None)"

definition lcIds :: "api \<Rightarrow> string gomap \<Rightarrow> string set" where
  "lcIds A m = {i. \<exists>k \<in> fst ` set m. isLifecycleKey A k \<and> keyId k = Some i}"

lemma collectIds_cases:
  "collectIds A ((k, v) # m) ids =
     (if isLifecycleKey A k
      then (case keyId k of None \<Rightarrow> Inl (Err ''invalid label'') | Some i \<Rightarrow> collectIds A m (sinsert i ids))
      else collectIds A m ids)"
  by (auto simp: keyId_def split: list.splits)

lemma collectIds_Inl:
  "(\<exists>e. collectIds A m ids = Inl e) \<longleftrightarrow> (\<exists>k \<in> fst ` set m. isLifecycleKey A k \<and> keyId k = None)"
proof (induction m arbitrary: ids)
  case (Cons kv m)
  obtain k v where kv: "kv = (k, v)" by (cases kv)
  show ?case
    using Cons.IH by (auto simp: kv collectIds_cases simp del: collectIds.simps split: option.splits)
qed simp

lemma collectIds_Inr:
  "collectIds A m ids = Inr ids' \<Longrightarrow> set ids' = set ids \<union> lcIds A m \<and> (distinct ids \<longrightarrow> distinct ids')"
proof (induction m arbitrary: ids)
  case (Cons kv m)
  obtain k v where kv: "kv = (k, v)" by (cases kv)
  have lc: "lcIds A (kv # m) =
      (if isLifecycleKey A k then (case keyId k of None \<Rightarrow> {} | Some i \<Rightarrow> {i}) else {}) \<union> lcIds A m"
    by (auto simp: lcIds_def kv split: option.splits)
  show ?case
    using Cons by (auto simp: kv lc [unfolded kv] collectIds_cases simp del: collectIds.simps
        split: option.splits if_splits)
qed (simp add: lcIds_def)

lemma map_of_idLabels:
  "map_of (idLabels A m i qs ls) q =
     (if q \<in> set qs \<and> mhas m (key A q i) then mget m (key A q i) else map_of ls q)"
  by (induction A m i qs ls rule: idLabels.induct)
    (auto simp: mhas_def update_conv' split: option.splits)

lemma idLabels_empty:
  "idLabels A m i qs [] = [] \<longleftrightarrow> (\<forall>q \<in> set qs. \<not> mhas m (key A q i))"
proof
  assume "idLabels A m i qs [] = []"
  then have none: "map_of (idLabels A m i qs []) q = None" for q by simp
  show "\<forall>q \<in> set qs. \<not> mhas m (key A q i)"
  proof
    fix q assume "q \<in> set qs"
    with none [of q] show "\<not> mhas m (key A q i)"
      by (cases "mhas m (key A q i)") (simp_all add: map_of_idLabels mhas_def)
  qed
next
  assume none: "\<forall>q \<in> set qs. \<not> mhas m (key A q i)"
  then have "map_of (idLabels A m i qs []) = Map.empty"
    by (auto simp: fun_eq_iff map_of_idLabels)
  then show "idLabels A m i qs [] = []" by simp
qed

lemma idLoop_idm:
  "mget (fst (idLoop A m ids (idm, nums))) i =
     (if i \<in> set ids \<and> (\<exists>q \<in> set (wellKnown A). mhas m (key A q i))
      then Some (idLabels A m i (wellKnown A) []) else mget idm i)"
proof (induction ids arbitrary: idm nums)
  case (Cons j ids)
  show ?case
    using idLabels_empty [of A m j "wellKnown A"]
    by (auto simp: Let_def Cons.IH)
qed simp

lemma idLoop_wf: "mwf idm \<Longrightarrow> mwf (fst (idLoop A m ids (idm, nums)))"
  by (induction ids arbitrary: idm nums) (auto simp: Let_def)

definition countType :: "api \<Rightarrow> string gomap \<Rightarrow> string list \<Rightarrow> string \<Rightarrow> nat" where
  "countType A m ids t = length (filter (\<lambda>i. idType A m i = Some t) ids)"

definition cnt :: "nat gomap \<Rightarrow> string \<Rightarrow> nat" where
  "cnt m t = (case mget m t of None \<Rightarrow> 0 | Some n \<Rightarrow> n)"

lemma cnt_bumpType: "cnt (bumpType t m) u = cnt m u + (if u = t then 1 else 0)"
  by (auto simp: cnt_def bumpType_def split: option.splits)

lemma idLoop_nums: "cnt (snd (idLoop A m ids (idm, nums))) t = cnt nums t + countType A m ids t"
proof (induction ids arbitrary: idm nums)
  case (Cons j ids)
  then show ?case
    by (auto simp: Let_def countType_def cnt_bumpType split: option.splits)
qed (simp add: countType_def)

subsection \<open>The specification of \<open>IDToLabelsMap\<close>\<close>

definition lcOf :: "api \<Rightarrow> string gomap \<Rightarrow> string \<Rightarrow> bool" where
  "lcOf A m i \<longleftrightarrow> i \<in> lcIds A m \<and> (\<exists>q \<in> set (wellKnown A). mhas m (key A q i))"

lemma IDToLabelsMap_Inl_iff:
  "(\<exists>e. IDToLabelsMap A p = Inl e) \<longleftrightarrow>
     (\<exists>k \<in> fst ` set (p_labels p). isLifecycleKey A k \<and> keyId k = None)"
  using collectIds_Inl [of A "p_labels p" "[]"]
  by (auto simp: IDToLabelsMap_def split: sum.splits)

lemma IDToLabelsMap_InrE:
  assumes "IDToLabelsMap A p = Inr (idm, nums)"
  obtains ids where "distinct ids" "set ids = lcIds A (p_labels p)" "mwf idm"
    "\<And>i. mget idm i = (if lcOf A (p_labels p) i
        then Some (idLabels A (p_labels p) i (wellKnown A) []) else None)"
    "\<And>t. cnt nums t = countType A (p_labels p) ids t"
proof -
  from assms obtain ids where ids: "collectIds A (p_labels p) [] = Inr ids"
    and loop: "idLoop A (p_labels p) ids ([], []) = (idm, nums)"
    by (auto simp: IDToLabelsMap_def split: sum.splits)
  from collectIds_Inr [OF ids] have d: "distinct ids" and s: "set ids = lcIds A (p_labels p)" by auto
  show thesis
  proof (rule that [OF d s])
    show "mwf idm"
      using idLoop_wf [of "[]" A "p_labels p" ids "[]"] loop by simp
    show "mget idm i = (if lcOf A (p_labels p) i
        then Some (idLabels A (p_labels p) i (wellKnown A) []) else None)" for i
      using idLoop_idm [of A "p_labels p" ids "[]" "[]" i] loop s by (simp add: lcOf_def)
    show "cnt nums t = countType A (p_labels p) ids t" for t
      using idLoop_nums [of A "p_labels p" ids "[]" "[]" t] loop by (simp add: cnt_def)
  qed
qed

lemma IDToLabelsMap_lookup:
  assumes "IDToLabelsMap A p = Inr (idm, nums)" and "mget idm i = Some ls"
  shows "map_of ls q = (if q \<in> set (wellKnown A) then mget (p_labels p) (key A q i) else None)"
    and "lcOf A (p_labels p) i"
proof -
  from assms have "lcOf A (p_labels p) i" "ls = idLabels A (p_labels p) i (wellKnown A) []"
    by (auto elim!: IDToLabelsMap_InrE split: if_splits)
  then show "lcOf A (p_labels p) i"
    "map_of ls q = (if q \<in> set (wellKnown A) then mget (p_labels p) (key A q i) else None)"
    by (auto simp: map_of_idLabels mhas_def)
qed

lemma IDToLabelsMap_lhas:
  assumes "IDToLabelsMap A p = Inr (idm, nums)" and "mget idm i = Some ls" and "q \<in> set (wellKnown A)"
  shows "lhas ls q \<longleftrightarrow> mhas (p_labels p) (key A q i)"
  using IDToLabelsMap_lookup(1) [OF assms(1,2)] assms(3) by (simp add: lhas_def mhas_def)

lemma isLifecycleKey_key:
  "api_ok A \<Longrightarrow> isLifecycleKey A (key A q i) \<longleftrightarrow> q \<in> {POperating, POperate, POperated}"
  by (auto simp: isLifecycleKey_def key_prefix_iff)

lemma keyId_key: "api_ok A \<Longrightarrow> CHR ''/'' \<notin> set i \<Longrightarrow> keyId (key A q i) = Some i"
  by (simp add: keyId_def key_split splitOn_nosep)

lemma lcOf_operating:
  assumes "api_ok A" "CHR ''/'' \<notin> set i" "mhas m (key A q i)" "q \<in> {POperating, POperate, POperated}"
  shows "lcOf A m i"
proof -
  from assms have "i \<in> lcIds A m"
    unfolding lcIds_def by (auto simp: mhas_iff isLifecycleKey_key keyId_key intro!: bexI)
  moreover from assms have "q \<in> set (wellKnown A)" by (auto simp: api_wellKnown)
  ultimately show ?thesis using assms(3) by (auto simp: lcOf_def)
qed

end
