(* ===== verification/LifecycleOps.thy ===== *)
theory LifecycleOps
  imports LifecycleIds
begin

text \<open>
  \<^verbatim>\<open>pkg/controllers/utils/podopslifecycle\<close>: how an operator begins, checks, finishes and
  undoes a lifecycle on a pod, and the adapters of the repository's controllers
  (\<^verbatim>\<open>collaset/lifecycle_adapter.go\<close>, \<^verbatim>\<open>poddeletion/lifecycle_adapter.go\<close>,
  \<^verbatim>\<open>operationjob/opscore/lifecycle.go\<close>).

  The Go interface \<open>LifecycleAdapter\<close> is the record \<open>adapter\<close>; its contract is the locale
  \<open>lifecycle_adapter\<close>, which every adapter of the code interprets.  An operation that
  ends in a write to the server is split into the object it computes (\<open>beginObj\<close>, \<open>finishObj\<close>)
  and \<open>submit\<close>.  The time stamps written into labels are an argument.
\<close>

record adapter =
  GetID :: string
  GetType :: string
  AllowMultiType :: bool
  WhenBegin :: "pod \<Rightarrow> gerr + bool \<times> pod"
  WhenFinish :: "pod \<Rightarrow> gerr + bool \<times> pod"

type_synonym updateFunc = "pod \<Rightarrow> gerr + bool \<times> pod"

definition setLabel :: "string \<Rightarrow> string \<Rightarrow> pod \<Rightarrow> pod" where
  "setLabel k v p = p\<lparr>p_labels := mput k v (p_labels p)\<rparr>"

definition delLabel :: "string \<Rightarrow> pod \<Rightarrow> pod" where
  "delLabel k p = p\<lparr>p_labels := mdel k (p_labels p)\<rparr>"

lemma labels_setLabel [simp]: "p_labels (setLabel k v p) = mput k v (p_labels p)"
  by (simp add: setLabel_def)

lemma labels_delLabel [simp]: "p_labels (delLabel k p) = mdel k (p_labels p)"
  by (simp add: delLabel_def)

subsection \<open>Reading and writing the labels of one lifecycle\<close>

definition checkOperatingID :: "api \<Rightarrow> adapter \<Rightarrow> pod \<Rightarrow> string \<times> bool" where
  "checkOperatingID A ad p = (GetID ad, mhas (p_labels p) (key A POperating (GetID ad)))"

definition checkOperationType :: "api \<Rightarrow> adapter \<Rightarrow> pod \<Rightarrow> string \<times> bool" where
  "checkOperationType A ad p =
     (let v = mgetd (p_labels p) (key A POperationType (GetID ad)) in (v, v = GetType ad))"

definition checkOperate :: "api \<Rightarrow> adapter \<Rightarrow> pod \<Rightarrow> string option" where
  "checkOperate A ad p = mget (p_labels p) (key A POperate (GetID ad))"

definition setOperatingID :: "api \<Rightarrow> string \<Rightarrow> adapter \<Rightarrow> pod \<Rightarrow> pod" where
  "setOperatingID A now ad p = setLabel (key A POperating (GetID ad)) now p"

definition setOperationType :: "api \<Rightarrow> adapter \<Rightarrow> pod \<Rightarrow> pod" where
  "setOperationType A ad p = setLabel (key A POperationType (GetID ad)) (GetType ad) p"

definition setUndo :: "api \<Rightarrow> adapter \<Rightarrow> pod \<Rightarrow> pod" where
  "setUndo A ad p = setLabel (key A PUndoOperationType (GetID ad)) (GetType ad) p"

definition deleteOperatingID :: "api \<Rightarrow> adapter \<Rightarrow> pod \<Rightarrow> pod" where
  "deleteOperatingID A ad p = delLabel (key A POperating (GetID ad)) p"

definition queryByOperationType :: "api \<Rightarrow> adapter \<Rightarrow> pod \<Rightarrow> sset" where
  "queryByOperationType A ad p =
     map fst (filter (\<lambda>(k, v). hasPrefix k (pstr A POperationType) \<and> v = GetType ad) (p_labels p))"

fun DefaultUpdateAll :: "pod \<Rightarrow> updateFunc list \<Rightarrow> bool \<Rightarrow> gerr + bool \<times> pod" where
  "DefaultUpdateAll p [] updated = Inr (updated, p)"
| "DefaultUpdateAll p (f # fs) updated =
     (case f p of Inl e \<Rightarrow> Inl e | Inr (ok, p') \<Rightarrow> DefaultUpdateAll p' fs (updated \<or> ok))"

subsection \<open>The operations\<close>

definition IsDuringOps :: "api \<Rightarrow> adapter \<Rightarrow> pod \<Rightarrow> bool" where
  "IsDuringOps A ad p \<longleftrightarrow> snd (checkOperatingID A ad p) \<and> snd (checkOperationType A ad p)"

definition submit :: "'w client \<Rightarrow> bool \<Rightarrow> pod \<Rightarrow> 'w \<Rightarrow> (gerr + bool \<times> pod) \<times> 'w" where
  "submit C need p w =
     (if need
      then (case cl_update C p w of
              (Inl e, w') \<Rightarrow> (Inl e, w')
            | (Inr p', w') \<Rightarrow> (Inr (True, p'), w'))
      else (Inr (False, p), w))"

definition beginObj :: "api \<Rightarrow> string \<Rightarrow> adapter \<Rightarrow> updateFunc list \<Rightarrow> pod \<Rightarrow> gerr + bool \<times> pod" where
  "beginObj A now ad fs p =
     (let (operatingID, hasID) = checkOperatingID A ad p;
          (operationType, hasType) = checkOperationType A ad p;
          prep = (if hasID \<and> hasType
                  then (if operationType \<noteq> GetType ad
                        then Inl (Err ''operatingID already has operationType'') else Inr (False, p))
                  else if queryByOperationType A ad p \<noteq> [] \<and> \<not> AllowMultiType ad
                       then Inl (Err ''operationType exists'')
                       else (let p1 = (if hasID then p else setOperatingID A now ad p);
                                 p2 = (if hasType then p1 else setOperationType A ad p1)
                             in Inr (True, p2)))
      in case prep of
           Inl e \<Rightarrow> Inl e
         | Inr (needUpdate, p') \<Rightarrow>
             (case DefaultUpdateAll p' (fs @ [WhenBegin ad]) False of
                Inl e \<Rightarrow> Inl e
              | Inr (updated, p'') \<Rightarrow> Inr (needUpdate \<or> updated, p'')))"

definition Begin :: "api \<Rightarrow> string \<Rightarrow> 'w client \<Rightarrow> adapter \<Rightarrow> updateFunc list \<Rightarrow> pod \<Rightarrow> 'w
    \<Rightarrow> (gerr + bool \<times> pod) \<times> 'w" where
  "Begin A now C ad fs p w =
     (case beginObj A now ad fs p of Inl e \<Rightarrow> (Inl e, w) | Inr (need, p') \<Rightarrow> submit C need p' w)"

definition Undo :: "api \<Rightarrow> 'w client \<Rightarrow> adapter \<Rightarrow> pod \<Rightarrow> 'w \<Rightarrow> (gerr + pod) \<times> 'w" where
  "Undo A C ad p w = cl_update C (setUndo A ad p) w"

definition BeginWithCleaningOld :: "api \<Rightarrow> string \<Rightarrow> 'w client \<Rightarrow> adapter \<Rightarrow> updateFunc list
    \<Rightarrow> pod \<Rightarrow> 'w \<Rightarrow> (gerr + bool \<times> pod) \<times> 'w" where
  "BeginWithCleaningOld A now C ad fs p w =
     (case IsLifecycleOnPod A (GetID ad) (Some p) of
        Inl e \<Rightarrow> (Inl e, w)
      | Inr False \<Rightarrow> Begin A now C ad fs p w
      | Inr True \<Rightarrow>
          (case Undo A C ad p w of
             (Inl e, w') \<Rightarrow> (Inl e, w')
           | (Inr p', w') \<Rightarrow> Begin A now C ad fs p' w'))"

definition AllowOps :: "api \<Rightarrow> int \<Rightarrow> adapter \<Rightarrow> int \<Rightarrow> pod \<Rightarrow> int option \<times> bool" where
  "AllowOps A nowNano ad operationDelaySeconds p =
     (if \<not> IsDuringOps A ad p then (None, False)
      else (case checkOperate A ad p of
              None \<Rightarrow> (None, False)
            | Some s \<Rightarrow>
                if operationDelaySeconds \<le> 0 then (None, True)
                else (case parseInt64 s of
                        None \<Rightarrow> (None, True)
                      | Some started \<Rightarrow>
                          let duration = nowNano - started;
                              delay = operationDelaySeconds * 1000000000
                          in if duration < delay then (Some (delay - duration), True)
                             else (None, True))))"

definition finishObj :: "api \<Rightarrow> adapter \<Rightarrow> updateFunc list \<Rightarrow> pod \<Rightarrow> gerr + bool \<times> pod" where
  "finishObj A ad fs p =
     (let (operatingID, hasID) = checkOperatingID A ad p;
          (operationType, hasType) = checkOperationType A ad p
      in if hasType \<and> operationType \<noteq> GetType ad
         then Inl (Err ''operatingID has invalid operationType'')
         else (let needUpdate = (hasID \<or> hasType);
                   p' = (if needUpdate then deleteOperatingID A ad p else p)
               in case DefaultUpdateAll p' (fs @ [WhenFinish ad]) False of
                    Inl e \<Rightarrow> Inl e
                  | Inr (updated, p'') \<Rightarrow> Inr (needUpdate \<or> updated, p'')))"

definition Finish :: "api \<Rightarrow> 'w client \<Rightarrow> adapter \<Rightarrow> updateFunc list \<Rightarrow> pod \<Rightarrow> 'w
    \<Rightarrow> (gerr + bool \<times> pod) \<times> 'w" where
  "Finish A C ad fs p w =
     (case finishObj A ad fs p of Inl e \<Rightarrow> (Inl e, w) | Inr (need, p') \<Rightarrow> submit C need p' w)"

subsection \<open>Facts about any adapter\<close>

lemmas lc_defs = checkOperatingID_def checkOperationType_def checkOperate_def setOperatingID_def
  setOperationType_def setUndo_def deleteOperatingID_def

lemma AllowOps_snd:
  "snd (AllowOps A t ad d p) \<longleftrightarrow> IsDuringOps A ad p \<and> mhas (p_labels p) (key A POperate (GetID ad))"
  by (auto simp: AllowOps_def lc_defs mhas_def Let_def split: option.splits)

lemma checkOperationType_consistent: "checkOperationType A ad p = (v, True) \<Longrightarrow> v = GetType ad"
  by (auto simp: checkOperationType_def Let_def)

lemma DefaultUpdateAll_single:
  "DefaultUpdateAll p [f] False = (case f p of Inl e \<Rightarrow> Inl e | Inr (ok, p') \<Rightarrow> Inr (ok, p'))"
  by (auto split: sum.splits)

text \<open>The contract of the interface \<open>LifecycleAdapter\<close>, and what an operator may rely on.\<close>

locale lifecycle_adapter =
  fixes ad :: "api \<Rightarrow> string \<Rightarrow> adapter"
  assumes hooks_succeed: "\<exists>r. WhenBegin (ad A now) p = Inr r" "\<exists>r. WhenFinish (ad A now) p = Inr r"
    and whenBegin_frame: "api_ok A \<Longrightarrow> WhenBegin (ad A now) p = Inr (b, p') \<Longrightarrow>
      mget (p_labels p') (key A q i) = mget (p_labels p) (key A q i)"
    and whenFinish_frame: "api_ok A \<Longrightarrow> WhenFinish (ad A now) p = Inr (b, p') \<Longrightarrow>
      mget (p_labels p') (key A q i) = mget (p_labels p) (key A q i)"
    and whenBegin_again: "WhenBegin (ad A now) p = Inr (b, p') \<Longrightarrow> WhenBegin (ad A now) p' = Inr (False, p')"
begin

lemma beginObj_cases:
  assumes "beginObj A now (ad A now) [] p = Inr (need, p')"
  obtains p1 b where "WhenBegin (ad A now) p1 = Inr (b, p')"
    "IsDuringOps A (ad A now) p \<Longrightarrow> p1 = p \<and> need = b"
    "\<not> IsDuringOps A (ad A now) p \<Longrightarrow> need"
    "api_ok A \<Longrightarrow> IsDuringOps A (ad A now) p1"
    "\<And>q i. api_ok A \<Longrightarrow> (q, i) \<notin> {(POperating, GetID (ad A now)), (POperationType, GetID (ad A now))} \<Longrightarrow>
       mget (p_labels p1) (key A q i) = mget (p_labels p) (key A q i)"
proof -
  let ?ad = "ad A now"
  let ?h = "snd (checkOperatingID A ?ad p)" and ?t = "snd (checkOperationType A ?ad p)"
  define p1 where "p1 = (if ?h \<and> ?t then p else
     (let q1 = (if ?h then p else setOperatingID A now ?ad p) in if ?t then q1 else setOperationType A ?ad q1))"
  have r: "(case WhenBegin ?ad p1 of Inl e \<Rightarrow> Inl e | Inr (u, p'') \<Rightarrow> Inr (\<not> (?h \<and> ?t) \<or> u, p'')) = Inr (need, p')"
    using assms checkOperationType_consistent [of A ?ad p]
    by (cases "checkOperatingID A ?ad p"; cases "checkOperationType A ?ad p")
      (auto simp: beginObj_def p1_def Let_def DefaultUpdateAll_single split: if_splits sum.splits)
  then obtain b where b: "WhenBegin ?ad p1 = Inr (b, p')" and need: "need \<longleftrightarrow> \<not> (?h \<and> ?t) \<or> b"
    by (auto split: sum.splits)
  show thesis
  proof (rule that [OF b])
    show "IsDuringOps A ?ad p \<Longrightarrow> p1 = p \<and> need = b"
      using need by (simp add: p1_def IsDuringOps_def)
    show "\<not> IsDuringOps A ?ad p \<Longrightarrow> need"
      using need by (simp add: IsDuringOps_def)
    show "IsDuringOps A ?ad p1" if "api_ok A"
      using that by (auto simp: p1_def Let_def IsDuringOps_def lc_defs mgetd_def label_simps)
    show "mget (p_labels p1) (key A q i) = mget (p_labels p) (key A q i)"
      if "api_ok A" "(q, i) \<notin> {(POperating, GetID ?ad), (POperationType, GetID ?ad)}" for q i
      using that by (auto simp: p1_def Let_def lc_defs label_simps)
  qed
qed

lemma during_frame:
  assumes "\<And>q. mget (p_labels p') (key A q (GetID a)) = mget (p_labels p) (key A q (GetID a))"
  shows "IsDuringOps A a p' \<longleftrightarrow> IsDuringOps A a p"
  using assms by (simp add: IsDuringOps_def lc_defs mhas_def mgetd_def Let_def)

lemma begin_during:
  assumes "api_ok A" and "beginObj A now (ad A now) [] p = Inr (need, p')"
  shows "IsDuringOps A (ad A now) p'"
  using assms by (elim beginObj_cases) (metis during_frame whenBegin_frame)

lemma begin_keeps_others:
  assumes "api_ok A" and "beginObj A now (ad A now) [] p = Inr (need, p')"
    and "(q, i) \<notin> {(POperating, GetID (ad A now)), (POperationType, GetID (ad A now))}"
  shows "mget (p_labels p') (key A q i) = mget (p_labels p) (key A q i)"
  using assms by (elim beginObj_cases) (metis whenBegin_frame)

lemma begin_again:
  assumes "api_ok A" and "beginObj A now (ad A now) [] p = Inr (need, p')"
  shows "beginObj A now (ad A now) [] p' = Inr (False, p')"
proof -
  from assms(2) obtain p1 b where "WhenBegin (ad A now) p1 = Inr (b, p')" by (elim beginObj_cases)
  then have again: "WhenBegin (ad A now) p' = Inr (False, p')" by (rule whenBegin_again)
  have "IsDuringOps A (ad A now) p'" using assms by (rule begin_during)
  then show ?thesis
    using again checkOperationType_consistent [of A "ad A now" p']
    by (cases "checkOperatingID A (ad A now) p'"; cases "checkOperationType A (ad A now) p'")
      (auto simp: beginObj_def IsDuringOps_def Let_def DefaultUpdateAll_single)
qed

lemma begin_total:
  assumes "AllowMultiType (ad A now)"
  shows "\<exists>need p'. beginObj A now (ad A now) [] p = Inr (need, p')"
proof -
  obtain f where f: "\<And>p. WhenBegin (ad A now) p = Inr (f p)" using hooks_succeed(1) by metis
  show ?thesis
    using assms checkOperationType_consistent [of A "ad A now" p]
    by (cases "checkOperatingID A (ad A now) p"; cases "checkOperationType A (ad A now) p")
      (auto simp: beginObj_def Let_def DefaultUpdateAll_single f split: prod.splits)
qed

lemma finish_effect:
  assumes "api_ok A" and "finishObj A (ad A now) [] p = Inr (need, p')"
  shows "\<not> IsDuringOps A (ad A now) p'"
    and "need \<or> p_labels p' = p_labels p \<or> \<not> IsDuringOps A (ad A now) p"
    and "(q, i) \<noteq> (POperating, GetID (ad A now)) \<Longrightarrow>
       mget (p_labels p') (key A q i) = mget (p_labels p) (key A q i)"
proof -
  let ?ad = "ad A now"
  let ?n = "snd (checkOperatingID A ?ad p) \<or> snd (checkOperationType A ?ad p)"
  let ?p1 = "if ?n then deleteOperatingID A ?ad p else p"
  have "(case WhenFinish ?ad ?p1 of Inl e \<Rightarrow> Inl e | Inr (u, p'') \<Rightarrow> Inr (?n \<or> u, p'')) = Inr (need, p')"
    using assms(2)
    by (cases "checkOperatingID A ?ad p"; cases "checkOperationType A ?ad p")
      (auto simp: finishObj_def Let_def DefaultUpdateAll_single split: if_splits sum.splits)
  then obtain b where b: "WhenFinish ?ad ?p1 = Inr (b, p')" and need: "need \<longleftrightarrow> ?n \<or> b"
    by (auto split: sum.splits)
  have frame: "mget (p_labels p') (key A q i) = mget (p_labels ?p1) (key A q i)" for q i
    using whenFinish_frame [OF assms(1) b] .
  show "mget (p_labels p') (key A q i) = mget (p_labels p) (key A q i)"
    if "(q, i) \<noteq> (POperating, GetID ?ad)"
    using frame [of q i] that assms(1) by (auto simp: lc_defs label_simps)
  have "\<not> IsDuringOps A ?ad ?p1"
    using assms(1) by (auto simp: IsDuringOps_def lc_defs label_simps)
  moreover have "IsDuringOps A ?ad p' \<longleftrightarrow> IsDuringOps A ?ad ?p1"
    by (rule during_frame) (rule frame)
  ultimately show "\<not> IsDuringOps A ?ad p'" by blast
  show "need \<or> p_labels p' = p_labels p \<or> \<not> IsDuringOps A ?ad p"
    using need by (auto simp: IsDuringOps_def)
qed

end

subsection \<open>The adapters of the controllers\<close>

definition WhenBeginDelete :: "api \<Rightarrow> string \<Rightarrow> updateFunc" where
  "WhenBeginDelete A now p = Inr (AddLabel p (prepDeleteL A) now)"

definition PodDeleteOpsLifecycleAdapter :: "api \<Rightarrow> string \<Rightarrow> adapter" where
  "PodDeleteOpsLifecycleAdapter A now =
     \<lparr>GetID = ''pod-delete'', GetType = ''delete'', AllowMultiType = True,
      WhenBegin = WhenBeginDelete A now, WhenFinish = (\<lambda>p. Inr (False, p))\<rparr>"

definition updateWhenFinish :: "api \<Rightarrow> updateFunc" where
  "updateWhenFinish A p =
     (let hasL = mhas (p_labels p) (clsUpdateL A);
          p1 = (if hasL then delLabel (clsUpdateL A) p else p);
          hasA = mhas (p_annos p1) (lastStatusAnno A);
          p2 = (if hasA then p1\<lparr>p_annos := mdel (lastStatusAnno A) (p_annos p1)\<rparr> else p1)
      in Inr (hasL \<or> hasA, p2))"

definition CollaSetUpdateOpsLifecycleAdapter :: "api \<Rightarrow> string \<Rightarrow> adapter" where
  "CollaSetUpdateOpsLifecycleAdapter A now =
     \<lparr>GetID = ''collaset'', GetType = ''update'', AllowMultiType = True,
      WhenBegin = (\<lambda>p. Inr (False, p)), WhenFinish = updateWhenFinish A\<rparr>"

definition CollaSetScaleInOpsLifecycleAdapter :: "api \<Rightarrow> string \<Rightarrow> adapter" where
  "CollaSetScaleInOpsLifecycleAdapter A now =
     \<lparr>GetID = ''collaset'', GetType = ''scale-in'', AllowMultiType = True,
      WhenBegin = WhenBeginDelete A now, WhenFinish = (\<lambda>p. Inr (False, p))\<rparr>"

definition GenericLifecycleAdapter :: "string \<Rightarrow> string \<Rightarrow> adapter" where
  "GenericLifecycleAdapter i t =
     \<lparr>GetID = i, GetType = t, AllowMultiType = True,
      WhenBegin = (\<lambda>p. Inr (False, p)), WhenFinish = (\<lambda>p. Inr (False, p))\<rparr>"

lemma WhenBeginDelete_frame:
  "api_ok A \<Longrightarrow> WhenBeginDelete A now p = Inr (b, p') \<Longrightarrow>
     mget (p_labels p') (key A q i) = mget (p_labels p) (key A q i)"
  by (auto simp: WhenBeginDelete_def AddLabel_def label_simps split: if_splits)

lemma WhenBeginDelete_again:
  "WhenBeginDelete A now p = Inr (b, p') \<Longrightarrow> WhenBeginDelete A now p' = Inr (False, p')"
  by (auto simp: WhenBeginDelete_def AddLabel_def split: if_splits)

lemma updateWhenFinish_frame:
  "api_ok A \<Longrightarrow> updateWhenFinish A p = Inr (b, p') \<Longrightarrow>
     mget (p_labels p') (key A q i) = mget (p_labels p) (key A q i)"
  by (auto simp: updateWhenFinish_def Let_def label_simps split: if_splits)

interpretation pod_delete: lifecycle_adapter PodDeleteOpsLifecycleAdapter
  by unfold_locales (auto simp: PodDeleteOpsLifecycleAdapter_def WhenBeginDelete_frame WhenBeginDelete_again,
    simp add: WhenBeginDelete_def)

interpretation collaset_update: lifecycle_adapter CollaSetUpdateOpsLifecycleAdapter
  by unfold_locales (auto simp: CollaSetUpdateOpsLifecycleAdapter_def updateWhenFinish_frame,
    simp add: updateWhenFinish_def Let_def)

interpretation collaset_scalein: lifecycle_adapter CollaSetScaleInOpsLifecycleAdapter
  by unfold_locales (auto simp: CollaSetScaleInOpsLifecycleAdapter_def WhenBeginDelete_frame WhenBeginDelete_again,
    simp add: WhenBeginDelete_def)

interpretation operationjob: lifecycle_adapter "\<lambda>A now. GenericLifecycleAdapter i t"
  by unfold_locales (auto simp: GenericLifecycleAdapter_def)

end
