(* ===== verification/Expectations.thy ===== *)
theory Expectations
  imports Kube "HOL-Library.Word"
begin

text \<open>
  \<^verbatim>\<open>pkg/controllers/utils/expectations\<close>: what a controller still has to see in its
  cache before it may act again.  (\<^verbatim>\<open>pkg/utils/expectation\<close> is a copy of the first two.)

  \<open>ControllerExpectations\<close> counts creations and deletions (two \<open>int64\<close> counters that wrap around),
  \<open>ResourceVersionExpectation\<close> remembers a resource version, and \<open>ActiveExpectations\<close> names
  objects that must have been created, deleted or updated.  The store of client-go is a map
  by key, and the clock (in nanoseconds) is an argument.  An expectation that
  stays unmet for ten minutes makes the check panic.

  The locale \<open>expectation\<close> is the contract the controllers rely on; the first two types interpret
  it.  \<open>cumulative_expectation\<close> adds that a later record never cancels an earlier one, which
  holds of resource versions only.  The check of active expectations also changes their
  store; \<open>active_check\<close> says how.
\<close>

definition ExpectationsTimeout :: int where
  "ExpectationsTimeout = 600000000000"

subsection \<open>The contract\<close>

locale expectation =
  fixes satisfied :: "'s \<Rightarrow> string \<Rightarrow> 'o \<Rightarrow> gerr + bool"
    and register :: "string \<Rightarrow> 'r \<Rightarrow> 's \<Rightarrow> 's"
    and forget :: "string \<Rightarrow> 's \<Rightarrow> 's"
    and meets :: "'r \<Rightarrow> 'o \<Rightarrow> bool"
  assumes pending: "satisfied (register k r s) k ob = Inr True \<Longrightarrow> meets r ob"
    and forgotten: "satisfied (forget k s) k ob = Inr True"
    and register_frame: "k' \<noteq> k \<Longrightarrow> satisfied (register k r s) k' ob = satisfied s k' ob"
    and forget_frame: "k' \<noteq> k \<Longrightarrow> satisfied (forget k s) k' ob = satisfied s k' ob"
begin

lemma fold_frame:
  "k \<notin> fst ` set krs \<Longrightarrow> satisfied (fold (\<lambda>(k, r). register k r) krs s) k ob = satisfied s k ob"
  by (induction krs arbitrary: s) (auto simp: register_frame)

lemma last_register_pending:
  assumes "k \<notin> fst ` set later"
    and "satisfied (fold (\<lambda>(k, r). register k r) later (register k r s)) k ob = Inr True"
  shows "meets r ob"
  using assms pending by (simp add: fold_frame)

end

locale cumulative_expectation = expectation +
  assumes keeps: "satisfied (register k r s) k ob = Inr True \<Longrightarrow> satisfied s k ob = Inr True"
begin

lemma fold_keeps:
  "satisfied (fold (\<lambda>(k, r). register k r) krs s) k ob = Inr True \<Longrightarrow> satisfied s k ob = Inr True"
proof (induction krs arbitrary: s)
  case (Cons kr krs)
  obtain k' r where kr: "kr = (k', r)" by (cases kr)
  from Cons have "satisfied (register k' r s) k ob = Inr True" by (simp add: kr)
  then show ?case by (cases "k' = k") (auto dest: keeps simp: register_frame)
qed simp

lemma all_pending:
  "(k, r) \<in> set krs \<Longrightarrow> satisfied (fold (\<lambda>(k, r). register k r) krs s) k ob = Inr True \<Longrightarrow> meets r ob"
proof (induction krs arbitrary: s)
  case (Cons kr krs)
  show ?case
  proof (cases "kr = (k, r)")
    case True
    with Cons(3) have "satisfied (register k r s) k ob = Inr True"
      by (auto dest: fold_keeps)
    then show ?thesis by (rule pending)
  qed (use Cons in \<open>auto split: prod.splits\<close>)
qed simp

end

subsection \<open>Counting expectations\<close>

record cexp =
  ce_add :: "64 word"
  ce_del :: "64 word"
  ce_time :: int

type_synonym cstore = "cexp gomap"

definition cAdd :: "64 word \<Rightarrow> 64 word \<Rightarrow> cexp \<Rightarrow> cexp" where
  "cAdd a d e = e\<lparr>ce_add := ce_add e + a, ce_del := ce_del e + d\<rparr>"

definition cFulfilled :: "cexp \<Rightarrow> bool" where
  "cFulfilled e \<longleftrightarrow> sint (ce_add e) \<le> 0 \<and> sint (ce_del e) \<le> 0"

definition cIsExpired :: "int \<Rightarrow> cexp \<Rightarrow> bool" where
  "cIsExpired now e \<longleftrightarrow> now - ce_time e > ExpectationsTimeout"

definition cDeleteExpectations :: "string \<Rightarrow> cstore \<Rightarrow> cstore" where
  "cDeleteExpectations k st = mdel k st"

definition cSatisfiedExpectations :: "string \<Rightarrow> int \<Rightarrow> cstore \<Rightarrow> gerr + bool" where
  "cSatisfiedExpectations k now st =
     (case mget st k of
        None \<Rightarrow> Inr True
      | Some e \<Rightarrow> if cFulfilled e then Inr True
                  else if cIsExpired now e then Inl (Panic ''expectation timeout'') else Inr False)"

definition cInitExpectations :: "string \<Rightarrow> int \<Rightarrow> cstore \<Rightarrow> cstore" where
  "cInitExpectations k now st =
     (if mhas st k then st else mput k \<lparr>ce_add = 0, ce_del = 0, ce_time = now\<rparr> st)"

definition cSetExpectations :: "string \<Rightarrow> int \<Rightarrow> int \<Rightarrow> int \<Rightarrow> cstore \<Rightarrow> cstore" where
  "cSetExpectations k add del now st =
     mput k \<lparr>ce_add = word_of_int add, ce_del = word_of_int del, ce_time = now\<rparr> st"

definition cExpectCreations :: "string \<Rightarrow> int \<Rightarrow> int \<Rightarrow> cstore \<Rightarrow> cstore" where
  "cExpectCreations k adds now st = cSetExpectations k adds 0 now st"

definition cExpectDeletions :: "string \<Rightarrow> int \<Rightarrow> int \<Rightarrow> cstore \<Rightarrow> cstore" where
  "cExpectDeletions k dels now st = cSetExpectations k 0 dels now st"

definition cLowerExpectations :: "string \<Rightarrow> int \<Rightarrow> int \<Rightarrow> cstore \<Rightarrow> cstore" where
  "cLowerExpectations k add del st =
     (case mget st k of
        None \<Rightarrow> st
      | Some e \<Rightarrow> mput k (cAdd (word_of_int (- add)) (word_of_int (- del)) e) st)"

definition cRaiseExpectations :: "string \<Rightarrow> int \<Rightarrow> int \<Rightarrow> cstore \<Rightarrow> cstore" where
  "cRaiseExpectations k add del st =
     (case mget st k of
        None \<Rightarrow> st | Some e \<Rightarrow> mput k (cAdd (word_of_int add) (word_of_int del) e) st)"

definition cCreationObserved :: "string \<Rightarrow> cstore \<Rightarrow> cstore" where
  "cCreationObserved k st = cLowerExpectations k 1 0 st"

definition cDeletionObserved :: "string \<Rightarrow> cstore \<Rightarrow> cstore" where
  "cDeletionObserved k st = cLowerExpectations k 0 1 st"

text \<open>The events a controller's watch delivers.\<close>

datatype cevent = Created string | Deleted string

fun cObserve :: "cevent list \<Rightarrow> cstore \<Rightarrow> cstore" where
  "cObserve [] st = st"
| "cObserve (Created k # es) st = cObserve es (cCreationObserved k st)"
| "cObserve (Deleted k # es) st = cObserve es (cDeletionObserved k st)"

lemma sint_small: "\<bar>i\<bar> < 2 ^ 63 \<Longrightarrow> sint (word_of_int i :: 64 word) = i"
  by (simp add: sint_sbintrunc' signed_take_bit_int_eq_self)

lemma cLower_get:
  "mget (cLowerExpectations k a d st) k' =
     (if k' = k then map_option (cAdd (word_of_int (- a)) (word_of_int (- d))) (mget st k) else mget st k')"
  by (auto simp: cLowerExpectations_def split: option.splits)

lemma cObserve_get:
  "mget (cObserve es st) k =
     map_option (\<lambda>e. cAdd (word_of_int (- int (count_list es (Created k))))
                          (word_of_int (- int (count_list es (Deleted k)))) e) (mget st k)"
proof (induction es st rule: cObserve.induct)
  case (1 st)
  then show ?case by (cases "mget st k") (simp_all add: cAdd_def)
next
  case (2 k' es st)
  then show ?case
    by (cases "mget st k") (auto simp: cCreationObserved_def cLower_get cAdd_def)
next
  case (3 k' es st)
  then show ?case
    by (cases "mget st k") (auto simp: cDeletionObserved_def cLower_get cAdd_def)
qed

lemma counter_value:
  assumes "0 \<le> a" "a < 2 ^ 62" "length es < 2 ^ 62"
  shows "sint (word_of_int a + word_of_int (- int (count_list es x)) :: 64 word) = a - int (count_list es x)"
proof -
  have "int (count_list es x) \<le> int (length es)"
    using count_le_length [of es x] by simp
  also have "int (length es) < 2 ^ 62"
    using assms(3) by simp
  finally have "\<bar>a - int (count_list es x)\<bar> < 2 ^ 63"
    using assms(1,2) by simp
  then have "sint (word_of_int (a - int (count_list es x)) :: 64 word) = a - int (count_list es x)"
    by (rule sint_small)
  then show ?thesis
    by (simp only: wi_hom_add add_uminus_conv_diff)
qed

interpretation counting: expectation "\<lambda>st k now. cSatisfiedExpectations k now st"
  "\<lambda>k (a, d, now) st. cSetExpectations k a d now st" cDeleteExpectations
  "\<lambda>(a, d, now) ob. sint (word_of_int a :: 64 word) \<le> 0 \<and> sint (word_of_int d :: 64 word) \<le> 0"
  by unfold_locales
    (auto simp: cSatisfiedExpectations_def cSetExpectations_def cDeleteExpectations_def cFulfilled_def
      split: if_splits)

text \<open>A controller that expects some creations and deletions is released exactly when
  at least so many creation and deletion events for its key have been observed, whatever other events
  come between; before that it is told to wait, or the check panics once ten minutes have
  passed.\<close>

theorem expectations_released_by_events:
  assumes "0 \<le> add" "add < 2 ^ 62" "0 \<le> del" "del < 2 ^ 62" and "length es < 2 ^ 62"
  shows "cSatisfiedExpectations k now (cObserve es (cSetExpectations k add del t st)) =
    (if add \<le> int (count_list es (Created k)) \<and> del \<le> int (count_list es (Deleted k)) then Inr True
     else if now - t > ExpectationsTimeout then Inl (Panic ''expectation timeout'') else Inr False)"
proof -
  let ?e = "cAdd (word_of_int (- int (count_list es (Created k)))) (word_of_int (- int (count_list es (Deleted k))))
      \<lparr>ce_add = word_of_int add, ce_del = word_of_int del, ce_time = t\<rparr>"
  have get: "mget (cObserve es (cSetExpectations k add del t st)) k = Some ?e"
    by (simp add: cObserve_get cSetExpectations_def)
  have "sint (ce_add ?e) = add - int (count_list es (Created k))"
    "sint (ce_del ?e) = del - int (count_list es (Deleted k))"
    by (simp_all only: cAdd_def cexp.simps counter_value [OF assms(1,2,5)] counter_value [OF assms(3,4,5)])
  then have f: "cFulfilled ?e \<longleftrightarrow>
      add \<le> int (count_list es (Created k)) \<and> del \<le> int (count_list es (Deleted k))"
    by (simp add: cFulfilled_def)
  have x: "cIsExpired now ?e \<longleftrightarrow> now - t > ExpectationsTimeout"
    by (simp add: cIsExpired_def cAdd_def)
  show ?thesis
    by (simp only: cSatisfiedExpectations_def get option.case f x)
qed

lemma expectations_released_by_events_witness:
  "cSatisfiedExpectations ''a'' 5 (cObserve [Created ''a'', Deleted ''b'', Created ''a''] (cSetExpectations ''a'' 2 0 0 []))
     = Inr True
   \<and> cSatisfiedExpectations ''a'' 5 (cObserve [Created ''a'', Created ''b''] (cSetExpectations ''a'' 2 0 0 [])) = Inr False"
  using expectations_released_by_events [of 2 0 "[Created ''a'', Deleted ''b'', Created ''a'']" "''a''" 5 0 "[]"]
    expectations_released_by_events [of 2 0 "[Created ''a'', Created ''b'']" "''a''" 5 0 "[]"]
  by (simp add: ExpectationsTimeout_def)

subsection \<open>Resource versions\<close>

record rvitem =
  rv_rv :: int
  rv_time :: int

type_synonym rvstore = "rvitem gomap"

definition rvParse :: "string \<Rightarrow> int option" where
  "rvParse s = (if s = [] then Some 0 else parseInt64 s)"

definition rvSet :: "string \<Rightarrow> int \<Rightarrow> rvitem \<Rightarrow> rvitem" where
  "rvSet resourceVersion now i =
     (case rvParse resourceVersion of
        None \<Rightarrow> i
      | Some rv \<Rightarrow> if rv_rv i < rv then i\<lparr>rv_rv := rv, rv_time := now\<rparr> else i)"

definition rvFulfilled :: "string \<Rightarrow> rvitem \<Rightarrow> bool" where
  "rvFulfilled resourceVersion i =
     (case rvParse resourceVersion of None \<Rightarrow> False | Some rv \<Rightarrow> rv_rv i < rv)"

definition rvIsExpired :: "int \<Rightarrow> rvitem \<Rightarrow> bool" where
  "rvIsExpired now i \<longleftrightarrow> now - rv_time i > ExpectationsTimeout"

definition rvSetExpectations :: "string \<Rightarrow> string \<Rightarrow> int \<Rightarrow> rvstore \<Rightarrow> rvstore" where
  "rvSetExpectations k resourceVersion now st =
     mput k (rvSet resourceVersion now \<lparr>rv_rv = 0, rv_time = now\<rparr>) st"

definition rvExpectUpdate :: "string \<Rightarrow> string \<Rightarrow> int \<Rightarrow> rvstore \<Rightarrow> rvstore" where
  "rvExpectUpdate k resourceVersion now st =
     (case mget st k of
        Some i \<Rightarrow> mput k (rvSet resourceVersion now i) st
      | None \<Rightarrow> rvSetExpectations k resourceVersion now st)"

definition rvDeleteExpectations :: "string \<Rightarrow> rvstore \<Rightarrow> rvstore" where
  "rvDeleteExpectations k st = mdel k st"

definition rvSatisfiedExpectations :: "string \<Rightarrow> string \<Rightarrow> int \<Rightarrow> rvstore \<Rightarrow> gerr + bool" where
  "rvSatisfiedExpectations k resourceVersion now st =
     (case mget st k of
        None \<Rightarrow> Inr True
      | Some i \<Rightarrow>
          if rvFulfilled resourceVersion i then Inr True
          else if rvIsExpired now i then Inl (Panic ''resourceversion expectation timeout'')
          else Inr False)"

definition newerThan :: "string \<Rightarrow> string \<Rightarrow> bool" where
  "newerThan rv rv' \<longleftrightarrow>
     (\<forall>n. rvParse rv = Some n \<longrightarrow> (\<exists>m. rvParse rv' = Some m \<and> n < m))"

lemma rvSet_rv: "rv_rv (rvSet rv now i) =
    (case rvParse rv of None \<Rightarrow> rv_rv i | Some n \<Rightarrow> max (rv_rv i) n)"
  by (auto simp: rvSet_def split: option.split)

lemma rvFulfilled_set: "rvFulfilled ob (rvSet rv now i) \<longleftrightarrow> rvFulfilled ob i \<and> newerThan rv ob"
  by (auto simp: rvFulfilled_def rvSet_rv newerThan_def split: option.splits)

lemma rvSatisfied_True:
  "rvSatisfiedExpectations k ob now st = Inr True \<longleftrightarrow> (\<forall>i. mget st k = Some i \<longrightarrow> rvFulfilled ob i)"
  by (auto simp: rvSatisfiedExpectations_def split: option.split)

lemma rvExpectUpdate_get:
  "mget (rvExpectUpdate k rv now st) k' =
     (if k' = k then Some (rvSet rv now (case mget st k of None \<Rightarrow> \<lparr>rv_rv = 0, rv_time = now\<rparr> | Some i \<Rightarrow> i))
      else mget st k')"
  by (auto simp: rvExpectUpdate_def rvSetExpectations_def split: option.split)

lemma rvSatisfied_cong:
  "mget st k = mget st' k \<Longrightarrow> rvSatisfiedExpectations k ob now st = rvSatisfiedExpectations k ob now st'"
  by (simp add: rvSatisfiedExpectations_def)

interpretation versions: cumulative_expectation "\<lambda>st k (rv, now). rvSatisfiedExpectations k rv now st"
  "\<lambda>k (rv, now) st. rvExpectUpdate k rv now st" rvDeleteExpectations "\<lambda>(rv, _) (ob, _). newerThan rv ob"
  by unfold_locales
    (auto simp: rvSatisfied_True rvExpectUpdate_get rvFulfilled_set rvDeleteExpectations_def
      split: prod.splits intro!: rvSatisfied_cong)

text \<open>After any sequence of recorded updates a controller is released for a key only when it
  observes a resource version above every version recorded for that key that is a number: a stale
  copy of the object never passes, in whatever order the records came.\<close>

theorem stale_version_never_passes:
  assumes "(k, rv, t) \<in> set recorded"
    and "rvSatisfiedExpectations k ob now (fold (\<lambda>(k, rv, t). rvExpectUpdate k rv t) recorded st) = Inr True"
    and "rvParse rv = Some n"
  shows "\<exists>m. rvParse ob = Some m \<and> n < m"
  using versions.all_pending [of k "(rv, t)" recorded st "(ob, now)"] assms
  by (simp add: newerThan_def split_def)

lemma stale_version_never_passes_witness:
  "rvSatisfiedExpectations ''a'' ''8'' 0 (fold (\<lambda>(k, rv, t). rvExpectUpdate k rv t) [(''a'', ''7'', 0), (''a'', ''5'', 0)] []) = Inr True
   \<and> (\<exists>m. rvParse ''8'' = Some m \<and> 7 < m)"
proof -
  have 1: "rvSatisfiedExpectations ''a'' ''8'' 0 (fold (\<lambda>(k, rv, t). rvExpectUpdate k rv t) [(''a'', ''7'', 0), (''a'', ''5'', 0)] []) = Inr True"
    by code_simp
  have 2: "rvParse ''7'' = Some 7" by code_simp
  show ?thesis using 1 stale_version_never_passes [OF _ 1 2, of 0] by simp
qed

subsection \<open>Active expectations\<close>

datatype eaction = ECreate | EDelete | EUpdate

record aitem =
  ai_name :: string
  ai_kind :: string
  ai_action :: eaction
  ai_rv :: int
  ai_time :: int

record aexp =
  ax_ns :: string
  ax_items :: "aitem gomap"
  ax_time :: int

type_synonym astore = "aexp gomap"

text \<open>Reading the cache: kind, namespace and name give the object's version and whether it is
  being deleted.\<close>

type_synonym objget = "string \<Rightarrow> string \<Rightarrow> string \<Rightarrow> gerr + string \<times> bool"

definition ResourceInitializers :: "string list" where
  "ResourceInitializers = [''pod'', ''pvc'', ''CollaSet'', ''ResourceContext'']"

definition slashed :: "string \<Rightarrow> string \<Rightarrow> string" where
  "slashed a b = a @ ''/'' @ b"

definition NewActiveExpectation :: "string \<Rightarrow> int \<Rightarrow> aexp" where
  "NewActiveExpectation ns now = \<lparr>ax_ns = ns, ax_items = [], ax_time = now\<rparr>"

definition axExpect :: "string \<Rightarrow> string \<Rightarrow> eaction \<Rightarrow> int \<Rightarrow> aexp \<Rightarrow> gerr + aexp" where
  "axExpect kind name action now e =
     (if action = EUpdate then Inl (Panic ''update action is not supported by this method'')
      else (let k = slashed kind name; e1 = e\<lparr>ax_time := now\<rparr>
            in Inr (case mget (ax_items e) k of
                      None \<Rightarrow> e1\<lparr>ax_items := mput k \<lparr>ai_name = name, ai_kind = kind, ai_action = action,
                                                   ai_rv = 0, ai_time = now\<rparr> (ax_items e)\<rparr>
                    | Some i \<Rightarrow> e1\<lparr>ax_items := mput k (i\<lparr>ai_action := action, ai_time := now\<rparr>) (ax_items e)\<rparr>)))"

definition axExpectUpdate :: "string \<Rightarrow> string \<Rightarrow> int \<Rightarrow> int \<Rightarrow> aexp \<Rightarrow> aexp" where
  "axExpectUpdate kind name rv now e =
     (let k = slashed kind name; e1 = e\<lparr>ax_time := now\<rparr>
      in case mget (ax_items e) k of
           None \<Rightarrow> e1\<lparr>ax_items := mput k \<lparr>ai_name = name, ai_kind = kind, ai_action = EUpdate,
                                        ai_rv = rv, ai_time = now\<rparr> (ax_items e)\<rparr>
         | Some i \<Rightarrow> e1\<lparr>ax_items := mput k (i\<lparr>ai_action := EUpdate, ai_rv := rv, ai_time := now\<rparr>) (ax_items e)\<rparr>)"

definition axDelete :: "string \<Rightarrow> string \<Rightarrow> aexp \<Rightarrow> aexp" where
  "axDelete kind name e = e\<lparr>ax_items := mdel (slashed kind name) (ax_items e)\<rparr>"

definition aiSatisfied :: "objget \<Rightarrow> int \<Rightarrow> string \<Rightarrow> aitem \<Rightarrow> bool" where
  "aiSatisfied get now ns i =
     (case ai_action i of
        ECreate \<Rightarrow>
          (case get (ai_kind i) ns (ai_name i) of
             Inr _ \<Rightarrow> True
           | Inl e \<Rightarrow> e = NotFound \<and> ai_time i + 30000000000 < now)
      | EDelete \<Rightarrow>
          (case get (ai_kind i) ns (ai_name i) of
             Inl e \<Rightarrow> e = NotFound
           | Inr (_, deleting) \<Rightarrow> deleting)
      | EUpdate \<Rightarrow>
          (case get (ai_kind i) ns (ai_name i) of
             Inr (rv, _) \<Rightarrow> (case parseInt64 rv of None \<Rightarrow> True | Some n \<Rightarrow> n \<ge> ai_rv i)
           | Inl e \<Rightarrow> e = NotFound))"

fun axLoop :: "objget \<Rightarrow> int \<Rightarrow> aexp \<Rightarrow> aitem gomap \<Rightarrow> bool \<times> aitem gomap \<Rightarrow> gerr + bool \<times> aitem gomap" where
  "axLoop get now e [] acc = Inr acc"
| "axLoop get now e ((k, i) # m) (sat, items) =
     (if aiSatisfied get now (ax_ns e) i then axLoop get now e m (sat, mdel k items)
      else if ax_time e + ExpectationsTimeout < now then Inl (Panic ''active expectation'')
      else axLoop get now e m (False, items))"

definition axIsSatisfied :: "objget \<Rightarrow> int \<Rightarrow> aexp \<Rightarrow> gerr + bool \<times> aexp" where
  "axIsSatisfied get now e =
     (case axLoop get now e (ax_items e) (True, ax_items e) of
        Inl x \<Rightarrow> Inl x
      | Inr (sat, items) \<Rightarrow> Inr (sat, e\<lparr>ax_items := items\<rparr>))"

definition aeExpect :: "string \<Rightarrow> string \<Rightarrow> string \<Rightarrow> string \<Rightarrow> eaction \<Rightarrow> int \<Rightarrow> astore \<Rightarrow> gerr + astore" where
  "aeExpect ns subject kind name action now st =
     (if kind \<notin> set ResourceInitializers then Inl (Panic ''kind is not supported'')
      else if action = EUpdate then Inl (Panic ''update action is not supported by this method'')
      else (let k = slashed ns subject;
                e = (case mget st k of None \<Rightarrow> NewActiveExpectation ns now | Some e \<Rightarrow> e)
            in case axExpect kind name action now e of Inl x \<Rightarrow> Inl x | Inr e' \<Rightarrow> Inr (mput k e' st)))"

definition aeExpectUpdate :: "string \<Rightarrow> string \<Rightarrow> string \<Rightarrow> string \<Rightarrow> string \<Rightarrow> int \<Rightarrow> astore \<Rightarrow> gerr + astore" where
  "aeExpectUpdate ns subject kind name rv now st =
     (case parseInt64 rv of
        None \<Rightarrow> Inl (Panic ''fail to parse resource version'')
      | Some n \<Rightarrow>
          if kind \<notin> set ResourceInitializers then Inl (Panic ''kind is not supported'')
          else (let k = slashed ns subject;
                    e = (case mget st k of None \<Rightarrow> NewActiveExpectation ns now | Some e \<Rightarrow> e)
                in Inr (mput k (axExpectUpdate kind name n now e) st)))"

definition aeIsSatisfied :: "objget \<Rightarrow> int \<Rightarrow> string \<Rightarrow> string \<Rightarrow> astore \<Rightarrow> gerr + bool \<times> astore" where
  "aeIsSatisfied get now ns subject st =
     (case mget st (slashed ns subject) of
        None \<Rightarrow> Inr (True, st)
      | Some e \<Rightarrow>
          (case axIsSatisfied get now e of
             Inl x \<Rightarrow> Inl x
           | Inr (True, e') \<Rightarrow> Inr (True, mdel (slashed ns subject) st)
           | Inr (False, e') \<Rightarrow> Inr (False, mput (slashed ns subject) e' st)))"

definition aeDeleteItem :: "string \<Rightarrow> string \<Rightarrow> string \<Rightarrow> string \<Rightarrow> astore \<Rightarrow> gerr + astore" where
  "aeDeleteItem ns subject kind name st =
     (if kind \<notin> set ResourceInitializers then Inl (Panic ''kind is not supported'')
      else (case mget st (slashed ns subject) of
              None \<Rightarrow> Inr st
            | Some e \<Rightarrow>
                (let e' = axDelete kind name e
                 in if ax_items e' = [] then Inr (mdel (slashed ns subject) st)
                    else Inr (mput (slashed ns subject) e' st))))"

definition aeDeleteByKey :: "string \<Rightarrow> astore \<Rightarrow> astore" where
  "aeDeleteByKey k st = mdel k st"

definition aeDelete :: "string \<Rightarrow> string \<Rightarrow> astore \<Rightarrow> astore" where
  "aeDelete ns name st = aeDeleteByKey (slashed ns name) st"

definition aeGetExpectation :: "string \<Rightarrow> string \<Rightarrow> astore \<Rightarrow> aexp option" where
  "aeGetExpectation ns name st = mget st (slashed ns name)"

definition openItem :: "objget \<Rightarrow> int \<Rightarrow> aexp \<Rightarrow> string \<times> aitem \<Rightarrow> bool" where
  "openItem get now e ki \<longleftrightarrow> \<not> aiSatisfied get now (ax_ns e) (snd ki)"

lemma axLoop_sat:
  assumes "\<not> (\<exists>ki \<in> set m. openItem get now e ki \<and> ax_time e + ExpectationsTimeout < now)"
  shows "axLoop get now e m (sat, items) =
    Inr (sat \<and> (\<forall>ki \<in> set m. \<not> openItem get now e ki),
         filter (\<lambda>(k, i). k \<notin> fst ` {ki \<in> set m. \<not> openItem get now e ki}) items)"
  using assms
proof (induction m arbitrary: sat items)
  case (Cons ki m)
  obtain k i where ki: "ki = (k, i)" by (cases ki)
  have un: "{x. (x = (k, i) \<or> x \<in> set m) \<and> \<not> openItem get now e x} =
      (if openItem get now e (k, i) then {} else {(k, i)}) \<union> {x \<in> set m. \<not> openItem get now e x}"
    by auto
  from Cons show ?case
    by (auto simp: ki openItem_def [of get now e "(k, i)"] AList.delete_eq filter_filter un
        intro!: filter_cong)
qed (simp add: split_def)

lemma axLoop_panic:
  assumes "ki \<in> set m" and "openItem get now e ki" and "ax_time e + ExpectationsTimeout < now"
  shows "axLoop get now e m (sat, items) = Inl (Panic ''active expectation'')"
  using assms
  by (induction m arbitrary: sat items) (auto simp: openItem_def)

lemma filter_open:
  "mwf m \<Longrightarrow> filter (\<lambda>(k, i). k \<notin> fst ` {ki \<in> set m. \<not> P ki}) m = filter P m"
  by (rule filter_cong) (force simp: mwf_def dest: eq_key_imp_eq_value)+

text \<open>One check of a controller's active expectations succeeds exactly when every expected
  object is observed in the cache, and then forgets the subject; otherwise it keeps exactly the
  items that are still open, and it panics only if an item is open ten minutes after the
  last record.\<close>

theorem active_check:
  assumes "mget st (slashed ns subject) = Some e" and "mwf (ax_items e)"
  shows "aeIsSatisfied get now ns subject st =
    (if filter (openItem get now e) (ax_items e) = [] then Inr (True, mdel (slashed ns subject) st)
     else if ax_time e + ExpectationsTimeout < now then Inl (Panic ''active expectation'')
     else Inr (False, mput (slashed ns subject)
       (e\<lparr>ax_items := filter (openItem get now e) (ax_items e)\<rparr>) st))"
proof (cases "\<exists>ki \<in> set (ax_items e). openItem get now e ki \<and> ax_time e + ExpectationsTimeout < now")
  case True
  then have "axIsSatisfied get now e = Inl (Panic ''active expectation'')"
    by (auto simp: axIsSatisfied_def axLoop_panic)
  with True assms(1) show ?thesis by (auto simp: aeIsSatisfied_def filter_empty_conv)
next
  case False
  have "axIsSatisfied get now e =
      Inr (filter (openItem get now e) (ax_items e) = [], e\<lparr>ax_items := filter (openItem get now e) (ax_items e)\<rparr>)"
    using axLoop_sat [OF False, of True "ax_items e"] assms(2)
    by (simp add: axIsSatisfied_def filter_open filter_empty_conv)
  with False assms(1) show ?thesis
    by (auto simp: aeIsSatisfied_def filter_empty_conv split: bool.split)
qed

definition exget :: objget where
  "exget kind ns name = (if name = ''new'' then Inl NotFound else Inr (''7'', False))"

lemma active_check_witness:
  "\<exists>st. aeExpect ''ns'' ''cls'' ''pod'' ''new'' ECreate 0 [] = Inr st
    \<and> aeIsSatisfied exget 5 ''ns'' ''cls'' st = Inr (False, st)"
proof -
  define st :: astore where "st = [(''ns/cls'', \<lparr>ax_ns = ''ns'', ax_items =
      [(''pod/new'', \<lparr>ai_name = ''new'', ai_kind = ''pod'', ai_action = ECreate, ai_rv = 0, ai_time = 0\<rparr>)],
      ax_time = 0\<rparr>)]"
  have 1: "aeExpect ''ns'' ''cls'' ''pod'' ''new'' ECreate 0 [] = Inr st"
    unfolding st_def by code_simp
  have 2: "mget st (slashed ''ns'' ''cls'') = Some (snd (hd st))"
    by (simp add: st_def slashed_def)
  have "aeIsSatisfied exget 5 ''ns'' ''cls'' st = Inr (False, st)"
    using active_check [OF 2, of exget 5]
    by (simp add: st_def slashed_def mwf_def openItem_def aiSatisfied_def exget_def ExpectationsTimeout_def)
  with 1 show ?thesis by blast
qed

end
