(* ===== verification/RuleRegister.thy ===== *)
theory RuleRegister
  imports PodUtils
begin

text \<open>
  The data of a PodTransitionRule, the registry of stages and conditions
  (\<^verbatim>\<open>pkg/controllers/podtransitionrule/register\<close>), the helpers of
  \<^verbatim>\<open>pkg/controllers/podtransitionrule/utils\<close> and the checker that collects the state of a pod
  (\<^verbatim>\<open>pkg/controllers/podtransitionrule/checker\<close>).

  What comes from Kubernetes libraries or from kube-api is the record \<open>renv\<close>: scaling a number or
  a percentage, turning a label selector into a predicate, reading a CollaSet, decoding the
  skip annotation, and the names of the fields of a rule definition in the order of the Go struct.
  The texts of messages keep their constant parts only.
\<close>

subsection \<open>Data\<close>

datatype intstr = IsInt int | IsStr string

record availPolicy =
  ap_max :: "intstr option"
  ap_min :: "intstr option"

record pollcfg =
  pl_url :: string
  pl_rawKey :: string
  pl_timeout :: "int option"
  pl_interval :: "int option"

record wparam =
  wp_key :: string
  wp_value :: string
  wp_field :: "string option"

record wconfig =
  wc_url :: string
  wc_poll :: "pollcfg option"
  wc_params :: "wparam list"
  wc_ca :: string
  wc_failure :: "string option"

record trule =
  t_name :: string
  t_disabled :: bool
  t_stage :: "string option"
  t_conditions :: "string list"
  t_filter :: "string option"
  t_avail :: "availPolicy option"
  t_label :: "string option"
  t_webhook :: "wconfig option"

record rdetail =
  d_name :: string
  d_stage :: string
  d_passed :: bool
  d_passedRules :: "string list"
  d_reject :: "(string \<times> string) list"

record taskInfo =
  ti_id :: string
  ti_begin :: int
  ti_last :: "int option"
  ti_msg :: string
  ti_processing :: "string list"
  ti_approved :: "string list"

record webhookStatus =
  ws_tasks :: "taskInfo list"
  ws_history :: "taskInfo list"

record ruleState =
  rs_name :: string
  rs_webhook :: "webhookStatus option"

record ptr =
  r_ns :: string
  r_name :: string
  r_rv :: string
  r_generation :: int
  r_deleting :: bool
  r_finalizers :: "string list"
  r_selector :: string
  r_rules :: "trule list"
  r_targets :: "string list"
  r_observed :: int
  r_details :: "rdetail list"
  r_states :: "ruleState list"
  r_update :: "int option"

record renv =
  re_scaled :: "intstr \<Rightarrow> nat \<Rightarrow> bool \<Rightarrow> gerr + int"
  re_sel :: "string \<Rightarrow> gerr + (string gomap \<Rightarrow> bool)"
  re_cls :: "string \<Rightarrow> string \<Rightarrow> gerr + string \<times> int option"
  re_clsApi :: string
  re_skipAnno :: string
  re_skipDec :: "string \<Rightarrow> gerr + string list"
  re_detailAnno :: string
  re_fields :: "string list"

subsection \<open>Registry\<close>

type_synonym funcCache = "(pod \<Rightarrow> bool) list gomap"

definition fcGet :: "funcCache \<Rightarrow> string \<Rightarrow> (pod \<Rightarrow> bool) list" where
  "fcGet fc k = (case mget fc k of None \<Rightarrow> [] | Some fs \<Rightarrow> fs)"

definition fcPut :: "string \<Rightarrow> (pod \<Rightarrow> bool) list \<Rightarrow> funcCache \<Rightarrow> funcCache" where
  "fcPut k fs fc = mput k fs fc"

definition fcAdd :: "string \<Rightarrow> (pod \<Rightarrow> bool) list \<Rightarrow> funcCache \<Rightarrow> funcCache" where
  "fcAdd k fs fc = mput k (fcGet fc k @ fs) fc"

record cache =
  stageKey :: sset
  inStageFunc :: funcCache
  stages :: "string list"
  conditionKey :: sset
  condition :: funcCache

definition newCache :: cache where
  "newCache = \<lparr>stageKey = [], inStageFunc = [], stages = [], conditionKey = [], condition = []\<rparr>"

definition RegisterStage :: "string \<Rightarrow> (pod \<Rightarrow> bool) \<Rightarrow> cache \<Rightarrow> cache" where
  "RegisterStage stage f r =
     r\<lparr>stages := stages r @ [stage], stageKey := sinsert stage (stageKey r),
       inStageFunc := fcAdd stage [f] (inStageFunc r)\<rparr>"

definition RegisterCondition :: "string \<Rightarrow> (pod \<Rightarrow> bool) \<Rightarrow> cache \<Rightarrow> cache" where
  "RegisterCondition c f r =
     r\<lparr>conditionKey := sinsert c (conditionKey r), condition := fcAdd c [f] (condition r)\<rparr>"

fun inFunc :: "pod \<Rightarrow> string list \<Rightarrow> funcCache \<Rightarrow> string" where
  "inFunc p [] fc = []"
| "inFunc p (k # ks) fc = (if list_all (\<lambda>f. f p) (fcGet fc k) then k else inFunc p ks fc)"

fun inFuncs :: "pod \<Rightarrow> string list \<Rightarrow> funcCache \<Rightarrow> string list" where
  "inFuncs p [] fc = []"
| "inFuncs p (k # ks) fc =
     (if list_all (\<lambda>f. f p) (fcGet fc k) then k # inFuncs p ks fc else inFuncs p ks fc)"

definition matchFunc :: "pod \<Rightarrow> string \<Rightarrow> funcCache \<Rightarrow> bool" where
  "matchFunc p k fc = (case fcGet fc k of [f] \<Rightarrow> f p | _ \<Rightarrow> False)"

definition StageOf :: "cache \<Rightarrow> pod \<Rightarrow> string" where
  "StageOf r p = inFunc p (stageKey r) (inStageFunc r)"

definition GetStages :: "cache \<Rightarrow> string list" where
  "GetStages r = stages r"

definition InStage :: "cache \<Rightarrow> pod \<Rightarrow> string \<Rightarrow> bool" where
  "InStage r p k = matchFunc p k (inStageFunc r)"

definition ConditionsOf :: "cache \<Rightarrow> pod \<Rightarrow> string list" where
  "ConditionsOf r p = inFuncs p (conditionKey r) (condition r)"

definition MatchConditions :: "cache \<Rightarrow> pod \<Rightarrow> string list \<Rightarrow> string list" where
  "MatchConditions r p cs = filter (\<lambda>c. c \<in> set cs) (ConditionsOf r p)"

text \<open>The type of a rule is the name of the first field of its definition that is set.\<close>

definition hasField :: "trule \<Rightarrow> string \<Rightarrow> bool" where
  "hasField r f \<longleftrightarrow>
     (f = ''AvailablePolicy'' \<and> t_avail r \<noteq> None) \<or> (f = ''LabelCheck'' \<and> t_label r \<noteq> None)
     \<or> (f = ''Webhook'' \<and> t_webhook r \<noteq> None)"

definition GetRuleType :: "renv \<Rightarrow> trule \<Rightarrow> string" where
  "GetRuleType E r = (case find (hasField r) (re_fields E) of None \<Rightarrow> [] | Some f \<Rightarrow> f)"

definition InitDefaultRuleStage :: "renv \<Rightarrow> trule \<Rightarrow> string \<Rightarrow> string gomap \<Rightarrow> string gomap" where
  "InitDefaultRuleStage E r stage m = mput (GetRuleType E r) stage m"

definition GetRuleStage :: "renv \<Rightarrow> string gomap \<Rightarrow> cache \<Rightarrow> trule \<Rightarrow> string" where
  "GetRuleStage E ruleStage c r =
     (let stage = mgetd ruleStage (GetRuleType E r)
      in if stage = [] \<and> GetStages c \<noteq> [] then hd (GetStages c) else stage)"

subsection \<open>Helpers\<close>

definition HasSkipRule :: "renv \<Rightarrow> pod \<Rightarrow> string \<Rightarrow> gerr + bool" where
  "HasSkipRule E p ruleName =
     (case mget (p_annos p) (re_skipAnno E) of
        None \<Rightarrow> Inr False
      | Some a \<Rightarrow>
          if a = [] then Inr False
          else (case re_skipDec E a of Inl e \<Rightarrow> Inl e | Inr names \<Rightarrow> Inr (ruleName \<in> set names)))"

definition MoveDetailAnno :: "renv \<Rightarrow> pod \<Rightarrow> string \<Rightarrow> bool \<times> pod" where
  "MoveDetailAnno E p rule =
     (let k = re_detailAnno E @ ''/'' @ rule
      in (mhas (p_annos p) k,
          if mhas (p_annos p) k then p\<lparr>p_annos := mdel k (p_annos p)\<rparr> else p))"

definition GetPodPassedRules :: "string \<Rightarrow> ptr \<Rightarrow> sset" where
  "GetPodPassedRules podName r =
     sinserts (concat (map d_passedRules (filter (\<lambda>d. d_name d = podName) (r_details r)))) []"

definition IsPodPassRule :: "string \<Rightarrow> ptr \<Rightarrow> string \<Rightarrow> bool" where
  "IsPodPassRule podName r rule \<longleftrightarrow> rule \<in> set (GetPodPassedRules podName r)"

definition weight :: "trule \<Rightarrow> nat" where
  "weight r = (if t_avail r \<noteq> None then 1 else if t_label r \<noteq> None then 3
               else if t_webhook r \<noteq> None then 5 else 100)"

text \<open>\<open>sort.Sort\<close> by weight; the library sorts short slices by insertion, which keeps the order of
  rules of the same weight.\<close>

definition sortRules :: "trule list \<Rightarrow> trule list" where
  "sortRules rs = sort_key weight rs"

definition lowerChar :: "char \<Rightarrow> char" where
  "lowerChar c = (let n = (of_char c :: nat) in if 65 \<le> n \<and> n \<le> 90 then char_of (n + 32) else c)"

definition lowerFirst :: "string \<Rightarrow> string" where
  "lowerFirst s = (case s of [] \<Rightarrow> [] | c # cs \<Rightarrow> lowerChar c # cs)"

definition needSkip :: "renv \<Rightarrow> sset \<Rightarrow> trule \<Rightarrow> bool" where
  "needSkip E skipTypes r \<longleftrightarrow>
     list_ex (\<lambda>f. hasField r f \<and> lowerFirst f \<in> set skipTypes) (re_fields E)"

definition isSpace :: "char \<Rightarrow> bool" where
  "isSpace c \<longleftrightarrow> (of_char c :: nat) \<in> {9, 10, 11, 12, 13, 32}"

definition trimSpace :: "string \<Rightarrow> string" where
  "trimSpace s = rev (dropWhile isSpace (rev (dropWhile isSpace s)))"

definition initSkipRules :: "string \<Rightarrow> sset" where
  "initSkipRules val =
     (if val = [] then [] else sinserts (filter (\<lambda>v. v \<noteq> []) (map trimSpace (splitOn (CHR '','') val))) [])"

subsection \<open>Checker\<close>

record checkState =
  cs_stage :: string
  cs_states :: "(string \<times> rdetail) list"

definition emptyDetail :: rdetail where
  "emptyDetail = \<lparr>d_name = [], d_stage = [], d_passed = True, d_passedRules = [], d_reject = []\<rparr>"

definition podState :: "string \<Rightarrow> ptr \<Rightarrow> string \<times> rdetail" where
  "podState name rs =
     (case find (\<lambda>d. d_name d = name) (r_details rs) of
        Some d \<Rightarrow> (r_name rs, d)
      | None \<Rightarrow> (r_name rs, emptyDetail))"

text \<open>\<open>list\<close> is the client's list call with the index on the pod names of a rule's targets.\<close>

definition GetState :: "cache \<Rightarrow> (string \<Rightarrow> gerr + ptr list) \<Rightarrow> pod \<Rightarrow> gerr + checkState" where
  "GetState c list p =
     (case list (p_name p) of
        Inl e \<Rightarrow> Inl e
      | Inr rss \<Rightarrow> Inr \<lparr>cs_stage = StageOf c p, cs_states = map (podState (p_name p)) rss\<rparr>)"

definition CsInStage :: "checkState \<Rightarrow> bool" where
  "CsInStage cs \<longleftrightarrow> list_all (\<lambda>(_, d). d_stage d = cs_stage cs) (cs_states cs)"

definition InStageAndPassed :: "checkState \<Rightarrow> bool" where
  "InStageAndPassed cs \<longleftrightarrow> list_all (\<lambda>(_, d). d_stage d = cs_stage cs \<and> d_passed d) (cs_states cs)"

lemma InStageAndPassed_InStage: "InStageAndPassed cs \<Longrightarrow> CsInStage cs"
  by (auto simp: InStageAndPassed_def CsInStage_def list_all_iff)

lemma GetState_passed:
  assumes "GetState c lst p = Inr cs" and "InStageAndPassed cs" and "cs_stage cs \<noteq> []"
  shows "\<exists>rss. lst (p_name p) = Inr rss \<and> (\<forall>r \<in> set rss. \<exists>d \<in> set (r_details r).
           d_name d = p_name p \<and> d_stage d = StageOf c p \<and> d_passed d)"
proof -
  from assms(1) obtain rss where rss: "lst (p_name p) = Inr rss"
    and cs: "cs = \<lparr>cs_stage = StageOf c p, cs_states = map (podState (p_name p)) rss\<rparr>"
    by (auto simp: GetState_def split: sum.splits)
  have "\<exists>d \<in> set (r_details r). d_name d = p_name p \<and> d_stage d = StageOf c p \<and> d_passed d"
    if "r \<in> set rss" for r
  proof -
    have ok: "d_stage (snd (podState (p_name p) r)) = StageOf c p \<and> d_passed (snd (podState (p_name p) r))"
      using assms(2) that by (auto simp: InStageAndPassed_def cs list_all_iff split_def)
    show ?thesis
    proof (cases "find (\<lambda>d. d_name d = p_name p) (r_details r)")
      case None
      with ok assms(3) show ?thesis by (simp add: podState_def emptyDetail_def cs)
    next
      case (Some d)
      then have "d \<in> set (r_details r)" "d_name d = p_name p"
        by (auto simp: find_Some_iff)
      with ok Some show ?thesis by (auto simp: podState_def)
    qed
  qed
  with rss show ?thesis by blast
qed

lemma StageOf_sound:
  "StageOf c p \<noteq> [] \<Longrightarrow> StageOf c p \<in> set (stageKey c) \<and> (\<forall>f \<in> set (fcGet (inStageFunc c) (StageOf c p)). f p)"
proof -
  have "inFunc p ks fc \<noteq> [] \<Longrightarrow> inFunc p ks fc \<in> set ks \<and> (\<forall>f \<in> set (fcGet fc (inFunc p ks fc)). f p)" for ks fc
    by (induction p ks fc rule: inFunc.induct) (auto simp: list_all_iff split: if_splits)
  then show "StageOf c p \<noteq> [] \<Longrightarrow> ?thesis" unfolding StageOf_def by blast
qed

end
