(* ===== verification/LifecycleController.thy ===== *)
theory LifecycleController
  imports LifecycleOps Expectations RuleRegister
begin

text \<open>
  \<^verbatim>\<open>pkg/controllers/podopslifecycle/podopslifecycle_controller.go\<close> and \<^verbatim>\<open>predicate.go\<close>: the controller
  that moves lifecycles through their check stages, sets the service-ready gate
  and adds and removes the service-available label.

  A reconcile run works on its copy of the pod, which some steps change in place, on the
  resource-version expectations and on the cluster: the state \<open>lstate\<close>.  Clock
  readings are the argument \<open>now\<close>, their decimal form \<open>stamp\<close>.
\<close>

record 'w lstate =
  ls_pod :: pod
  ls_exp :: rvstore
  ls_w :: 'w

record 'w ldeps =
  ld_client :: "'w client"
  ld_state :: "'w \<Rightarrow> pod \<Rightarrow> gerr + checkState"
  ld_pre :: string
  ld_post :: string

subsection \<open>Writes\<close>

text \<open>A write that the controller then expects to see: record the version, retry, and
  forget the record when the write fails.\<close>

definition expectedWrite :: "'w client \<Rightarrow> (pod \<Rightarrow> 'w \<Rightarrow> (gerr + pod) \<times> 'w) \<Rightarrow> int
    \<Rightarrow> (pod \<Rightarrow> pod option) \<Rightarrow> 'w lstate \<Rightarrow> gerr option \<times> 'w lstate" where
  "expectedWrite C put now f s =
     (let p = ls_pod s; k = controllerKey p;
          e1 = rvExpectUpdate k (p_rv p) now (ls_exp s);
          (r, w') = cl_retry C (attempt C put (p_ns p) (p_name p) f) (ls_w s)
      in (r, s\<lparr>ls_exp := (if r = None then e1 else rvDeleteExpectations k e1), ls_w := w'\<rparr>))"

definition addLabels :: "'w client \<Rightarrow> int \<Rightarrow> string gomap \<Rightarrow> 'w lstate \<Rightarrow> gerr option \<times> 'w lstate" where
  "addLabels C now ls s =
     (if ls = [] then (None, s)
      else expectedWrite C (cl_update C) now (\<lambda>q. Some (q\<lparr>p_labels := mputs ls (p_labels q)\<rparr>)) s)"

definition removeLabels :: "'w client \<Rightarrow> int \<Rightarrow> string list \<Rightarrow> 'w lstate \<Rightarrow> gerr option \<times> 'w lstate" where
  "removeLabels C now ls s =
     (if ls = [] then (None, s)
      else expectedWrite C (cl_update C) now (\<lambda>q. Some (q\<lparr>p_labels := mdels ls (p_labels q)\<rparr>)) s)"

subsection \<open>Expected finalizers\<close>

definition selectorMatches :: "string gomap \<Rightarrow> string gomap \<Rightarrow> bool" where
  "selectorMatches sel ls \<longleftrightarrow> list_all (\<lambda>(k, v). mget ls k = Some v) sel"

definition isAvailableConditionDirty :: "'w client \<Rightarrow> 'w \<Rightarrow> pod \<Rightarrow> string \<Rightarrow> gerr + bool" where
  "isAvailableConditionDirty C w p expectedFinalizerKey =
     (case splitOn (CHR ''/'') expectedFinalizerKey of
        [kind, ns, n] \<Rightarrow>
          if kind \<noteq> ''Service'' then Inr False
          else (case cl_svc C w ns n of
                  Inl e \<Rightarrow> if e = NotFound then Inr True else Inl e
                | Inr sel \<Rightarrow> Inr (\<not> selectorMatches sel (p_labels p)))
      | _ \<Rightarrow> Inr False)"

fun dirtyKeys :: "'w client \<Rightarrow> 'w \<Rightarrow> pod \<Rightarrow> string gomap \<Rightarrow> string gomap \<Rightarrow> gerr + string gomap" where
  "dirtyKeys C w p [] acc = Inr acc"
| "dirtyKeys C w p ((k, f) # m) acc =
     (case isAvailableConditionDirty C w p k of
        Inl e \<Rightarrow> Inl e
      | Inr False \<Rightarrow> Inr acc
      | Inr True \<Rightarrow> dirtyKeys C w p m (mput k f acc))"

definition updateAvailableConditions :: "api \<Rightarrow> 'w client \<Rightarrow> string gomap \<Rightarrow> 'w lstate
    \<Rightarrow> gerr option \<times> 'w lstate" where
  "updateAvailableConditions A C m s =
     (let p = ls_pod s; p1 = p\<lparr>p_annos := mput (availAnno A) (enc_avail A m) (p_annos p)\<rparr>
      in case cl_update C p1 (ls_w s) of
           (Inl e, w') \<Rightarrow> (Some e, s\<lparr>ls_pod := p1, ls_w := w'\<rparr>)
         | (Inr p2, w') \<Rightarrow> (None, s\<lparr>ls_pod := p2, ls_w := w'\<rparr>))"

text \<open>\<open>allDirty\<close> is declared false and no statement sets it to true.\<close>

definition removeDirtyExpectedFinalizer :: "api \<Rightarrow> 'w client \<Rightarrow> string gomap \<Rightarrow> 'w lstate
    \<Rightarrow> (gerr + bool) \<times> 'w lstate" where
  "removeDirtyExpectedFinalizer A C notSatisfied s =
     (let allDirty = False in
      case dirtyKeys C (ls_w s) (ls_pod s) notSatisfied [] of
        Inl e \<Rightarrow> (Inl e, s)
      | Inr dirty \<Rightarrow>
          if dirty = [] then (Inr allDirty, s)
          else (case PodAvailableConditions A (ls_pod s) of
                  Inl e \<Rightarrow> (Inl e, s)
                | Inr None \<Rightarrow> (Inl (Panic ''nil conditions''), s)
                | Inr (Some m) \<Rightarrow>
                    (case updateAvailableConditions A C (mdels (map fst dirty) m) s of
                       (Some e, s') \<Rightarrow> (Inl e, s')
                     | (None, s') \<Rightarrow> (Inr allDirty, s'))))"

definition markAvailable :: "api \<Rightarrow> string \<Rightarrow> pod \<Rightarrow> pod" where
  "markAvailable A stamp q =
     q\<lparr>p_labels := mdel (completingL A) (mdel (creatingL A) (mput (svcAvailL A) stamp (p_labels q)))\<rparr>"

definition addServiceAvailable :: "api \<Rightarrow> 'w client \<Rightarrow> int \<Rightarrow> string \<Rightarrow> 'w lstate
    \<Rightarrow> (gerr + bool) \<times> 'w lstate" where
  "addServiceAvailable A C now stamp s =
     (if mhas (p_labels (ls_pod s)) (svcAvailL A) then (Inr False, s)
      else (case IsExpectedFinalizerSatisfied A (ls_pod s) of
              Inl e \<Rightarrow> (Inl e, s)
            | Inr (satisfied, ns) \<Rightarrow>
                (case (if satisfied then (Inr True, s) else removeDirtyExpectedFinalizer A C ns s) of
                   (Inl e, s1) \<Rightarrow> (Inl e, s1)
                 | (Inr False, s1) \<Rightarrow> (Inr False, s1)
                 | (Inr True, s1) \<Rightarrow>
                     if \<not> IsPodReady (ls_pod s1) then (Inr False, s1)
                     else (case expectedWrite C (cl_update C) now (\<lambda>q. Some (markAvailable A stamp q)) s1 of
                             (Some e, s2) \<Rightarrow> (Inl e, s2)
                           | (None, s2) \<Rightarrow> (Inr True, s2)))))"

subsection \<open>The service-ready gate\<close>

fun lastCond :: "nat \<Rightarrow> string \<Rightarrow> cond list \<Rightarrow> nat option \<Rightarrow> nat option" where
  "lastCond i t [] r = r"
| "lastCond i t (c # cs) r = lastCond (Suc i) t cs (if c_type c = t then Some i else r)"

definition setServiceReadiness :: "api \<Rightarrow> int \<Rightarrow> pod \<Rightarrow> bool \<Rightarrow> bool \<times> pod" where
  "setServiceReadiness A now p isReady =
     (if svcReadyGate A \<notin> set (p_gates p) then (False, p)
      else (let status = (if isReady then CTrue else CFalse);
                c' = \<lparr>c_type = svcReadyGate A, c_status = status, c_time = now, c_msg = ''updated by PodOpsLifecycle''\<rparr>
            in case lastCond 0 (svcReadyGate A) (p_conds p) None of
                 None \<Rightarrow> (True, p\<lparr>p_conds := p_conds p @ [c']\<rparr>)
               | Some i \<Rightarrow>
                   if c_status (p_conds p ! i) = status then (False, p)
                   else (True, p\<lparr>p_conds := (p_conds p)[i := c']\<rparr>)))"

definition updateServiceReadiness :: "api \<Rightarrow> 'w client \<Rightarrow> int \<Rightarrow> bool \<Rightarrow> 'w lstate
    \<Rightarrow> (gerr + bool) \<times> 'w lstate" where
  "updateServiceReadiness A C now isReady s =
     (let (needUpdate, p1) = setServiceReadiness A now (ls_pod s) isReady; s1 = s\<lparr>ls_pod := p1\<rparr>
      in if \<not> needUpdate then (Inr False, s1)
         else (case expectedWrite C (cl_status C) now
                      (\<lambda>q. let (need, q') = setServiceReadiness A now q isReady in if need then Some q' else None) s1 of
                 (Some e, s2) \<Rightarrow> (Inl e, s2)
               | (None, s2) \<Rightarrow> (Inr True, s2)))"

subsection \<open>The stages\<close>

fun preCheckStage :: "api \<Rightarrow> string \<Rightarrow> pod \<Rightarrow> idlabels gomap \<Rightarrow> string gomap \<Rightarrow> string gomap" where
  "preCheckStage A stamp p [] labels = labels"
| "preCheckStage A stamp p ((i, ls) # m) labels =
     (case map_of ls POperationType of
        None \<Rightarrow> preCheckStage A stamp p m labels
      | Some t \<Rightarrow>
          (let k1 = key A POperationPermission t; k2 = key A PPreChecked i;
               l1 = (if mhas (p_labels p) k1 then labels else mput k1 stamp labels);
               l2 = (if mhas (p_labels p) k2 then l1 else mput k2 stamp l1)
           in preCheckStage A stamp p m l2))"

fun postCheckStage :: "api \<Rightarrow> string \<Rightarrow> pod \<Rightarrow> idlabels gomap \<Rightarrow> string gomap \<Rightarrow> string gomap" where
  "postCheckStage A stamp p [] labels = labels"
| "postCheckStage A stamp p ((i, ls) # m) labels =
     (let k = key A PPostChecked i
      in postCheckStage A stamp p m (if mhas (p_labels p) k then labels else mput k stamp labels))"

definition stageLabels :: "api \<Rightarrow> 'w ldeps \<Rightarrow> string \<Rightarrow> pod \<Rightarrow> idlabels gomap \<Rightarrow> checkState \<Rightarrow> string gomap" where
  "stageLabels A D stamp p idm cs =
     (if InStageAndPassed cs
      then (if cs_stage cs = ld_pre D then preCheckStage A stamp p idm []
            else if cs_stage cs = ld_post D then postCheckStage A stamp p idm [] else [])
      else [])"

text \<open>One pass of the loop over the ordered phases: for every lifecycle in that phase, set the gate.\<close>

fun gateLoop :: "api \<Rightarrow> 'w client \<Rightarrow> int \<Rightarrow> pfx \<Rightarrow> bool \<Rightarrow> idlabels gomap \<Rightarrow> bool \<Rightarrow> 'w lstate
    \<Rightarrow> (gerr + bool) \<times> 'w lstate" where
  "gateLoop A C now phase status [] keeped s = (Inr keeped, s)"
| "gateLoop A C now phase status ((i, ls) # m) keeped s =
     (if \<not> lhas ls phase then gateLoop A C now phase status m keeped s
      else (case updateServiceReadiness A C now status s of
              (Inl e, s') \<Rightarrow> (Inl e, s')
            | (Inr _, s') \<Rightarrow> gateLoop A C now phase status m True s'))"

definition gates :: "api \<Rightarrow> 'w client \<Rightarrow> int \<Rightarrow> idlabels gomap \<Rightarrow> 'w lstate \<Rightarrow> gerr option \<times> 'w lstate" where
  "gates A C now idm s =
     (case gateLoop A C now PPreparing False idm False s of
        (Inl e, s1) \<Rightarrow> (Some e, s1)
      | (Inr True, s1) \<Rightarrow> (None, s1)
      | (Inr False, s1) \<Rightarrow>
          (case gateLoop A C now PCompleting True idm False s1 of
             (Inl e, s2) \<Rightarrow> (Some e, s2)
           | (Inr _, s2) \<Rightarrow> (None, s2)))"

text \<open>The part after the online block, and the block itself: \<open>None\<close> when the run ends there.\<close>

definition reconcileStages :: "api \<Rightarrow> 'w ldeps \<Rightarrow> int \<Rightarrow> string \<Rightarrow> idlabels gomap \<Rightarrow> 'w lstate
    \<Rightarrow> gerr option \<times> 'w lstate" where
  "reconcileStages A D now stamp idm s =
     (case ld_state D (ls_w s) (ls_pod s) of
        Inl e \<Rightarrow> (Some e, s)
      | Inr cs \<Rightarrow>
          (let labels = stageLabels A D stamp (ls_pod s) idm cs
           in if labels \<noteq> [] then addLabels (ld_client D) now labels s
              else (case gates A (ld_client D) now idm s of
                      (Some e, s1) \<Rightarrow> (Some e, s1)
                    | (None, s1) \<Rightarrow>
                        if \<not> IsPodReady (ls_pod s1)
                        then removeLabels (ld_client D) now [svcAvailL A] s1
                        else (None, s1))))"

definition online :: "api \<Rightarrow> 'w client \<Rightarrow> int \<Rightarrow> string \<Rightarrow> 'w lstate \<Rightarrow> (gerr + bool) \<times> 'w lstate" where
  "online A C now stamp s =
     (case addServiceAvailable A C now stamp s of
        (Inl e, s1) \<Rightarrow> (Inl e, s1)
      | (Inr True, s1) \<Rightarrow> (Inr True, s1)
      | (Inr False, s1) \<Rightarrow> updateServiceReadiness A C now True s1)"

definition reconcilePod :: "api \<Rightarrow> 'w ldeps \<Rightarrow> int \<Rightarrow> string \<Rightarrow> 'w lstate \<Rightarrow> gerr option \<times> 'w lstate" where
  "reconcilePod A D now stamp s =
     (case IDToLabelsMap A (ls_pod s) of
        Inl e \<Rightarrow> (Some e, s)
      | Inr (idm, _) \<Rightarrow>
          if idm = [] \<and> \<not> mhas (p_labels (ls_pod s)) (stayOfflineL A)
          then (case online A (ld_client D) now stamp s of
                  (Inl e, s1) \<Rightarrow> (Some e, s1)
                | (Inr True, s1) \<Rightarrow> (None, s1)
                | (Inr False, s1) \<Rightarrow> reconcileStages A D now stamp idm s1)
          else reconcileStages A D now stamp idm s)"

definition Reconcile :: "api \<Rightarrow> 'w ldeps \<Rightarrow> int \<Rightarrow> string \<Rightarrow> string \<Rightarrow> string \<Rightarrow> rvstore \<Rightarrow> 'w
    \<Rightarrow> gerr option \<times> rvstore \<times> 'w" where
  "Reconcile A D now stamp ns n ex w =
     (let k = ns @ ''/'' @ n in
      case cl_get (ld_client D) w ns n of
        Inl e \<Rightarrow> if e = NotFound then (None, rvDeleteExpectations k ex, w) else (Some e, ex, w)
      | Inr p \<Rightarrow>
          (case rvSatisfiedExpectations k (p_rv p) now ex of
             Inl e \<Rightarrow> (Some e, ex, w)
           | Inr False \<Rightarrow> (None, ex, w)
           | Inr True \<Rightarrow>
               if p_deleting p then (None, ex, w)
               else (let (r, s) = reconcilePod A D now stamp \<lparr>ls_pod = p, ls_exp = ex, ls_w = w\<rparr>
                     in (r, ls_exp s, ls_w s))))"

subsection \<open>Registration and predicate\<close>

definition labelHasPrefix :: "string gomap \<Rightarrow> string \<Rightarrow> bool" where
  "labelHasPrefix ls p \<longleftrightarrow> list_ex (\<lambda>(k, v). hasPrefix k p) ls"

definition initPodTransitionRuleManager :: "api \<Rightarrow> string \<Rightarrow> string \<Rightarrow> cache \<Rightarrow> cache" where
  "initPodTransitionRuleManager A pre post r =
     RegisterStage post (\<lambda>p. labelHasPrefix (p_labels p) (pstr A PPostCheck))
       (RegisterStage pre (\<lambda>p. labelHasPrefix (p_labels p) (pstr A PPreCheck)) r)"

definition lifecycleUnavailable :: "api \<Rightarrow> pod \<Rightarrow> bool \<times> int option" where
  "lifecycleUnavailable A p = (\<not> IsPodServiceAvailable A p, None)"

datatype pevent = EvCreate pod | EvDelete pod | EvUpdate "pod option" "pod option" | EvGeneric pod

definition NeedOpsLifecycle :: "api \<Rightarrow> pod option \<Rightarrow> gerr + bool" where
  "NeedOpsLifecycle A newPod =
     (case newPod of None \<Rightarrow> Inl (Panic ''nil pod'') | Some p \<Rightarrow> Inr (ControlledByKusionStack A p))"

fun PodPredicate :: "api \<Rightarrow> pevent \<Rightarrow> gerr + bool" where
  "PodPredicate A (EvCreate p) = NeedOpsLifecycle A (Some p)"
| "PodPredicate A (EvDelete p) = Inr False"
| "PodPredicate A (EvUpdate old new) =
     (if old = None \<and> new = None then Inr False else NeedOpsLifecycle A new)"
| "PodPredicate A (EvGeneric p) = NeedOpsLifecycle A (Some p)"

end
