(* ===== verification/LifecycleProps.thy ===== *)
theory LifecycleProps
  imports LifecycleController
begin

text \<open>
  What a run of the lifecycle controller can change on the server, for any server that
  meets the contract \<open>api_server\<close>: which labels it grants, when, and
  how it waits for its own writes.
\<close>

subsection \<open>Tracking the writes of a run\<close>

definition harmless :: "(pod \<Rightarrow> pod \<Rightarrow> bool) \<Rightarrow> bool" where
  "harmless R \<longleftrightarrow> (\<forall>p q r. R p q \<longrightarrow> R q r \<longrightarrow> R p r)
     \<and> (\<forall>p a c rv. R p (p\<lparr>p_annos := a, p_conds := c, p_rv := rv\<rparr>))"

lemma harmless_trans: "harmless R \<Longrightarrow> R p q \<Longrightarrow> R q r \<Longrightarrow> R p r"
  unfolding harmless_def by blast

lemma harmless_upd:
  assumes "harmless R"
  shows "R p p" "R p (p\<lparr>p_rv := rv\<rparr>)" "R p (p\<lparr>p_annos := a, p_rv := rv\<rparr>)" "R p (p\<lparr>p_conds := c, p_rv := rv\<rparr>)"
proof -
  have R: "R p (p\<lparr>p_annos := a, p_conds := c, p_rv := rv\<rparr>)" for a c rv
    using assms unfolding harmless_def by blast
  show "R p p" "R p (p\<lparr>p_rv := rv\<rparr>)" "R p (p\<lparr>p_annos := a, p_rv := rv\<rparr>)" "R p (p\<lparr>p_conds := c, p_rv := rv\<rparr>)"
    using R [where a = "p_annos p" and c = "p_conds p" and rv = "p_rv p"]
      R [where a = "p_annos p" and c = "p_conds p" and rv = rv]
      R [where a = a and c = "p_conds p" and rv = rv] R [where a = "p_annos p" and c = c and rv = rv] by simp_all
qed

lemma setServiceReadiness_shape:
  "\<exists>c. snd (setServiceReadiness A now p b) = p\<lparr>p_conds := c\<rparr>"
proof (cases "lastCond 0 (svcReadyGate A) (p_conds p) None")
  case None
  then show ?thesis
    by (cases "svcReadyGate A \<in> set (p_gates p)")
      (auto simp: setServiceReadiness_def Let_def intro: exI [of _ "p_conds p"])
next
  case (Some i)
  then show ?thesis
    by (cases "svcReadyGate A \<in> set (p_gates p)"; cases "c_status (p_conds p ! i) = (if b then CTrue else CFalse)")
      (auto simp: setServiceReadiness_def Let_def intro: exI [of _ "p_conds p"])
qed

context api_server begin

definition sameObjs :: "(pod \<Rightarrow> pod \<Rightarrow> bool) \<Rightarrow> 'w \<Rightarrow> 'w \<Rightarrow> bool" where
  "sameObjs R w w' \<longleftrightarrow> (\<forall>k q'. objs w' k = Some q' \<longrightarrow> (\<exists>q. objs w k = Some q \<and> R q q'))"

lemma sameObjs_eq: "harmless R \<Longrightarrow> objs w' = objs w \<Longrightarrow> sameObjs R w w'"
  using harmless_upd(1) by (auto simp: sameObjs_def)

lemma sameObjs_trans: "harmless R \<Longrightarrow> sameObjs R w w1 \<Longrightarrow> sameObjs R w1 w2 \<Longrightarrow> sameObjs R w w2"
  unfolding sameObjs_def by (metis harmless_trans)

lemma sameObjs_wrote:
  "harmless R \<Longrightarrow> wrote w w' k S \<Longrightarrow> (\<And>p q. S p q \<Longrightarrow> R p q) \<Longrightarrow> sameObjs R w w'"
  using harmless_upd(1) by (auto simp: sameObjs_def wrote_def split: if_splits)

lemma expectedWrite_cases:
  assumes "put = cl_update C \<or> put = cl_status C"
    and "\<And>p q. f p = Some q \<Longrightarrow> controllerKey q = controllerKey p"
    and "expectedWrite C put now f s = (r, s')"
  shows "ls_pod s' = ls_pod s"
    and "objs (ls_w s') = objs (ls_w s) \<or> r = None \<and>
      wrote (ls_w s) (ls_w s') (controllerKey (ls_pod s)) (\<lambda>p q. \<exists>q' rv. f p = Some q' \<and> q = q'\<lparr>p_rv := rv\<rparr>)"
proof -
  obtain r' w' where w: "cl_retry C (attempt C put (p_ns (ls_pod s)) (p_name (ls_pod s)) f) (ls_w s) = (r', w')"
    by fastforce
  from assms(3) w have s: "ls_pod s' = ls_pod s" "ls_w s' = w'" "r' = r"
    by (auto simp: expectedWrite_def Let_def)
  show "ls_pod s' = ls_pod s" by (rule s(1))
  show "objs (ls_w s') = objs (ls_w s) \<or> r = None \<and>
      wrote (ls_w s) (ls_w s') (controllerKey (ls_pod s)) (\<lambda>p q. \<exists>q' rv. f p = Some q' \<and> q = q'\<lparr>p_rv := rv\<rparr>)"
    using retry_attempt [OF assms(1,2) w] s by (simp add: controllerKey_def)
qed

lemma expectedWrite_same:
  assumes "harmless R" and "put = cl_update C \<or> put = cl_status C"
    and "\<And>p q. f p = Some q \<Longrightarrow> controllerKey q = controllerKey p"
    and "\<And>p q rv. f p = Some q \<Longrightarrow> R p (q\<lparr>p_rv := rv\<rparr>)"
    and "expectedWrite C put now f s = (r, s')"
  shows "sameObjs R (ls_w s) (ls_w s')"
proof -
  have "objs (ls_w s') = objs (ls_w s) \<or> r = None \<and>
      wrote (ls_w s) (ls_w s') (controllerKey (ls_pod s)) (\<lambda>p q. \<exists>q' rv. f p = Some q' \<and> q = q'\<lparr>p_rv := rv\<rparr>)"
    by (rule expectedWrite_cases(2) [OF assms(2,3,5)])
  then show ?thesis
  proof
    assume "objs (ls_w s') = objs (ls_w s)"
    then show ?thesis by (rule sameObjs_eq [OF assms(1)])
  next
    assume "r = None \<and>
      wrote (ls_w s) (ls_w s') (controllerKey (ls_pod s)) (\<lambda>p q. \<exists>q' rv. f p = Some q' \<and> q = q'\<lparr>p_rv := rv\<rparr>)"
    then have "wrote (ls_w s) (ls_w s') (controllerKey (ls_pod s)) (\<lambda>p q. \<exists>q' rv. f p = Some q' \<and> q = q'\<lparr>p_rv := rv\<rparr>)"
      by (rule conjunct2)
    then show ?thesis by (rule sameObjs_wrote [OF assms(1)]) (use assms(4) in blast)
  qed
qed

lemma updateServiceReadiness_same:
  assumes "harmless R" and "updateServiceReadiness A C now b s = (r, s')"
  shows "sameObjs R (ls_w s) (ls_w s')"
proof -
  obtain need p1 where n: "setServiceReadiness A now (ls_pod s) b = (need, p1)" by fastforce
  let ?f = "\<lambda>q. let (need, q') = setServiceReadiness A now q b in if need then Some q' else None"
  have f: "\<exists>c. q' = q\<lparr>p_conds := c\<rparr>" if "?f q = Some q'" for q q'
  proof -
    obtain c where "snd (setServiceReadiness A now q b) = q\<lparr>p_conds := c\<rparr>"
      using setServiceReadiness_shape by blast
    then show ?thesis using that by (intro exI [of _ c]) (simp add: Let_def split_def split: if_splits)
  qed
  show ?thesis
  proof (cases need)
    case True
    obtain x s2 where x: "expectedWrite C (cl_status C) now ?f (s\<lparr>ls_pod := p1\<rparr>) = (x, s2)" by fastforce
    have "s' = s2" using assms(2) True n x by (auto simp: updateServiceReadiness_def Let_def split: option.splits)
    moreover have "sameObjs R (ls_w (s\<lparr>ls_pod := p1\<rparr>)) (ls_w s2)"
    proof (rule expectedWrite_same [OF assms(1) _ _ _ x])
      show "controllerKey q' = controllerKey q" if "?f q = Some q'" for q q'
        using f [OF that] by (auto simp: controllerKey_def)
      show "R q (q'\<lparr>p_rv := rv\<rparr>)" if "?f q = Some q'" for q q' rv
        using f [OF that] harmless_upd(4) [OF assms(1)] by auto
    qed simp
    ultimately show ?thesis by simp
  next
    case False
    then show ?thesis
      using assms n sameObjs_eq by (auto simp: updateServiceReadiness_def)
  qed
qed

lemma gateLoop_same:
  assumes "harmless R"
  shows "gateLoop A C now phase st idm keeped s = (r, s') \<Longrightarrow> sameObjs R (ls_w s) (ls_w s')"
proof (induction idm arbitrary: keeped s)
  case (Cons e idm)
  obtain i ls where e: "e = (i, ls)" by (cases e)
  obtain x s1 where x: "updateServiceReadiness A C now st s = (x, s1)" by fastforce
  note st = updateServiceReadiness_same [OF assms x]
  show ?case
  proof (cases "lhas ls phase")
    case True
    show ?thesis
      using Cons(2) True st sameObjs_trans [OF assms st] Cons(1) by (cases x) (auto simp: e x)
  qed (use Cons in \<open>simp add: e\<close>)
qed (use sameObjs_eq [OF assms] in simp)

lemma gates_same:
  assumes "harmless R" and "gates A C now idm s = (r, s')"
  shows "sameObjs R (ls_w s) (ls_w s')"
proof -
  obtain x s1 where x: "gateLoop A C now PPreparing False idm False s = (x, s1)" by fastforce
  obtain y s2 where y: "gateLoop A C now PCompleting True idm False s1 = (y, s2)" by fastforce
  note 1 = gateLoop_same [OF assms(1) x] and 2 = gateLoop_same [OF assms(1) y]
  have "s' = s1 \<or> s' = s2"
    using assms(2) by (auto simp: gates_def x y split: sum.splits bool.splits)
  then show ?thesis using 1 sameObjs_trans [OF assms(1) 1 2] by blast
qed

definition current :: "'w lstate \<Rightarrow> bool" where
  "current s \<longleftrightarrow> objs (ls_w s) (controllerKey (ls_pod s)) = Some (ls_pod s)"

lemma removeDirty_same:
  assumes "harmless R" and "current s" and "removeDirtyExpectedFinalizer A C ns s = (r, s')"
  shows "sameObjs R (ls_w s) (ls_w s')" and "r \<noteq> Inr True"
proof -
  show "r \<noteq> Inr True"
    using assms(3) by (auto simp: removeDirtyExpectedFinalizer_def Let_def split: sum.splits option.splits if_splits prod.splits)
  have "s' = s \<or> (\<exists>m r. updateAvailableConditions A C m s = (r, s'))"
    using assms(3) by (auto simp: removeDirtyExpectedFinalizer_def Let_def split: sum.splits option.splits if_splits prod.splits)
  then show "sameObjs R (ls_w s) (ls_w s')"
  proof
    assume "\<exists>m r. updateAvailableConditions A C m s = (r, s')"
    then obtain m r where u: "updateAvailableConditions A C m s = (r, s')" by blast
    let ?p1 = "(ls_pod s)\<lparr>p_annos := mput (availAnno A) (enc_avail A m) (p_annos (ls_pod s))\<rparr>"
    obtain x w' where x: "cl_update C ?p1 (ls_w s) = (x, w')" by fastforce
    have w': "ls_w s' = w'" using u x by (auto simp: updateAvailableConditions_def Let_def split: sum.splits)
    show ?thesis
    proof (cases x)
      case (Inl e)
      then show ?thesis using sameObjs_eq [OF assms(1)] update_err x w' by metis
    next
      case (Inr p2)
      obtain rv where p2: "p2 = ?p1\<lparr>p_rv := rv\<rparr>" and o: "objs w' = (objs (ls_w s))(controllerKey ?p1 \<mapsto> p2)"
        using update_ok x Inr by blast
      have k: "controllerKey ?p1 = controllerKey (ls_pod s)" by (simp add: controllerKey_def)
      have "R (ls_pod s) p2" using harmless_upd(3) [OF assms(1), of "ls_pod s"] unfolding p2 by simp
      then show ?thesis
        using assms(2) harmless_upd(1) [OF assms(1)] by (auto simp: sameObjs_def w' o k current_def)
    qed
  qed (use sameObjs_eq [OF assms(1)] in simp)
qed

lemma addServiceAvailable_cases:
  assumes "harmless R" and "current s" and "addServiceAvailable A C now stamp s = (r, s')"
  shows "sameObjs R (ls_w s) (ls_w s')
    \<or> r = Inr True \<and> (\<exists>ns. IsExpectedFinalizerSatisfied A (ls_pod s) = Inr (True, ns)) \<and> IsPodReady (ls_pod s)
      \<and> wrote (ls_w s) (ls_w s') (controllerKey (ls_pod s)) (\<lambda>p q. \<exists>rv. q = (markAvailable A stamp p)\<lparr>p_rv := rv\<rparr>)"
proof -
  let ?f = "\<lambda>q. Some (markAvailable A stamp q)"
  obtain x s2 where x: "expectedWrite C (cl_update C) now ?f s = (x, s2)" by fastforce
  have e: "objs (ls_w s2) = objs (ls_w s) \<or> x = None \<and>
      wrote (ls_w s) (ls_w s2) (controllerKey (ls_pod s)) (\<lambda>p q. \<exists>rv. q = (markAvailable A stamp p)\<lparr>p_rv := rv\<rparr>)"
    using expectedWrite_cases(2) [OF _ _ x] by (simp add: controllerKey_def markAvailable_def)
  consider "s' = s" | ns s1 x1 where "removeDirtyExpectedFinalizer A C ns s = (x1, s1)" "x1 \<noteq> Inr True \<Longrightarrow> s' = s1"
    | ns where "IsExpectedFinalizerSatisfied A (ls_pod s) = Inr (True, ns)" "IsPodReady (ls_pod s)" "s' = s2"
        "x = None \<Longrightarrow> r = Inr True"
    using assms(3)
    by (auto simp: addServiceAvailable_def x split: if_splits sum.splits option.splits prod.splits bool.splits)
  then show ?thesis
  proof cases
    case 1
    then show ?thesis using sameObjs_eq [OF assms(1)] by simp
  next
    case 2
    then show ?thesis using removeDirty_same [OF assms(1,2) 2(1)] by blast
  next
    case 3
    show ?thesis
      using e
    proof
      assume "objs (ls_w s2) = objs (ls_w s)"
      then show ?thesis using sameObjs_eq [OF assms(1)] 3 by blast
    qed (use 3 in blast)
  qed
qed

definition lcSame :: "api \<Rightarrow> pod \<Rightarrow> pod \<Rightarrow> bool" where
  "lcSame A p q \<longleftrightarrow> (\<forall>x i. mget (p_labels q) (key A x i) = mget (p_labels p) (key A x i))"

lemma lcSame_harmless: "harmless (lcSame A)"
  by (simp add: harmless_def lcSame_def)

lemma lcSame_markAvailable: "api_ok A \<Longrightarrow> lcSame A p ((markAvailable A stamp p)\<lparr>p_rv := rv\<rparr>)"
  by (simp add: lcSame_def markAvailable_def label_simps)

lemma online_same:
  assumes "api_ok A" and "current s" and "online A C now stamp s = (r, s')"
  shows "sameObjs (lcSame A) (ls_w s) (ls_w s')"
proof -
  obtain x s1 where x: "addServiceAvailable A C now stamp s = (x, s1)" by fastforce
  obtain y s2 where y: "updateServiceReadiness A C now True s1 = (y, s2)" by fastforce
  have 1: "sameObjs (lcSame A) (ls_w s) (ls_w s1)"
    using addServiceAvailable_cases [OF lcSame_harmless assms(2) x]
  proof
    assume "x = Inr True \<and> (\<exists>ns. IsExpectedFinalizerSatisfied A (ls_pod s) = Inr (True, ns)) \<and> IsPodReady (ls_pod s)
      \<and> wrote (ls_w s) (ls_w s1) (controllerKey (ls_pod s)) (\<lambda>p q. \<exists>rv. q = (markAvailable A stamp p)\<lparr>p_rv := rv\<rparr>)"
    then have "wrote (ls_w s) (ls_w s1) (controllerKey (ls_pod s)) (\<lambda>p q. \<exists>rv. q = (markAvailable A stamp p)\<lparr>p_rv := rv\<rparr>)"
      by blast
    then show ?thesis
      by (rule sameObjs_wrote [OF lcSame_harmless]) (use lcSame_markAvailable [OF assms(1)] in blast)
  qed
  note 2 = updateServiceReadiness_same [OF lcSame_harmless [of A] y]
  have "s' = s1 \<or> s' = s2"
    using assms(3) by (auto simp: online_def x y split: sum.splits bool.splits)
  then show ?thesis using 1 sameObjs_trans [OF lcSame_harmless 1 2] by blast
qed

lemma reconcileStages_cases:
  assumes "api_ok A" and "ld_client D = C" and "reconcileStages A D now stamp idm s = (r, s')"
  shows "sameObjs (lcSame A) (ls_w s) (ls_w s') \<or>
    (\<exists>cs. ld_state D (ls_w s) (ls_pod s) = Inr cs \<and> idm \<noteq> [] \<and> InStageAndPassed cs \<and>
       wrote (ls_w s) (ls_w s') (controllerKey (ls_pod s))
         (\<lambda>p q. \<exists>rv. q = p\<lparr>p_labels := mputs (stageLabels A D stamp (ls_pod s) idm cs) (p_labels p), p_rv := rv\<rparr>))"
proof (cases "ld_state D (ls_w s) (ls_pod s)")
  case st: (Inr cs)
  let ?l = "stageLabels A D stamp (ls_pod s) idm cs"
  show ?thesis
  proof (cases "?l = []")
    case True
    obtain x s1 where x: "gates A C now idm s = (x, s1)" by fastforce
    obtain y s2 where y: "removeLabels C now [svcAvailL A] s1 = (y, s2)" by fastforce
    note 1 = gates_same [OF lcSame_harmless [of A] x]
    have y': "expectedWrite C (cl_update C) now
        (\<lambda>q. Some (q\<lparr>p_labels := mdels [svcAvailL A] (p_labels q)\<rparr>)) s1 = (y, s2)"
      using y by (simp add: removeLabels_def)
    have 2: "sameObjs (lcSame A) (ls_w s1) (ls_w s2)"
      by (rule expectedWrite_same [OF lcSame_harmless _ _ _ y'])
        (auto simp: controllerKey_def lcSame_def label_simps assms(1))
    have "s' = s1 \<or> s' = s2"
      using assms(2,3) st True x y by (auto simp: reconcileStages_def Let_def split: option.splits if_splits)
    then show ?thesis using 1 sameObjs_trans [OF lcSame_harmless 1 2] by blast
  next
    case False
    then have "idm \<noteq> []" "InStageAndPassed cs"
      by (auto simp: stageLabels_def split: if_splits)
    have w: "expectedWrite C (cl_update C) now (\<lambda>q. Some (q\<lparr>p_labels := mputs ?l (p_labels q)\<rparr>)) s = (r, s')"
      using assms(2,3) st False by (simp add: reconcileStages_def Let_def addLabels_def)
    have "objs (ls_w s') = objs (ls_w s) \<or> r = None \<and> wrote (ls_w s) (ls_w s') (controllerKey (ls_pod s))
        (\<lambda>p q. \<exists>rv. q = p\<lparr>p_labels := mputs ?l (p_labels p), p_rv := rv\<rparr>)"
      using expectedWrite_cases(2) [OF _ _ w] by (simp add: controllerKey_def)
    then show ?thesis
    proof
      assume "objs (ls_w s') = objs (ls_w s)"
      then show ?thesis using sameObjs_eq [OF lcSame_harmless] by blast
    qed (use st \<open>idm \<noteq> []\<close> \<open>InStageAndPassed cs\<close> in blast)
  qed
qed (use assms(3) sameObjs_eq [OF lcSame_harmless] in \<open>simp add: reconcileStages_def\<close>)

lemma Reconcile_cases:
  assumes "api_ok A" and "ld_client D = C" and "Reconcile A D now stamp ns n ex w = (r, ex', w')"
  shows "sameObjs (lcSame A) w w' \<or>
    (\<exists>p idm nums cs. cl_get C w ns n = Inr p \<and> rvSatisfiedExpectations (ns @ ''/'' @ n) (p_rv p) now ex = Inr True
       \<and> \<not> p_deleting p \<and> IDToLabelsMap A p = Inr (idm, nums)
       \<and> ld_state D w p = Inr cs \<and> InStageAndPassed cs \<and>
       wrote w w' (ns @ ''/'' @ n)
         (\<lambda>p0 q. \<exists>rv. q = p0\<lparr>p_labels := mputs (stageLabels A D stamp p idm cs) (p_labels p0), p_rv := rv\<rparr>))"
proof (cases "w' = w")
  case False
  then obtain p where p: "cl_get C w ns n = Inr p"
    "rvSatisfiedExpectations (ns @ ''/'' @ n) (p_rv p) now ex = Inr True" "\<not> p_deleting p"
    using assms(2,3) by (auto simp: Reconcile_def Let_def split: sum.splits bool.splits if_splits)
  let ?s = "\<lparr>ls_pod = p, ls_exp = ex, ls_w = w\<rparr>"
  note g = get_current [OF p(1)]
  have k: "controllerKey p = ns @ ''/'' @ n" using g by (simp add: controllerKey_def)
  have cur: "current ?s" using g k by (simp add: current_def)
  obtain x s' where x: "reconcilePod A D now stamp ?s = (x, s')" by fastforce
  have w': "w' = ls_w s'" using assms(2,3) p x by (simp add: Reconcile_def Let_def)
  obtain idm nums where id: "IDToLabelsMap A p = Inr (idm, nums)"
    using x False w' by (cases "IDToLabelsMap A p") (auto simp: reconcilePod_def)
  show ?thesis
  proof (cases "idm = [] \<and> \<not> mhas (p_labels p) (stayOfflineL A)")
    case True
    obtain y s1 where y: "online A C now stamp ?s = (y, s1)" by fastforce
    obtain z s2 where z: "reconcileStages A D now stamp [] s1 = (z, s2)" by fastforce
    note 1 = online_same [OF assms(1) cur y]
    have 2: "sameObjs (lcSame A) (ls_w s1) (ls_w s2)"
      using reconcileStages_cases [OF assms(1,2) z] by simp
    have "s' = s1 \<or> s' = s2"
      using x True id y z assms(2) by (auto simp: reconcilePod_def split: sum.splits bool.splits)
    then show ?thesis using 1 sameObjs_trans [OF lcSame_harmless 1 2] by (auto simp: w')
  next
    case False
    then have z: "reconcileStages A D now stamp idm ?s = (x, s')"
      using x id by (auto simp: reconcilePod_def)
    from reconcileStages_cases [OF assms(1,2) z] show ?thesis
    proof
      assume "\<exists>cs. ld_state D (ls_w ?s) (ls_pod ?s) = Inr cs \<and> idm \<noteq> [] \<and> InStageAndPassed cs \<and>
       wrote (ls_w ?s) (ls_w s') (controllerKey (ls_pod ?s))
         (\<lambda>p0 q. \<exists>rv. q = p0\<lparr>p_labels := mputs (stageLabels A D stamp (ls_pod ?s) idm cs) (p_labels p0), p_rv := rv\<rparr>)"
      then show ?thesis using p id by (auto simp: k w')
    qed (simp add: w')
  qed
qed (use sameObjs_eq [OF lcSame_harmless] in simp)

end

subsection \<open>The labels of a stage\<close>

lemma preCheckStage_keys:
  "mhas (preCheckStage A stamp p idm labels) k \<Longrightarrow> mhas labels k \<or>
     (\<exists>i ls. (i, ls) \<in> set idm \<and> (k = key A PPreChecked i \<or> (\<exists>t. k = key A POperationPermission t)))"
proof (induction idm arbitrary: labels)
  case (Cons e idm)
  obtain i ls where e: "e = (i, ls)" by (cases e)
  show ?case
  proof (cases "map_of ls POperationType")
    case (Some t)
    let ?l1 = "if mhas (p_labels p) (key A POperationPermission t) then labels else mput (key A POperationPermission t) stamp labels"
    let ?l2 = "if mhas (p_labels p) (key A PPreChecked i) then ?l1 else mput (key A PPreChecked i) stamp ?l1"
    have "mhas (preCheckStage A stamp p idm ?l2) k" using Cons(2) Some by (simp add: e Let_def)
    from Cons(1) [OF this] show ?thesis by (auto simp: e split: if_splits)
  qed (use Cons in \<open>auto simp: e\<close>)
qed simp

lemma postCheckStage_keys:
  "mhas (postCheckStage A stamp p idm labels) k \<Longrightarrow> mhas labels k \<or>
     (\<exists>i ls. (i, ls) \<in> set idm \<and> k = key A PPostChecked i)"
proof (induction idm arbitrary: labels)
  case (Cons e idm)
  obtain i ls where e: "e = (i, ls)" by (cases e)
  let ?l = "if mhas (p_labels p) (key A PPostChecked i) then labels else mput (key A PPostChecked i) stamp labels"
  have "mhas (postCheckStage A stamp p idm ?l) k" using Cons(2) by (simp add: e Let_def)
  from Cons(1) [OF this] show ?case by (auto simp: e split: if_splits)
qed simp

lemma stageLabels_grant:
  assumes "api_ok A" and "x = PPreChecked \<or> x = POperationPermission"
    and "mhas (stageLabels A D stamp p idm cs) (key A x i)"
  shows "InStageAndPassed cs \<and> cs_stage cs = ld_pre D"
proof (rule ccontr)
  assume "\<not> ?thesis"
  with assms(3) have "mhas (postCheckStage A stamp p idm []) (key A x i)"
    by (auto simp: stageLabels_def split: if_splits)
  from postCheckStage_keys [OF this] assms(1,2) show False by (auto simp: label_simps)
qed

context api_server begin

lemma precheck_grant:
  assumes "api_ok A" and "ld_client D = C"
    and "Reconcile A D now stamp ns n ex w = (r, ex', w')"
    and "objs w k = Some q" and "objs w' k = Some q'"
    and "x = PPreChecked \<or> x = POperationPermission"
    and "\<not> mhas (p_labels q) (key A x i)" and "mhas (p_labels q') (key A x i)"
  shows "k = ns @ ''/'' @ n \<and> (\<exists>p cs. cl_get C w ns n = Inr p
    \<and> rvSatisfiedExpectations k (p_rv p) now ex = Inr True
    \<and> ld_state D w p = Inr cs \<and> InStageAndPassed cs \<and> cs_stage cs = ld_pre D)"
  using Reconcile_cases [OF assms(1-3)]
proof
  assume "sameObjs (lcSame A) w w'"
  then have "lcSame A q q'" using assms(4,5) unfolding sameObjs_def by fastforce
  then show ?thesis using assms(7,8) by (simp add: lcSame_def mhas_def)
next
  assume "\<exists>p idm nums cs. cl_get C w ns n = Inr p
      \<and> rvSatisfiedExpectations (ns @ ''/'' @ n) (p_rv p) now ex = Inr True
      \<and> \<not> p_deleting p \<and> IDToLabelsMap A p = Inr (idm, nums)
      \<and> ld_state D w p = Inr cs \<and> InStageAndPassed cs \<and>
      wrote w w' (ns @ ''/'' @ n)
        (\<lambda>p0 q. \<exists>rv. q = p0\<lparr>p_labels := mputs (stageLabels A D stamp p idm cs) (p_labels p0), p_rv := rv\<rparr>)"
  then obtain p idm nums cs where c: "cl_get C w ns n = Inr p"
    "rvSatisfiedExpectations (ns @ ''/'' @ n) (p_rv p) now ex = Inr True" "ld_state D w p = Inr cs"
    and wr: "wrote w w' (ns @ ''/'' @ n)
        (\<lambda>p0 q. \<exists>rv. q = p0\<lparr>p_labels := mputs (stageLabels A D stamp p idm cs) (p_labels p0), p_rv := rv\<rparr>)"
    by blast
  let ?l = "stageLabels A D stamp p idm cs"
  from wr obtain p0 q0 rv where o: "objs w (ns @ ''/'' @ n) = Some p0"
    "q0 = p0\<lparr>p_labels := mputs ?l (p_labels p0), p_rv := rv\<rparr>" "objs w' = (objs w)(ns @ ''/'' @ n \<mapsto> q0)"
    by (auto simp: wrote_def)
  have k: "k = ns @ ''/'' @ n"
    using assms(4,5,7,8) o(3) by (auto split: if_splits)
  have "mhas ?l (key A x i)"
  proof (rule ccontr)
    assume "\<not> mhas ?l (key A x i)"
    then have "mget (mputs ?l (p_labels p0)) (key A x i) = mget (p_labels p0) (key A x i)"
      by (intro mget_mputs_notin) (simp add: mhas_iff)
    then show False using assms(4,5,7,8) o k by (auto simp: mhas_def)
  qed
  from stageLabels_grant [OF assms(1,6) this] show ?thesis using c k by blast
qed

end

text \<open>A run of the controller puts a pre-checked or an operation-permission label on an object
  only if it read that object, its expectations for the version it read were met, and
  the rule state of the pod is in the pre-check stage and passed.\<close>

theorem precheck_needs_passed_state:
  assumes "api_ok A" and "api_server (ld_client D) objs"
    and "Reconcile A D now stamp ns n ex w = (r, ex', w')"
    and "objs w k = Some q" and "objs w' k = Some q'"
    and "x = PPreChecked \<or> x = POperationPermission"
    and "\<not> mhas (p_labels q) (key A x i)" and "mhas (p_labels q') (key A x i)"
  shows "k = ns @ ''/'' @ n \<and> (\<exists>p cs. cl_get (ld_client D) w ns n = Inr p
    \<and> rvSatisfiedExpectations k (p_rv p) now ex = Inr True
    \<and> ld_state D w p = Inr cs \<and> InStageAndPassed cs \<and> cs_stage cs = ld_pre D)"
  by (rule api_server.precheck_grant [OF assms(2,1) refl assms(3-8)])

subsection \<open>The service-available label\<close>

definition svcSame :: "api \<Rightarrow> pod \<Rightarrow> pod \<Rightarrow> bool" where
  "svcSame A p q \<longleftrightarrow> (mhas (p_labels q) (svcAvailL A) \<longrightarrow> mhas (p_labels p) (svcAvailL A))"

lemma svcSame_harmless: "harmless (svcSame A)"
  by (auto simp: harmless_def svcSame_def)

lemma stageLabels_no_svc:
  assumes "api_ok A"
  shows "\<not> mhas (stageLabels A D stamp p idm cs) (svcAvailL A)"
proof
  assume "mhas (stageLabels A D stamp p idm cs) (svcAvailL A)"
  then have "mhas (preCheckStage A stamp p idm []) (svcAvailL A) \<or> mhas (postCheckStage A stamp p idm []) (svcAvailL A)"
    by (auto simp: stageLabels_def split: if_splits)
  then show False
    using preCheckStage_keys [of A stamp p idm "[]" "svcAvailL A"] postCheckStage_keys [of A stamp p idm "[]" "svcAvailL A"]
      key_not_plain [OF assms] by auto
qed

lemma mhas_mputs: "mhas (mputs kvs m) k \<Longrightarrow> mhas kvs k \<or> mhas m k"
  using mget_mputs_notin [of k kvs m] unfolding mhas_iff [of kvs]
  by (cases "k \<in> fst ` set kvs") (simp_all add: mhas_def)

context api_server begin

lemma reconcileStages_svc:
  assumes "api_ok A" and "ld_client D = C" and "reconcileStages A D now stamp idm s = (r, s')"
  shows "sameObjs (svcSame A) (ls_w s) (ls_w s')"
proof (cases "ld_state D (ls_w s) (ls_pod s)")
  case st: (Inr cs)
  let ?l = "stageLabels A D stamp (ls_pod s) idm cs"
  show ?thesis
  proof (cases "?l = []")
    case True
    obtain x s1 where x: "gates A C now idm s = (x, s1)" by fastforce
    obtain y s2 where y: "removeLabels C now [svcAvailL A] s1 = (y, s2)" by fastforce
    note 1 = gates_same [OF svcSame_harmless [of A] x]
    have y': "expectedWrite C (cl_update C) now
        (\<lambda>q. Some (q\<lparr>p_labels := mdels [svcAvailL A] (p_labels q)\<rparr>)) s1 = (y, s2)"
      using y by (simp add: removeLabels_def)
    have 2: "sameObjs (svcSame A) (ls_w s1) (ls_w s2)"
      by (rule expectedWrite_same [OF svcSame_harmless _ _ _ y']) (auto simp: controllerKey_def svcSame_def)
    have "s' = s1 \<or> s' = s2"
      using assms(2,3) st True x y by (auto simp: reconcileStages_def Let_def split: option.splits if_splits)
    then show ?thesis using 1 sameObjs_trans [OF svcSame_harmless 1 2] by blast
  next
    case False
    then have w: "expectedWrite C (cl_update C) now (\<lambda>q. Some (q\<lparr>p_labels := mputs ?l (p_labels q)\<rparr>)) s = (r, s')"
      using assms(2,3) st by (simp add: reconcileStages_def Let_def addLabels_def)
    show ?thesis
      by (rule expectedWrite_same [OF svcSame_harmless _ _ _ w])
        (auto simp: controllerKey_def svcSame_def dest!: mhas_mputs simp: stageLabels_no_svc [OF assms(1)])
  qed
qed (use assms(3) sameObjs_eq [OF svcSame_harmless] in \<open>simp add: reconcileStages_def\<close>)

lemma available_grant:
  assumes "api_ok A" and "ld_client D = C"
    and "Reconcile A D now stamp ns n ex w = (r, ex', w')"
    and "objs w k = Some q" and "objs w' k = Some q'"
    and "\<not> mhas (p_labels q) (svcAvailL A)" and "mhas (p_labels q') (svcAvailL A)"
  shows "k = ns @ ''/'' @ n \<and> cl_get C w ns n = Inr q
    \<and> rvSatisfiedExpectations k (p_rv q) now ex = Inr True \<and> \<not> p_deleting q
    \<and> (\<exists>nums. IDToLabelsMap A q = Inr ([], nums)) \<and> \<not> mhas (p_labels q) (stayOfflineL A)
    \<and> (\<exists>ns. IsExpectedFinalizerSatisfied A q = Inr (True, ns)) \<and> IsPodReady q
    \<and> \<not> mhas (p_labels q') (creatingL A) \<and> \<not> mhas (p_labels q') (completingL A)"
proof -
  have ns: "\<not> sameObjs (svcSame A) w w'"
    using assms(4-7) unfolding sameObjs_def svcSame_def by fastforce
  then have "w' \<noteq> w" using sameObjs_eq [OF svcSame_harmless] by blast
  then obtain p where p: "cl_get C w ns n = Inr p"
    "rvSatisfiedExpectations (ns @ ''/'' @ n) (p_rv p) now ex = Inr True" "\<not> p_deleting p"
    using assms(2,3) by (auto simp: Reconcile_def Let_def split: sum.splits bool.splits if_splits)
  let ?s = "\<lparr>ls_pod = p, ls_exp = ex, ls_w = w\<rparr>"
  note g = get_current [OF p(1)]
  have kp: "controllerKey p = ns @ ''/'' @ n" using g by (simp add: controllerKey_def)
  have cur: "current ?s" using g kp by (simp add: current_def)
  obtain x s' where x: "reconcilePod A D now stamp ?s = (x, s')" by fastforce
  have w': "w' = ls_w s'" using assms(2,3) p x by (simp add: Reconcile_def Let_def)
  obtain idm nums where id: "IDToLabelsMap A p = Inr (idm, nums)"
    using x \<open>w' \<noteq> w\<close> w' by (cases "IDToLabelsMap A p") (auto simp: reconcilePod_def)
  have on: "idm = [] \<and> \<not> mhas (p_labels p) (stayOfflineL A)"
  proof (rule ccontr)
    assume "\<not> ?thesis"
    then have "reconcileStages A D now stamp idm ?s = (x, s')" using x id by (auto simp: reconcilePod_def)
    from reconcileStages_svc [OF assms(1,2) this] ns show False by (simp add: w')
  qed
  obtain y s1 where y: "addServiceAvailable A C now stamp ?s = (y, s1)" by fastforce
  obtain y2 s2 where y2: "updateServiceReadiness A C now True s1 = (y2, s2)" by fastforce
  obtain z s3 where z: "reconcileStages A D now stamp [] s2 = (z, s3)" by fastforce
  note t = sameObjs_trans [OF svcSame_harmless]
  note 2 = updateServiceReadiness_same [OF svcSame_harmless [of A] y2] and 3 = reconcileStages_svc [OF assms(1,2) z]
  have s': "s' = s1 \<or> y = Inr False \<and> (s' = s2 \<or> s' = s3)"
    using x on id y y2 z assms(2) by (auto simp: reconcilePod_def online_def split: sum.splits bool.splits)
  have "\<not> sameObjs (svcSame A) w (ls_w s1)"
  proof
    assume "sameObjs (svcSame A) w (ls_w s1)"
    from this t [OF this 2] t [OF t [OF this 2] 3] s' ns show False unfolding w' by metis
  qed
  with addServiceAvailable_cases [OF svcSame_harmless cur y]
  have a: "y = Inr True" "\<exists>ns. IsExpectedFinalizerSatisfied A p = Inr (True, ns)" "IsPodReady p"
    and wr: "wrote w (ls_w s1) (ns @ ''/'' @ n) (\<lambda>p q. \<exists>rv. q = (markAvailable A stamp p)\<lparr>p_rv := rv\<rparr>)"
    by (auto simp: kp)
  have "s' = s1" using s' a(1) by auto
  with wr w' obtain p0 rv where o: "objs w (ns @ ''/'' @ n) = Some p0"
    "objs w' = (objs w)(ns @ ''/'' @ n \<mapsto> (markAvailable A stamp p0)\<lparr>p_rv := rv\<rparr>)"
    by (auto simp: wrote_def)
  have k: "k = ns @ ''/'' @ n" using assms(4-7) o(2) by (auto split: if_splits)
  have q: "q = p" using g assms(4) k by simp
  have q': "q' = (markAvailable A stamp p0)\<lparr>p_rv := rv\<rparr>" using assms(5) o(2) k by simp
  show ?thesis
    using p a(2,3) id on by (simp add: k q q' markAvailable_def)
qed

end

text \<open>A run of the controller makes a pod available to traffic only if it read that very
  pod with its expectations met, the pod is not being deleted, has no lifecycle left and need
  not stay offline, all its expected finalizers are there and it is ready; the creating and completing labels
  are gone then.\<close>

theorem available_only_when_ready:
  assumes "api_ok A" and "api_server (ld_client D) objs"
    and "Reconcile A D now stamp ns n ex w = (r, ex', w')"
    and "objs w k = Some q" and "objs w' k = Some q'"
    and "\<not> mhas (p_labels q) (svcAvailL A)" and "mhas (p_labels q') (svcAvailL A)"
  shows "k = ns @ ''/'' @ n \<and> cl_get (ld_client D) w ns n = Inr q
    \<and> rvSatisfiedExpectations k (p_rv q) now ex = Inr True \<and> \<not> p_deleting q
    \<and> (\<exists>nums. IDToLabelsMap A q = Inr ([], nums)) \<and> \<not> mhas (p_labels q) (stayOfflineL A)
    \<and> (\<exists>ns. IsExpectedFinalizerSatisfied A q = Inr (True, ns)) \<and> IsPodReady q
    \<and> \<not> mhas (p_labels q') (creatingL A) \<and> \<not> mhas (p_labels q') (completingL A)"
  by (rule api_server.available_grant [OF assms(2,1) refl assms(3-7)])

end
