(* ===== verification/LifecycleWebhook.thy ===== *)
theory LifecycleWebhook
  imports LifecycleOps
begin

text \<open>
  \<^verbatim>\<open>pkg/webhook/server/generic/pod/opslifecycle\<close>: the admission webhook that advances the
  lifecycles of a pod on every create and update (\<open>Mutating\<close>), and the one that checks the form
  of the labels (\<open>Validating\<close>).

  The first loop of \<open>Mutating\<close> is \<open>mutateId\<close> run over the entries of \<open>IDToLabelsMap\<close>; its
  state is the record \<open>mstate\<close> (the pod and the four counters).  As in the code, the tests of an
  iteration look at the labels as they were when \<open>IDToLabelsMap\<close> read them.
  A time stamp is a function of the label it is written to, since the code
  reads the clock for every label.
\<close>

datatype operation = OpCreate | OpUpdate | OpDelete | OpConnect

definition addLabelWithTime :: "(string \<Rightarrow> string) \<Rightarrow> string \<Rightarrow> pod \<Rightarrow> pod" where
  "addLabelWithTime stamp k p = setLabel k (stamp k) p"

definition addReadinessGates :: "string \<Rightarrow> pod \<Rightarrow> pod" where
  "addReadinessGates g p =
     (if g \<in> set (p_gates p) then p else p\<lparr>p_gates := p_gates p @ [g]\<rparr>)"

definition readyToOperate :: "api \<Rightarrow> pod option \<Rightarrow> bool" where
  "readyToOperate A po =
     (case po of
        None \<Rightarrow> False
      | Some p \<Rightarrow>
          (case GetPodCondition p (svcReadyGate A) of
             None \<Rightarrow> True
           | Some (_, c) \<Rightarrow>
               if GetProtectionFinalizers A p \<noteq> [] then False else c_status c = CFalse))"

record mstate =
  m_pod :: pod
  nOperating :: nat
  nOperate :: nat
  nOperated :: nat
  nComplete :: nat
  undoNums :: "nat gomap"

definition incIf :: "bool \<Rightarrow> nat \<Rightarrow> nat" where
  "incIf b n = (if b then Suc n else n)"

definition delLabels :: "string list \<Rightarrow> pod \<Rightarrow> pod" where
  "delLabels ks p = p\<lparr>p_labels := mdels ks (p_labels p)\<rparr>"

definition operatingStep :: "api \<Rightarrow> (string \<Rightarrow> string) \<Rightarrow> string \<Rightarrow> idlabels \<Rightarrow> pod \<Rightarrow> pod" where
  "operatingStep A stamp i ls p =
     (if lhas ls PPreChecked
      then (let p1 = delLabel (key A PPreCheck i) p;
                p2 = (if \<not> lhas ls PPreparing \<and> \<not> lhas ls POperate
                      then addLabelWithTime stamp (key A PPreparing i) (delLabel (svcAvailL A) p1)
                      else p1)
            in if \<not> lhas ls POperate \<and> readyToOperate A (Some p2)
               then addLabelWithTime stamp (key A POperate i) (delLabel (key A PPreparing i) p2)
               else p2)
      else if \<not> lhas ls PPreCheck then addLabelWithTime stamp (key A PPreCheck i) p else p)"

definition postCheckedStep :: "api \<Rightarrow> (string \<Rightarrow> string) \<Rightarrow> string \<Rightarrow> idlabels \<Rightarrow> pod \<Rightarrow> pod" where
  "postCheckedStep A stamp i ls p =
     (if lhas ls PPostChecked
      then (let p1 = delLabel (key A PPostCheck i) p
            in if \<not> lhas ls PCompleting then addLabelWithTime stamp (key A PCompleting i) p1 else p1)
      else p)"

definition undoClean :: "api \<Rightarrow> string \<Rightarrow> pod \<Rightarrow> pod" where
  "undoClean A i p =
     delLabel (key A PUndoOperationType i) (delLabels (map (\<lambda>q. key A q i) (wellKnown A)) p)"

definition mutateId :: "api \<Rightarrow> (string \<Rightarrow> string) \<Rightarrow> string \<Rightarrow> idlabels \<Rightarrow> mstate \<Rightarrow> mstate" where
  "mutateId A stamp i ls s =
     (case map_of ls PUndoOperationType of
        Some t \<Rightarrow>
          s\<lparr>undoNums := bumpType t (undoNums s),
            m_pod := undoClean A i (m_pod s)\<rparr>
      | None \<Rightarrow>
          (let p1 = (if lhas ls POperating then operatingStep A stamp i ls (m_pod s) else m_pod s)
           in s\<lparr>m_pod := postCheckedStep A stamp i ls p1,
                nOperating := incIf (lhas ls POperating) (nOperating s),
                nOperate := incIf (lhas ls POperate) (nOperate s),
                nOperated := incIf (lhas ls POperated) (nOperated s),
                nComplete := incIf (lhas ls PCompleting) (nComplete s)\<rparr>))"

fun mutateLoop :: "api \<Rightarrow> (string \<Rightarrow> string) \<Rightarrow> idlabels gomap \<Rightarrow> mstate \<Rightarrow> mstate" where
  "mutateLoop A stamp [] s = s"
| "mutateLoop A stamp ((i, ls) # m) s = mutateLoop A stamp m (mutateId A stamp i ls s)"

fun resetPermissions :: "api \<Rightarrow> nat gomap \<Rightarrow> nat gomap \<Rightarrow> pod \<Rightarrow> pod" where
  "resetPermissions A nums [] p = p"
| "resetPermissions A nums ((t, n) # m) p =
     resetPermissions A nums m
       (if n = cnt nums t then delLabel (key A POperationPermission t) p else p)"

definition lifecycleLabels :: "pfx list" where
  "lifecycleLabels = [POperate, POperated, PDoneOperationType, PPostCheck, PPostChecked, PCompleting]"

fun completeLoop :: "api \<Rightarrow> idlabels gomap \<Rightarrow> pod \<Rightarrow> pod" where
  "completeLoop A [] p = p"
| "completeLoop A ((i, ls) # m) p = completeLoop A m (delLabels (map (\<lambda>q. key A q i) lifecycleLabels) p)"

definition operatedId :: "api \<Rightarrow> (string \<Rightarrow> string) \<Rightarrow> idlabels gomap \<Rightarrow> string \<Rightarrow> idlabels
    \<Rightarrow> pod \<times> nat \<Rightarrow> pod \<times> nat" where
  "operatedId A stamp old i ls pn =
     (let (p, n) = pn;
          p1 = delLabel (key A PPreChecked i) p;
          (p2, n2) = (if \<not> lhas ls POperated
                      then (addLabelWithTime stamp (key A POperated i) (delLabel (key A POperate i) p1), Suc n)
                      else (p1, n))
      in case mget old i of
           None \<Rightarrow> (p2, n2)
         | Some ols \<Rightarrow>
             (case map_of ols POperationType of
                None \<Rightarrow> (p2, n2)
              | Some t \<Rightarrow>
                  (setLabel (key A PDoneOperationType i) t
                     (delLabel (key A POperationType i) (delLabel (key A POperationPermission t) p2)), n2)))"

fun operatedLoop :: "api \<Rightarrow> (string \<Rightarrow> string) \<Rightarrow> idlabels gomap \<Rightarrow> idlabels gomap
    \<Rightarrow> pod \<times> nat \<Rightarrow> pod \<times> nat" where
  "operatedLoop A stamp old [] pn = pn"
| "operatedLoop A stamp old ((i, ls) # m) pn = operatedLoop A stamp old m (operatedId A stamp old i ls pn)"

fun postCheckLoop :: "api \<Rightarrow> (string \<Rightarrow> string) \<Rightarrow> idlabels gomap \<Rightarrow> pod \<Rightarrow> pod" where
  "postCheckLoop A stamp [] p = p"
| "postCheckLoop A stamp ((i, ls) # m) p =
     postCheckLoop A stamp m
       (if \<not> lhas ls PPostCheck \<and> \<not> lhas ls PPostChecked
        then addLabelWithTime stamp (key A PPostCheck i) p else p)"

text \<open>
  The part after the first loop.  \<open>IDToLabelsMap\<close> dereferences its argument, so a missing old
  pod (a create request) is a panic.
\<close>

definition mutateTail :: "api \<Rightarrow> (string \<Rightarrow> string) \<Rightarrow> pod option \<Rightarrow> idlabels gomap \<Rightarrow> nat gomap
    \<Rightarrow> mstate \<Rightarrow> gerr + pod" where
  "mutateTail A stamp oldPod idm nums s =
     (let p = resetPermissions A nums (undoNums s) (m_pod s); n = length idm
      in if nOperating s \<noteq> 0 then Inr p
         else if nComplete s = n
         then (case IsExpectedFinalizerSatisfied A p of
                 Inl e \<Rightarrow> Inl e
               | Inr (satisfied, _) \<Rightarrow> if \<not> satisfied then Inr p else Inr (completeLoop A idm p))
         else (case (if nOperate s = n
                     then (case oldPod of
                             None \<Rightarrow> Inl (Panic ''nil pod'')
                           | Some op \<Rightarrow>
                               (case IDToLabelsMap A op of
                                  Inl e \<Rightarrow> Inl e
                                | Inr (old, _) \<Rightarrow> Inr (operatedLoop A stamp old idm (p, nOperated s))))
                     else Inr (p, nOperated s)) of
                 Inl e \<Rightarrow> Inl e
               | Inr (p', operated) \<Rightarrow>
                   Inr (if operated = n then postCheckLoop A stamp idm p' else p')))"

definition Mutating :: "api \<Rightarrow> (string \<Rightarrow> string) \<Rightarrow> pod option \<Rightarrow> pod \<Rightarrow> operation \<Rightarrow> gerr + pod" where
  "Mutating A stamp oldPod newPod oper =
     (if \<not> ControlledByKusionStack A newPod then Inr newPod
      else (let p = (if oper = OpCreate then addReadinessGates (svcReadyGate A) newPod else newPod)
            in case IDToLabelsMap A p of
                 Inl e \<Rightarrow> Inl e
               | Inr (idm, nums) \<Rightarrow>
                   mutateTail A stamp oldPod idm nums
                     (mutateLoop A stamp idm
                        \<lparr>m_pod = p, nOperating = 0, nOperate = 0, nOperated = 0, nComplete = 0,
                         undoNums = []\<rparr>)))"

subsection \<open>The checks of the validating webhook\<close>

definition pairPrefix :: "(pfx \<times> pfx) list" where
  "pairPrefix = [(POperated, PDoneOperationType), (PDoneOperationType, POperated)]"

definition coexistPrefix :: "(pfx \<times> pfx) list" where
  "coexistPrefix = [(PPreChecked, POperationPermission), (POperationPermission, PPreChecked)]"

fun checkFormat :: "api \<Rightarrow> string \<Rightarrow> pfx list \<Rightarrow> bool" where
  "checkFormat A l [] \<longleftrightarrow> True"
| "checkFormat A l (q # qs) \<longleftrightarrow>
     (if \<not> hasPrefix l (pstr A q) then checkFormat A l qs
      else if length (splitOn (CHR ''/'') l) \<noteq> 2 then False else checkFormat A l qs)"

text \<open>The loop ranges over the values of the pair map; \<open>s[1]\<close> is a panic when there is no slash.\<close>

fun checkPairs :: "api \<Rightarrow> string gomap \<Rightarrow> string \<Rightarrow> pfx list \<Rightarrow> gerr + unit" where
  "checkPairs A m l [] = Inr ()"
| "checkPairs A m l (v # vs) =
     (if \<not> hasPrefix l (pstr A v) then checkPairs A m l vs
      else (case splitOn (CHR ''/'') l of
              s0 # i # ss \<Rightarrow>
                (if i \<noteq> [] \<and> \<not> mhas m (key A (the (map_of pairPrefix v)) i)
                 then Inl (Err ''not found label'') else checkPairs A m l vs)
            | _ \<Rightarrow> Inl (Panic ''index out of range'')))"

definition coexistStep :: "api \<Rightarrow> string \<Rightarrow> pfx list \<times> pfx list \<Rightarrow> pfx list \<times> pfx list" where
  "coexistStep A l ef =
     (let (expected, found) = ef
      in case find (\<lambda>v. hasPrefix l (pstr A v)) expected of
           Some v \<Rightarrow> (expected, if v \<in> set found then found else found @ [v])
         | None \<Rightarrow>
             (fold (\<lambda>v e. if hasPrefix l (pstr A v)
                          then (let w = the (map_of coexistPrefix v) in if w \<in> set e then e else e @ [w])
                          else e) (map snd coexistPrefix) expected, found))"

fun validateLoop :: "api \<Rightarrow> string gomap \<Rightarrow> string gomap \<Rightarrow> pfx list \<times> pfx list \<Rightarrow> gerr + unit" where
  "validateLoop A m [] (expected, found) =
     (if length expected \<noteq> length found then Inl (Err ''not found the expected label prefixes'') else Inr ())"
| "validateLoop A m ((l, v) # rest) ef =
     (if \<not> checkFormat A l (wellKnown A) then Inl (Err ''invalid label'')
      else (case checkPairs A m l (map snd pairPrefix) of
              Inl e \<Rightarrow> Inl e
            | Inr _ \<Rightarrow> validateLoop A m rest (coexistStep A l ef)))"

definition Validating :: "api \<Rightarrow> pod \<Rightarrow> operation \<Rightarrow> gerr + unit" where
  "Validating A newPod oper =
     (if oper = OpDelete \<or> \<not> ControlledByKusionStack A newPod then Inr ()
      else (case PodAvailableConditions A newPod of
              Inl e \<Rightarrow> Inl e
            | Inr _ \<Rightarrow> validateLoop A (p_labels newPod) (p_labels newPod) ([], [])))"

subsection \<open>What one pass does to the labels\<close>

text \<open>Everything but the labels of a pod; no step of the loops changes it.\<close>

definition core :: "pod \<Rightarrow> pod" where
  "core p = p\<lparr>p_labels := []\<rparr>"

lemma core_simps [simp]: "core (setLabel k v p) = core p" "core (delLabel k p) = core p"
  "core (delLabels ks p) = core p" "core (addLabelWithTime st k p) = core p"
  by (simp_all add: core_def setLabel_def delLabel_def delLabels_def addLabelWithTime_def)

lemma labels_simps [simp]: "p_labels (delLabels ks p) = mdels ks (p_labels p)"
  "p_labels (addLabelWithTime st k p) = mput k (st k) (p_labels p)"
  by (simp_all add: delLabels_def addLabelWithTime_def)

lemma ready_core: "core p = core p' \<Longrightarrow> readyToOperate A (Some p) = readyToOperate A (Some p')"
proof -
  have "readyToOperate A (Some p) = readyToOperate A (Some (core p))" for p
    by (simp add: readyToOperate_def core_def split: option.splits)
  then show "core p = core p' \<Longrightarrow> ?thesis" by metis
qed

lemma ready_simps [simp]:
  "readyToOperate A (Some (setLabel k v p)) = readyToOperate A (Some p)"
  "readyToOperate A (Some (delLabel k p)) = readyToOperate A (Some p)"
  "readyToOperate A (Some (addLabelWithTime st k p)) = readyToOperate A (Some p)"
  by (rule ready_core; simp)+

lemma finalizers_core:
  "core p = core p' \<Longrightarrow> IsExpectedFinalizerSatisfied A p = IsExpectedFinalizerSatisfied A p'"
  by (metis IsExpectedFinalizerSatisfied_labels core_def)

text \<open>The value of the label \<open>q/i\<close> after the iteration for \<open>i\<close>, as a table.\<close>

fun effect :: "api \<Rightarrow> (string \<Rightarrow> string) \<Rightarrow> bool \<Rightarrow> string \<Rightarrow> idlabels \<Rightarrow> pfx \<Rightarrow> string option \<Rightarrow> string option" where
  "effect A stamp ready i ls q old =
     (if lhas ls PUndoOperationType then (if q = POperationPermission then old else None)
      else (case q of
         PPreCheck \<Rightarrow>
           if lhas ls POperating
           then (if lhas ls PPreChecked then None
                 else if lhas ls PPreCheck then old else Some (stamp (key A q i)))
           else old
       | PPreparing \<Rightarrow>
           if lhas ls POperating \<and> lhas ls PPreChecked \<and> \<not> lhas ls POperate
           then (if ready then None else if lhas ls PPreparing then old else Some (stamp (key A q i)))
           else old
       | POperate \<Rightarrow>
           if lhas ls POperating \<and> lhas ls PPreChecked \<and> \<not> lhas ls POperate \<and> ready
           then Some (stamp (key A q i)) else old
       | PPostCheck \<Rightarrow> if lhas ls PPostChecked then None else old
       | PCompleting \<Rightarrow>
           if lhas ls PPostChecked \<and> \<not> lhas ls PCompleting then Some (stamp (key A q i)) else old
       | _ \<Rightarrow> old))"

declare effect.simps [simp del]

definition startsPreparing :: "idlabels \<Rightarrow> bool" where
  "startsPreparing ls \<longleftrightarrow> \<not> lhas ls PUndoOperationType \<and> lhas ls POperating \<and> lhas ls PPreChecked
     \<and> \<not> lhas ls PPreparing \<and> \<not> lhas ls POperate"

lemmas step_defs = operatingStep_def postCheckedStep_def Let_def

lemma mget_undoClean:
  assumes "api_ok A"
  shows "mget (p_labels (undoClean A i p)) (key A q j) =
     (if j = i \<and> q \<noteq> POperationPermission then None else mget (p_labels p) (key A q j))"
    and "(\<And>q. k \<noteq> key A q i) \<Longrightarrow> mget (p_labels (undoClean A i p)) k = mget (p_labels p) k"
  using assms by (auto simp: undoClean_def api_wellKnown label_simps)

lemma core_undoClean [simp]: "core (undoClean A i p) = core p"
  by (simp add: undoClean_def)

lemma core_mutateId [simp]: "core (m_pod (mutateId A stamp i ls s)) = core (m_pod s)"
  by (auto simp: mutateId_def step_defs split: option.splits)

lemma operatingStep_effect:
  assumes "api_ok A"
  shows "mget (p_labels (operatingStep A stamp i ls p)) (key A q i) =
    (let old = mget (p_labels p) (key A q i) in
     case q of
       PPreCheck \<Rightarrow> if lhas ls PPreChecked then None
                    else if lhas ls PPreCheck then old else Some (stamp (key A q i))
     | PPreparing \<Rightarrow>
         if lhas ls PPreChecked \<and> \<not> lhas ls POperate
         then (if readyToOperate A (Some p) then None
               else if lhas ls PPreparing then old else Some (stamp (key A q i)))
         else old
     | POperate \<Rightarrow> if lhas ls PPreChecked \<and> \<not> lhas ls POperate \<and> readyToOperate A (Some p)
                   then Some (stamp (key A q i)) else old
     | _ \<Rightarrow> old)"
proof -
  note [simp] = key_inj [OF assms] key_not_plain [OF assms]
  show ?thesis
    by (cases "lhas ls PPreChecked"; cases "lhas ls POperate"; cases "lhas ls PPreparing";
        cases "readyToOperate A (Some p)"; cases q) (simp_all add: operatingStep_def Let_def)
qed

lemma steps_rest:
  assumes "\<And>q. k \<noteq> key A q i"
  shows "mget (p_labels (operatingStep A stamp i ls p)) k =
      (if k = svcAvailL A \<and> lhas ls PPreChecked \<and> \<not> lhas ls PPreparing \<and> \<not> lhas ls POperate then None
       else mget (p_labels p) k)"
    and "mget (p_labels (postCheckedStep A stamp i ls p)) k = mget (p_labels p) k"
proof -
  note [simp] = assms assms [symmetric]
  show "mget (p_labels (operatingStep A stamp i ls p)) k =
      (if k = svcAvailL A \<and> lhas ls PPreChecked \<and> \<not> lhas ls PPreparing \<and> \<not> lhas ls POperate then None
       else mget (p_labels p) k)"
    by (cases "lhas ls PPreChecked"; cases "lhas ls POperate"; cases "lhas ls PPreparing";
        cases "readyToOperate A (Some p)") (simp_all add: operatingStep_def Let_def)
  show "mget (p_labels (postCheckedStep A stamp i ls p)) k = mget (p_labels p) k"
    by (cases "lhas ls PPostChecked"; cases "lhas ls PCompleting") (simp_all add: postCheckedStep_def Let_def)
qed

lemma postCheckedStep_effect:
  assumes "api_ok A"
  shows "mget (p_labels (postCheckedStep A stamp i ls p)) (key A q i) =
    (let old = mget (p_labels p) (key A q i) in
     case q of
       PPostCheck \<Rightarrow> if lhas ls PPostChecked then None else old
     | PCompleting \<Rightarrow> if lhas ls PPostChecked \<and> \<not> lhas ls PCompleting
                      then Some (stamp (key A q i)) else old
     | _ \<Rightarrow> old)"
proof -
  note [simp] = key_inj [OF assms]
  show ?thesis
    by (cases "lhas ls PPostChecked"; cases "lhas ls PCompleting"; cases q)
      (simp_all add: postCheckedStep_def Let_def)
qed

lemma mutateId_effect:
  assumes "api_ok A"
  shows "mget (p_labels (m_pod (mutateId A stamp i ls s))) (key A q i) =
     effect A stamp (readyToOperate A (Some (m_pod s))) i ls q (mget (p_labels (m_pod s)) (key A q i))"
proof (cases "map_of ls PUndoOperationType")
  case (Some t)
  with assms show ?thesis
    by (simp add: mutateId_def mget_undoClean(1) effect.simps lhas_def)
next
  case None
  then have u: "\<not> lhas ls PUndoOperationType" by (simp add: lhas_def)
  let ?p1 = "if lhas ls POperating then operatingStep A stamp i ls (m_pod s) else m_pod s"
  have m: "m_pod (mutateId A stamp i ls s) = postCheckedStep A stamp i ls ?p1"
    using None by (simp add: mutateId_def Let_def)
  show ?thesis
    unfolding m postCheckedStep_effect [OF assms]
    using u by (cases q) (auto simp: operatingStep_effect [OF assms] effect.simps Let_def)
qed

lemma mutateId_frame:
  assumes "api_ok A" and "\<And>q. k \<noteq> key A q i" and "k \<noteq> svcAvailL A"
  shows "mget (p_labels (m_pod (mutateId A stamp i ls s))) k = mget (p_labels (m_pod s)) k"
proof (cases "map_of ls PUndoOperationType")
  case (Some t)
  with assms show ?thesis by (simp add: mutateId_def mget_undoClean(2))
next
  case None
  then show ?thesis using assms(3) by (simp add: mutateId_def Let_def steps_rest [OF assms(2)])
qed

lemma mutateId_svcAvail:
  assumes "api_ok A"
  shows "mget (p_labels (m_pod (mutateId A stamp i ls s))) (svcAvailL A) =
     (if startsPreparing ls then None else mget (p_labels (m_pod s)) (svcAvailL A))"
proof (cases "map_of ls PUndoOperationType")
  case (Some t)
  with assms show ?thesis
    by (simp add: mutateId_def mget_undoClean(2) startsPreparing_def lhas_def label_simps)
next
  case None
  then have u: "\<not> lhas ls PUndoOperationType" by (simp add: lhas_def)
  have n: "svcAvailL A \<noteq> key A q i" for q using key_not_plain [OF assms] by simp
  show ?thesis
    using None u by (simp add: mutateId_def Let_def steps_rest [OF n] startsPreparing_def)
qed

lemma core_mutateLoop [simp]: "core (m_pod (mutateLoop A stamp idm s)) = core (m_pod s)"
  by (induction idm arbitrary: s) auto

lemma mutateLoop_key:
  assumes "api_ok A" and "mwf idm"
  shows "mget (p_labels (m_pod (mutateLoop A stamp idm s))) (key A q i) =
     (case mget idm i of
        None \<Rightarrow> mget (p_labels (m_pod s)) (key A q i)
      | Some ls \<Rightarrow> effect A stamp (readyToOperate A (Some (m_pod s))) i ls q (mget (p_labels (m_pod s)) (key A q i)))"
  using assms(2)
proof (induction idm arbitrary: s)
  case (Cons e idm)
  obtain j ls where e: "e = (j, ls)" by (cases e)
  from Cons.prems have wf: "mwf idm" and nin: "mget idm j = None"
    by (auto simp: e mwf_def map_of_eq_None_iff)
  have r: "readyToOperate A (Some (m_pod (mutateId A stamp j ls s))) = readyToOperate A (Some (m_pod s))"
    by (rule ready_core) simp
  show ?case
  proof (cases "i = j")
    case True
    then have "j = i" by simp
    with nin assms(1) show ?thesis by (simp add: e Cons.IH [OF wf] mutateId_effect)
  next
    case False
    with assms(1) have "mget (p_labels (m_pod (mutateId A stamp j ls s))) (key A q i) = mget (p_labels (m_pod s)) (key A q i)"
      by (intro mutateId_frame) (auto simp: label_simps)
    with False show ?thesis by (simp add: e Cons.IH [OF wf] r split: option.split)
  qed
qed simp

lemma mutateLoop_svcAvail:
  assumes "api_ok A"
  shows "mget (p_labels (m_pod (mutateLoop A stamp idm s))) (svcAvailL A) =
     (if list_ex (\<lambda>e. startsPreparing (snd e)) idm then None else mget (p_labels (m_pod s)) (svcAvailL A))"
  by (induction idm arbitrary: s) (auto simp: mutateId_svcAvail [OF assms])

lemma mutateLoop_frame:
  assumes "api_ok A" and "\<And>q i. k \<noteq> key A q i" and "k \<noteq> svcAvailL A"
  shows "mget (p_labels (m_pod (mutateLoop A stamp idm s))) k = mget (p_labels (m_pod s)) k"
  by (induction idm arbitrary: s) (auto simp: mutateId_frame [OF assms])

end
