(* ===== verification/WebhookProps.thy ===== *)
theory WebhookProps
  imports LifecycleWebhook
begin

text \<open>
  What the lifecycle webhook guarantees.  The lemmas on the loops say which labels each of them
  can write or remove; the properties combine them with the table \<open>effect\<close> of the first loop.
\<close>

subsection \<open>Counters of the first loop\<close>

definition live :: "pfx \<Rightarrow> string \<times> idlabels \<Rightarrow> bool" where
  "live q e \<longleftrightarrow> \<not> lhas (snd e) PUndoOperationType \<and> lhas (snd e) q"

definition lcount :: "pfx \<Rightarrow> idlabels gomap \<Rightarrow> nat" where
  "lcount q idm = length (filter (live q) idm)"

lemma mutateLoop_counts:
  "nOperating (mutateLoop A stamp idm s) = nOperating s + lcount POperating idm"
  "nOperate (mutateLoop A stamp idm s) = nOperate s + lcount POperate idm"
  "nOperated (mutateLoop A stamp idm s) = nOperated s + lcount POperated idm"
  "nComplete (mutateLoop A stamp idm s) = nComplete s + lcount PCompleting idm"
  by (induction idm arbitrary: s)
    (auto simp: lcount_def live_def mutateId_def incIf_def lhas_def Let_def split: option.splits)

lemma lcount_0: "lcount q idm = 0 \<longleftrightarrow> (\<forall>e \<in> set idm. \<not> live q e)"
  by (auto simp: lcount_def filter_empty_conv)

lemma lcount_all: "lcount q idm = length idm \<longleftrightarrow> (\<forall>e \<in> set idm. live q e)"
proof -
  have "length (filter (live q) idm) = length idm \<longleftrightarrow> filter (live q) idm = idm"
    by (metis length_filter_less less_irrefl filter_True filter_id_conv)
  then show ?thesis by (simp add: lcount_def filter_id_conv)
qed

lemma lcount_undo:
  assumes "e \<in> set idm" and "lhas (snd e) PUndoOperationType"
  shows "lcount q idm < length idm"
  unfolding lcount_def using assms by (intro length_filter_less [of e]) (auto simp: live_def)

subsection \<open>What the later loops write\<close>

definition onlyWrites :: "api \<Rightarrow> pfx set \<Rightarrow> pod \<Rightarrow> pod \<Rightarrow> bool" where
  "onlyWrites A Q p p' \<longleftrightarrow>
     (\<forall>q i. q \<notin> Q \<longrightarrow> mget (p_labels p') (key A q i) \<in> {None, mget (p_labels p) (key A q i)}) \<and>
     (\<forall>k. (\<forall>q i. k \<noteq> key A q i) \<longrightarrow> mget (p_labels p') k = mget (p_labels p) k)"

lemma onlyWrites_refl [simp]: "onlyWrites A Q p p"
  by (simp add: onlyWrites_def)

lemma onlyWrites_key:
  "onlyWrites A Q p p' \<Longrightarrow> q \<notin> Q \<Longrightarrow>
     mget (p_labels p') (key A q i) = None \<or> mget (p_labels p') (key A q i) = mget (p_labels p) (key A q i)"
  by (simp add: onlyWrites_def)

lemma onlyWrites_trans: "onlyWrites A Q p p1 \<Longrightarrow> onlyWrites A Q p1 p2 \<Longrightarrow> onlyWrites A Q p p2"
  by (simp add: onlyWrites_def) metis

lemma onlyWrites_mono: "onlyWrites A Q p p' \<Longrightarrow> Q \<subseteq> R \<Longrightarrow> onlyWrites A R p p'"
  unfolding onlyWrites_def by auto

lemma onlyWrites_del: "onlyWrites A Q p (delLabel (key A q i) p)"
  by (auto simp: onlyWrites_def)

lemma onlyWrites_dels: "onlyWrites A Q p (delLabels (map (\<lambda>q. key A q i) qs) p)"
  by (auto simp: onlyWrites_def)

lemma onlyWrites_set: "api_ok A \<Longrightarrow> q \<in> Q \<Longrightarrow> onlyWrites A Q p (setLabel (key A q i) v p)"
  by (auto simp: onlyWrites_def label_simps)

lemma onlyWrites_stamp: "api_ok A \<Longrightarrow> q \<in> Q \<Longrightarrow> onlyWrites A Q p (addLabelWithTime st (key A q i) p)"
  by (simp add: addLabelWithTime_def onlyWrites_set)

lemma onlyWrites_reset: "onlyWrites A {} p (resetPermissions A nums m p)"
  by (induction A nums m p rule: resetPermissions.induct)
    (auto intro: onlyWrites_trans onlyWrites_del)

lemma onlyWrites_complete: "onlyWrites A {} p (completeLoop A idm p)"
  by (induction A idm p rule: completeLoop.induct) (auto intro: onlyWrites_trans onlyWrites_dels)

lemma onlyWrites_operatedId:
  assumes "api_ok A"
  shows "onlyWrites A {POperated, PDoneOperationType} (fst pn) (fst (operatedId A stamp old i ls pn))"
proof -
  note onlyWrites_trans [trans]
  obtain p n where pn: "pn = (p, n)" by (cases pn)
  let ?W = "onlyWrites A {POperated, PDoneOperationType}"
  let ?p1 = "delLabel (key A PPreChecked i) p"
  let ?p2 = "if lhas ls POperated then ?p1
    else addLabelWithTime stamp (key A POperated i) (delLabel (key A POperate i) ?p1)"
  have 1: "?W p ?p1" by (rule onlyWrites_del)
  have "?W ?p1 (addLabelWithTime stamp (key A POperated i) (delLabel (key A POperate i) ?p1))"
    by (rule onlyWrites_trans [OF onlyWrites_del onlyWrites_stamp [OF assms]]) simp
  then have 2: "?W p ?p2" using 1 by (auto intro: onlyWrites_trans)
  have 3: "?W p (setLabel (key A PDoneOperationType i) t
      (delLabel (key A POperationType i) (delLabel (key A POperationPermission t) ?p2)))" for t
    by (rule onlyWrites_trans [OF 2 onlyWrites_trans [OF onlyWrites_del
          onlyWrites_trans [OF onlyWrites_del onlyWrites_set [OF assms]]]]) simp
  show ?thesis
    using 2 3 by (auto simp: operatedId_def pn Let_def split: option.splits if_splits)
qed

lemma onlyWrites_operated:
  assumes "api_ok A"
  shows "onlyWrites A {POperated, PDoneOperationType} (fst pn) (fst (operatedLoop A stamp old idm pn))"
proof (induction idm arbitrary: pn)
  case (Cons e idm)
  obtain i ls where e: "e = (i, ls)" by (cases e)
  show ?case
    using onlyWrites_trans [OF onlyWrites_operatedId [OF assms] Cons.IH] by (simp add: e)
qed simp

lemma onlyWrites_postCheck:
  assumes "api_ok A"
  shows "onlyWrites A {PPostCheck} p (postCheckLoop A stamp idm p)"
proof (induction idm arbitrary: p)
  case (Cons e idm)
  obtain i ls where e: "e = (i, ls)" by (cases e)
  have "onlyWrites A {PPostCheck} p (addLabelWithTime stamp (key A PPostCheck i) p)"
    by (rule onlyWrites_stamp [OF assms]) simp
  then show ?case by (auto simp: e intro: onlyWrites_trans Cons.IH)
qed simp

lemma onlyWrites_tail:
  assumes "api_ok A" and "mutateTail A stamp old idm nums s = Inr p'"
  shows "onlyWrites A {POperated, PDoneOperationType, PPostCheck} (m_pod s) p'"
proof -
  let ?W = "onlyWrites A {POperated, PDoneOperationType, PPostCheck}"
  let ?p = "resetPermissions A nums (undoNums s) (m_pod s)"
  have r: "?W (m_pod s) ?p" by (rule onlyWrites_mono [OF onlyWrites_reset]) simp
  have c: "?W ?p (completeLoop A idm ?p)" by (rule onlyWrites_mono [OF onlyWrites_complete]) simp
  have o: "?W ?p (fst (operatedLoop A stamp om idm (?p, n)))" for om n
    using onlyWrites_mono [OF onlyWrites_operated [OF assms(1), of "(?p, n)"]] by simp
  have d: "?W p1 (postCheckLoop A stamp idm p1)" for p1
    by (rule onlyWrites_mono [OF onlyWrites_postCheck [OF assms(1)]]) simp
  show ?thesis
  proof (cases "nOperating s \<noteq> 0 \<or> nComplete s = length idm")
    case True
    then show ?thesis
      using assms(2) r onlyWrites_trans [OF r c]
      by (auto simp: mutateTail_def Let_def split: sum.splits if_splits)
  next
    case False
    then obtain p1 n1 where p1: "p1 = ?p \<or> (\<exists>om. p1 = fst (operatedLoop A stamp om idm (?p, nOperated s)))"
      and p': "p' = (if n1 = length idm then postCheckLoop A stamp idm p1 else p1)"
      using assms(2)
      by (auto simp: mutateTail_def Let_def split: sum.splits if_splits option.splits prod.splits)
        (metis fst_conv)+
    from p1 o have "?W ?p p1" by auto
    with r have w1: "?W (m_pod s) p1" by (rule onlyWrites_trans)
    then show ?thesis using onlyWrites_trans [OF w1 d] by (simp add: p')
  qed
qed


lemma reset_keeps:
  "api_ok A \<Longrightarrow> q \<noteq> POperationPermission \<Longrightarrow>
     mget (p_labels (resetPermissions A nums m p)) (key A q i) = mget (p_labels p) (key A q i)"
  by (induction A nums m p rule: resetPermissions.induct) (auto simp: label_simps)



subsection \<open>Properties of \<open>Mutating\<close>\<close>

definition admitted :: "api \<Rightarrow> operation \<Rightarrow> pod \<Rightarrow> pod" where
  "admitted A oper p = (if oper = OpCreate then addReadinessGates (svcReadyGate A) p else p)"

definition mstart :: "pod \<Rightarrow> mstate" where
  "mstart p = \<lparr>m_pod = p, nOperating = 0, nOperate = 0, nOperated = 0, nComplete = 0, undoNums = []\<rparr>"

lemma admitted_simps [simp]: "p_labels (admitted A oper p) = p_labels p"
  "readyToOperate A (Some (admitted A oper p)) = readyToOperate A (Some p)"
  "IsExpectedFinalizerSatisfied A (admitted A oper p) = IsExpectedFinalizerSatisfied A p"
  "m_pod (mstart p) = p"
  by (simp_all add: admitted_def addReadinessGates_def readyToOperate_def GetPodCondition_def
      GetProtectionFinalizers_def IsExpectedFinalizerSatisfied_def PodAvailableConditions_def mstart_def
      split: option.splits sum.splits)

lemma mstart_counts [simp]: "nOperating (mstart p) = 0" "nOperate (mstart p) = 0"
  "nOperated (mstart p) = 0" "nComplete (mstart p) = 0"
  by (simp_all add: mstart_def)

lemma IDToLabelsMap_admitted [simp]: "IDToLabelsMap A (admitted A oper p) = IDToLabelsMap A p"
  by (simp add: IDToLabelsMap_def split: sum.splits)

lemma Mutating_eq:
  "ControlledByKusionStack A p \<Longrightarrow> Mutating A stamp old p oper =
     (case IDToLabelsMap A p of
        Inl e \<Rightarrow> Inl e
      | Inr (idm, nums) \<Rightarrow>
          mutateTail A stamp old idm nums (mutateLoop A stamp idm (mstart (admitted A oper p))))"
  using IDToLabelsMap_admitted [of A oper p]
  by (simp add: Mutating_def mstart_def flip: admitted_def split: sum.splits)

lemma Mutating_InrE:
  assumes "Mutating A stamp old p oper = Inr p'"
  obtains "\<not> ControlledByKusionStack A p" "p' = p"
  | idm nums where "ControlledByKusionStack A p" "IDToLabelsMap A p = Inr (idm, nums)" "mwf idm"
      "mutateTail A stamp old idm nums (mutateLoop A stamp idm (mstart (admitted A oper p))) = Inr p'"
proof (cases "ControlledByKusionStack A p")
  case True
  show thesis
  proof (cases "IDToLabelsMap A p")
    case (Inl e)
    with assms True show ?thesis by (simp add: Mutating_eq)
  next
    case (Inr r)
    obtain idm nums where r: "r = (idm, nums)" by (cases r)
    from Inr r have id: "IDToLabelsMap A p = Inr (idm, nums)" by simp
    have wf: "mwf idm" by (rule IDToLabelsMap_InrE [OF id])
    have "mutateTail A stamp old idm nums (mutateLoop A stamp idm (mstart (admitted A oper p))) = Inr p'"
      using assms unfolding Mutating_eq [OF True] id by (simp only: sum.case prod.case)
    then show ?thesis by (rule that(2) [OF True id wf])
  qed
next
  case False
  then have "p' = p" using assms by (simp add: Mutating_def)
  with False show thesis by (rule that(1))
qed

text \<open>The loop's result over the labels of the pod, for a label that the tail does not write.\<close>

lemma Mutating_key:
  assumes "api_ok A" and "Mutating A stamp old p oper = Inr p'" and "mhas (p_labels p') (key A q i)"
    and "q \<notin> {POperated, PDoneOperationType, PPostCheck}"
  shows "mget (p_labels p') (key A q i) = mget (p_labels p) (key A q i) \<or>
    (\<exists>ls. (\<forall>r \<in> set (wellKnown A). lhas ls r \<longleftrightarrow> mhas (p_labels p) (key A r i)) \<and>
      mget (p_labels p') (key A q i) =
        effect A stamp (readyToOperate A (Some p)) i ls q (mget (p_labels p) (key A q i)))"
  using assms(2)
proof (cases rule: Mutating_InrE)
  case (2 idm nums)
  let ?s = "mutateLoop A stamp idm (mstart (admitted A oper p))"
  from onlyWrites_tail [OF assms(1) 2(4)] assms(4)
  have "mget (p_labels p') (key A q i) \<in> {None, mget (p_labels (m_pod ?s)) (key A q i)}"
    unfolding onlyWrites_def by blast
  with assms(3) have eq: "mget (p_labels p') (key A q i) = mget (p_labels (m_pod ?s)) (key A q i)"
    by (auto simp: mhas_def)
  note loop = mutateLoop_key [OF assms(1) 2(3), of stamp "mstart (admitted A oper p)" q i]
  show ?thesis
  proof (cases "mget idm i")
    case None
    then show ?thesis using eq loop by simp
  next
    case (Some ls)
    then show ?thesis using eq loop IDToLabelsMap_lhas [OF 2(2) Some] by auto
  qed
qed simp


text \<open>C6: The completing label of a lifecycle appears only if its post-checked label was there.\<close>

theorem completing_only_after_postcheck:
  assumes "api_ok A" and "Mutating A stamp old p oper = Inr p'"
    and "\<not> mhas (p_labels p) (key A PCompleting i)" and "mhas (p_labels p') (key A PCompleting i)"
  shows "mhas (p_labels p) (key A PPostChecked i)"
proof -
  from Mutating_key [OF assms(1,2,4)] assms(3,4) obtain ls where
    "\<forall>r \<in> set (wellKnown A). lhas ls r \<longleftrightarrow> mhas (p_labels p) (key A r i)"
    "effect A stamp (readyToOperate A (Some p)) i ls PCompleting (mget (p_labels p) (key A PCompleting i)) \<noteq> None"
    "mget (p_labels p) (key A PCompleting i) = None"
    by (auto simp: mhas_def)
  then show ?thesis
    by (auto simp: effect.simps api_wellKnown [OF assms(1)] split: if_splits)
qed

lemma idm_lookup:
  assumes "IDToLabelsMap A p = Inr (idm, nums)" and "lcOf A (p_labels p) i"
  obtains ls where "mget idm i = Some ls" "(i, ls) \<in> set idm"
    "\<And>q. q \<in> set (wellKnown A) \<Longrightarrow> lhas ls q \<longleftrightarrow> mhas (p_labels p) (key A q i)"
proof -
  have "mget idm i \<noteq> None"
    by (rule IDToLabelsMap_InrE [OF assms(1)]) (simp add: assms(2))
  then obtain ls where ls: "mget idm i = Some ls" by blast
  show thesis by (rule that [OF ls mget_mem [OF ls] IDToLabelsMap_lhas [OF assms(1) ls]])
qed

lemma wellKnownI: "api_ok A \<Longrightarrow> q \<noteq> POperationPermission \<Longrightarrow> q \<in> set (wellKnown A)"
  by (simp add: api_wellKnown)

lemma idm_entries:
  assumes "IDToLabelsMap A p = Inr (idm, nums)" and "(i, ls) \<in> set idm"
  shows "lcOf A (p_labels p) i" "mget idm i = Some ls"
    and "\<And>q. q \<in> set (wellKnown A) \<Longrightarrow> lhas ls q \<longleftrightarrow> mhas (p_labels p) (key A q i)"
proof -
  have "mwf idm" by (rule IDToLabelsMap_InrE [OF assms(1)])
  with assms(2) show g: "mget idm i = Some ls" by (simp add: mwf_in_iff)
  show "lcOf A (p_labels p) i" by (rule IDToLabelsMap_lookup(2) [OF assms(1) g])
  show "\<And>q. q \<in> set (wellKnown A) \<Longrightarrow> lhas ls q \<longleftrightarrow> mhas (p_labels p) (key A q i)"
    by (rule IDToLabelsMap_lhas [OF assms(1) g])
qed

text \<open>C7: Cancelling: when a lifecycle carries the undo label, the webhook removes every
  label of that lifecycle id, the undo label included.\<close>

theorem undo_removes_lifecycle:
  assumes "api_ok A" and "ControlledByKusionStack A p" and "Mutating A stamp old p oper = Inr p'"
    and "lcOf A (p_labels p) i" and "mhas (p_labels p) (key A PUndoOperationType i)"
    and "q \<noteq> POperationPermission"
  shows "\<not> mhas (p_labels p') (key A q i)"
  using assms(3)
proof (cases rule: Mutating_InrE)
  case (2 idm nums)
  let ?s = "mutateLoop A stamp idm (mstart (admitted A oper p))"
  obtain ls where ls: "mget idm i = Some ls" "(i, ls) \<in> set idm"
    and lh: "\<And>q. q \<in> set (wellKnown A) \<Longrightarrow> lhas ls q \<longleftrightarrow> mhas (p_labels p) (key A q i)"
    by (rule idm_lookup [OF 2(2) assms(4)]) blast
  have u: "lhas ls PUndoOperationType"
    using lh [OF wellKnownI [OF assms(1)]] assms(5) by simp
  have less: "lcount r idm < length idm" for r
    using lcount_undo [OF ls(2)] u by simp
  have "mget (p_labels (m_pod ?s)) (key A q i) = None"
    using mutateLoop_key [OF assms(1) 2(3)] ls(1) u assms(6) by (simp add: effect.simps)
  moreover have "p' = resetPermissions A nums (undoNums ?s) (m_pod ?s)"
    using 2(4) less [of POperate] less [of POperated] less [of PCompleting]
    by (simp add: mutateTail_def mutateLoop_counts Let_def split: if_splits)
  ultimately show ?thesis
    by (metis empty_iff mhas_None onlyWrites_key onlyWrites_reset)
qed (use assms(2) in simp)

text \<open>C8: Traffic: the webhook takes the service-available label away exactly when some
  lifecycle enters its preparing phase (operating and pre-checked, not yet preparing or operating,
  not cancelled), and never adds it.\<close>

theorem service_available_cut:
  assumes "api_ok A" and "ControlledByKusionStack A p" and "Mutating A stamp old p oper = Inr p'"
  shows "mhas (p_labels p') (svcAvailL A) \<longleftrightarrow> mhas (p_labels p) (svcAvailL A) \<and>
    \<not> (\<exists>i. lcOf A (p_labels p) i \<and> mhas (p_labels p) (key A POperating i)
        \<and> mhas (p_labels p) (key A PPreChecked i)
        \<and> \<not> mhas (p_labels p) (key A PPreparing i) \<and> \<not> mhas (p_labels p) (key A POperate i)
        \<and> \<not> mhas (p_labels p) (key A PUndoOperationType i))"
  using assms(3)
proof (cases rule: Mutating_InrE)
  case (2 idm nums)
  let ?s = "mutateLoop A stamp idm (mstart (admitted A oper p))"
  note wk = wellKnownI [OF assms(1)]
  have "mget (p_labels p') (svcAvailL A) = mget (p_labels (m_pod ?s)) (svcAvailL A)"
    using onlyWrites_tail [OF assms(1) 2(4)] key_not_plain(7) [OF assms(1)]
    unfolding onlyWrites_def by blast
  then have eq: "mget (p_labels p') (svcAvailL A) =
      (if list_ex (\<lambda>e. startsPreparing (snd e)) idm then None else mget (p_labels p) (svcAvailL A))"
    by (simp add: mutateLoop_svcAvail [OF assms(1)])
  have "list_ex (\<lambda>e. startsPreparing (snd e)) idm \<longleftrightarrow>
      (\<exists>i ls. (i, ls) \<in> set idm \<and> startsPreparing ls)"
    by (force simp: list_ex_iff)
  also have "\<dots> \<longleftrightarrow> (\<exists>i. lcOf A (p_labels p) i \<and> mhas (p_labels p) (key A POperating i)
        \<and> mhas (p_labels p) (key A PPreChecked i)
        \<and> \<not> mhas (p_labels p) (key A PPreparing i) \<and> \<not> mhas (p_labels p) (key A POperate i)
        \<and> \<not> mhas (p_labels p) (key A PUndoOperationType i))" (is "_ \<longleftrightarrow> (\<exists>i. ?P i)")
  proof
    assume "\<exists>i ls. (i, ls) \<in> set idm \<and> startsPreparing ls"
    then obtain i ls where e: "(i, ls) \<in> set idm" and sp: "startsPreparing ls" by blast
    show "\<exists>i. ?P i"
      using idm_entries(1) [OF 2(2) e] sp
      by (auto simp: startsPreparing_def idm_entries(3) [OF 2(2) e wk])
  next
    assume "\<exists>i. ?P i"
    then obtain i where i: "?P i" by blast
    then obtain ls where e: "(i, ls) \<in> set idm" by (blast elim: idm_lookup [OF 2(2)])
    then show "\<exists>i ls. (i, ls) \<in> set idm \<and> startsPreparing ls"
      using i by (intro exI conjI) (auto simp: startsPreparing_def idm_entries(3) [OF 2(2) e wk])
  qed
  finally show ?thesis using eq by (simp add: mhas_def)
qed (use assms(2) in simp)


subsection \<open>From operate to operated\<close>

definition oldType :: "idlabels gomap \<Rightarrow> string \<Rightarrow> string option" where
  "oldType old i = (case mget old i of None \<Rightarrow> None | Some ols \<Rightarrow> map_of ols POperationType)"

fun operatedEffect :: "api \<Rightarrow> (string \<Rightarrow> string) \<Rightarrow> string option \<Rightarrow> string \<Rightarrow> idlabels \<Rightarrow> pfx
    \<Rightarrow> string option \<Rightarrow> string option" where
  "operatedEffect A stamp ot i ls q old =
     (case q of
        PPreChecked \<Rightarrow> None
      | POperate \<Rightarrow> if lhas ls POperated then old else None
      | POperated \<Rightarrow> if lhas ls POperated then old else Some (stamp (key A q i))
      | POperationType \<Rightarrow> if ot = None then old else None
      | PDoneOperationType \<Rightarrow> if ot = None then old else ot
      | _ \<Rightarrow> old)"

declare operatedEffect.simps [simp del]

lemma operatedId_eq:
  "operatedId A stamp old i ls (p, n) =
     (let p1 = delLabel (key A PPreChecked i) p;
          p2 = (if lhas ls POperated then p1
                else addLabelWithTime stamp (key A POperated i) (delLabel (key A POperate i) p1))
      in (case oldType old i of
            None \<Rightarrow> p2
          | Some t \<Rightarrow> setLabel (key A PDoneOperationType i) t
              (delLabel (key A POperationType i) (delLabel (key A POperationPermission t) p2)),
          if lhas ls POperated then n else Suc n))"
  by (simp add: operatedId_def oldType_def Let_def split: option.split)

lemma operatedId_effect:
  assumes "api_ok A" and "q \<noteq> POperationPermission"
  shows "mget (p_labels (fst (operatedId A stamp old i ls (p, n)))) (key A q i) =
     operatedEffect A stamp (oldType old i) i ls q (mget (p_labels p) (key A q i))"
proof -
  note [simp] = key_inj [OF assms(1)]
  show ?thesis
    using assms(2)
    by (cases "lhas ls POperated"; cases "oldType old i"; cases q)
      (simp_all add: operatedId_eq operatedEffect.simps Let_def)
qed

lemma operatedId_frame:
  assumes "api_ok A" and "j \<noteq> i" and "q \<noteq> POperationPermission"
  shows "mget (p_labels (fst (operatedId A stamp old i ls (p, n)))) (key A q j) = mget (p_labels p) (key A q j)"
proof -
  note [simp] = key_inj [OF assms(1)]
  show ?thesis using assms(2,3) by (auto simp: operatedId_eq Let_def split: option.split)
qed

lemma operatedLoop_key:
  assumes "api_ok A" and "mwf idm" and "q \<noteq> POperationPermission"
  shows "mget (p_labels (fst (operatedLoop A stamp old idm (p, n)))) (key A q i) =
     (case mget idm i of
        None \<Rightarrow> mget (p_labels p) (key A q i)
      | Some ls \<Rightarrow> operatedEffect A stamp (oldType old i) i ls q (mget (p_labels p) (key A q i)))"
  using assms(2)
proof (induction idm arbitrary: p n)
  case (Cons e idm)
  obtain j ls where e: "e = (j, ls)" by (cases e)
  obtain p1 n1 where pn: "operatedId A stamp old j ls (p, n) = (p1, n1)" by fastforce
  from Cons.prems have wf: "mwf idm" and nin: "mget idm j = None"
    by (auto simp: e mwf_def map_of_eq_None_iff)
  show ?case
  proof (cases "i = j")
    case True
    then have "j = i" by simp
    then show ?thesis
      using nin operatedId_effect [OF assms(1,3), of stamp old i ls p n] pn by (simp add: e Cons.IH [OF wf])
  next
    case False
    then show ?thesis
      using operatedId_frame [OF assms(1) False assms(3), of stamp old ls p n] pn
      by (simp add: e Cons.IH [OF wf] split: option.split)
  qed
qed simp

lemma operatedLoop_count:
  "snd (operatedLoop A stamp old idm (p, n)) = n + length (filter (\<lambda>e. \<not> lhas (snd e) POperated) idm)"
  by (induction idm arbitrary: p n) (auto simp: operatedId_eq Let_def)

lemma postCheckLoop_key:
  assumes "api_ok A" and "mwf idm"
  shows "mget (p_labels (postCheckLoop A stamp idm p)) (key A q i) =
     (case mget idm i of
        None \<Rightarrow> mget (p_labels p) (key A q i)
      | Some ls \<Rightarrow> if q = PPostCheck \<and> \<not> lhas ls PPostCheck \<and> \<not> lhas ls PPostChecked
          then Some (stamp (key A q i)) else mget (p_labels p) (key A q i))"
  using assms(2)
proof (induction idm arbitrary: p)
  case (Cons e idm)
  obtain j ls where e: "e = (j, ls)" by (cases e)
  from Cons.prems have wf: "mwf idm" and nin: "mget idm j = None"
    by (auto simp: e mwf_def map_of_eq_None_iff)
  note [simp] = key_inj [OF assms(1)]
  show ?case using nin by (auto simp: e Cons.IH [OF wf] split: option.split)
qed simp

lemma filter_live_split:
  assumes "\<And>e. e \<in> set idm \<Longrightarrow> \<not> lhas (snd e) PUndoOperationType"
  shows "lcount POperated idm + length (filter (\<lambda>e. \<not> lhas (snd e) POperated) idm) = length idm"
proof -
  have "filter (live POperated) idm = filter (\<lambda>e. lhas (snd e) POperated) idm"
    using assms by (auto simp: live_def intro: filter_cong)
  then show ?thesis unfolding lcount_def by (simp add: sum_length_filter_compl)
qed

text \<open>C10: When the operators of all lifecycles of a pod have finished (every lifecycle has
  the operate label, none is operating or cancelled, and not all are completing), the webhook moves
  every lifecycle to operated and to post-check in one step: the pre-checked label goes, operate
  becomes operated, the operation type that the old pod had becomes the done operation type, and
  the post-check label is set unless the lifecycle is already past it.\<close>

theorem operate_to_postcheck:
  assumes "api_ok A" and "ControlledByKusionStack A p" and "Mutating A stamp (Some op) p oper = Inr p'"
    and "\<And>i. lcOf A (p_labels p) i \<Longrightarrow> mhas (p_labels p) (key A POperate i)
      \<and> \<not> mhas (p_labels p) (key A POperating i) \<and> \<not> mhas (p_labels p) (key A PUndoOperationType i)"
    and "lcOf A (p_labels p) i0" and "\<not> mhas (p_labels p) (key A PCompleting i0)"
    and "lcOf A (p_labels p) i" and "\<not> mhas (p_labels p) (key A POperated i)"
    and "lcOf A (p_labels op) i" and "mget (p_labels op) (key A POperationType i) = Some t"
  shows "\<not> mhas (p_labels p') (key A PPreChecked i) \<and> \<not> mhas (p_labels p') (key A POperate i)
    \<and> mhas (p_labels p') (key A POperated i) \<and> \<not> mhas (p_labels p') (key A POperationType i)
    \<and> mget (p_labels p') (key A PDoneOperationType i) = Some t
    \<and> (mhas (p_labels p') (key A PPostCheck i) \<or> mhas (p_labels p) (key A PPostChecked i))"
  using assms(3)
proof (cases rule: Mutating_InrE)
  case (2 idm nums)
  let ?s = "mutateLoop A stamp idm (mstart (admitted A oper p))"
  let ?r = "resetPermissions A nums (undoNums ?s) (m_pod ?s)"
  note wk = wellKnownI [OF assms(1)]
  have ent: "\<not> lhas ls POperating \<and> \<not> lhas ls PUndoOperationType \<and> lhas ls POperate"
    if "(j, ls) \<in> set idm" for j ls
    using assms(4) [OF idm_entries(1) [OF 2(2) that]] by (simp add: idm_entries(3) [OF 2(2) that wk])
  have none: "nOperating ?s = 0"
    using ent by (auto simp: mutateLoop_counts lcount_0 live_def)
  have all: "nOperate ?s = length idm"
    using ent by (force simp: mutateLoop_counts lcount_all live_def)
  obtain ls0 where ls0: "mget idm i0 = Some ls0" "(i0, ls0) \<in> set idm"
    by (rule idm_lookup [OF 2(2) assms(5)]) blast
  have "\<not> live PCompleting (i0, ls0)"
    using assms(6) by (simp add: live_def idm_entries(3) [OF 2(2) ls0(2) wk])
  then have nc: "nComplete ?s \<noteq> length idm"
    using ls0(2) by (auto simp: mutateLoop_counts lcount_all)
  have cnt: "nOperated ?s + length (filter (\<lambda>e. \<not> lhas (snd e) POperated) idm) = length idm"
    using filter_live_split [of idm] ent by (force simp: mutateLoop_counts)
  obtain old onums where old: "IDToLabelsMap A op = Inr (old, onums)"
    using 2(4) none nc all by (auto simp: mutateTail_def Let_def split: sum.splits)
  let ?o = "operatedLoop A stamp old idm (?r, nOperated ?s)"
  have p': "p' = postCheckLoop A stamp idm (fst ?o)"
    using 2(4) none nc all old operatedLoop_count [of A stamp old idm ?r "nOperated ?s"] cnt
    by (auto simp: mutateTail_def Let_def split: prod.splits)
  obtain ls where ls: "mget idm i = Some ls" "(i, ls) \<in> set idm"
    by (rule idm_lookup [OF 2(2) assms(7)]) blast
  have ot: "oldType old i = Some t"
  proof -
    obtain ols where ols: "mget old i = Some ols" "(i, ols) \<in> set old"
      by (rule idm_lookup [OF old assms(9)]) blast
    then show ?thesis
      using IDToLabelsMap_lookup(1) [OF old ols(1), of POperationType] assms(10) wk
      by (simp add: oldType_def)
  qed
  have nop: "\<not> lhas ls POperated" using assms(8) by (simp add: idm_entries(3) [OF 2(2) ls(2) wk])
  have val: "q \<noteq> POperationPermission \<Longrightarrow> q \<noteq> PPostCheck \<Longrightarrow> mget (p_labels p') (key A q i) =
      operatedEffect A stamp (Some t) i ls q (mget (p_labels ?r) (key A q i))" for q
    using ls(1) by (simp add: p' postCheckLoop_key [OF assms(1) 2(3)] operatedLoop_key [OF assms(1) 2(3)] ot)
  have pc: "mhas (p_labels p') (key A PPostCheck i) \<or> mhas (p_labels p) (key A PPostChecked i)"
  proof (cases "lhas ls PPostCheck \<and> \<not> lhas ls PPostChecked")
    case True
    have "mget (p_labels p') (key A PPostCheck i) = mget (p_labels ?r) (key A PPostCheck i)"
      using True ls(1)
      by (simp add: p' postCheckLoop_key [OF assms(1) 2(3)] operatedLoop_key [OF assms(1) 2(3)] operatedEffect.simps)
    also have "\<dots> = mget (p_labels p) (key A PPostCheck i)"
      using True ls(1) ent [OF ls(2)] mutateLoop_key [OF assms(1) 2(3), of stamp "mstart (admitted A oper p)" PPostCheck i]
      by (simp add: reset_keeps [OF assms(1)] effect.simps)
    finally show ?thesis using True by (simp add: mhas_def idm_entries(3) [OF 2(2) ls(2) wk])
  next
    case False
    then show ?thesis
      using ls(1) by (auto simp: p' mhas_def [of "p_labels (postCheckLoop A stamp idm (fst ?o))"]
          postCheckLoop_key [OF assms(1) 2(3)] idm_entries(3) [OF 2(2) ls(2) wk])
  qed
  show ?thesis
    using val pc nop by (simp add: mhas_def operatedEffect.simps)
qed (use assms(2) in simp)

end
