(* ===== verification/WebhookExamples.thy ===== *)
theory WebhookExamples
  imports WebhookProps
begin

text \<open>
  Concrete pods on which the properties of the lifecycle webhook apply, with the label names of
  the instance \<open>api0\<close>.  Each example runs the webhook on the pod and
  discharges every hypothesis of the property there.
\<close>

definition expod :: "string gomap \<Rightarrow> pod" where
  "expod ls =
     \<lparr>p_ns = ''ns'', p_name = ''p'', p_labels = (''kusionstack/control'', ''true'') # ls, p_annos = [],
      p_finalizers = [], p_owners = [], p_rv = ''1'', p_deleting = False, p_gates = [], p_conds = [],
      p_phase = ''Running'', p_node = ''n'', p_initContainers = [], p_containers = [],
      p_volumes = [], p_affinity = None, p_tolerations = [], p_cstats = [], p_uid = ''u'', p_created = 0\<rparr>"

definition opLabel :: "pfx \<Rightarrow> string \<times> string" where
  "opLabel q = (key api0 q ''a'', ''delete'')"

definition exstamp :: "string \<Rightarrow> string" where
  "exstamp k = ''0''"

lemmas run_defs = expod_def opLabel_def exstamp_def key_def api0_def

lemma lcIds_Cons:
  "lcIds A ((k, v) # m) =
     (if isLifecycleKey A k then (case keyId k of None \<Rightarrow> {} | Some i \<Rightarrow> {i}) else {}) \<union> lcIds A m"
  by (auto simp: lcIds_def split: option.splits)

lemma lcIds_Nil: "lcIds A [] = {}"
  by (simp add: lcIds_def)

lemma expod_ctrl: "ControlledByKusionStack api0 (expod ls)"
  by (simp add: ControlledByKusionStack_def expod_def api0_def)

definition after :: "pod option \<Rightarrow> string gomap \<Rightarrow> pod" where
  "after old ls = (case Mutating api0 exstamp old (expod ls) OpUpdate of Inl e \<Rightarrow> expod [] | Inr p \<Rightarrow> p)"

abbreviation runs :: "pod option \<Rightarrow> string gomap \<Rightarrow> bool" where
  "runs old ls \<equiv> Mutating api0 exstamp old (expod ls) OpUpdate = Inr (after old ls)"

abbreviation hasL :: "pod \<Rightarrow> pfx \<Rightarrow> bool" where
  "hasL p q \<equiv> mhas (p_labels p) (key api0 q ''a'')"

abbreviation "lsPreparing \<equiv> [opLabel POperating, opLabel POperationType, opLabel PPreChecked]"
abbreviation "lsServing \<equiv> (svcAvailL api0, ''true'') # lsPreparing"
abbreviation "lsUndo \<equiv> [opLabel POperating, opLabel POperationType, opLabel PUndoOperationType]"
abbreviation "lsOperate \<equiv> [opLabel POperate, opLabel POperationType, opLabel PPreChecked]"
abbreviation "lsPostChecked \<equiv> [opLabel POperated, opLabel PDoneOperationType, opLabel PPostChecked]"
abbreviation "lsCompleting \<equiv> [opLabel POperated, opLabel PDoneOperationType, opLabel PCompleting]"

lemma run_serving: "runs None lsServing" by code_simp
lemma run_undo: "runs None lsUndo" by code_simp
lemma run_operate: "runs (Some (expod lsOperate)) lsOperate" by code_simp
lemma run_postChecked: "runs None lsPostChecked" by code_simp


lemma completing_only_after_postcheck_witness:
  "hasL (expod lsPostChecked) PPostChecked \<and> hasL (after None lsPostChecked) PCompleting"
proof -
  have 1: "\<not> hasL (expod lsPostChecked) PCompleting" by code_simp
  have 2: "hasL (after None lsPostChecked) PCompleting" by code_simp
  show ?thesis using completing_only_after_postcheck [OF api0_ok run_postChecked 1 2] 2 by blast
qed

lemma lifecycles_of_examples:
  "lcOf api0 (p_labels (expod lsUndo)) i \<longleftrightarrow> i = ''a''"
  "lcOf api0 (p_labels (expod lsServing)) i \<longleftrightarrow> i = ''a''"
  "lcOf api0 (p_labels (expod lsOperate)) i \<longleftrightarrow> i = ''a''"
  "lcOf api0 (p_labels (expod lsCompleting)) i \<longleftrightarrow> i = ''a''"
proof -
  have k: "lcOf api0 m i \<longleftrightarrow> i \<in> lcIds api0 m \<and> list_ex (\<lambda>q. mhas m (key api0 q i)) (wellKnown api0)" for m
    by (auto simp: lcOf_def list_ex_iff)
  have i: "lcIds api0 (p_labels (expod lsUndo)) = {''a''}" "lcIds api0 (p_labels (expod lsServing)) = {''a''}"
    "lcIds api0 (p_labels (expod lsOperate)) = {''a''}"
    "lcIds api0 (p_labels (expod lsCompleting)) = {''a''}"
    by (simp_all add: run_defs lcIds_Cons lcIds_Nil isLifecycleKey_def hasPrefix_def keyId_def)
  have w: "list_ex (\<lambda>q. hasL (expod lsUndo) q) (wellKnown api0)"
    "list_ex (\<lambda>q. hasL (expod lsServing) q) (wellKnown api0)"
    "list_ex (\<lambda>q. hasL (expod lsOperate) q) (wellKnown api0)"
    "list_ex (\<lambda>q. hasL (expod lsCompleting) q) (wellKnown api0)"
    by code_simp+
  show "lcOf api0 (p_labels (expod lsUndo)) i \<longleftrightarrow> i = ''a''"
    "lcOf api0 (p_labels (expod lsServing)) i \<longleftrightarrow> i = ''a''"
    "lcOf api0 (p_labels (expod lsOperate)) i \<longleftrightarrow> i = ''a''"
    "lcOf api0 (p_labels (expod lsCompleting)) i \<longleftrightarrow> i = ''a''"
    using w by (auto simp: k i)
qed

lemma undo_removes_lifecycle_witness: "\<not> hasL (after None lsUndo) POperating"
proof -
  have 1: "lcOf api0 (p_labels (expod lsUndo)) ''a''" by (simp add: lifecycles_of_examples)
  have 2: "hasL (expod lsUndo) PUndoOperationType" by code_simp
  show ?thesis by (rule undo_removes_lifecycle [OF api0_ok expod_ctrl run_undo 1 2]) simp
qed

lemma service_available_cut_witness:
  "mhas (p_labels (expod lsServing)) (svcAvailL api0)
   \<and> \<not> mhas (p_labels (after None lsServing)) (svcAvailL api0)"
proof -
  let ?p = "expod lsServing"
  have 1: "mhas (p_labels ?p) (svcAvailL api0)" by code_simp
  have 2: "lcOf api0 (p_labels ?p) ''a''" by (simp add: lifecycles_of_examples)
  have 3: "hasL ?p POperating \<and> hasL ?p PPreChecked \<and> \<not> hasL ?p PPreparing \<and> \<not> hasL ?p POperate
      \<and> \<not> hasL ?p PUndoOperationType" by code_simp
  show ?thesis using service_available_cut [OF api0_ok expod_ctrl run_serving] 1 2 3 by blast
qed


lemma operate_to_postcheck_witness:
  "hasL (after (Some (expod lsOperate)) lsOperate) POperated
   \<and> mget (p_labels (after (Some (expod lsOperate)) lsOperate)) (key api0 PDoneOperationType ''a'') = Some ''delete''"
proof -
  let ?p = "expod lsOperate"
  have 1: "hasL ?p POperate \<and> \<not> hasL ?p POperating \<and> \<not> hasL ?p PUndoOperationType" by code_simp
  have 2: "\<not> hasL ?p PCompleting" by code_simp
  have 3: "\<not> hasL ?p POperated" by code_simp
  have 4: "mget (p_labels ?p) (key api0 POperationType ''a'') = Some ''delete''" by code_simp
  have 5: "lcOf api0 (p_labels ?p) ''a''" by (simp add: lifecycles_of_examples)
  show ?thesis
    using operate_to_postcheck [OF api0_ok expod_ctrl run_operate _ 5 2 5 3 5 4] 1
    by (simp add: lifecycles_of_examples)
qed

end
