(* ===== verification/LifecycleWaits.thy ===== *)
theory LifecycleWaits
  imports LifecycleProps WebhookExamples
begin

text \<open>
  The steps of the lifecycle controller one by one: what the pre-check stage grants, what the
  service-ready gate ends up as, and how a run waits for its own write; and runs
  on an in-memory server for the properties of \<open>LifecycleProps\<close>.
\<close>

subsection \<open>What the pre-check stage grants\<close>

definition grants :: "api \<Rightarrow> string \<Rightarrow> string \<times> idlabels \<Rightarrow> bool" where
  "grants A k e \<longleftrightarrow> (\<exists>t. map_of (snd e) POperationType = Some t
     \<and> (k = key A POperationPermission t \<or> k = key A PPreChecked (fst e)))"

lemma preCheckStage_get:
  "mget (preCheckStage A stamp p idm labels) k =
     (if \<not> mhas (p_labels p) k \<and> (\<exists>e \<in> set idm. grants A k e) then Some stamp else mget labels k)"
proof (induction idm arbitrary: labels)
  case (Cons e idm)
  obtain i ls where e: "e = (i, ls)" by (cases e)
  show ?case
  proof (cases "map_of ls POperationType")
    case (Some t)
    let ?l1 = "if mhas (p_labels p) (key A POperationPermission t) then labels else mput (key A POperationPermission t) stamp labels"
    let ?l2 = "if mhas (p_labels p) (key A PPreChecked i) then ?l1 else mput (key A PPreChecked i) stamp ?l1"
    have s: "preCheckStage A stamp p (e # idm) labels = preCheckStage A stamp p idm ?l2"
      using Some by (simp add: e Let_def)
    have g: "grants A k e \<longleftrightarrow> k = key A POperationPermission t \<or> k = key A PPreChecked i"
      using Some by (simp add: grants_def e)
    have l: "mget ?l2 k = (if \<not> mhas (p_labels p) k \<and> grants A k e then Some stamp else mget labels k)"
      by (simp add: g)
    show ?thesis unfolding s Cons.IH l by simp
  next
    case None
    then have "\<not> grants A k e" by (simp add: grants_def e)
    with None show ?thesis by (simp add: e Cons.IH)
  qed
qed simp

lemma preCheckStage_wf: "mwf labels \<Longrightarrow> mwf (preCheckStage A stamp p idm labels)"
proof (induction idm arbitrary: labels)
  case (Cons e idm)
  obtain i ls where e: "e = (i, ls)" by (cases e)
  show ?case using Cons by (cases "map_of ls POperationType") (auto simp: e Let_def)
qed simp

lemma precheck_stage:
  assumes "IDToLabelsMap A p = Inr (idm, nums)" and "POperationType \<in> set (wellKnown A)"
    and "q = mputs (preCheckStage A stamp p idm []) (p_labels p)"
  shows "lcOf A (p_labels p) i \<Longrightarrow> mget (p_labels p) (key A POperationType i) = Some t \<Longrightarrow>
      mhas q (key A PPreChecked i) \<and> mhas q (key A POperationPermission t)"
    and "mget (p_labels p) k = Some v \<Longrightarrow> mget q k = Some v"
    and "mhas q k \<Longrightarrow> mhas (p_labels p) k \<or>
      (\<exists>i t. lcOf A (p_labels p) i \<and> mget (p_labels p) (key A POperationType i) = Some t
         \<and> (k = key A PPreChecked i \<or> k = key A POperationPermission t))"
proof -
  let ?l = "preCheckStage A stamp p idm []"
  have get: "mget q k = (case mget ?l k of None \<Rightarrow> mget (p_labels p) k | Some v \<Rightarrow> Some v)" for k
    unfolding assms(3) by (rule mget_mputs) (simp add: preCheckStage_wf)
  have ent: "lcOf A (p_labels p) i \<and> map_of ls POperationType = mget (p_labels p) (key A POperationType i)"
    if "(i, ls) \<in> set idm" for i ls
  proof -
    have "mwf idm" using assms(1) by (auto elim: IDToLabelsMap_InrE)
    with that have "mget idm i = Some ls" by (simp add: mwf_in_iff)
    from IDToLabelsMap_lookup [OF assms(1) this] assms(2) show ?thesis by simp
  qed
  show "mhas q (key A PPreChecked i) \<and> mhas q (key A POperationPermission t)"
    if "lcOf A (p_labels p) i" "mget (p_labels p) (key A POperationType i) = Some t"
  proof -
    from that(1) assms(1) obtain ls where "mget idm i = Some ls" by (auto elim: IDToLabelsMap_InrE)
    then have ls: "(i, ls) \<in> set idm" by (rule mget_mem)
    with ent that(2) have t: "map_of ls POperationType = Some t" by simp
    have "mhas q k'"
      if "k' = key A PPreChecked i \<or> k' = key A POperationPermission t" for k'
    proof -
      have "grants A k' (i, ls)" using t that by (auto simp: grants_def)
      with ls have "mhas (p_labels p) k' \<or> mget ?l k' = Some stamp" by (auto simp: preCheckStage_get)
      then show ?thesis by (auto simp: mhas_def get split: option.splits)
    qed
    then show ?thesis by simp
  qed
  show "mget q k = Some v" if "mget (p_labels p) k = Some v"
    using that by (simp add: get preCheckStage_get mhas_def)
  show "mhas (p_labels p) k \<or> (\<exists>i t. lcOf A (p_labels p) i \<and> mget (p_labels p) (key A POperationType i) = Some t
         \<and> (k = key A PPreChecked i \<or> k = key A POperationPermission t))" if "mhas q k"
  proof (cases "mhas (p_labels p) k")
    case False
    with that have "mget ?l k \<noteq> None" by (auto simp: mhas_def get split: option.splits)
    then obtain i ls where "(i, ls) \<in> set idm" "grants A k (i, ls)"
      by (auto simp: preCheckStage_get split: if_splits)
    with ent [of i ls] show ?thesis by (auto simp: grants_def)
  qed simp
qed

subsection \<open>The service-ready gate\<close>

text \<open>When the pre-check passes, every lifecycle with an operation type gets its pre-checked
  label and the permission of its type in one step, labels that are there keep their values, and
  nothing but such labels is added.\<close>

theorem precheck_stage_grants:
  assumes "api_ok A" and "IDToLabelsMap A p = Inr (idm, nums)"
    and "q = mputs (preCheckStage A stamp p idm []) (p_labels p)"
  shows "(\<forall>i t. lcOf A (p_labels p) i \<and> mget (p_labels p) (key A POperationType i) = Some t \<longrightarrow>
      mhas q (key A PPreChecked i) \<and> mhas q (key A POperationPermission t))
    \<and> (\<forall>k v. mget (p_labels p) k = Some v \<longrightarrow> mget q k = Some v)
    \<and> (\<forall>k. mhas q k \<longrightarrow> mhas (p_labels p) k \<or>
      (\<exists>i t. lcOf A (p_labels p) i \<and> mget (p_labels p) (key A POperationType i) = Some t
         \<and> (k = key A PPreChecked i \<or> k = key A POperationPermission t)))"
proof -
  have t: "POperationType \<in> set (wellKnown A)" by (simp add: api_wellKnown [OF assms(1)])
  show ?thesis
    using precheck_stage [OF assms(2) t assms(3)] by blast
qed

lemma lastCond_snoc:
  "lastCond i t (cs @ [c]) r = (if c_type c = t then Some (i + length cs) else lastCond i t cs r)"
  by (induction i t cs r rule: lastCond.induct) auto

lemma lastCond_types:
  "map c_type cs = map c_type cs' \<Longrightarrow> lastCond i t cs r = lastCond i t cs' r"
proof (induction cs arbitrary: cs' i r)
  case (Cons c cs)
  then obtain c' cs'' where "cs' = c' # cs''" "c_type c' = c_type c" "map c_type cs = map c_type cs''"
    by (cases cs') auto
  with Cons.IH [of cs''] show ?case by simp
qed simp

lemma lastCond_Some:
  "lastCond i t cs r = Some j \<Longrightarrow> r = Some j \<or> i \<le> j \<and> j - i < length cs \<and> c_type (cs ! (j - i)) = t"
proof (induction i t cs r rule: lastCond.induct)
  case (2 i t c cs r)
  then have "(if c_type c = t then Some i else r) = Some j
      \<or> Suc i \<le> j \<and> j - Suc i < length cs \<and> c_type (cs ! (j - Suc i)) = t" by simp
  then show ?case
  proof
    assume r: "Suc i \<le> j \<and> j - Suc i < length cs \<and> c_type (cs ! (j - Suc i)) = t"
    then have "j - i = Suc (j - Suc i)" by arith
    with r show ?thesis by simp
  qed (auto split: if_splits)
qed simp

lemma filter_update:
  "i < length xs \<Longrightarrow> \<not> P (xs ! i) \<Longrightarrow> \<not> P y \<Longrightarrow> filter P (xs[i := y]) = filter P xs"
  by (induction xs arbitrary: i) (auto split: nat.splits)

text \<open>Setting the service-ready gate of a pod that has the gate leaves the last condition of
  that type with the wanted status, touches no condition of another type, and a second
  call with the same wish has nothing to do.\<close>

theorem readiness_gate_set:
  assumes "svcReadyGate A \<in> set (p_gates p)" and "setServiceReadiness A now p isReady = (b, q)"
  shows "(\<exists>i < length (p_conds q). lastCond 0 (svcReadyGate A) (p_conds q) None = Some i
       \<and> c_type (p_conds q ! i) = svcReadyGate A
       \<and> c_status (p_conds q ! i) = (if isReady then CTrue else CFalse))
    \<and> filter (\<lambda>c. c_type c \<noteq> svcReadyGate A) (p_conds q) = filter (\<lambda>c. c_type c \<noteq> svcReadyGate A) (p_conds p)
    \<and> q = p\<lparr>p_conds := p_conds q\<rparr>
    \<and> setServiceReadiness A now' q isReady = (False, q)"
proof -
  let ?t = "svcReadyGate A" and ?st = "if isReady then CTrue else CFalse"
  let ?c = "\<lparr>c_type = ?t, c_status = ?st, c_time = now, c_msg = ''updated by PodOpsLifecycle''\<rparr>"
  have main: "\<exists>i < length (p_conds q). lastCond 0 ?t (p_conds q) None = Some i
       \<and> c_type (p_conds q ! i) = ?t \<and> c_status (p_conds q ! i) = ?st"
    and fr: "filter (\<lambda>c. c_type c \<noteq> ?t) (p_conds q) = filter (\<lambda>c. c_type c \<noteq> ?t) (p_conds p)"
    and sh: "q = p\<lparr>p_conds := p_conds q\<rparr>"
  proof -
    have "(\<exists>i < length (p_conds q). lastCond 0 ?t (p_conds q) None = Some i
       \<and> c_type (p_conds q ! i) = ?t \<and> c_status (p_conds q ! i) = ?st)
      \<and> filter (\<lambda>c. c_type c \<noteq> ?t) (p_conds q) = filter (\<lambda>c. c_type c \<noteq> ?t) (p_conds p)
      \<and> q = p\<lparr>p_conds := p_conds q\<rparr>"
    proof (cases "lastCond 0 ?t (p_conds p) None")
      case None
      then have "q = p\<lparr>p_conds := p_conds p @ [?c]\<rparr>"
        using assms by (simp add: setServiceReadiness_def Let_def)
      then show ?thesis by (simp add: lastCond_snoc)
    next
      case (Some i)
      have i: "i < length (p_conds p)" "c_type (p_conds p ! i) = ?t"
        using lastCond_Some [OF Some] by auto
      show ?thesis
      proof (cases "c_status (p_conds p ! i) = ?st")
        case True
        then have "q = p" using assms Some by (simp add: setServiceReadiness_def Let_def)
        then show ?thesis using Some i True unfolding \<open>q = p\<close> by simp
      next
        case False
        then have q: "q = p\<lparr>p_conds := (p_conds p)[i := ?c]\<rparr>"
          using assms Some by (simp add: setServiceReadiness_def Let_def)
        have m: "map c_type ((p_conds p)[i := ?c]) = map c_type (p_conds p)"
          using i by (simp add: map_update list_update_same_conv)
        have "lastCond 0 ?t ((p_conds p)[i := ?c]) None = Some i"
          by (rule trans [OF lastCond_types [OF m] Some])
        then show ?thesis using i by (simp add: q filter_update)
      qed
    qed
    then show "\<exists>i < length (p_conds q). lastCond 0 ?t (p_conds q) None = Some i
       \<and> c_type (p_conds q ! i) = ?t \<and> c_status (p_conds q ! i) = ?st"
      "filter (\<lambda>c. c_type c \<noteq> ?t) (p_conds q) = filter (\<lambda>c. c_type c \<noteq> ?t) (p_conds p)"
      "q = p\<lparr>p_conds := p_conds q\<rparr>" by blast+
  qed
  have "svcReadyGate A \<in> set (p_gates q)" 
    using assms(1) by (subst sh) simp
  then have "setServiceReadiness A now' q isReady = (False, q)"
    using main by (auto simp: setServiceReadiness_def Let_def)
  then show ?thesis using main fr sh by blast
qed

subsection \<open>Waiting for one's own write\<close>

lemma expectedWrite_exp:
  assumes "expectedWrite C put now f s = (r, s')"
  shows "ls_exp s' = (let k = controllerKey (ls_pod s); e = rvExpectUpdate k (p_rv (ls_pod s)) now (ls_exp s)
    in if r = None then e else rvDeleteExpectations k e)"
  using assms by (auto simp: expectedWrite_def Let_def split: prod.splits)

text \<open>After a write of the controller that succeeded, its check of the expectations lets no copy
  of the pod pass that is not newer than the copy the write was decided on; after a
  write that failed nothing is awaited.\<close>

theorem own_write_awaited:
  assumes "expectedWrite C put now f s = (r, s')" and "rvParse (p_rv (ls_pod s)) = Some n"
  shows "if r = None
    then \<forall>ob now'. rvSatisfiedExpectations (controllerKey (ls_pod s)) ob now' (ls_exp s') = Inr True
           \<longrightarrow> (\<exists>m. rvParse ob = Some m \<and> n < m)
    else \<forall>ob now'. rvSatisfiedExpectations (controllerKey (ls_pod s)) ob now' (ls_exp s') = Inr True"
proof (cases "r = None")
  case True
  have "newerThan (p_rv (ls_pod s)) ob"
    if "rvSatisfiedExpectations (controllerKey (ls_pod s)) ob now' (ls_exp s') = Inr True" for ob now'
    using versions.pending [where r = "(p_rv (ls_pod s), now)" and k = "controllerKey (ls_pod s)" and s = "ls_exp s"
        and ob = "(ob, now')"] that True
      expectedWrite_exp [OF assms(1)] by simp
  with True assms(2) show ?thesis by (auto simp: newerThan_def)
next
  case False
  have "rvSatisfiedExpectations (controllerKey (ls_pod s)) ob now' (ls_exp s') = Inr True" for ob now'
    using versions.forgotten [where k = "controllerKey (ls_pod s)" and ob = "(ob, now')"] False
      expectedWrite_exp [OF assms(1)] by (cases r) (simp_all add: Let_def)
  with False show ?thesis by auto
qed

text \<open>A retried call that never reports a conflict runs once.\<close>

lemma retried_once:
  assumes "retried f w r" and "f w = (x, w')" and "x \<noteq> Some Conflict"
  shows "r = (x, w')"
  using assms by (cases rule: retried.cases) auto

lemma delete_absent: "\<not> mhas m k \<Longrightarrow> mdel k m = m"
  unfolding mhas_iff by (rule delete_id)

text \<open>A pod that is not ready, has no lifecycle and no service-ready gate and does not carry the
  service-available label: the controller still removes that label.  The server
  answers such an update without a new version; the run then waits for a newer
  version of a pod that nothing changed, and a run after ten minutes panics.\<close>

theorem removal_of_absent_label_panics:
  assumes "cl_get (ld_client D) w ns n = Inr p" and "p_ns p = ns" and "p_name p = n"
    and "retry_ok (ld_client D)" and "cl_update (ld_client D) p w = (Inr p, w)"
    and "ld_state D w p = Inr cs" and "rvParse (p_rv p) = Some v" and "0 \<le> v" and "\<not> p_deleting p"
    and "IDToLabelsMap A p = Inr ([], nums)" and "IsExpectedFinalizerSatisfied A p = Inr (True, ns0)"
    and "\<not> IsPodReady p" and "svcReadyGate A \<notin> set (p_gates p)" and "\<not> mhas (p_labels p) (svcAvailL A)"
    and "now + ExpectationsTimeout < later"
  shows "\<exists>ex. Reconcile A D now stamp ns n [] w = (None, ex, w)
    \<and> (\<exists>e. Reconcile A D later stamp' ns n ex w = (Some (Panic e), ex, w))"
proof -
  let ?C = "ld_client D" and ?s = "\<lparr>ls_pod = p, ls_exp = [], ls_w = w\<rparr>"
  let ?f = "\<lambda>q. Some (q\<lparr>p_labels := mdels [svcAvailL A] (p_labels q)\<rparr>)"
  have k: "controllerKey p = ns @ ''/'' @ n" using assms(2,3) by (simp add: controllerKey_def)
  have fp: "p\<lparr>p_labels := mdel (svcAvailL A) (p_labels p)\<rparr> = p" using assms(14) by (simp add: delete_absent)
  have at: "attempt ?C (cl_update ?C) ns n ?f w = (None, w)"
    by (simp add: attempt_def assms(1,5) fp)
  have "retried (attempt ?C (cl_update ?C) ns n ?f) w (cl_retry ?C (attempt ?C (cl_update ?C) ns n ?f) w)"
    using assms(4) by (simp add: retry_ok_def)
  from this at have rt: "cl_retry ?C (attempt ?C (cl_update ?C) ns n ?f) w = (None, w)"
    by (rule retried_once) simp
  have on: "online A ?C now stamp ?s = (Inr False, ?s)"
    using assms(11-14) by (simp add: online_def addServiceAvailable_def updateServiceReadiness_def setServiceReadiness_def)
  have st: "stageLabels A D stamp p [] cs = []"
    by (simp add: stageLabels_def)
  define ex where "ex = rvExpectUpdate (ns @ ''/'' @ n) (p_rv p) now []"
  have rm: "removeLabels ?C now [svcAvailL A] ?s = (None, ?s\<lparr>ls_exp := ex\<rparr>)"
    using rt assms(2,3) k by (simp add: removeLabels_def expectedWrite_def Let_def ex_def)
  have "reconcileStages A D now stamp [] ?s = (None, ?s\<lparr>ls_exp := ex\<rparr>)"
    using assms(6,12) st rm by (simp add: reconcileStages_def gates_def)
  then have "reconcilePod A D now stamp ?s = (None, ?s\<lparr>ls_exp := ex\<rparr>)"
    using assms(10) on by (cases "mhas (p_labels p) (stayOfflineL A)") (simp_all add: reconcilePod_def)
  then have 1: "Reconcile A D now stamp ns n [] w = (None, ex, w)"
    using assms(1,9) by (simp add: Reconcile_def Let_def rvSatisfiedExpectations_def)
  have "mget ex (ns @ ''/'' @ n) = Some (rvSet (p_rv p) now \<lparr>rv_rv = 0, rv_time = now\<rparr>)"
    by (simp add: ex_def rvExpectUpdate_get)
  then have "rvSatisfiedExpectations (ns @ ''/'' @ n) (p_rv p) later ex = Inl (Panic ''resourceversion expectation timeout'')"
    using assms(7,8,15) by (simp add: rvSatisfiedExpectations_def rvFulfilled_def rvSet_def rvIsExpired_def)
  then have 2: "Reconcile A D later stamp' ns n ex w = (Some (Panic ''resourceversion expectation timeout''), ex, w)"
    using assms(1) by (simp add: Reconcile_def Let_def)
  from 1 2 show ?thesis by blast
qed

end
