(* ===== verification/LifecycleExamples.thy ===== *)
theory LifecycleExamples
  imports LifecycleWaits
begin

text \<open>
  Runs of the lifecycle controller on the in-memory server: the hypotheses of its properties
  can hold.
\<close>

definition exdeps :: "checkState \<Rightarrow> pod gomap ldeps" where
  "exdeps cs = \<lparr>ld_client = mem_client, ld_state = (\<lambda>w p. Inr cs), ld_pre = ''pre'', ld_post = ''post''\<rparr>"

definition exPassed :: checkState where
  "exPassed = \<lparr>cs_stage = ''pre'', cs_states = []\<rparr>"

definition exNoStage :: checkState where
  "exNoStage = \<lparr>cs_stage = [], cs_states = []\<rparr>"

definition exrun :: "checkState \<Rightarrow> pod \<Rightarrow> gerr option \<times> rvstore \<times> pod gomap" where
  "exrun cs p = Reconcile api0 (exdeps cs) 0 ''5'' ''ns'' ''p'' [] [(''ns/p'', p)]"

definition expost :: "checkState \<Rightarrow> pod \<Rightarrow> pod" where
  "expost cs p = the (mget (snd (snd (exrun cs p))) ''ns/p'')"

definition exready :: pod where
  "exready = (expod [])\<lparr>p_conds := [\<lparr>c_type = ''Ready'', c_status = CTrue, c_time = 0, c_msg = []\<rparr>]\<rparr>"

lemma exdeps_server: "api_server (ld_client (exdeps cs)) mget"
  by (simp add: exdeps_def mem.api_server_axioms)

lemma exrun_eq: "Reconcile api0 (exdeps cs) 0 ''5'' ''ns'' ''p'' [] [(''ns/p'', p)] =
    (fst (exrun cs p), fst (snd (exrun cs p)), snd (snd (exrun cs p)))"
  by (simp add: exrun_def)

lemma exworld_get: "mget [(''ns/p'', p)] ''ns/p'' = Some p"
  by simp

abbreviation "lsPreCheck \<equiv> [opLabel POperating, opLabel POperationType, opLabel PPreCheck]"

lemma precheck_needs_passed_state_witness:
  "mhas (p_labels (expost exPassed (expod lsPreCheck))) (key api0 PPreChecked ''a'') \<and> InStageAndPassed exPassed"
proof -
  let ?p = "expod lsPreCheck"
  have 1: "mget (snd (snd (exrun exPassed ?p))) ''ns/p'' = Some (expost exPassed ?p)" by code_simp
  have 2: "\<not> mhas (p_labels ?p) (key api0 PPreChecked ''a'')" by code_simp
  have 3: "mhas (p_labels (expost exPassed ?p)) (key api0 PPreChecked ''a'')" by code_simp
  show ?thesis
    using precheck_needs_passed_state [OF api0_ok exdeps_server exrun_eq exworld_get 1 disjI1 [OF refl] 2 3] 3
    by (auto simp: exdeps_def)
qed

lemma available_only_when_ready_witness:
  "mhas (p_labels (expost exNoStage exready)) (svcAvailL api0) \<and> IsPodReady exready"
proof -
  have 1: "mget (snd (snd (exrun exNoStage exready))) ''ns/p'' = Some (expost exNoStage exready)" by code_simp
  have 2: "\<not> mhas (p_labels exready) (svcAvailL api0)" by code_simp
  have 3: "mhas (p_labels (expost exNoStage exready)) (svcAvailL api0)" by code_simp
  show ?thesis
    using available_only_when_ready [OF api0_ok exdeps_server exrun_eq exworld_get 1 2 3] 3 by blast
qed

lemma precheck_stage_grants_witness:
  "mhas (mputs (preCheckStage api0 ''5'' (expod lsPreCheck) (fst (projr (IDToLabelsMap api0 (expod lsPreCheck)))) [])
       (p_labels (expod lsPreCheck))) (key api0 PPreChecked ''a'')"
proof -
  let ?p = "expod lsPreCheck"
  have 1: "IDToLabelsMap api0 ?p = Inr (fst (projr (IDToLabelsMap api0 ?p)), snd (projr (IDToLabelsMap api0 ?p)))"
    by code_simp
  have 2: "mhas (p_labels ?p) (key api0 POperating ''a'')" by code_simp
  have 3: "mget (p_labels ?p) (key api0 POperationType ''a'') = Some ''delete''" by code_simp
  have 4: "lcOf api0 (p_labels ?p) ''a''" by (rule lcOf_operating [OF api0_ok _ 2]) simp_all
  show ?thesis
    using precheck_stage_grants [OF api0_ok 1 refl, of "''5''"] 3 4 by blast
qed

definition exgated :: pod where
  "exgated = (expod [])\<lparr>p_gates := [svcReadyGate api0]\<rparr>"

lemma readiness_gate_set_witness:
  "setServiceReadiness api0 7 (snd (setServiceReadiness api0 5 exgated False)) False
     = (False, snd (setServiceReadiness api0 5 exgated False))"
proof -
  have 1: "svcReadyGate api0 \<in> set (p_gates exgated)" by (simp add: exgated_def)
  show ?thesis
    using readiness_gate_set [OF 1 prod.collapse [symmetric], of 5 False 7] by blast
qed

definition exstate :: "pod gomap lstate" where
  "exstate = \<lparr>ls_pod = expod [], ls_exp = [], ls_w = [(''ns/p'', expod [])]\<rparr>"

definition exwrite :: "gerr option \<times> pod gomap lstate" where
  "exwrite = expectedWrite mem_client (cl_update mem_client) 0 (\<lambda>q. Some q) exstate"

lemma own_write_awaited_witness:
  "rvSatisfiedExpectations (controllerKey (expod [])) ''1'' 0 (ls_exp (snd exwrite)) \<noteq> Inr True"
proof -
  have 1: "expectedWrite mem_client (cl_update mem_client) 0 (\<lambda>q. Some q) exstate = (None, snd exwrite)"
    by code_simp
  have 2: "rvParse (p_rv (ls_pod exstate)) = Some 1" by code_simp
  have 3: "rvParse ''1'' = Some 1" by code_simp
  show ?thesis
    using own_write_awaited [OF 1 2] 3 by (auto simp: exstate_def)
qed

text \<open>A server that answers an update which changes nothing with the object as it is.\<close>

definition quiet_client :: "pod gomap client" where
  "quiet_client = mem_client\<lparr>cl_update := (\<lambda>p w. if mget w (controllerKey p) = Some p then (Inr p, w) else mem_update p w)\<rparr>"

lemma removal_of_absent_label_panics_witness:
  "\<exists>ex e. Reconcile api0 ((exdeps exNoStage)\<lparr>ld_client := quiet_client\<rparr>) 700000000000 ''5'' ''ns'' ''p'' ex [(''ns/p'', expod [])]
     = (Some (Panic e), ex, [(''ns/p'', expod [])])"
proof -
  let ?D = "(exdeps exNoStage)\<lparr>ld_client := quiet_client\<rparr>" and ?w = "[(''ns/p'', expod [])]"
  have 1: "cl_get (ld_client ?D) ?w ''ns'' ''p'' = Inr (expod [])" by code_simp
  have 2: "p_ns (expod []) = ''ns''" "p_name (expod []) = ''p''" "\<not> p_deleting (expod [])"
    "svcReadyGate api0 \<notin> set (p_gates (expod []))"
    by (simp_all add: expod_def)
  have 3: "retry_ok (ld_client ?D)"
    using mem_client_retry_ok by (simp add: retry_ok_def quiet_client_def)
  have 4: "cl_update (ld_client ?D) (expod []) ?w = (Inr (expod []), ?w)" by code_simp
  have 5: "ld_state ?D ?w (expod []) = Inr exNoStage" by (simp add: exdeps_def)
  have 6: "rvParse (p_rv (expod [])) = Some 1" by code_simp
  have 7: "IDToLabelsMap api0 (expod []) = Inr ([], [])" by code_simp
  have 8: "IsExpectedFinalizerSatisfied api0 (expod []) = Inr (True, [])" by code_simp
  have 9: "\<not> IsPodReady (expod [])" "\<not> mhas (p_labels (expod [])) (svcAvailL api0)" by code_simp+
  show ?thesis
    using removal_of_absent_label_panics [OF 1 2(1,2) 3 4 5 6 _ 2(3) 7 8 9(1) 2(4) 9(2),
        where now = 0 and later = 700000000000 and stamp = "''5''" and stamp' = "''5''"]
    by (auto simp: ExpectationsTimeout_def)
qed

end
