(* ===== verification/Rulers.thy ===== *)
theory Rulers
  imports RuleRegister
begin

text \<open>
  The rules of \<^verbatim>\<open>pkg/controllers/podtransitionrule/processor/rules\<close> that need no state of their own:
  \<open>LabelCheckRuler\<close>, \<open>ManualRuler\<close> and \<open>AvailableRuler\<close>, with the contract of the Go interface
  \<open>Ruler\<close> as the locale \<open>ruler\<close>.

  A rule looks at the pods of a PodTransitionRule by name (\<open>targets\<close>) and splits the subjects.
  The order of the lists of subjects and targets stands for the order of the \<open>range\<close> loops.
  A name without a pod is a nil dereference, a panic.
\<close>

record fres =
  fr_passed :: sset
  fr_rejected :: "string gomap"
  fr_interval :: "int option"
  fr_err :: "gerr option"
  fr_state :: "ruleState option"

definition plainRes :: "sset \<Rightarrow> string gomap \<Rightarrow> fres" where
  "plainRes pass rej = \<lparr>fr_passed = pass, fr_rejected = rej, fr_interval = None, fr_err = None, fr_state = None\<rparr>"

text \<open>The controller keys the targets by the names of the pods.\<close>

definition named :: "pod gomap \<Rightarrow> bool" where
  "named targets \<longleftrightarrow> (\<forall>(n, p) \<in> set targets. p_name p = n)"

lemma named_get: "named targets \<Longrightarrow> mget targets n = Some p \<Longrightarrow> p_name p = n"
  unfolding named_def by (auto dest: mget_mem)

text \<open>The contract: the passed and the rejected subjects are the subjects.\<close>

locale ruler =
  fixes filt :: "'c \<Rightarrow> ptr \<Rightarrow> pod gomap \<Rightarrow> sset \<Rightarrow> 'w \<Rightarrow> (gerr + fres) \<times> 'w"
  assumes cover: "named targets \<Longrightarrow> filt c r targets subjects w = (Inr res, w') \<Longrightarrow>
      set (fr_passed res) \<union> {n. mhas (fr_rejected res) n} = set subjects"
begin

lemma passed_subject: "named targets \<Longrightarrow> filt c r targets subjects w = (Inr res, w') \<Longrightarrow> n \<in> set (fr_passed res) \<Longrightarrow> n \<in> set subjects"
  using cover by blast

lemma rejected_subject: "named targets \<Longrightarrow> filt c r targets subjects w = (Inr res, w') \<Longrightarrow> mhas (fr_rejected res) n \<Longrightarrow> n \<in> set subjects"
  using cover by blast

lemma decided: "named targets \<Longrightarrow> filt c r targets subjects w = (Inr res, w') \<Longrightarrow> n \<in> set subjects \<Longrightarrow>
    n \<in> set (fr_passed res) \<or> mhas (fr_rejected res) n"
  using cover by blast

end

locale exclusive_ruler = ruler +
  assumes exclusive: "named targets \<Longrightarrow> distinct subjects \<Longrightarrow> filt c r targets subjects w = (Inr res, w') \<Longrightarrow> n \<in> set (fr_passed res) \<Longrightarrow>
      \<not> mhas (fr_rejected res) n"
begin

lemma rejected_iff: "named targets \<Longrightarrow> distinct subjects \<Longrightarrow> filt c r targets subjects w = (Inr res, w') \<Longrightarrow> n \<in> set subjects \<Longrightarrow>
    mhas (fr_rejected res) n \<longleftrightarrow> n \<notin> set (fr_passed res)"
  using cover exclusive by blast

end

subsection \<open>Rejecting\<close>

fun reject :: "string list \<Rightarrow> sset \<Rightarrow> string gomap \<Rightarrow> string \<Rightarrow> string gomap" where
  "reject [] passed rejects reason = rejects"
| "reject (n # ns) passed rejects reason =
     reject ns passed (if n \<in> set passed \<or> mhas rejects n then rejects else mput n reason rejects) reason"

definition rejectAllWithErr :: "sset \<Rightarrow> sset \<Rightarrow> string gomap \<Rightarrow> string \<Rightarrow> fres" where
  "rejectAllWithErr subjects passed rejects msg =
     \<lparr>fr_passed = passed, fr_rejected = reject subjects passed rejects msg, fr_interval = None,
      fr_err = Some (Err msg), fr_state = None\<rparr>"

fun rejectAll :: "string list \<Rightarrow> string \<Rightarrow> string gomap \<Rightarrow> string gomap" where
  "rejectAll [] reason m = m"
| "rejectAll (n # ns) reason m = rejectAll ns reason (mput n reason m)"

lemma mhas_reject:
  "mhas (reject ns passed rejects reason) n \<longleftrightarrow> mhas rejects n \<or> n \<in> set ns \<and> n \<notin> set passed"
  by (induction ns arbitrary: rejects) auto

lemma mhas_rejectAll [simp]: "mhas (rejectAll ns reason m) n \<longleftrightarrow> n \<in> set ns \<or> mhas m n"
  by (induction ns arbitrary: m) auto

subsection \<open>Label check and manual rules\<close>

fun labelLoop :: "(string gomap \<Rightarrow> bool) \<Rightarrow> pod gomap \<Rightarrow> string list \<Rightarrow> sset \<times> string gomap
    \<Rightarrow> gerr + sset \<times> string gomap" where
  "labelLoop sel targets [] acc = Inr acc"
| "labelLoop sel targets (n # ns) (passed, rejected) =
     (case mget targets n of
        None \<Rightarrow> Inl (Panic ''nil pod'')
      | Some p \<Rightarrow>
          labelLoop sel targets ns
            (if sel (p_labels p) then (sinsert n passed, rejected)
             else (passed, mput n ''block by label check policy'' rejected)))"

definition LabelCheckFilter :: "renv \<Rightarrow> string \<Rightarrow> ptr \<Rightarrow> pod gomap \<Rightarrow> sset \<Rightarrow> gerr + fres" where
  "LabelCheckFilter E selector r targets subjects =
     (case re_sel E selector of
        Inl e \<Rightarrow> Inr (rejectAllWithErr subjects [] [] ''labelCheck error'')
      | Inr sel \<Rightarrow>
          (case labelLoop sel targets subjects ([], []) of
             Inl e \<Rightarrow> Inl e
           | Inr (passed, rejected) \<Rightarrow> Inr (plainRes passed rejected)))"

definition ManualFilter :: "bool \<Rightarrow> ptr \<Rightarrow> pod gomap \<Rightarrow> sset \<Rightarrow> gerr + fres" where
  "ManualFilter pass r targets subjects =
     Inr (if pass then plainRes (sinserts (slist subjects) []) []
          else plainRes [] (rejectAll subjects ''blocked by manual policy, manual rejected'' []))"

lemma labelLoop_spec:
  "labelLoop sel targets ns (pa, re) = Inr (pa', re') \<Longrightarrow>
     (\<forall>n \<in> set ns. mhas targets n) \<and>
     (\<forall>n. n \<in> set pa' \<longleftrightarrow> n \<in> set pa \<or> n \<in> set ns \<and> (\<exists>p. mget targets n = Some p \<and> sel (p_labels p))) \<and>
     (\<forall>n. mhas re' n \<longleftrightarrow> mhas re n \<or> n \<in> set ns \<and> (\<exists>p. mget targets n = Some p \<and> \<not> sel (p_labels p)))"
proof (induction ns arbitrary: pa re)
  case (Cons n ns)
  then obtain p where p: "mget targets n = Some p" by (auto split: option.splits)
  show ?case
  proof (cases "sel (p_labels p)")
    case True
    with Cons.prems p have "labelLoop sel targets ns (sinsert n pa, re) = Inr (pa', re')" by simp
    from Cons.IH [OF this] p True show ?thesis by (auto simp: mhas_def [of targets])
  next
    case False
    with Cons.prems p have "labelLoop sel targets ns (pa, mput n ''block by label check policy'' re) = Inr (pa', re')"
      by simp
    from Cons.IH [OF this] p False show ?thesis by (auto simp: mhas_def [of targets])
  qed
qed simp

lemma LabelCheck_cases:
  assumes "LabelCheckFilter E selector r targets subjects = Inr res"
  obtains e where "re_sel E selector = Inl e" "fr_passed res = []" "\<And>n. mhas (fr_rejected res) n \<longleftrightarrow> n \<in> set subjects"
  | sel where "re_sel E selector = Inr sel" "\<forall>n \<in> set subjects. mhas targets n"
      "\<And>n. n \<in> set (fr_passed res) \<longleftrightarrow> n \<in> set subjects \<and> (\<exists>p. mget targets n = Some p \<and> sel (p_labels p))"
      "\<And>n. mhas (fr_rejected res) n \<longleftrightarrow> n \<in> set subjects \<and> (\<exists>p. mget targets n = Some p \<and> \<not> sel (p_labels p))"
proof (cases "re_sel E selector")
  case (Inl e)
  with assms have "res = rejectAllWithErr subjects [] [] ''labelCheck error''" by (simp add: LabelCheckFilter_def)
  with Inl that(1) show thesis by (simp add: rejectAllWithErr_def mhas_reject)
next
  case (Inr sel)
  with assms obtain pa re where l: "labelLoop sel targets subjects ([], []) = Inr (pa, re)" "res = plainRes pa re"
    by (auto simp: LabelCheckFilter_def split: sum.splits)
  from labelLoop_spec [OF l(1)] l(2) that(2) [OF Inr] show thesis by (simp add: plainRes_def)
qed

interpretation label_check: exclusive_ruler
  "\<lambda>(E, sel) r targets subjects w. (LabelCheckFilter E sel r targets subjects, w)"
proof
  fix c :: "renv \<times> string" and r targets subjects w w' res n
  obtain E sel where c: "c = (E, sel)" by (cases c)
  assume "(case c of (E, sel) \<Rightarrow> \<lambda>r targets subjects w. (LabelCheckFilter E sel r targets subjects, w)) r targets subjects w = (Inr res, w')"
  then have f: "LabelCheckFilter E sel r targets subjects = Inr res" by (simp add: c)
  show "set (fr_passed res) \<union> {n. mhas (fr_rejected res) n} = set subjects"
    using f by (cases rule: LabelCheck_cases) (auto simp: mhas_def [of targets])
  show "n \<in> set (fr_passed res) \<Longrightarrow> \<not> mhas (fr_rejected res) n"
    using f by (cases rule: LabelCheck_cases) auto
qed

interpretation manual: exclusive_ruler "\<lambda>pass r targets subjects w. (ManualFilter pass r targets subjects, w)"
  by unfold_locales (auto simp: ManualFilter_def plainRes_def split: if_splits)

subsection \<open>The available rule\<close>

type_synonym unavailFunc = "pod \<Rightarrow> bool \<times> int option"

definition defaultUnavailable :: unavailFunc where
  "defaultUnavailable p = (\<not> IsPodReady p \<or> IsPodTerminal p, None)"

record availRule =
  av_name :: string
  av_min :: "intstr option"
  av_max :: "intstr option"

fun unavailLoop :: "unavailFunc list \<Rightarrow> pod \<Rightarrow> bool \<times> int option \<Rightarrow> bool \<times> int option" where
  "unavailLoop [] p acc = acc"
| "unavailLoop (f # fs) p (un, mi) =
     (let (unavailable, interval) = f p
      in if \<not> unavailable then unavailLoop fs p (un, mi)
         else unavailLoop fs p
           (True,
            (case interval of
               None \<Rightarrow> mi
             | Some v \<Rightarrow> (case mi of None \<Rightarrow> Some v | Some m \<Rightarrow> if v < m then Some v else Some m))))"

definition processUnavailableFunc :: "unavailFunc list \<Rightarrow> pod \<Rightarrow> bool \<times> int option" where
  "processUnavailableFunc fs p = unavailLoop fs p (False, None)"

definition minOpt :: "int option \<Rightarrow> int option \<Rightarrow> int option" where
  "minOpt a b =
     (case a of None \<Rightarrow> b
      | Some x \<Rightarrow> (case b of None \<Rightarrow> Some x | Some y \<Rightarrow> if x < y then Some x else Some y))"

text \<open>Desired and current number of pods, by the owner's uid.\<close>

fun ownerLoop :: "renv \<Rightarrow> pod list \<Rightarrow> (int \<times> int) gomap \<Rightarrow> gerr + (int \<times> int) gomap" where
  "ownerLoop E [] st = Inr st"
| "ownerLoop E (p # ps) st =
     (case GetControllerOf p of
        None \<Rightarrow> ownerLoop E ps st
      | Some ow \<Rightarrow>
          if o_kind ow \<noteq> ''CollaSet'' \<or> o_api ow \<noteq> re_clsApi E then ownerLoop E ps st
          else (case mget st (o_uid ow) of
                  Some (desired, current) \<Rightarrow> ownerLoop E ps (mput (o_uid ow) (desired, current + 1) st)
                | None \<Rightarrow>
                    (case re_cls E (p_ns p) (o_name ow) of
                       Inl e \<Rightarrow> if e = NotFound then ownerLoop E ps (mput (o_uid ow) (0, 1) st) else Inl e
                     | Inr (uid, replicas) \<Rightarrow>
                         if uid \<noteq> o_uid ow then ownerLoop E ps (mput (o_uid ow) (0, 1) st)
                         else ownerLoop E ps
                           (mput (o_uid ow) (case replicas of None \<Rightarrow> 1 | Some n \<Rightarrow> n, 1) st))))"

fun deficits :: "(int \<times> int) gomap \<Rightarrow> int \<Rightarrow> int" where
  "deficits [] n = n"
| "deficits ((k, (desired, current)) # m) n =
     deficits m (if desired - current > 0 then n + (desired - current) else n)"

definition considerOwnerReplicas :: "renv \<Rightarrow> pod gomap \<Rightarrow> gerr + int" where
  "considerOwnerReplicas E targets =
     (case ownerLoop E (map snd targets) [] of Inl e \<Rightarrow> Inl e | Inr st \<Rightarrow> Inr (deficits st 0))"

fun lookupAll :: "pod gomap \<Rightarrow> string list \<Rightarrow> gerr + (string \<times> pod) list" where
  "lookupAll targets [] = Inr []"
| "lookupAll targets (n # ns) =
     (case mget targets n of
        None \<Rightarrow> Inl (Panic ''nil pod'')
      | Some p \<Rightarrow> (case lookupAll targets ns of Inl e \<Rightarrow> Inl e | Inr ps \<Rightarrow> Inr ((n, p) # ps)))"

fun countLoop :: "(pod \<Rightarrow> bool) \<Rightarrow> unavailFunc list \<Rightarrow> (string \<times> pod) list \<Rightarrow> int \<times> int \<times> int option
    \<Rightarrow> int \<times> int \<times> int option" where
  "countLoop passed fs [] acc = acc"
| "countLoop passed fs ((n, p) # ps) (allow, avail, left) =
     (if passed p then countLoop passed fs ps (allow - 1, avail, left)
      else (let (un, timeLeft) = processUnavailableFunc fs p
            in if un then countLoop passed fs ps (allow - 1, avail, minOpt left timeLeft)
               else countLoop passed fs ps (allow, avail + 1, left)))"

record approval =
  ap_allow :: int
  ap_avail :: int
  ap_pass :: sset
  ap_keep :: "string list"
  ap_rej :: "string list"

fun approveLoop :: "(pod \<Rightarrow> bool) \<Rightarrow> unavailFunc list \<Rightarrow> int \<Rightarrow> (string \<times> pod) list \<Rightarrow> approval \<Rightarrow> approval" where
  "approveLoop passed fs minQ [] a = a"
| "approveLoop passed fs minQ ((n, p) # ps) a =
     (if passed p then approveLoop passed fs minQ ps (a\<lparr>ap_pass := sinsert (p_name p) (ap_pass a)\<rparr>)
      else if fst (processUnavailableFunc fs p)
      then approveLoop passed fs minQ ps (a\<lparr>ap_pass := sinsert n (ap_pass a)\<rparr>)
      else if ap_allow a > 0
      then (if ap_avail a - minQ < 1 then approveLoop passed fs minQ ps (a\<lparr>ap_keep := ap_keep a @ [n]\<rparr>)
            else approveLoop passed fs minQ ps
                   (a\<lparr>ap_avail := ap_avail a - 1, ap_pass := sinsert n (ap_pass a), ap_allow := ap_allow a - 1\<rparr>))
      else approveLoop passed fs minQ ps (a\<lparr>ap_rej := ap_rej a @ [n]\<rparr>))"

definition maxQuota :: "renv \<Rightarrow> availRule \<Rightarrow> nat \<Rightarrow> gerr + int" where
  "maxQuota E ru m = (case av_max ru of None \<Rightarrow> Inr (int m) | Some v \<Rightarrow> re_scaled E v m True)"

definition minQuota :: "renv \<Rightarrow> availRule \<Rightarrow> nat \<Rightarrow> gerr + int" where
  "minQuota E ru m = (case av_min ru of None \<Rightarrow> Inr 0 | Some v \<Rightarrow> re_scaled E v m False)"

definition AvailableFilter :: "renv \<Rightarrow> unavailFunc list \<Rightarrow> availRule \<Rightarrow> ptr \<Rightarrow> pod gomap \<Rightarrow> sset \<Rightarrow> gerr + fres" where
  "AvailableFilter E fs ru r targets subjects =
     (let names = sinserts (map (\<lambda>(_, p). p_name p) targets) []; total = length names in
      case maxQuota E ru total of
        Inl e \<Rightarrow> Inr (rejectAllWithErr subjects [] [] ''fail to get int value from raw max unavailable value'')
      | Inr maxQ \<Rightarrow>
      (case minQuota E ru total of
         Inl e \<Rightarrow> Inr (rejectAllWithErr subjects [] [] ''fail to get int value from raw min available value'')
       | Inr minQ \<Rightarrow>
       (case considerOwnerReplicas E targets of
          Inl e \<Rightarrow> Inr (rejectAllWithErr subjects [] [] ''fail to count owner uncreated replicas'')
        | Inr uncreated \<Rightarrow>
            (let allow = max 0 (maxQ - uncreated); passed = (\<lambda>p. IsPodPassRule (p_name p) r (av_name ru)) in
             case lookupAll targets names of
               Inl e \<Rightarrow> Inl e
             | Inr tps \<Rightarrow>
                 (let (allow1, avail1, left) = countLoop passed fs tps (allow, 0, None) in
                  case lookupAll targets subjects of
                    Inl e \<Rightarrow> Inl e
                  | Inr sps \<Rightarrow>
                      (let a = approveLoop passed fs minQ sps
                                 \<lparr>ap_allow = allow1, ap_avail = avail1, ap_pass = [], ap_keep = [], ap_rej = []\<rparr>;
                           rej = rejectAll (ap_rej a) ''blocked by max unavailable policy''
                                   (rejectAll (ap_keep a) ''blocked by min available policy'' [])
                       in Inr \<lparr>fr_passed = ap_pass a, fr_rejected = rej,
                               fr_interval = map_option (\<lambda>s. s * 1000000000) left,
                               fr_err = (case left of None \<Rightarrow> None | Some s \<Rightarrow> Some (Err ''pods not finish warm up'')),
                               fr_state = None\<rparr>))))))"

lemma lookupAll_Inr:
  "lookupAll targets ns = Inr ps \<Longrightarrow>
     map fst ps = ns \<and> (\<forall>(n, p) \<in> set ps. mget targets n = Some p)"
  by (induction ns arbitrary: ps) (auto split: option.splits sum.splits)

lemma lookupAll_total:
  "(\<And>n. n \<in> set ns \<Longrightarrow> mhas targets n) \<Longrightarrow> \<exists>ps. lookupAll targets ns = Inr ps"
  by (induction ns) (auto simp: mhas_def split: option.splits sum.splits)

text \<open>A pod that the rule decides about: neither passed before nor unavailable.\<close>

definition candidate :: "(pod \<Rightarrow> bool) \<Rightarrow> unavailFunc list \<Rightarrow> string \<times> pod \<Rightarrow> bool" where
  "candidate passed fs np \<longleftrightarrow> \<not> passed (snd np) \<and> \<not> fst (processUnavailableFunc fs (snd np))"

lemma countLoop_spec:
  "\<exists>left'. countLoop passed fs ps (allow, avail, left) =
     (allow - int (length (filter (\<lambda>np. \<not> candidate passed fs np) ps)),
      avail + int (length (filter (candidate passed fs) ps)), left')"
proof (induction ps arbitrary: allow avail left)
  case (Cons np ps)
  obtain n p where np: "np = (n, p)" by (cases np)
  obtain un tl where u: "processUnavailableFunc fs p = (un, tl)" by fastforce
  have c: "candidate passed fs np \<longleftrightarrow> \<not> passed p \<and> \<not> un" by (simp add: candidate_def np u)
  show ?case
  proof (cases "passed p \<or> un")
    case True
    then obtain l where "countLoop passed fs (np # ps) (allow, avail, left) = countLoop passed fs ps (allow - 1, avail, l)"
      by (cases "passed p") (auto simp: np u Let_def)
    with Cons.IH [of "allow - 1" avail l] True c show ?thesis by auto
  next
    case False
    then have "countLoop passed fs (np # ps) (allow, avail, left) = countLoop passed fs ps (allow, avail + 1, left)"
      by (simp add: np u Let_def)
    with Cons.IH [of allow "avail + 1" left] False c show ?thesis by auto
  qed
qed simp

definition budget :: "int \<Rightarrow> approval \<Rightarrow> nat" where
  "budget minQ a = nat (min (ap_allow a) (ap_avail a - minQ))"

lemma approveLoop_spec:
  assumes "\<forall>(n, p) \<in> set ps. p_name p = n"
  shows "(let a' = approveLoop passed fs minQ ps a in
      set (ap_pass a') = set (ap_pass a) \<union> fst ` {np \<in> set ps. \<not> candidate passed fs np}
        \<union> fst ` set (take (budget minQ a) (filter (candidate passed fs) ps))
      \<and> set (ap_keep a') \<union> set (ap_rej a') = set (ap_keep a) \<union> set (ap_rej a) \<union> fst ` set (drop (budget minQ a) (filter (candidate passed fs) ps))
      \<and> ap_avail a' = ap_avail a - int (min (length (filter (candidate passed fs) ps)) (budget minQ a)))"
  using assms
proof (induction ps arbitrary: a)
  case (Cons np ps)
  obtain n p where np: "np = (n, p)" by (cases np)
  have nm: "p_name p = n" and rest: "\<forall>(n, p) \<in> set ps. p_name p = n" using Cons.prems by (auto simp: np)
  let ?c = "candidate passed fs np"
  show ?case
  proof (cases ?c)
    case False
    then have s: "approveLoop passed fs minQ (np # ps) a =
        approveLoop passed fs minQ ps (a\<lparr>ap_pass := sinsert n (ap_pass a)\<rparr>)"
      by (auto simp: candidate_def np nm)
    have b: "budget minQ (a\<lparr>ap_pass := sinsert n (ap_pass a)\<rparr>) = budget minQ a" by (simp add: budget_def)
    have m: "{x \<in> set (np # ps). \<not> candidate passed fs x} = insert np {x \<in> set ps. \<not> candidate passed fs x}"
      using False by auto
    show ?thesis
      unfolding s m using Cons.IH [OF rest, of "a\<lparr>ap_pass := sinsert n (ap_pass a)\<rparr>"] False
      by (auto simp: Let_def b np)
  next
    case True
    then have c: "\<not> passed p" "\<not> fst (processUnavailableFunc fs p)" by (auto simp: candidate_def np)
    have m: "{x \<in> set (np # ps). \<not> candidate passed fs x} = {x \<in> set ps. \<not> candidate passed fs x}"
      using True by auto
    consider "ap_allow a > 0" "ap_avail a - minQ < 1" | "ap_allow a > 0" "ap_avail a - minQ \<ge> 1" | "ap_allow a \<le> 0"
      by linarith
    then show ?thesis
    proof cases
      case 1
      let ?a = "a\<lparr>ap_keep := ap_keep a @ [n]\<rparr>"
      have "budget minQ ?a = 0" "budget minQ a = 0" using 1 by (simp_all add: budget_def)
      then show ?thesis
        unfolding m using Cons.IH [OF rest, of ?a] True 1 c by (auto simp: Let_def np)
    next
      case 2
      let ?a = "a\<lparr>ap_avail := ap_avail a - 1, ap_pass := sinsert n (ap_pass a), ap_allow := ap_allow a - 1\<rparr>"
      have b: "budget minQ a = Suc (budget minQ ?a)" using 2 by (simp add: budget_def)
      have s: "approveLoop passed fs minQ (np # ps) a = approveLoop passed fs minQ ps ?a"
        using 2 c by (simp add: np)
      show ?thesis
        unfolding m s b using Cons.IH [OF rest, of ?a] True by (auto simp: Let_def np)
    next
      case 3
      let ?a = "a\<lparr>ap_rej := ap_rej a @ [n]\<rparr>"
      have "budget minQ ?a = 0" "budget minQ a = 0" using 3 by (simp_all add: budget_def)
      then show ?thesis
        unfolding m using Cons.IH [OF rest, of ?a] True 3 c by (auto simp: Let_def np)
    qed
  qed
qed (simp add: Let_def)

lemma lookupAll_eq:
  "(\<And>n. n \<in> set ns \<Longrightarrow> mhas targets n) \<Longrightarrow>
     lookupAll targets ns = Inr (map (\<lambda>n. (n, the (mget targets n))) ns)"
proof (induction ns)
  case (Cons n ns)
  from Cons(2) [of n] obtain p where "mget targets n = Some p" by (auto simp: mhas_def)
  with Cons show ?case by simp
qed simp

lemma lookupAll_self:
  assumes "mwf targets"
  shows "lookupAll targets (map fst targets) = Inr targets"
proof -
  have "map (\<lambda>n. (n, the (mget targets n))) (map fst targets) = targets"
    unfolding map_map using assms by (intro map_idI) (auto simp: mwf_def)
  moreover have "lookupAll targets (map fst targets) = Inr (map (\<lambda>n. (n, the (mget targets n))) (map fst targets))"
    by (rule lookupAll_eq) (auto simp: mhas_iff)
  ultimately show ?thesis by simp
qed

lemma sinserts_distinct: "distinct xs \<Longrightarrow> set xs \<inter> set s = {} \<Longrightarrow> sinserts xs s = s @ xs"
  by (induction xs s rule: sinserts.induct) (auto simp: sinsert_def)

lemma target_names:
  assumes "named targets" and "mwf targets"
  shows "sinserts (map (\<lambda>(_, p). p_name p) targets) [] = map fst targets"
proof -
  have "map (\<lambda>(_, p). p_name p) targets = map fst targets"
    using assms(1) by (auto simp: named_def)
  moreover have "sinserts (map fst targets) [] = map fst targets"
    using assms(2) by (simp add: sinserts_distinct mwf_def)
  ultimately show ?thesis by (simp only:)
qed

definition undecided :: "unavailFunc list \<Rightarrow> availRule \<Rightarrow> ptr \<Rightarrow> string \<times> pod \<Rightarrow> bool" where
  "undecided fs ru r np = candidate (\<lambda>p. IsPodPassRule (p_name p) r (av_name ru)) fs np"

text \<open>A run of the rule either rejects all subjects with an error or runs the two loops.\<close>

lemma AvailableFilter_cases:
  assumes "AvailableFilter E fs ru r targets subjects = Inr res"
  obtains "fr_passed res = []" "\<And>n. mhas (fr_rejected res) n \<longleftrightarrow> n \<in> set subjects" "fr_err res \<noteq> None"
  | maxQ minQ un tps sps allow1 avail1 left a where
      "maxQuota E ru (length (sinserts (map (\<lambda>(_, p). p_name p) targets) [])) = Inr maxQ"
      "minQuota E ru (length (sinserts (map (\<lambda>(_, p). p_name p) targets) [])) = Inr minQ"
      "considerOwnerReplicas E targets = Inr un"
      "lookupAll targets (sinserts (map (\<lambda>(_, p). p_name p) targets) []) = Inr tps"
      "lookupAll targets subjects = Inr sps"
      "countLoop (\<lambda>p. IsPodPassRule (p_name p) r (av_name ru)) fs tps (max 0 (maxQ - un), 0, None) = (allow1, avail1, left)"
      "a = approveLoop (\<lambda>p. IsPodPassRule (p_name p) r (av_name ru)) fs minQ sps
         \<lparr>ap_allow = allow1, ap_avail = avail1, ap_pass = [], ap_keep = [], ap_rej = []\<rparr>"
      "fr_passed res = ap_pass a" "\<And>n. mhas (fr_rejected res) n \<longleftrightarrow> n \<in> set (ap_keep a) \<union> set (ap_rej a)"
proof -
  let ?names = "sinserts (map (\<lambda>(_, p). p_name p) targets) []"
  let ?passed = "\<lambda>p. IsPodPassRule (p_name p) r (av_name ru)"
  note outcome = that
  have rj: thesis if "res = rejectAllWithErr subjects [] [] msg" for msg
    by (rule outcome(1)) (simp_all add: that rejectAllWithErr_def mhas_reject)
  note r = assms [unfolded AvailableFilter_def Let_def]
  show thesis
  proof (cases "maxQuota E ru (length ?names)")
    case m1: (Inr maxQ)
    show thesis
    proof (cases "minQuota E ru (length ?names)")
      case m2: (Inr minQ)
      show thesis
      proof (cases "considerOwnerReplicas E targets")
        case m3: (Inr un)
        obtain tps where m4: "lookupAll targets ?names = Inr tps"
          using r by (cases "lookupAll targets ?names") (simp_all add: m1 m2 m3)
        obtain allow1 avail1 left where m5: "countLoop ?passed fs tps (max 0 (maxQ - un), 0, None) = (allow1, avail1, left)"
          using prod_cases3 by blast
        obtain sps where m6: "lookupAll targets subjects = Inr sps"
          using r by (cases "lookupAll targets subjects") (simp_all add: m1 m2 m3 m4 m5)
        show thesis
          using r by (intro outcome(2) [OF m1 m2 m3 m4 m6 m5 refl]) (auto simp: m1 m2 m3 m4 m5 m6)
      qed (use r in \<open>auto simp: m1 m2 intro: rj\<close>)
    qed (use r in \<open>auto simp: m1 intro: rj\<close>)
  qed (use r in \<open>auto intro: rj\<close>)
qed

text \<open>The numbers of a run: how many targets the rule counts as disrupted, and how many it has left.\<close>

definition disrupted :: "unavailFunc list \<Rightarrow> availRule \<Rightarrow> ptr \<Rightarrow> pod gomap \<Rightarrow> int" where
  "disrupted fs ru r targets = int (length (filter (\<lambda>np. \<not> undecided fs ru r np) targets))"

definition remaining :: "unavailFunc list \<Rightarrow> availRule \<Rightarrow> ptr \<Rightarrow> pod gomap \<Rightarrow> int" where
  "remaining fs ru r targets = int (length (filter (undecided fs ru r) targets))"

definition ofSubjects :: "unavailFunc list \<Rightarrow> availRule \<Rightarrow> ptr \<Rightarrow> pod gomap \<Rightarrow> sset \<Rightarrow> string list" where
  "ofSubjects fs ru r targets subjects =
     filter (\<lambda>n. undecided fs ru r (n, the (mget targets n))) subjects"

lemma AvailableFilter_passed:
  assumes "named targets" and "mwf targets" and "distinct subjects"
    and "AvailableFilter E fs ru r targets subjects = Inr res" and "fr_err res = None \<or> fr_passed res \<noteq> []"
  shows "\<exists>maxQ minQ un. maxQuota E ru (length targets) = Inr maxQ \<and> minQuota E ru (length targets) = Inr minQ
    \<and> considerOwnerReplicas E targets = Inr un \<and>
    set (fr_passed res) = (set subjects - set (ofSubjects fs ru r targets subjects)) \<union>
      set (take (nat (min (max 0 (maxQ - un) - disrupted fs ru r targets) (remaining fs ru r targets - minQ)))
            (ofSubjects fs ru r targets subjects))"
  using assms(4)
proof (cases rule: AvailableFilter_cases)
  case 1
  with assms(5) show ?thesis by simp
next
  case (2 maxQ minQ un tps sps allow1 avail1 left a)
  note names = target_names [OF assms(1,2)]
  have len: "length (sinserts (map (\<lambda>(_, p). p_name p) targets) []) = length targets" by (simp add: names)
  have tps: "tps = targets" using 2(4) lookupAll_self [OF assms(2)] by (simp add: names)
  let ?P = "\<lambda>p. IsPodPassRule (p_name p) r (av_name ru)"
  have u: "undecided fs ru r = candidate ?P fs" by (simp add: fun_eq_iff undecided_def)
  have cnt: "allow1 = max 0 (maxQ - un) - disrupted fs ru r targets" "avail1 = remaining fs ru r targets"
    using countLoop_spec [of ?P fs targets "max 0 (maxQ - un)" 0 None] 2(6)
    by (auto simp: tps disrupted_def remaining_def u)
  have sps: "map fst sps = subjects" "\<forall>(n, p) \<in> set sps. mget targets n = Some p"
    using lookupAll_Inr [OF 2(5)] by auto
  have nm: "\<forall>(n, p) \<in> set sps. p_name p = n"
    using sps(2) named_get [OF assms(1)] by fastforce
  have the: "np = (fst np, the (mget targets (fst np)))" if "np \<in> set sps" for np
    using sps(2) that by (cases np) auto
  have filt: "map fst (filter (candidate ?P fs) sps) = ofSubjects fs ru r targets subjects"
  proof -
    have "filter (candidate ?P fs) sps = filter ((\<lambda>n. undecided fs ru r (n, the (mget targets n))) \<circ> fst) sps"
      by (rule filter_cong) (use the u in auto)
    then show ?thesis by (simp add: ofSubjects_def sps(1) [symmetric] filter_map)
  qed
  have inj: "inj_on fst (set sps)"
    using assms(3) sps(1) by (metis distinct_map)
  have non: "fst ` {np \<in> set sps. \<not> candidate ?P fs np} = set subjects - set (ofSubjects fs ru r targets subjects)"
  proof -
    have "{np \<in> set sps. \<not> candidate ?P fs np} = set sps - set (filter (candidate ?P fs) sps)" by auto
    then have "fst ` {np \<in> set sps. \<not> candidate ?P fs np} = fst ` set sps - fst ` set (filter (candidate ?P fs) sps)"
      by (simp add: inj_on_image_set_diff [OF inj])
    then show ?thesis by (metis filt sps(1) list.set_map)
  qed
  let ?a = "\<lparr>ap_allow = allow1, ap_avail = avail1, ap_pass = [], ap_keep = [], ap_rej = []\<rparr>"
  have b: "budget minQ ?a =
      nat (min (max 0 (maxQ - un) - disrupted fs ru r targets) (remaining fs ru r targets - minQ))"
    by (simp add: budget_def cnt)
  have "set (fr_passed res) = fst ` {np \<in> set sps. \<not> candidate ?P fs np} \<union>
      fst ` set (take (budget minQ ?a) (filter (candidate ?P fs) sps))"
    using approveLoop_spec [OF nm, where a = ?a] 2(7,8) by (simp add: Let_def)
  also have "fst ` set (take (budget minQ ?a) (filter (candidate ?P fs) sps))
      = set (take (budget minQ ?a) (ofSubjects fs ru r targets subjects))"
    by (simp flip: list.set_map take_map add: filt)
  finally show ?thesis
    using 2(1-3) unfolding non b by (auto simp: len)
qed

lemma ofSubjects_distinct: "distinct subjects \<Longrightarrow> distinct (ofSubjects fs ru r targets subjects)"
  by (simp add: ofSubjects_def)

lemma card_newly:
  assumes "set P = (S - set ls) \<union> set (take b ls)" and "distinct ls"
  shows "card (set P \<inter> set ls) = min (length ls) b"
proof -
  have "set P \<inter> set ls = set (take b ls)"
    using assms(1) set_take_subset [of b ls] by auto
  then show ?thesis using assms(2) by (simp add: distinct_card min.commute)
qed

text \<open>C11: The disruption budget: when the rule lets an available pod through that it had not let through
  before, then the pods it counts as disrupted, those it lets through now and the
  replicas its owners still have to create stay within the maximum, and the pods
  that remain available do not fall below the minimum.\<close>

theorem available_budget:
  assumes "named targets" and "mwf targets" and "distinct subjects"
    and "AvailableFilter E fs ru r targets subjects = Inr res"
    and "n \<in> set (fr_passed res)" and "n \<in> set (ofSubjects fs ru r targets subjects)"
  shows "\<exists>maxQ minQ un. maxQuota E ru (length targets) = Inr maxQ \<and> minQuota E ru (length targets) = Inr minQ
    \<and> considerOwnerReplicas E targets = Inr un
    \<and> disrupted fs ru r targets + int (card (set (fr_passed res) \<inter> set (ofSubjects fs ru r targets subjects))) + un \<le> maxQ
    \<and> minQ \<le> remaining fs ru r targets - int (card (set (fr_passed res) \<inter> set (ofSubjects fs ru r targets subjects)))"
proof -
  have "fr_err res = None \<or> fr_passed res \<noteq> []" using assms(5) by auto
  from AvailableFilter_passed [OF assms(1-4) this] obtain maxQ minQ un where
    q: "maxQuota E ru (length targets) = Inr maxQ" "minQuota E ru (length targets) = Inr minQ"
      "considerOwnerReplicas E targets = Inr un"
    and p: "set (fr_passed res) = (set subjects - set (ofSubjects fs ru r targets subjects)) \<union>
      set (take (nat (min (max 0 (maxQ - un) - disrupted fs ru r targets) (remaining fs ru r targets - minQ)))
            (ofSubjects fs ru r targets subjects))"
    by blast
  let ?O = "ofSubjects fs ru r targets subjects"
  let ?b = "min (max 0 (maxQ - un) - disrupted fs ru r targets) (remaining fs ru r targets - minQ)"
  have c: "card (set (fr_passed res) \<inter> set ?O) = min (length ?O) (nat ?b)"
    by (rule card_newly [OF p ofSubjects_distinct [OF assms(3)]])
  have d: "0 \<le> disrupted fs ru r targets" by (simp add: disrupted_def)
  have "card (set (fr_passed res) \<inter> set ?O) > 0"
    using assms(5,6) by (simp add: card_gt_0_iff) blast
  then have "int (card (set (fr_passed res) \<inter> set ?O)) \<le> ?b" "0 < ?b"
    unfolding c by linarith+
  then show ?thesis using q d by auto
qed

text \<open>The rule is not stricter than its quotas: the number of available subjects it newly lets
  through is the number of candidates, cut only by what the maximum (less the uncreated
  replicas and the disrupted pods) and the minimum leave, whatever the order of the loops.\<close>

theorem available_maximal:
  assumes "named targets" and "mwf targets" and "distinct subjects"
    and "AvailableFilter E fs ru r targets subjects = Inr res" and "fr_err res = None"
  shows "\<exists>maxQ minQ un. maxQuota E ru (length targets) = Inr maxQ \<and> minQuota E ru (length targets) = Inr minQ
    \<and> considerOwnerReplicas E targets = Inr un
    \<and> card (set (fr_passed res) \<inter> set (ofSubjects fs ru r targets subjects))
      = min (card (set (ofSubjects fs ru r targets subjects)))
          (nat (min (max 0 (maxQ - un) - disrupted fs ru r targets) (remaining fs ru r targets - minQ)))"
proof -
  from AvailableFilter_passed [OF assms(1-4) disjI1 [OF assms(5)]] obtain maxQ minQ un where
    q: "maxQuota E ru (length targets) = Inr maxQ" "minQuota E ru (length targets) = Inr minQ"
      "considerOwnerReplicas E targets = Inr un"
    and p: "set (fr_passed res) = (set subjects - set (ofSubjects fs ru r targets subjects)) \<union>
      set (take (nat (min (max 0 (maxQ - un) - disrupted fs ru r targets) (remaining fs ru r targets - minQ)))
            (ofSubjects fs ru r targets subjects))"
    by blast
  note d = ofSubjects_distinct [OF assms(3), of fs ru r targets]
  from card_newly [OF p d] q show ?thesis by (simp add: distinct_card [OF d])
qed

interpretation available: exclusive_ruler
  "\<lambda>(E, fs, ru) r targets subjects w. (AvailableFilter E fs ru r targets subjects, w)"
proof
  fix c :: "renv \<times> unavailFunc list \<times> availRule" and r and targets :: "pod gomap" and subjects w w' res n
  obtain E fs ru where c: "c = (E, fs, ru)" by (cases c)
  assume nt: "named targets"
  assume "(case c of (E, fs, ru) \<Rightarrow> \<lambda>r targets subjects w. (AvailableFilter E fs ru r targets subjects, w)) r targets subjects w = (Inr res, w')"
  then have f: "AvailableFilter E fs ru r targets subjects = Inr res" by (simp add: c)
  show "set (fr_passed res) \<union> {n. mhas (fr_rejected res) n} = set subjects"
    using f
  proof (cases rule: AvailableFilter_cases)
    case (2 maxQ minQ un tps sps allow1 avail1 left a)
    have sps: "map fst sps = subjects" "\<forall>(n, p) \<in> set sps. p_name p = n"
      using lookupAll_Inr [OF 2(5)] named_get [OF nt] by fastforce+
    let ?a = "\<lparr>ap_allow = allow1, ap_avail = avail1, ap_pass = [], ap_keep = [], ap_rej = []\<rparr>"
    let ?P = "\<lambda>p. IsPodPassRule (p_name p) r (av_name ru)"
    have C: "set (filter (candidate ?P fs) sps) =
        set (take (budget minQ ?a) (filter (candidate ?P fs) sps)) \<union> set (drop (budget minQ ?a) (filter (candidate ?P fs) sps))"
      by (metis append_take_drop_id set_append)
    have "set sps = {np \<in> set sps. \<not> candidate ?P fs np} \<union> set (filter (candidate ?P fs) sps)" by auto
    then have "set subjects = fst ` ({np \<in> set sps. \<not> candidate ?P fs np} \<union> set (filter (candidate ?P fs) sps))"
      using sps(1) by (metis list.set_map)
    then show ?thesis
      using approveLoop_spec [OF sps(2), where a = ?a] 2(7-9) unfolding C by (auto simp: Let_def image_Un)
  qed simp
  show "\<not> mhas (fr_rejected res) n" if "n \<in> set (fr_passed res)" "distinct subjects"
    using f
  proof (cases rule: AvailableFilter_cases)
    case (2 maxQ minQ un tps sps allow1 avail1 left a)
    have sps: "map fst sps = subjects" "\<forall>(n, p) \<in> set sps. p_name p = n"
      using lookupAll_Inr [OF 2(5)] named_get [OF nt] by fastforce+
    let ?a = "\<lparr>ap_allow = allow1, ap_avail = avail1, ap_pass = [], ap_keep = [], ap_rej = []\<rparr>"
    let ?P = "\<lambda>p. IsPodPassRule (p_name p) r (av_name ru)"
    let ?C = "filter (candidate ?P fs) sps" and ?b = "budget minQ ?a"
    have dist: "distinct (map fst sps)" using sps(1) that(2) by simp
    have pass: "n \<in> fst ` {np \<in> set sps. \<not> candidate ?P fs np} \<or> n \<in> fst ` set (take ?b ?C)"
      and rej: "mhas (fr_rejected res) n \<longleftrightarrow> n \<in> fst ` set (drop ?b ?C)"
      using approveLoop_spec [OF sps(2), where a = ?a] 2(7-9) that(1) by (auto simp: Let_def)
    have inj: "inj_on fst (set sps)" using dist by (simp add: distinct_map)
    show ?thesis
    proof
      assume "mhas (fr_rejected res) n"
      then obtain y where y: "(n, y) \<in> set (drop ?b ?C)" using rej by auto
      then have yC: "(n, y) \<in> set ?C" by (rule in_set_dropD)
      from pass show False
      proof
        assume "n \<in> fst ` {np \<in> set sps. \<not> candidate ?P fs np}"
        then obtain z where "(n, z) \<in> set sps" "\<not> candidate ?P fs (n, z)" by auto
        moreover have "(n, y) \<in> set sps" "candidate ?P fs (n, y)" using yC by auto
        ultimately show False using inj_onD [OF inj, of "(n, z)" "(n, y)"] by auto
      next
        assume "n \<in> fst ` set (take ?b ?C)"
        then have "n \<in> set (take ?b (map fst ?C))" by (simp add: take_map)
        moreover have "n \<in> set (drop ?b (map fst ?C))" using y by (force simp: drop_map)
        moreover have "distinct (map fst ?C)" using dist by (simp add: distinct_map_filter)
        ultimately show False using set_take_disj_set_drop_if_distinct [of "map fst ?C" ?b ?b] by auto
      qed
    qed
  qed (use that(1) in simp)
qed

end
