(* ===== verification/Polling.thy ===== *)
theory Polling
  imports Rulers
begin

text \<open>
  \<^verbatim>\<open>processor/rules/polling.go\<close>: the manager that polls the tasks of webhook rules, a table of
  tasks by id.  The worker, its queue and its channel of listeners become the actions of the
  step relation \<open>pstep\<close>: a task is added, deleted, or run once by the worker with
  the answer of the server and the time as inputs.

  \<open>r.tasks[id].getResult()\<close> locks a mutex inside the task, so asking for the
  result of an id that has no task dereferences nil.
\<close>

definition TaskDeadLineSeconds :: int where
  "TaskDeadLineSeconds = 60"

definition sec :: int where
  "sec = 1000000000"

record pollResp =
  px_success :: bool
  px_finished :: bool
  px_stop :: bool
  px_names :: "string list"
  px_msg :: string

record pollResult =
  pr_count :: nat
  pr_stopped :: bool
  pr_all :: bool
  pr_approved :: sset
  pr_msg :: string
  pr_err :: "gerr option"
  pr_last :: int

record task =
  tk_url :: string
  tk_key :: string
  tk_timeout :: int
  tk_deadline :: int
  tk_interval :: int
  tk_result :: pollResult

type_synonym pmgr = "task gomap"

definition pmAdd :: "int \<Rightarrow> string \<Rightarrow> string \<Rightarrow> string \<Rightarrow> int \<Rightarrow> int \<Rightarrow> pmgr \<Rightarrow> pmgr" where
  "pmAdd now i url resourceKey timeout interval m =
     mput i \<lparr>tk_url = url, tk_key = resourceKey, tk_timeout = now + timeout,
             tk_deadline = now + (timeout + (TaskDeadLineSeconds - 1) * sec), tk_interval = interval,
             tk_result = \<lparr>pr_count = 0, pr_stopped = False, pr_all = False, pr_approved = [],
                          pr_msg = ''Waiting for first query...'', pr_err = None, pr_last = 0\<rparr>\<rparr> m"

definition pmDelete :: "string \<Rightarrow> pmgr \<Rightarrow> pmgr" where
  "pmDelete i m = mdel i m"

definition pmGetResult :: "string \<Rightarrow> pmgr \<Rightarrow> gerr + pollResult" where
  "pmGetResult i m =
     (case mget m i of None \<Rightarrow> Inl (Panic ''nil task'') | Some t \<Rightarrow> Inr (tk_result t))"

text \<open>\<open>task.do\<close>; the flag it returns stops the polling.\<close>

definition taskDo :: "int \<Rightarrow> gerr + pollResp \<Rightarrow> task \<Rightarrow> bool \<times> task" where
  "taskDo now resp t =
     (let r = tk_result t in
      if pr_stopped r then (False, t)
      else if now > tk_timeout t
      then (False, t\<lparr>tk_result := r\<lparr>pr_stopped := True, pr_msg := ''Polling Timeout. '' @ pr_msg r\<rparr>\<rparr>)
      else (let r1 = r\<lparr>pr_count := Suc (pr_count r), pr_last := now\<rparr> in
            case resp of
              Inl e \<Rightarrow> (False, t\<lparr>tk_result := r1\<lparr>pr_err := Some e\<rparr>\<rparr>)
            | Inr x \<Rightarrow>
                (let fin = px_success x \<and> px_finished x;
                     r2 = r1\<lparr>pr_err := None, pr_approved := sinserts (px_names x) (pr_approved r1),
                             pr_msg := px_msg x, pr_all := pr_all r1 \<or> fin,
                             pr_stopped := fin \<or> px_stop x\<rparr>
                 in (pr_stopped r2, t\<lparr>tk_result := r2\<rparr>))))"

text \<open>One run of the worker: what becomes of the table, which key is broadcast, and after what time the
  task is queued again.\<close>

definition pmDoTask :: "int \<Rightarrow> gerr + pollResp \<Rightarrow> string \<Rightarrow> pmgr \<Rightarrow> pmgr \<times> string option \<times> int option" where
  "pmDoTask now resp i m =
     (case mget m i of
        None \<Rightarrow> (m, None, None)
      | Some t \<Rightarrow>
          if now > tk_deadline t then (pmDelete i m, None, None)
          else (let (finish, t') = taskDo now resp t
                in (mput i t' m, Some (tk_key t), if finish then None else Some (tk_interval t))))"

text \<open>The listeners get the first two parts of the key.\<close>

definition broadcastTo :: "string \<Rightarrow> gerr + string \<times> string" where
  "broadcastTo k =
     (case splitOn (CHR ''/'') k of a # b # cs \<Rightarrow> Inr (a, b) | _ \<Rightarrow> Inl (Panic ''index out of range''))"

datatype paction = PAdd string string string int int int | PDelete string | PRun string int "gerr + pollResp"

fun papply :: "paction \<Rightarrow> pmgr \<Rightarrow> pmgr" where
  "papply (PAdd i url k timeout interval now) m = pmAdd now i url k timeout interval m"
| "papply (PDelete i) m = pmDelete i m"
| "papply (PRun i now resp) m = fst (pmDoTask now resp i m)"

inductive preach :: "paction list \<Rightarrow> pmgr \<Rightarrow> bool" where
  start: "preach [] []"
| step: "preach as m \<Longrightarrow> preach (as @ [a]) (papply a m)"

inductive_cases preach_nilE: "preach [] m"
inductive_simps preach_snoc: "preach (as @ [a]) m"

definition answered :: "paction list \<Rightarrow> string \<Rightarrow> pollResp \<Rightarrow> bool" where
  "answered as i x \<longleftrightarrow> (\<exists>now. PRun i now (Inr x) \<in> set as)"

lemma answered_snoc: "answered as i x \<Longrightarrow> answered (as @ [a]) i x"
  by (auto simp: answered_def)

lemma taskDo_result:
  "tk_result (snd (taskDo now resp t)) = tk_result t
   \<or> pr_approved (tk_result (snd (taskDo now resp t))) = pr_approved (tk_result t)
     \<and> pr_all (tk_result (snd (taskDo now resp t))) = pr_all (tk_result t)
   \<or> (\<exists>x. resp = Inr x
       \<and> set (pr_approved (tk_result (snd (taskDo now resp t)))) = set (px_names x) \<union> set (pr_approved (tk_result t))
       \<and> (pr_all (tk_result (snd (taskDo now resp t))) \<longleftrightarrow> pr_all (tk_result t) \<or> px_success x \<and> px_finished x))"
  by (auto simp: taskDo_def Let_def split: sum.splits)

text \<open>Whatever the manager does, a name is approved in the result of a task only if an answer of the
  server to that task named it, and the task approves all pods only if an answer
  reported success and that the task is finished.\<close>

theorem approvals_come_from_answers:
  assumes "preach as m" and "pmGetResult i m = Inr r"
  shows "(\<forall>n \<in> set (pr_approved r). \<exists>x. answered as i x \<and> n \<in> set (px_names x))
    \<and> (pr_all r \<longrightarrow> (\<exists>x. answered as i x \<and> px_success x \<and> px_finished x))"
  using assms
proof (induction arbitrary: r rule: preach.induct)
  case (step as m a)
  have keep: ?case if "pmGetResult i m = Inr r"
    using step.IH [OF that] answered_snoc by blast
  show ?case
  proof (cases a)
    case (PAdd j url k timeout interval now)
    show ?thesis
    proof (cases "i = j")
      case True
      then have "pr_approved r = [] \<and> \<not> pr_all r"
        using step.prems PAdd by (auto simp: pmGetResult_def pmAdd_def)
      then show ?thesis by simp
    next
      case False
      then have "pmGetResult i m = Inr r" using step.prems PAdd by (simp add: pmGetResult_def pmAdd_def)
      then show ?thesis by (rule keep)
    qed
  next
    case (PDelete j)
    then have "pmGetResult i m = Inr r"
      using step.prems by (auto simp: pmGetResult_def pmDelete_def split: if_splits)
    then show ?thesis by (rule keep)
  next
    case (PRun j now resp)
    show ?thesis
    proof (cases "i = j \<and> mget m j \<noteq> None")
      case False
      then have "pmGetResult i m = Inr r"
        using step.prems PRun
        by (auto simp: pmGetResult_def pmDoTask_def pmDelete_def Let_def split: option.splits if_splits prod.splits)
      then show ?thesis by (rule keep)
    next
      case True
      then obtain t where t: "mget m j = Some t" by auto
      have nd: "\<not> now > tk_deadline t"
        using step.prems PRun True t by (auto simp: pmGetResult_def pmDoTask_def pmDelete_def)
      then have r: "r = tk_result (snd (taskDo now resp t))"
        using step.prems PRun True t by (simp add: pmGetResult_def pmDoTask_def Let_def split_def)
      have old: "pmGetResult i m = Inr (tk_result t)" using t True by (simp add: pmGetResult_def)
      have IH: "(\<forall>n \<in> set (pr_approved (tk_result t)). \<exists>x. answered (as @ [a]) i x \<and> n \<in> set (px_names x))
          \<and> (pr_all (tk_result t) \<longrightarrow> (\<exists>x. answered (as @ [a]) i x \<and> px_success x \<and> px_finished x))"
        using step.IH [OF old] answered_snoc by blast
      from taskDo_result [of now resp t] show ?thesis
      proof (elim disjE exE conjE)
        fix x
        assume x: "resp = Inr x"
          "set (pr_approved (tk_result (snd (taskDo now resp t)))) = set (px_names x) \<union> set (pr_approved (tk_result t))"
          "pr_all (tk_result (snd (taskDo now resp t))) \<longleftrightarrow> pr_all (tk_result t) \<or> px_success x \<and> px_finished x"
        have "answered (as @ [a]) i x" using PRun True x(1) by (auto simp: answered_def)
        with x(2,3) IH show ?thesis unfolding r by blast
      qed (use IH in \<open>simp_all add: r\<close>)
    qed
  qed
qed (simp add: pmGetResult_def)

definition exresp :: pollResp where
  "exresp = \<lparr>px_success = True, px_finished = False, px_stop = False, px_names = [''a''], px_msg = []\<rparr>"

definition exactions :: "paction list" where
  "exactions = [PAdd ''t'' ''u'' ''ns/r/w'' 100 10 0, PRun ''t'' 5 (Inr exresp)]"

lemma preach_run: "preach as (fold papply as [])"
proof (induction as rule: rev_induct)
  case (snoc a as)
  then show ?case using preach.step by simp
qed (simp add: preach.start)

lemma approvals_come_from_answers_witness:
  "\<exists>r x. pmGetResult ''t'' (fold papply exactions []) = Inr r \<and> ''a'' \<in> set (pr_approved r)
    \<and> answered exactions ''t'' x \<and> ''a'' \<in> set (px_names x)"
proof -
  define r where "r = projr (pmGetResult ''t'' (fold papply exactions []))"
  have 1: "pmGetResult ''t'' (fold papply exactions []) = Inr r" unfolding r_def by code_simp
  have 2: "''a'' \<in> set (pr_approved r)" unfolding r_def by code_simp
  show ?thesis using approvals_come_from_answers [OF preach_run 1] 1 2 by blast
qed

end
