(* ===== verification/WebhookRule.thy ===== *)
theory WebhookRule
  imports Polling
begin

text \<open>
  \<^verbatim>\<open>processor/rules/webhook.go\<close>, \<^verbatim>\<open>types.go\<close> and \<^verbatim>\<open>common.go\<close>: the rule that asks a webhook of the
  user, once or by polling.

  The HTTP call, the JSON form of a field of a pod, the check of a qualified name and the trace
  id are the record \<open>wenv\<close>.  An HTTP call gives no response (the client returned an error
  and a nil response), a response that does not parse, or a parsed one.
  The polling manager is the state that the rule reads and changes.
\<close>

record whresp =
  wx_success :: bool
  wx_names :: "string list"
  wx_async :: bool
  wx_poll :: bool
  wx_task :: string
  wx_trace :: string
  wx_msg :: string

datatype httpOutcome = NoResponse gerr | BadResponse gerr | Response whresp

record whreq =
  wq_rule :: string
  wq_stage :: "string option"
  wq_trace :: string
  wq_pods :: "(string \<times> string gomap) list"

record wenv =
  we_http :: "string \<Rightarrow> whreq \<Rightarrow> httpOutcome"
  we_json :: "pod \<Rightarrow> string \<Rightarrow> gerr + string"
  we_qname :: "string \<Rightarrow> bool"
  we_quote :: "string \<Rightarrow> string"
  we_trace :: string

subsection \<open>Fields of a pod\<close>

fun splitAt2 :: "string \<Rightarrow> string \<Rightarrow> (string \<times> string) option" where
  "splitAt2 acc (c # d # s) =
     (if c = CHR ''['' \<and> d = CHR 0x27 then Some (rev acc, s) else splitAt2 (c # acc) (d # s))"
| "splitAt2 acc s = None"

definition splitMaybeSubscriptedPath :: "string \<Rightarrow> string \<times> string \<times> bool" where
  "splitMaybeSubscriptedPath fieldPath =
     (let suffix = [CHR 0x27, CHR '']''] in
      if \<not> hasSuffix fieldPath suffix then (fieldPath, [], False)
      else (case splitAt2 [] (trimSuffix fieldPath suffix) of
              None \<Rightarrow> (fieldPath, [], False)
            | Some (a, b) \<Rightarrow> if a = [] then (fieldPath, [], False) else (a, b, True)))"

definition formatMap :: "wenv \<Rightarrow> string gomap \<Rightarrow> string" where
  "formatMap V m =
     trimSuffix (concat (map (\<lambda>k. k @ ''='' @ we_quote V (mgetd m k) @ [CHR 10]) (slist (sinserts (map fst m) []))))
       [CHR 10]"

definition toLower :: "string \<Rightarrow> string" where
  "toLower s = map lowerChar s"

definition ExtractFieldPathAsString :: "wenv \<Rightarrow> pod \<Rightarrow> string \<Rightarrow> gerr + string" where
  "ExtractFieldPathAsString V p fieldPath =
     (let (path, subscript, ok) = splitMaybeSubscriptedPath fieldPath in
      if ok
      then (if path = ''metadata.annotations''
            then (if \<not> we_qname V (toLower subscript) then Inl (Err ''invalid key subscript'')
                  else Inr (mgetd (p_annos p) subscript))
            else if path = ''metadata.labels''
            then (if \<not> we_qname V subscript then Inl (Err ''invalid key subscript'')
                  else Inr (mgetd (p_labels p) subscript))
            else Inl (Err ''fieldPath does not support subscript''))
      else if fieldPath = ''metadata.annotations'' then Inr (formatMap V (p_annos p))
      else if fieldPath = ''metadata.labels'' then Inr (formatMap V (p_labels p))
      else if fieldPath = ''metadata.name'' then Inr (p_name p)
      else if fieldPath = ''metadata.namespace'' then Inr (p_ns p)
      else if fieldPath = ''metadata.uid'' then Inr (p_uid p)
      else Inl (Err ''unsupported fieldPath''))"

definition ExtractValueFromPod :: "wenv \<Rightarrow> pod \<Rightarrow> string \<Rightarrow> gerr + string" where
  "ExtractValueFromPod V p fieldPath =
     (case ExtractFieldPathAsString V p fieldPath of Inr v \<Rightarrow> Inr v | Inl _ \<Rightarrow> we_json V p fieldPath)"

definition parseParameter :: "wenv \<Rightarrow> wparam \<Rightarrow> pod option \<Rightarrow> gerr + string" where
  "parseParameter V w po =
     (case (if wp_value w \<noteq> [] then Inr (wp_value w)
            else (case wp_field w of
                    None \<Rightarrow> Inl (Err ''unexpected empty parameter'')
                  | Some f \<Rightarrow> (case po of None \<Rightarrow> Inl (Panic ''nil pod'') | Some p \<Rightarrow> ExtractValueFromPod V p f))) of
        Inl e \<Rightarrow> Inl e
      | Inr v \<Rightarrow> Inr (if v = ''null'' then [] else v))"

subsection \<open>The request\<close>

record whook =
  wh_key :: string
  wh_rule :: string
  wh_stage :: "string option"
  wh_cfg :: wconfig
  wh_state :: webhookStatus
  wh_approved :: "string \<Rightarrow> bool"

fun paramLoop :: "wenv \<Rightarrow> wparam list \<Rightarrow> pod option \<Rightarrow> string gomap \<Rightarrow> gerr + string gomap" where
  "paramLoop V [] p acc = Inr acc"
| "paramLoop V (w # ws) p acc =
     (case parseParameter V w p of Inl e \<Rightarrow> Inl e | Inr v \<Rightarrow> paramLoop V ws p (mput (wp_key w) v acc))"

fun podsLoop :: "wenv \<Rightarrow> wparam list \<Rightarrow> pod gomap \<Rightarrow> string list \<Rightarrow> (string \<times> string gomap) list
    \<Rightarrow> gerr + (string \<times> string gomap) list" where
  "podsLoop V ws targets [] acc = Inr acc"
| "podsLoop V ws targets (n # ns) acc =
     (case paramLoop V ws (mget targets n) [] of
        Inl e \<Rightarrow> Inl e
      | Inr ps \<Rightarrow> podsLoop V ws targets ns (acc @ [(n, ps)]))"

definition buildRequest :: "wenv \<Rightarrow> whook \<Rightarrow> string list \<Rightarrow> pod gomap \<Rightarrow> gerr + whreq" where
  "buildRequest V h pods targets =
     (case podsLoop V (wc_params (wh_cfg h)) targets pods [] of
        Inl e \<Rightarrow> Inl e
      | Inr ps \<Rightarrow> Inr \<lparr>wq_rule = wh_rule h, wq_stage = wh_stage h, wq_trace = we_trace V, wq_pods = ps\<rparr>)"

text \<open>\<open>doHttp\<close> defers \<open>httpResp.Body.Close()\<close> before it looks at the error.\<close>

definition doHttp :: "wenv \<Rightarrow> whook \<Rightarrow> whreq \<Rightarrow> gerr + whresp" where
  "doHttp V h req =
     (case we_http V (wc_url (wh_cfg h)) req of
        NoResponse e \<Rightarrow> Inl (Panic ''nil response'')
      | BadResponse e \<Rightarrow> Inl e
      | Response x \<Rightarrow> Inr x)"

text \<open>\<open>query\<close> reads the trace id of the request when the request could not be built.\<close>

definition query :: "wenv \<Rightarrow> whook \<Rightarrow> string list \<Rightarrow> pod gomap \<Rightarrow> gerr + whresp" where
  "query V h pods targets =
     (case buildRequest V h pods targets of
        Inl e \<Rightarrow> Inl (Panic ''nil request'')
      | Inr req \<Rightarrow> doHttp V h req)"

definition shouldPoll :: "whresp \<Rightarrow> bool" where
  "shouldPoll x \<longleftrightarrow> wx_async x \<or> wx_poll x"

definition getTaskId :: "whresp \<Rightarrow> string" where
  "getTaskId x = (if wx_async x \<or> wx_poll x then (if wx_task x \<noteq> [] then wx_task x else wx_trace x) else [])"

definition getPollingUrl :: "whook \<Rightarrow> string \<Rightarrow> gerr + string" where
  "getPollingUrl h taskId =
     (case wc_poll (wh_cfg h) of
        None \<Rightarrow> Inl (Err ''null polling config'')
      | Some c \<Rightarrow>
          Inr (if pl_rawKey c \<noteq> [] then pl_url c @ ''?'' @ pl_rawKey c @ ''='' @ taskId
               else pl_url c @ ''?task-id='' @ taskId))"

text \<open>Adding a task dereferences the polling configuration and its two numbers.\<close>

definition addTask :: "whook \<Rightarrow> int \<Rightarrow> string \<Rightarrow> string \<Rightarrow> pmgr \<Rightarrow> gerr + pmgr" where
  "addTask h now taskId url m =
     (case wc_poll (wh_cfg h) of
        None \<Rightarrow> Inl (Panic ''nil poll'')
      | Some c \<Rightarrow>
          (case (pl_timeout c, pl_interval c) of
             (Some t, Some i) \<Rightarrow> Inr (pmAdd now taskId url (wh_key h) (t * sec) (i * sec) m)
           | _ \<Rightarrow> Inl (Panic ''nil seconds'')))"

subsection \<open>Task information\<close>

definition intersection :: "sset \<Rightarrow> string list \<Rightarrow> string list" where
  "intersection s t = filter (\<lambda>x. x \<in> set s) t"

definition newTaskInfo :: "int \<Rightarrow> string \<Rightarrow> string \<Rightarrow> string list \<Rightarrow> string list \<Rightarrow> taskInfo" where
  "newTaskInfo now taskId msg processing approved =
     \<lparr>ti_id = taskId, ti_begin = now, ti_last = None, ti_msg = msg, ti_processing = processing, ti_approved = approved\<rparr>"

definition recordTaskInfo :: "taskInfo \<Rightarrow> string \<Rightarrow> int \<Rightarrow> string list \<Rightarrow> taskInfo" where
  "recordTaskInfo old msg updateTime approved =
     (let processingSet = sinserts (ti_processing old) [];
          approvedSet = sinserts (filter (\<lambda>po. po \<in> set processingSet) approved) (sinserts (ti_approved old) [])
      in \<lparr>ti_id = ti_id old, ti_begin = ti_begin old,
          ti_last = (if updateTime > ti_begin old then Some updateTime else None), ti_msg = msg,
          ti_processing = slist (sdiff processingSet approved), ti_approved = slist approvedSet\<rparr>)"

text \<open>The code stores the approved names in both fields.\<close>

definition approve :: "taskInfo \<Rightarrow> string list \<Rightarrow> taskInfo" where
  "approve ti approved =
     (let approvedSet = sinserts (intersection (sinserts (ti_processing ti) []) approved) (sinserts (ti_approved ti) [])
      in ti\<lparr>ti_approved := slist approvedSet, ti_processing := slist approvedSet\<rparr>)"

definition updateInterval :: "int \<Rightarrow> int option \<Rightarrow> gerr + int option" where
  "updateInterval interval cur =
     (if interval \<ge> 0 \<and> cur = None then Inr (Some interval)
      else (case cur of
              None \<Rightarrow> Inl (Panic ''nil interval'')
            | Some c \<Rightarrow> Inr (if c > interval then Some interval else Some c)))"

definition defaultInterval :: int where
  "defaultInterval = 5 * sec"

subsection \<open>The rule\<close>

record wstep =
  wd_checked :: sset
  wd_rej :: "string gomap"
  wd_trace :: sset
  wd_tasks :: "taskInfo gomap"
  wd_hist :: "taskInfo gomap"
  wd_pm :: pmgr

fun approvedLoop :: "whook \<Rightarrow> pod gomap \<Rightarrow> string list \<Rightarrow> sset \<times> sset \<Rightarrow> gerr + sset \<times> sset" where
  "approvedLoop h targets [] acc = Inr acc"
| "approvedLoop h targets (n # ns) (eff, checked) =
     (case mget targets n of
        None \<Rightarrow> Inl (Panic ''nil pod'')
      | Some p \<Rightarrow>
          approvedLoop h targets ns
            (if wh_approved h (p_name p) then (sdelete n eff, sinsert n checked) else (eff, checked)))"

fun historyLoop :: "int \<Rightarrow> taskInfo list \<Rightarrow> taskInfo gomap \<Rightarrow> taskInfo gomap" where
  "historyLoop now [] m = m"
| "historyLoop now (t # ts) m =
     historyLoop now ts
       (case ti_last t of
          None \<Rightarrow> m
        | Some l \<Rightarrow> if now - l < 600 * sec then mput (ti_id t) t m else m)"

text \<open>The pods of a task that has a result.\<close>

fun resultLoop :: "pollResult \<Rightarrow> string \<Rightarrow> string list \<Rightarrow> wstep \<Rightarrow> wstep" where
  "resultLoop r msg [] s = s"
| "resultLoop r msg (po # pos) s =
     resultLoop r msg pos
       (if po \<in> set (pr_approved r) then s\<lparr>wd_checked := sinsert po (wd_checked s)\<rparr>
        else (let s1 = (if pr_stopped r then s\<lparr>wd_trace := sdelete po (wd_trace s)\<rparr> else s)
              in s1\<lparr>wd_rej := mput po msg (wd_rej s1)\<rparr>))"

definition taskStep :: "sset \<Rightarrow> taskInfo \<Rightarrow> wstep \<Rightarrow> gerr + wstep" where
  "taskStep eff st s =
     (if ti_processing st = [] \<or> (\<forall>x \<in> set (ti_processing st). x \<notin> set eff)
      then Inr (s\<lparr>wd_hist := mput (ti_id st) st (wd_hist s), wd_pm := pmDelete (ti_id st) (wd_pm s)\<rparr>)
      else (let currentPods = sinserts (intersection eff (ti_processing st)) [];
                s1 = s\<lparr>wd_checked := sinserts (intersection eff (ti_approved st)) (wd_checked s),
                       wd_trace := sinserts (slist currentPods) (wd_trace s)\<rparr>
            in case pmGetResult (ti_id st) (wd_pm s) of
                 Inl e \<Rightarrow> Inl e
               | Inr r \<Rightarrow>
                   if pr_all r
                   then Inr (s1\<lparr>wd_tasks := mput (ti_id st) (recordTaskInfo st (pr_msg r) (pr_last r) (ti_processing st)) (wd_tasks s1),
                                wd_checked := sinserts (slist currentPods) (wd_checked s1),
                                wd_pm := pmDelete (ti_id st) (wd_pm s1)\<rparr>)
                   else if pr_stopped r
                   then Inr (resultLoop r ''Not approved by webhook, polling task stopped'' currentPods
                          (s1\<lparr>wd_hist := mput (ti_id st) ((approve st (slist (pr_approved r)))\<lparr>ti_last := Some (pr_last r)\<rparr>) (wd_hist s1),
                              wd_pm := pmDelete (ti_id st) (wd_pm s1)\<rparr>))
                   else Inr (resultLoop r ''Not approved by webhook, polling task is running'' currentPods
                          (s1\<lparr>wd_tasks := mput (ti_id st)
                                (recordTaskInfo st (pr_msg r) (pr_last r) (slist (pr_approved r))) (wd_tasks s1)\<rparr>))))"

fun taskLoop :: "sset \<Rightarrow> taskInfo list \<Rightarrow> wstep \<Rightarrow> gerr + wstep" where
  "taskLoop eff [] s = Inr s"
| "taskLoop eff (t # ts) s =
     (case taskStep eff t s of Inl e \<Rightarrow> Inl e | Inr s' \<Rightarrow> taskLoop eff ts s')"

definition finish :: "whook \<Rightarrow> wstep \<Rightarrow> int option \<Rightarrow> gerr option \<Rightarrow> fres" where
  "finish h s interval err =
     \<lparr>fr_passed = wd_checked s, fr_rejected = wd_rej s, fr_interval = interval, fr_err = err,
      fr_state = Some \<lparr>rs_name = wh_rule h,
        rs_webhook = Some \<lparr>ws_tasks = map snd (wd_tasks s), ws_history = map snd (wd_hist s)\<rparr>\<rparr>\<rparr>"

definition rejectThese :: "string list \<Rightarrow> string \<Rightarrow> wstep \<Rightarrow> wstep" where
  "rejectThese ns msg s = s\<lparr>wd_rej := rejectAll ns msg (wd_rej s)\<rparr>"

definition checkThese :: "string list \<Rightarrow> wstep \<Rightarrow> wstep" where
  "checkThese ns s = s\<lparr>wd_checked := sinserts ns (wd_checked s)\<rparr>"

text \<open>The first request for the pods that no task is tracing; a panic of the query ends the run.\<close>

definition firstRequest :: "wenv \<Rightarrow> whook \<Rightarrow> int \<Rightarrow> pod gomap \<Rightarrow> sset \<Rightarrow> wstep \<Rightarrow> gerr + fres \<times> wstep" where
  "firstRequest V h now targets eff s =
     (case query V h eff targets of
        Inl (Panic e) \<Rightarrow> Inl (Panic e)
      | Inl e \<Rightarrow> (let s1 = rejectThese eff ''Fail to do webhook request'' s in Inr (finish h s1 None (Some e), s1))
      | Inr x \<Rightarrow>
          (let taskId = getTaskId x;
               processing = slist (sdiff eff (sinserts (wx_names x) []));
               approved = intersection eff (wx_names x)
           in if \<not> wx_success x
              then (case updateInterval defaultInterval None of
                      Inl e \<Rightarrow> Inl e
                    | Inr iv \<Rightarrow>
                        (let s1 = rejectThese processing ''Webhook check rejected'' (checkThese approved s)
                         in Inr (finish h s1 iv None, s1)))
              else if \<not> shouldPoll x
              then (let s1 = checkThese (slist eff) s in Inr (finish h s1 None None, s1))
              else if taskId = []
              then (let s1 = rejectThese eff ''Invalid empty taskID'' s in Inr (finish h s1 None None, s1))
              else (case getPollingUrl h taskId of
                      Inl e \<Rightarrow> (let s1 = rejectThese eff ''Fail to get polling config'' s
                                in Inr (finish h s1 None (Some e), s1))
                    | Inr url \<Rightarrow>
                        (case addTask h now taskId url (wd_pm s) of
                           Inl e \<Rightarrow> Inl e
                         | Inr m \<Rightarrow>
                             (let s1 = rejectThese processing ''Polling task initialized''
                                         (checkThese approved
                                            (s\<lparr>wd_pm := m,
                                               wd_tasks := mput taskId (newTaskInfo now taskId (wx_msg x) processing approved) (wd_tasks s)\<rparr>))
                              in Inr (finish h s1 None None, s1))))))"

definition Do :: "wenv \<Rightarrow> whook \<Rightarrow> int \<Rightarrow> pod gomap \<Rightarrow> sset \<Rightarrow> pmgr \<Rightarrow> (gerr + fres) \<times> pmgr" where
  "Do V h now targets subjects pm =
     (case approvedLoop h targets subjects (sinserts (slist subjects) [], []) of
        Inl e \<Rightarrow> (Inl e, pm)
      | Inr (eff, checked) \<Rightarrow>
          (case taskLoop eff (ws_tasks (wh_state h))
                  \<lparr>wd_checked = checked, wd_rej = [], wd_trace = [], wd_tasks = [],
                   wd_hist = historyLoop now (ws_history (wh_state h)) [], wd_pm = pm\<rparr> of
             Inl e \<Rightarrow> (Inl e, pm)
           | Inr s \<Rightarrow>
               (let eff1 = sdiff (sdiff eff (wd_trace s)) (wd_checked s)
                in if eff1 = [] then (Inr (finish h s None None), wd_pm s)
                   else (case firstRequest V h now targets eff1 s of
                           Inl e \<Rightarrow> (Inl e, wd_pm s)
                         | Inr (res, s1) \<Rightarrow> (Inr res, wd_pm s1)))))"

definition ruleStateOf :: "ptr \<Rightarrow> string \<Rightarrow> webhookStatus" where
  "ruleStateOf r name =
     (case find (\<lambda>st. rs_name st = name) (r_states r) of
        None \<Rightarrow> \<lparr>ws_tasks = [], ws_history = []\<rparr>
      | Some st \<Rightarrow> (case rs_webhook st of None \<Rightarrow> \<lparr>ws_tasks = [], ws_history = []\<rparr> | Some w \<Rightarrow> w))"

fun webhooks :: "ptr \<Rightarrow> string list \<Rightarrow> trule list \<Rightarrow> whook list" where
  "webhooks r names [] = []"
| "webhooks r names (t # ts) =
     (case t_webhook t of
        None \<Rightarrow> webhooks r names ts
      | Some c \<Rightarrow>
          if names \<noteq> [] \<and> t_name t \<notin> set names then webhooks r names ts
          else \<lparr>wh_key = r_ns r @ ''/'' @ r_name r @ ''/'' @ t_name t, wh_rule = t_name t, wh_stage = t_stage t,
                wh_cfg = c, wh_state = ruleStateOf r (t_name t),
                wh_approved = (\<lambda>po. IsPodPassRule po r (t_name t))\<rparr> # webhooks r names ts)"

definition GetWebhook :: "ptr \<Rightarrow> string list \<Rightarrow> whook list" where
  "GetWebhook r names = webhooks r names (r_rules r)"

definition WebhookFilter :: "wenv \<Rightarrow> int \<Rightarrow> string \<Rightarrow> ptr \<Rightarrow> pod gomap \<Rightarrow> sset \<Rightarrow> pmgr \<Rightarrow> (gerr + fres) \<times> pmgr" where
  "WebhookFilter V now name r targets subjects pm =
     (case GetWebhook r [name] of
        [] \<Rightarrow> (Inl (Panic ''index out of range''), pm)
      | h # hs \<Rightarrow> Do V h now targets subjects pm)"

subsection \<open>What the loops decide\<close>

lemma set_intersection [simp]: "set (intersection s t) = {x \<in> set t. x \<in> set s}"
  by (simp add: intersection_def)

lemma approvedLoop_spec:
  "approvedLoop h targets ns (eff, checked) = Inr (eff', checked') \<Longrightarrow>
     (\<forall>n \<in> set ns. mhas targets n)
     \<and> set eff' = set eff - {n \<in> set ns. \<exists>p. mget targets n = Some p \<and> wh_approved h (p_name p)}
     \<and> set checked' = set checked \<union> {n \<in> set ns. \<exists>p. mget targets n = Some p \<and> wh_approved h (p_name p)}"
proof (induction ns arbitrary: eff checked)
  case (Cons n ns)
  then obtain p where p: "mget targets n = Some p" by (auto split: option.splits)
  show ?case
  proof (cases "wh_approved h (p_name p)")
    case True
    with Cons.prems p have "approvedLoop h targets ns (sdelete n eff, sinsert n checked) = Inr (eff', checked')" by simp
    from Cons.IH [OF this] p True show ?thesis by (auto simp: mhas_def)
  next
    case False
    with Cons.prems p have "approvedLoop h targets ns (eff, checked) = Inr (eff', checked')" by simp
    from Cons.IH [OF this] p False show ?thesis by (auto simp: mhas_def)
  qed
qed simp

lemma resultLoop_spec:
  "(let s' = resultLoop r msg pos s in
     set (wd_checked s') = set (wd_checked s) \<union> {x \<in> set pos. x \<in> set (pr_approved r)}
     \<and> (\<forall>x. mhas (wd_rej s') x \<longleftrightarrow> mhas (wd_rej s) x \<or> x \<in> set pos \<and> x \<notin> set (pr_approved r))
     \<and> set (wd_trace s') \<subseteq> set (wd_trace s) \<and> wd_pm s' = wd_pm s)"
proof (induction pos arbitrary: s)
  case (Cons po pos)
  let ?s = "if po \<in> set (pr_approved r) then s\<lparr>wd_checked := sinsert po (wd_checked s)\<rparr>
        else (let s1 = (if pr_stopped r then s\<lparr>wd_trace := sdelete po (wd_trace s)\<rparr> else s)
              in s1\<lparr>wd_rej := mput po msg (wd_rej s1)\<rparr>)"
  show ?case
    using Cons.IH [of ?s] by (auto simp: Let_def split: if_splits)
qed (simp add: Let_def)

text \<open>Why the loop over the tasks may let a pod pass.\<close>

definition taskGrants :: "pmgr \<Rightarrow> taskInfo \<Rightarrow> string \<Rightarrow> bool" where
  "taskGrants pm t x \<longleftrightarrow> x \<in> set (ti_approved t) \<or>
     (\<exists>r. pmGetResult (ti_id t) pm = Inr r \<and> x \<in> set (ti_processing t) \<and> (pr_all r \<or> x \<in> set (pr_approved r)))"

definition stepOk :: "sset \<Rightarrow> wstep \<Rightarrow> bool" where
  "stepOk eff s \<longleftrightarrow> (\<forall>x. mhas (wd_rej s) x \<longrightarrow> x \<in> set eff) \<and> set (wd_trace s) \<subseteq> set eff
     \<and> (\<forall>x \<in> set (wd_trace s). x \<in> set (wd_checked s) \<or> mhas (wd_rej s) x)"

lemma pmGetResult_delete: "pmGetResult i (pmDelete j pm) = Inr r \<Longrightarrow> pmGetResult i pm = Inr r"
  by (auto simp: pmGetResult_def pmDelete_def split: if_splits)

lemma taskStep_spec:
  assumes "taskStep eff t s = Inr s'" and "stepOk eff s"
  shows "stepOk eff s'" and "set (wd_checked s) \<subseteq> set (wd_checked s')"
    and "x \<in> set (wd_checked s') \<Longrightarrow> x \<in> set (wd_checked s) \<or> x \<in> set eff \<and> taskGrants (wd_pm s) t x"
    and "pmGetResult i (wd_pm s') = Inr r \<Longrightarrow> pmGetResult i (wd_pm s) = Inr r"
proof -
  let ?cur = "sinserts (intersection eff (ti_processing t)) []"
  let ?s1 = "s\<lparr>wd_checked := sinserts (intersection eff (ti_approved t)) (wd_checked s),
                       wd_trace := sinserts (slist ?cur) (wd_trace s)\<rparr>"
  consider (skip) "s' = s\<lparr>wd_hist := mput (ti_id t) t (wd_hist s), wd_pm := pmDelete (ti_id t) (wd_pm s)\<rparr>"
    | (all) r ti where "pmGetResult (ti_id t) (wd_pm s) = Inr r" "pr_all r"
        "s' = ?s1\<lparr>wd_tasks := ti, wd_checked := sinserts (slist ?cur) (wd_checked ?s1), wd_pm := pmDelete (ti_id t) (wd_pm s)\<rparr>"
    | (some) r sx msg where "pmGetResult (ti_id t) (wd_pm s) = Inr r"
        "s' = resultLoop r msg ?cur sx" "wd_checked sx = wd_checked ?s1" "wd_rej sx = wd_rej s"
        "wd_trace sx = wd_trace ?s1" "wd_pm sx = wd_pm s \<or> wd_pm sx = pmDelete (ti_id t) (wd_pm s)"
  proof (cases "ti_processing t = [] \<or> (\<forall>x \<in> set (ti_processing t). x \<notin> set eff)")
    case True
    with assms(1) show thesis by (intro skip) (simp add: taskStep_def)
  next
    case False
    note st = assms(1) [unfolded taskStep_def Let_def if_not_P [OF False]]
    show thesis
    proof (cases "pmGetResult (ti_id t) (wd_pm s)")
      case (Inl e)
      with st show thesis by simp
    next
      case g: (Inr r)
      show thesis
      proof (cases "pr_all r")
        case True
        with st g show thesis by (intro all [OF g True, of "mput (ti_id t) (recordTaskInfo t (pr_msg r) (pr_last r) (ti_processing t)) (wd_tasks s)"]) simp
      next
        case na: False
        show thesis
        proof (cases "pr_stopped r")
          case True
          with st g na show thesis by (intro some [OF g, where msg = "''Not approved by webhook, polling task stopped''" and sx = "?s1\<lparr>wd_hist := mput (ti_id t) ((approve t (slist (pr_approved r)))\<lparr>ti_last := Some (pr_last r)\<rparr>) (wd_hist s), wd_pm := pmDelete (ti_id t) (wd_pm s)\<rparr>"]) simp_all
        next
          case False
          with st g na show thesis by (intro some [OF g, where msg = "''Not approved by webhook, polling task is running''" and sx = "?s1\<lparr>wd_tasks := mput (ti_id t) (recordTaskInfo t (pr_msg r) (pr_last r) (slist (pr_approved r))) (wd_tasks s)\<rparr>"]) simp_all
        qed
      qed
    qed
  qed
  then have "stepOk eff s' \<and> set (wd_checked s) \<subseteq> set (wd_checked s')
    \<and> (x \<in> set (wd_checked s') \<longrightarrow> x \<in> set (wd_checked s) \<or> x \<in> set eff \<and> taskGrants (wd_pm s) t x)
    \<and> (pmGetResult i (wd_pm s') = Inr r \<longrightarrow> pmGetResult i (wd_pm s) = Inr r)"
  proof cases
    case skip
    then have "stepOk eff s'" using assms(2) by (simp add: stepOk_def)
    then show ?thesis using skip by (auto dest: pmGetResult_delete)
  next
    case (all q ti)
    have "stepOk eff s'" using assms(2) by (auto simp: stepOk_def all(3))
    moreover have "x \<in> set (wd_checked s') \<longrightarrow> x \<in> set (wd_checked s) \<or> x \<in> set eff \<and> taskGrants (wd_pm s) t x"
      using all(1,2) by (auto simp: taskGrants_def all(3))
    ultimately show ?thesis by (auto simp: all(3) dest: pmGetResult_delete)
  next
    case (some q sx msg)
    have "wd_pm s' = wd_pm sx" using resultLoop_spec [of q msg ?cur sx] some(2) by (simp add: Let_def)
    then have "wd_pm s' = wd_pm s \<or> wd_pm s' = pmDelete (ti_id t) (wd_pm s)" using some(6) by simp
    then have pm: "pmGetResult i (wd_pm s') = Inr r \<longrightarrow> pmGetResult i (wd_pm s) = Inr r"
      by (auto dest: pmGetResult_delete)
    have cur: "set ?cur = {x \<in> set (ti_processing t). x \<in> set eff}" by simp
    have chk: "set (wd_checked s') = set (wd_checked s) \<union> {x \<in> set (ti_approved t). x \<in> set eff}
        \<union> {x \<in> set ?cur. x \<in> set (pr_approved q)}"
      using resultLoop_spec [of q msg ?cur sx] some(2,3) by (auto simp: Let_def)
    have rej: "mhas (wd_rej s') y \<longleftrightarrow> mhas (wd_rej s) y \<or> y \<in> set ?cur \<and> y \<notin> set (pr_approved q)" for y
      using resultLoop_spec [of q msg ?cur sx] some(2,4) by (simp add: Let_def)
    have trc: "set (wd_trace s') \<subseteq> set ?cur \<union> set (wd_trace s)"
      using resultLoop_spec [of q msg ?cur sx] some(2,5) by (simp add: Let_def)
    have "stepOk eff s'"
      unfolding stepOk_def
    proof (intro conjI allI ballI impI)
      show "y \<in> set eff" if "mhas (wd_rej s') y" for y
        using that rej assms(2) by (auto simp: stepOk_def cur)
      show "set (wd_trace s') \<subseteq> set eff" using trc assms(2) by (auto simp: stepOk_def cur)
      fix y assume "y \<in> set (wd_trace s')"
      then have "y \<in> set ?cur \<or> y \<in> set (wd_trace s)" using trc by blast
      then show "y \<in> set (wd_checked s') \<or> mhas (wd_rej s') y"
        using assms(2) unfolding stepOk_def chk rej by blast
    qed
    moreover have "x \<in> set (wd_checked s') \<longrightarrow> x \<in> set (wd_checked s) \<or> x \<in> set eff \<and> taskGrants (wd_pm s) t x"
      unfolding chk cur taskGrants_def using some(1) by blast
    moreover have "set (wd_checked s) \<subseteq> set (wd_checked s')" unfolding chk by blast
    ultimately show ?thesis using pm by blast
  qed
  then show "stepOk eff s'" "set (wd_checked s) \<subseteq> set (wd_checked s')"
    "x \<in> set (wd_checked s') \<Longrightarrow> x \<in> set (wd_checked s) \<or> x \<in> set eff \<and> taskGrants (wd_pm s) t x"
    "pmGetResult i (wd_pm s') = Inr r \<Longrightarrow> pmGetResult i (wd_pm s) = Inr r"
    by blast+
qed

lemma taskLoop_spec:
  assumes "taskLoop eff ts s = Inr s'" and "stepOk eff s"
  shows "stepOk eff s' \<and> set (wd_checked s) \<subseteq> set (wd_checked s')
    \<and> (\<forall>x \<in> set (wd_checked s'). x \<in> set (wd_checked s) \<or> x \<in> set eff \<and> (\<exists>t \<in> set ts. taskGrants (wd_pm s) t x))"
  using assms
proof (induction ts arbitrary: s)
  case (Cons t ts)
  then obtain s1 where s1: "taskStep eff t s = Inr s1" "taskLoop eff ts s1 = Inr s'"
    by (auto split: sum.splits)
  note st = taskStep_spec [OF s1(1) Cons.prems(2)]
  have g: "taskGrants (wd_pm s1) u x \<Longrightarrow> taskGrants (wd_pm s) u x" for u x
    using st(4) by (auto simp: taskGrants_def)
  show ?case
    using Cons.IH [OF s1(2) st(1)] st(2,3) g by (simp, blast)
qed simp

lemma firstRequest_cases:
  assumes "firstRequest V h now targets eff s = Inr (res, s')"
  shows "fr_passed res = wd_checked s' \<and> fr_rejected res = wd_rej s'
    \<and> (\<exists>C R. (wd_checked s' = wd_checked s \<or> wd_checked s' = sinserts C (wd_checked s))
        \<and> (\<forall>x. mhas (wd_rej s') x \<longleftrightarrow> mhas (wd_rej s) x \<or> x \<in> R) \<and> set C \<subseteq> set eff \<and> R \<subseteq> set eff
        \<and> (\<forall>x \<in> set eff. x \<in> R \<or> wd_checked s' = sinserts C (wd_checked s) \<and> x \<in> set C)
        \<and> (\<forall>x \<in> set C. \<exists>req y. buildRequest V h eff targets = Inr req
             \<and> we_http V (wc_url (wh_cfg h)) req = Response y
             \<and> (x \<in> set (wx_names y) \<or> wx_success y \<and> \<not> shouldPoll y)))"
proof (cases "query V h eff targets")
  case (Inl e)
  then have "\<exists>e'. (res, s') = (finish h (rejectThese eff ''Fail to do webhook request'' s) None (Some e'),
      rejectThese eff ''Fail to do webhook request'' s)"
    using assms by (cases e) (auto simp: firstRequest_def Let_def)
  then show ?thesis
    by (intro conjI exI [of _ "[]"] exI [of _ "set eff"]) (auto simp: finish_def rejectThese_def)
next
  case (Inr y)
  then obtain req where req: "buildRequest V h eff targets = Inr req" "we_http V (wc_url (wh_cfg h)) req = Response y"
    by (auto simp: query_def doHttp_def split: sum.splits httpOutcome.splits)
  let ?p = "slist (sdiff eff (sinserts (wx_names y) []))" and ?a = "intersection eff (wx_names y)"
  consider (rej) iv msg sx where "(res, s') = (finish h (rejectThese ?p msg (checkThese ?a sx)) iv None, rejectThese ?p msg (checkThese ?a sx))"
      "wd_checked sx = wd_checked s" "wd_rej sx = wd_rej s"
    | (pass) "wx_success y" "\<not> shouldPoll y" "(res, s') = (finish h (checkThese (slist eff) s) None None, checkThese (slist eff) s)"
    | (none) msg er where "(res, s') = (finish h (rejectThese eff msg s) None er, rejectThese eff msg s)"
  proof -
    note f = assms [unfolded firstRequest_def Inr sum.case Let_def]
    show thesis
    proof (cases "wx_success y")
      case False
      with f show thesis
        by (intro rej [where sx = s and iv = "Some defaultInterval" and msg = "''Webhook check rejected''"])
          (auto simp: updateInterval_def defaultInterval_def sec_def)
    next
      case sc: True
      show thesis
      proof (cases "shouldPoll y")
        case False
        with f sc show thesis by (intro pass) auto
      next
        case po: True
        show thesis
        proof (cases "getTaskId y = []")
          case True
          with f sc po show thesis by (intro none [where msg = "''Invalid empty taskID''" and er = None]) auto
        next
          case ti: False
          show thesis
          proof (cases "getPollingUrl h (getTaskId y)")
            case (Inl e)
            with f sc po ti show thesis
              by (intro none [where msg = "''Fail to get polling config''" and er = "Some e"]) auto
          next
            case u: (Inr url)
            show thesis
            proof (cases "addTask h now (getTaskId y) url (wd_pm s)")
              case (Inl e)
              with f sc po ti u show thesis by auto
            next
              case (Inr m)
              with f sc po ti u show thesis
                by (intro rej [where iv = None and msg = "''Polling task initialized''"
                      and sx = "s\<lparr>wd_pm := m, wd_tasks := mput (getTaskId y)
                        (newTaskInfo now (getTaskId y) (wx_msg y) ?p ?a) (wd_tasks s)\<rparr>"]) auto
            qed
          qed
        qed
      qed
    qed
  qed
  then show ?thesis
  proof cases
    case rej
    then show ?thesis
      using req by (intro conjI exI [of _ ?a] exI [of _ "set ?p"]) (auto simp: finish_def rejectThese_def checkThese_def)
  next
    case pass
    then show ?thesis
      using req by (intro conjI exI [of _ "slist eff"] exI [of _ "{}"]) (auto simp: finish_def checkThese_def)
  next
    case none
    then show ?thesis
      by (intro conjI exI [of _ "[]"] exI [of _ "set eff"]) (auto simp: finish_def rejectThese_def)
  qed
qed

text \<open>Why a run lets a pod pass: it passed before, a task it is in approved it, or the server
  named it in the answer to the request of this run or let all asked pods pass at once.\<close>

definition passReason :: "wenv \<Rightarrow> whook \<Rightarrow> pod gomap \<Rightarrow> sset \<Rightarrow> pmgr \<Rightarrow> string \<Rightarrow> bool" where
  "passReason V h targets subjects pm x \<longleftrightarrow>
     (\<exists>p. mget targets x = Some p \<and> wh_approved h (p_name p))
   \<or> (\<exists>t \<in> set (ws_tasks (wh_state h)). taskGrants pm t x)
   \<or> (\<exists>asked req y. x \<in> set asked \<and> set asked \<subseteq> set subjects \<and> buildRequest V h asked targets = Inr req
        \<and> we_http V (wc_url (wh_cfg h)) req = Response y
        \<and> (x \<in> set (wx_names y) \<or> wx_success y \<and> \<not> shouldPoll y))"

lemma Do_spec:
  assumes "Do V h now targets subjects pm = (Inr res, pm')"
  shows "set (fr_passed res) \<union> {n. mhas (fr_rejected res) n} = set subjects"
    and "x \<in> set (fr_passed res) \<Longrightarrow> passReason V h targets subjects pm x"
proof -
  obtain eff ch where a: "approvedLoop h targets subjects (sinserts (slist subjects) [], []) = Inr (eff, ch)"
    using assms by (auto simp: Do_def split: sum.splits)
  let ?s0 = "\<lparr>wd_checked = ch, wd_rej = [], wd_trace = [], wd_tasks = [],
                   wd_hist = historyLoop now (ws_history (wh_state h)) [], wd_pm = pm\<rparr>"
  obtain s where t: "taskLoop eff (ws_tasks (wh_state h)) ?s0 = Inr s"
    using assms by (auto simp: Do_def a split: sum.splits)
  let ?eff1 = "sdiff (sdiff eff (wd_trace s)) (wd_checked s)"
  let ?A = "{n \<in> set subjects. \<exists>p. mget targets n = Some p \<and> wh_approved h (p_name p)}"
  note ap = approvedLoop_spec [OF a]
  have eff: "set eff = set subjects - ?A" and ch: "set ch = ?A"
    using conjunct1 [OF conjunct2 [OF ap]] conjunct2 [OF conjunct2 [OF ap]] by auto
  have ok0: "stepOk eff ?s0" by (simp add: stepOk_def)
  have ok: "stepOk eff s" and keep: "?A \<subseteq> set (wd_checked s)"
    and grant: "\<And>x. x \<in> set (wd_checked s) \<Longrightarrow> x \<in> ?A \<or> x \<in> set eff \<and> (\<exists>t \<in> set (ws_tasks (wh_state h)). taskGrants pm t x)"
    using taskLoop_spec [OF t ok0] ch by auto
  obtain s' :: wstep and C R where fin: "fr_passed res = wd_checked s'" "fr_rejected res = wd_rej s'"
    and chk: "wd_checked s' = wd_checked s \<or> wd_checked s' = sinserts C (wd_checked s)"
    and rej: "\<And>x. mhas (wd_rej s') x \<longleftrightarrow> mhas (wd_rej s) x \<or> x \<in> R"
    and sub: "set C \<subseteq> set ?eff1" "R \<subseteq> set ?eff1"
    and all: "\<forall>x \<in> set ?eff1. x \<in> R \<or> wd_checked s' = sinserts C (wd_checked s) \<and> x \<in> set C"
    and why: "\<forall>x \<in> set C. \<exists>req y. buildRequest V h ?eff1 targets = Inr req
             \<and> we_http V (wc_url (wh_cfg h)) req = Response y
             \<and> (x \<in> set (wx_names y) \<or> wx_success y \<and> \<not> shouldPoll y)"
  proof (cases "?eff1 = []")
    case True
    with assms have r: "res = finish h s None None" by (simp add: Do_def a t Let_def)
    show thesis
      by (rule that [of s "[]" "{}"]) (simp_all add: r finish_def True)
  next
    case False
    with assms obtain s' where "firstRequest V h now targets ?eff1 s = Inr (res, s')"
      by (auto simp: Do_def a t Let_def split: sum.splits)
    from firstRequest_cases [OF this] that show thesis by blast
  qed
  have e1: "set ?eff1 = set eff - set (wd_trace s) - set (wd_checked s)" by simp
  have chk': "set (wd_checked s) \<subseteq> set (wd_checked s')" "set (wd_checked s') \<subseteq> set (wd_checked s) \<union> set C"
    using chk by auto
  show "set (fr_passed res) \<union> {n. mhas (fr_rejected res) n} = set subjects"
  proof (intro equalityI subsetI)
    fix x assume "x \<in> set (fr_passed res) \<union> {n. mhas (fr_rejected res) n}"
    then have "x \<in> set (wd_checked s) \<or> x \<in> set C \<or> mhas (wd_rej s) x \<or> x \<in> R"
      using chk' rej fin by auto
    then show "x \<in> set subjects"
      using grant [of x] sub ok eff unfolding stepOk_def e1 by blast
  next
    fix x assume x: "x \<in> set subjects"
    show "x \<in> set (fr_passed res) \<union> {n. mhas (fr_rejected res) n}"
    proof (cases "x \<in> set ?eff1")
      case True
      with all have "x \<in> R \<or> x \<in> set (wd_checked s')" by auto
      then show ?thesis using rej fin by auto
    next
      case False
      then have "x \<in> ?A \<or> x \<in> set (wd_trace s) \<or> x \<in> set (wd_checked s)" using x eff e1 by blast
      then have "x \<in> set (wd_checked s) \<or> mhas (wd_rej s) x" using ok keep unfolding stepOk_def by blast
      then show ?thesis using chk' rej fin by auto
    qed
  qed
  show "passReason V h targets subjects pm x" if "x \<in> set (fr_passed res)"
  proof -
    from that fin chk' have "x \<in> set (wd_checked s) \<or> x \<in> set C" by auto
    then show ?thesis
    proof
      assume "x \<in> set (wd_checked s)"
      from grant [OF this] show ?thesis unfolding passReason_def by blast
    next
      assume x: "x \<in> set C"
      with why obtain req y where r: "buildRequest V h ?eff1 targets = Inr req"
        "we_http V (wc_url (wh_cfg h)) req = Response y"
        "x \<in> set (wx_names y) \<or> wx_success y \<and> \<not> shouldPoll y" by blast
      have "x \<in> set ?eff1" "set ?eff1 \<subseteq> set subjects" using x sub eff e1 by blast+
      then show ?thesis using r unfolding passReason_def by blast
    qed
  qed
qed

interpretation webhook_rule: ruler "\<lambda>(V, now, name) r targets subjects pm. WebhookFilter V now name r targets subjects pm"
proof
  fix c :: "wenv \<times> int \<times> string" and r and targets :: "pod gomap" and subjects pm pm' res
  obtain V now name where c: "c = (V, now, name)" by (cases c)
  assume "(case c of (V, now, name) \<Rightarrow> \<lambda>r targets subjects pm. WebhookFilter V now name r targets subjects pm) r targets subjects pm = (Inr res, pm')"
  then have "WebhookFilter V now name r targets subjects pm = (Inr res, pm')" by (simp add: c)
  then obtain h hs where "Do V h now targets subjects pm = (Inr res, pm')"
    by (auto simp: WebhookFilter_def split: list.splits)
  then show "set (fr_passed res) \<union> {n. mhas (fr_rejected res) n} = set subjects" by (rule Do_spec(1))
qed

text \<open>C24: A webhook rule passes and rejects exactly the pods it was asked about, and it passes a
  pod only if the pod had passed this rule before, a task recorded for it approved it
  (by its record or by the polling result), or the server approved it in the answer
  to a request that this run made for it.\<close>

theorem webhook_pass_has_reason:
  assumes "WebhookFilter V now name r targets subjects pm = (Inr res, pm')"
  shows "\<exists>h hs. GetWebhook r [name] = h # hs
    \<and> set (fr_passed res) \<union> {n. mhas (fr_rejected res) n} = set subjects
    \<and> (\<forall>x \<in> set (fr_passed res). passReason V h targets subjects pm x)"
proof -
  from assms obtain h hs where h: "GetWebhook r [name] = h # hs" "Do V h now targets subjects pm = (Inr res, pm')"
    by (auto simp: WebhookFilter_def split: list.splits)
  from Do_spec [OF h(2)] h(1) show ?thesis by blast
qed

text \<open>When the webhook cannot be reached, the client returns an error and no response, and the rule
  panics on closing the body of the response, instead of rejecting the pods with the error.\<close>

theorem unreachable_webhook_panics:
  assumes "buildRequest V h eff targets = Inr req" and "we_http V (wc_url (wh_cfg h)) req = NoResponse e"
  shows "\<exists>msg. firstRequest V h now targets eff s = Inl (Panic msg)"
  using assms by (simp add: firstRequest_def query_def doHttp_def)

lemma approvedLoop_Inl: "approvedLoop h targets ns acc = Inl e \<Longrightarrow> \<exists>m. e = Panic m"
  by (induction h targets ns acc rule: approvedLoop.induct) (auto split: option.splits if_splits)

text \<open>When the first recorded task still has an undecided pod of the subjects but no entry in the polling
  manager, as after a restart of the controller, the rule panics: the branch that would start the polling
  again is not reached.\<close>

theorem restart_panics:
  assumes "ws_tasks (wh_state h) = t # ts" and "mget pm (ti_id t) = None"
    and "x \<in> set (ti_processing t)" and "x \<in> set subjects"
    and "mget targets x = Some p" and "\<not> wh_approved h (p_name p)"
  shows "\<exists>msg. Do V h now targets subjects pm = (Inl (Panic msg), pm)"
proof (cases "approvedLoop h targets subjects (sinserts (slist subjects) [], [])")
  case (Inl e)
  with approvedLoop_Inl [OF Inl] show ?thesis by (auto simp: Do_def)
next
  case (Inr ec)
  obtain eff ch where ec: "ec = (eff, ch)" by (cases ec)
  have "x \<in> set eff"
    using approvedLoop_spec [OF Inr [unfolded ec]] assms(4-6) by auto
  then have c: "\<not> (ti_processing t = [] \<or> (\<forall>x \<in> set (ti_processing t). x \<notin> set eff))"
    using assms(3) by auto
  have "taskStep eff t s = Inl (Panic ''nil task'')" if "wd_pm s = pm" for s :: wstep
    unfolding taskStep_def if_not_P [OF c] using that assms(2) by (simp add: Let_def pmGetResult_def)
  then show ?thesis by (simp add: Do_def Inr ec assms(1))
qed

end
