(* ===== verification/Processor.thy ===== *)
theory Processor
  imports WebhookRule
begin

text \<open>
  \<^verbatim>\<open>pkg/controllers/podtransitionrule/processor/processor.go\<close> and the part of the controller that
  turns its results into the details of a PodTransitionRule (\<open>process\<close> and \<open>updateDetail\<close> of
  \<^verbatim>\<open>podtransitionrule_controller.go\<close>).

  The Go interface \<open>Ruler\<close> is the type \<open>rulerCfg\<close> with the dispatch \<open>Filter\<close>.  The loop over the rules
  takes the filter as an argument, and its lemmas are proved in the locale \<open>ruler\<close>, from the contract
  alone.  The stages run in goroutines that a mutex serialises when they store their results; the
  order in which they finish is the order of the list of stages.
\<close>

datatype rulerCfg = RAvailable availRule | RLabel string | RHook string

definition GetRuler :: "trule \<Rightarrow> rulerCfg option" where
  "GetRuler t =
     (case t_avail t of
        Some a \<Rightarrow> Some (RAvailable \<lparr>av_name = t_name t, av_min = ap_min a, av_max = ap_max a\<rparr>)
      | None \<Rightarrow>
          (case t_label t of
             Some s \<Rightarrow> Some (RLabel s)
           | None \<Rightarrow> (case t_webhook t of Some _ \<Rightarrow> Some (RHook (t_name t)) | None \<Rightarrow> None)))"

record penv =
  pe_env :: renv
  pe_unavail :: "unavailFunc list"
  pe_web :: wenv
  pe_now :: int
  pe_cache :: cache
  pe_ruleStage :: "string gomap"
  pe_skip :: sset

fun Filter :: "penv \<Rightarrow> rulerCfg \<Rightarrow> ptr \<Rightarrow> pod gomap \<Rightarrow> sset \<Rightarrow> pmgr \<Rightarrow> (gerr + fres) \<times> pmgr" where
  "Filter P (RAvailable a) r targets subjects w = (AvailableFilter (pe_env P) (pe_unavail P) a r targets subjects, w)"
| "Filter P (RLabel s) r targets subjects w = (LabelCheckFilter (pe_env P) s r targets subjects, w)"
| "Filter P (RHook n) r targets subjects w = WebhookFilter (pe_web P) (pe_now P) n r targets subjects w"

interpretation rulers: ruler "Filter P" for P
proof
  fix c r and targets :: "pod gomap" and subjects w res w'
  assume nt: "named targets" and f: "Filter P c r targets subjects w = (Inr res, w')"
  show "set (fr_passed res) \<union> {n. mhas (fr_rejected res) n} = set subjects"
  proof (cases c)
    case (RAvailable a)
    then show ?thesis
      using available.cover [OF nt, of "(pe_env P, pe_unavail P, a)" r subjects w res w'] f by simp
  next
    case (RLabel s)
    then show ?thesis
      using label_check.cover [OF nt, of "(pe_env P, s)" r subjects w res w'] f by simp
  next
    case (RHook n)
    then show ?thesis
      using webhook_rule.cover [OF nt, of "(pe_web P, pe_now P, n)" r subjects w res w'] f by simp
  qed
qed

subsection \<open>Processing one stage\<close>

definition effectiveRules :: "penv \<Rightarrow> string \<Rightarrow> ptr \<Rightarrow> trule list" where
  "effectiveRules P stage r =
     sortRules (filter (\<lambda>t. \<not> t_disabled t \<and> \<not> needSkip (pe_env P) (pe_skip P) t
        \<and> (case t_stage t of
             None \<Rightarrow> GetRuleStage (pe_env P) (pe_ruleStage P) (pe_cache P) t = stage
           | Some st \<Rightarrow> st = stage)) (r_rules r))"

record pst =
  ps_proc :: sset
  ps_skip :: sset
  ps_pass :: "sset gomap"
  ps_rej :: "(string \<times> string) gomap"
  ps_states :: "ruleState list"
  ps_min :: int
  ps_retry :: bool

definition maxInterval :: int where
  "maxInterval = 2147483647 * sec"

fun skipLoop :: "(string \<Rightarrow> bool) \<Rightarrow> string list \<Rightarrow> sset \<times> sset \<Rightarrow> sset \<times> sset" where
  "skipLoop f [] acc = acc"
| "skipLoop f (n # ns) (proc, skip) =
     skipLoop f ns (if f n then (sdelete n proc, sinsert n skip) else (proc, skip))"

definition onPod :: "pod gomap \<Rightarrow> (pod \<Rightarrow> bool) \<Rightarrow> string \<Rightarrow> bool" where
  "onPod targets f n = (case mget targets n of None \<Rightarrow> False | Some p \<Rightarrow> f p)"

definition skipAnno :: "penv \<Rightarrow> trule \<Rightarrow> pod \<Rightarrow> bool" where
  "skipAnno P t p \<longleftrightarrow> HasSkipRule (pe_env P) p (t_name t) = Inr True"

definition skipCond :: "penv \<Rightarrow> trule \<Rightarrow> pod \<Rightarrow> bool" where
  "skipCond P t p \<longleftrightarrow> t_conditions t \<noteq> [] \<and> MatchConditions (pe_cache P) p (t_conditions t) = []"

definition skipSel :: "penv \<Rightarrow> trule \<Rightarrow> pod \<Rightarrow> bool" where
  "skipSel P t p \<longleftrightarrow>
     (case t_filter t of
        None \<Rightarrow> False
      | Some f \<Rightarrow> (case re_sel (pe_env P) f of Inl _ \<Rightarrow> False | Inr sel \<Rightarrow> \<not> sel (p_labels p)))"

definition badSelector :: "penv \<Rightarrow> trule \<Rightarrow> bool" where
  "badSelector P t \<longleftrightarrow> (case t_filter t of None \<Rightarrow> False | Some f \<Rightarrow> is_err (re_sel (pe_env P) f))"

text \<open>The three loops that skip pods.  A name without a pod is dereferenced in the first one; a
  selector that does not parse is nil and dereferenced for the first pod of the third one.\<close>

definition skipPods :: "penv \<Rightarrow> pod gomap \<Rightarrow> trule \<Rightarrow> pst \<Rightarrow> gerr + pst" where
  "skipPods P targets t s =
     (if list_ex (\<lambda>n. \<not> mhas targets n) (ps_proc s) then Inl (Panic ''nil pod'')
      else (let (p1, k1) = skipLoop (onPod targets (skipAnno P t)) (slist (ps_proc s)) (ps_proc s, ps_skip s);
                (p2, k2) = skipLoop (onPod targets (skipCond P t)) (slist p1) (p1, k1)
            in if badSelector P t \<and> p2 \<noteq> []
               then Inl (Panic ''nil selector'')
               else (let (p3, k3) = skipLoop (onPod targets (skipSel P t)) (slist p2) (p2, k2)
                     in Inr (s\<lparr>ps_proc := p3, ps_skip := k3\<rparr>))))"

fun passLoop :: "string \<Rightarrow> string list \<Rightarrow> sset gomap \<Rightarrow> gerr + sset gomap" where
  "passLoop rule [] m = Inr m"
| "passLoop rule (n # ns) m =
     (case mget m n of
        None \<Rightarrow> Inl (Panic ''assignment to entry in nil map'')
      | Some s \<Rightarrow> passLoop rule ns (mput n (sinsert rule s) m))"

fun rejLoop :: "string \<Rightarrow> string gomap \<Rightarrow> (string \<times> string) gomap \<Rightarrow> (string \<times> string) gomap" where
  "rejLoop rule [] m = m"
| "rejLoop rule ((n, reason) # ns) m = rejLoop rule ns (mput n (rule, reason) m)"

definition takeResult :: "trule \<Rightarrow> fres \<Rightarrow> pst \<Rightarrow> gerr + pst" where
  "takeResult t res s =
     (case passLoop (t_name t) (fr_passed res) (ps_pass s) of
        Inl e \<Rightarrow> Inl e
      | Inr pass \<Rightarrow>
          (let (retry, mi) = (case fr_interval res of
                 None \<Rightarrow> (ps_retry s \<or> fr_err res \<noteq> None, ps_min s)
               | Some i \<Rightarrow> if i < ps_min s then (True, i) else (ps_retry s \<or> fr_err res \<noteq> None, ps_min s))
           in Inr \<lparr>ps_proc = sinserts (ps_skip s) (fr_passed res), ps_skip = ps_skip s, ps_pass = pass,
                   ps_rej = rejLoop (t_name t) (fr_rejected res) (ps_rej s),
                   ps_states = ps_states s @ (case fr_state res of None \<Rightarrow> [] | Some st \<Rightarrow> [st]),
                   ps_min = mi, ps_retry = retry\<rparr>))"

fun ruleLoop :: "(rulerCfg \<Rightarrow> ptr \<Rightarrow> pod gomap \<Rightarrow> sset \<Rightarrow> 'w \<Rightarrow> (gerr + fres) \<times> 'w) \<Rightarrow> penv \<Rightarrow> ptr
    \<Rightarrow> pod gomap \<Rightarrow> trule list \<Rightarrow> pst \<Rightarrow> 'w \<Rightarrow> (gerr + pst) \<times> 'w" where
  "ruleLoop flt P r targets [] s w = (Inr s, w)"
| "ruleLoop flt P r targets (t # ts) s w =
     (case GetRuler t of
        None \<Rightarrow> ruleLoop flt P r targets ts s w
      | Some c \<Rightarrow>
          (case skipPods P targets t s of
             Inl e \<Rightarrow> (Inl e, w)
           | Inr s1 \<Rightarrow>
               (case flt c r targets (ps_proc s1) w of
                  (Inl e, w') \<Rightarrow> (Inl e, w')
                | (Inr res, w') \<Rightarrow>
                    (case takeResult t res s1 of
                       Inl e \<Rightarrow> (Inl e, w')
                     | Inr s2 \<Rightarrow> ruleLoop flt P r targets ts s2 w'))))"

record presult =
  pz_rejected :: "(string \<times> string) gomap"
  pz_pass :: "sset gomap"
  pz_retry :: bool
  pz_interval :: "int option"
  pz_states :: "ruleState list"

definition inStagePods :: "penv \<Rightarrow> string \<Rightarrow> pod gomap \<Rightarrow> string list" where
  "inStagePods P stage targets = map fst (filter (\<lambda>(n, p). InStage (pe_cache P) p stage) targets)"

definition Process :: "(rulerCfg \<Rightarrow> ptr \<Rightarrow> pod gomap \<Rightarrow> sset \<Rightarrow> 'w \<Rightarrow> (gerr + fres) \<times> 'w) \<Rightarrow> penv \<Rightarrow> string
    \<Rightarrow> ptr \<Rightarrow> pod gomap \<Rightarrow> 'w \<Rightarrow> (gerr + presult) \<times> 'w" where
  "Process flt P stage r targets w =
     (let procs = sinserts (inStagePods P stage targets) []
      in if procs = []
         then (Inr \<lparr>pz_rejected = [], pz_pass = [], pz_retry = False, pz_interval = None, pz_states = []\<rparr>, w)
         else (case ruleLoop flt P r targets (effectiveRules P stage r)
                      \<lparr>ps_proc = procs, ps_skip = [], ps_pass = map (\<lambda>n. (n, [])) procs, ps_rej = [],
                       ps_states = [], ps_min = maxInterval, ps_retry = False\<rparr> w of
                 (Inl e, w') \<Rightarrow> (Inl e, w')
               | (Inr s, w') \<Rightarrow>
                   (Inr \<lparr>pz_rejected = ps_rej s, pz_pass = ps_pass s, pz_retry = ps_retry s,
                         pz_interval = (if ps_min s = maxInterval then None else Some (ps_min s)),
                         pz_states = ps_states s\<rparr>, w')))"

subsection \<open>Details\<close>

fun updateDetail :: "rdetail gomap \<Rightarrow> sset gomap \<Rightarrow> (string \<times> string) gomap \<Rightarrow> string \<Rightarrow> rdetail gomap" where
  "updateDetail details [] rejected stage = details"
| "updateDetail details ((po, rules) # m) rejected stage =
     (let d = (case mget details po of
                 Some d \<Rightarrow> d
               | None \<Rightarrow> \<lparr>d_name = po, d_stage = stage, d_passed = False, d_passedRules = [], d_reject = []\<rparr>);
          rj = d_reject d @ (case mget rejected po of None \<Rightarrow> [] | Some x \<Rightarrow> [x]);
          d' = d\<lparr>d_passedRules := d_passedRules d @ slist rules, d_reject := rj, d_passed := (rj = [])\<rparr>
      in updateDetail (mput po d' details) m rejected stage)"

record procOut =
  po_retry :: bool
  po_interval :: "int option"
  po_details :: "rdetail gomap"
  po_states :: "ruleState list"

fun processStages :: "(rulerCfg \<Rightarrow> ptr \<Rightarrow> pod gomap \<Rightarrow> sset \<Rightarrow> 'w \<Rightarrow> (gerr + fres) \<times> 'w) \<Rightarrow> penv \<Rightarrow> ptr
    \<Rightarrow> pod gomap \<Rightarrow> string list \<Rightarrow> procOut \<Rightarrow> 'w \<Rightarrow> (gerr + procOut) \<times> 'w" where
  "processStages flt P r pods [] ot w = (Inr ot, w)"
| "processStages flt P r pods (st # sts) ot w =
     (case Process flt P st r pods w of
        (Inl e, w') \<Rightarrow> (Inl e, w')
      | (Inr z, w') \<Rightarrow>
          processStages flt P r pods sts
            \<lparr>po_retry = po_retry ot \<or> pz_retry z,
             po_interval = (case pz_interval z of
                None \<Rightarrow> po_interval ot
              | Some i \<Rightarrow> (case po_interval ot of
                             None \<Rightarrow> Some i | Some j \<Rightarrow> if j > i then Some i else Some j)),
             po_details = updateDetail (po_details ot) (pz_pass z) (pz_rejected z) st,
             po_states = po_states ot @ pz_states z\<rparr> w')"

definition process :: "(rulerCfg \<Rightarrow> ptr \<Rightarrow> pod gomap \<Rightarrow> sset \<Rightarrow> 'w \<Rightarrow> (gerr + fres) \<times> 'w) \<Rightarrow> penv \<Rightarrow> ptr
    \<Rightarrow> pod gomap \<Rightarrow> 'w \<Rightarrow> (gerr + procOut) \<times> 'w" where
  "process flt P r pods w =
     processStages flt P r pods (GetStages (pe_cache P))
       \<lparr>po_retry = False, po_interval = None, po_details = [], po_states = []\<rparr> w"

end
