(* ===== verification/SlowStart.thy ===== *)
theory SlowStart
  imports Prelude "HOL-Library.Multiset"
begin

text \<open>
  \<^verbatim>\<open>pkg/controllers/utils/slow_start.go\<close>: batches of calls whose size doubles.

  The calls of a batch run in goroutines and send their errors into a channel.  \<open>sched\<close> is the
  order in which the calls of a batch take effect, an argument: the theorems hold for every
  order.  A call gets the error of the last failed batch before its own.
\<close>

type_synonym 'w call = "int \<Rightarrow> gerr option \<Rightarrow> 'w \<Rightarrow> gerr option \<times> 'w"

definition SlowStartInitialBatchSize :: int where
  "SlowStartInitialBatchSize = 1"

definition intMin :: "int \<Rightarrow> int \<Rightarrow> int" where
  "intMin l r = (if l < r then l else r)"

text \<open>The errors in the order in which they are sent.\<close>

fun runBatch :: "'w call \<Rightarrow> gerr option \<Rightarrow> int list \<Rightarrow> 'w \<Rightarrow> gerr list \<times> 'w" where
  "runBatch fn got [] w = ([], w)"
| "runBatch fn got (i # is) w =
     (let (r, w1) = fn i got w; (es, w2) = runBatch fn got is w1
      in (case r of None \<Rightarrow> es | Some e \<Rightarrow> e # es, w2))"

function slowLoop :: "(int list \<Rightarrow> int list) \<Rightarrow> 'w call \<Rightarrow> bool \<Rightarrow> int \<Rightarrow> int \<Rightarrow> int \<Rightarrow> int \<Rightarrow> gerr option \<Rightarrow> 'w
    \<Rightarrow> int \<times> gerr option \<times> 'w" where
  "slowLoop sched fn shortCircuit batchSize remaining index successes gotErr w =
     (if batchSize \<le> 0 then (successes, gotErr, w)
      else (let (es, w1) = runBatch fn gotErr (sched [index..index + batchSize - 1]) w;
                successes1 = successes + (batchSize - int (length es));
                gotErr1 = (case es of [] \<Rightarrow> gotErr | e # _ \<Rightarrow> Some e)
            in if es \<noteq> [] \<and> shortCircuit then (successes1, gotErr1, w1)
               else slowLoop sched fn shortCircuit (intMin (2 * batchSize) (remaining - batchSize))
                      (remaining - batchSize) (index + batchSize) successes1 gotErr1 w1))"
  by pat_completeness auto
termination
  by (relation "measure (\<lambda>(sched, fn, sc, batchSize, remaining, x). if batchSize \<le> 0 then 0 else nat remaining + 1)")
    (auto simp: intMin_def)

declare slowLoop.simps [simp del]

definition SlowStartBatch :: "(int list \<Rightarrow> int list) \<Rightarrow> int \<Rightarrow> int \<Rightarrow> bool \<Rightarrow> 'w call \<Rightarrow> 'w \<Rightarrow> int \<times> gerr option \<times> 'w" where
  "SlowStartBatch sched cnt initialBatchSize shortCircuit fn w =
     slowLoop sched fn shortCircuit (intMin cnt initialBatchSize) cnt 0 0 None w"

subsection \<open>What the batches amount to\<close>

definition ignoresErr :: "'w call \<Rightarrow> bool" where
  "ignoresErr fn \<longleftrightarrow> (\<forall>i e e'. fn i e = fn i e')"

definition schedules :: "(int list \<Rightarrow> int list) \<Rightarrow> bool" where
  "schedules sched \<longleftrightarrow> (\<forall>xs. mset (sched xs) = mset xs)"

lemma runBatch_append:
  "runBatch fn got (xs @ ys) w =
     (let (es, w1) = runBatch fn got xs w; (es', w2) = runBatch fn got ys w1 in (es @ es', w2))"
  by (induction xs arbitrary: w) (auto simp: Let_def split: prod.splits option.splits)

lemma runBatch_got: "ignoresErr fn \<Longrightarrow> runBatch fn got is w = runBatch fn got' is w"
proof (induction "is" arbitrary: w)
  case (Cons i "is")
  have "fn i got = fn i got'" using Cons.prems by (simp add: ignoresErr_def)
  with Cons show ?case by (simp add: split_def Let_def)
qed simp

lemma runBatch_errs: "runBatch fn got is w = (es, w') \<Longrightarrow> length es \<le> length is"
  by (induction "is" arbitrary: w es w') (fastforce simp: Let_def split: prod.splits option.splits)+

lemma upto_split: "0 \<le> a \<Longrightarrow> 0 \<le> b \<Longrightarrow> [i..i + a - 1] @ [i + a..i + a + b - 1] = [i..i + (a + b) - 1]" for i :: int
  using upto_split1 [of i "i + a" "i + a + b - 1"] by (cases "b = 0") (auto simp: algebra_simps)

lemma runBatch_inv:
  assumes "\<And>i e w. I w \<Longrightarrow> I (snd (fn i e w))"
  shows "I w \<Longrightarrow> I (snd (runBatch fn got is w))"
proof (induction "is" arbitrary: w)
  case (Cons i "is")
  from Cons.IH [OF assms [OF Cons.prems, of i got]] show ?case by (simp add: split_def Let_def)
qed simp

lemma slowLoop_inv:
  assumes step: "\<And>i e w. I w \<Longrightarrow> I (snd (fn i e w))"
  shows "I w \<Longrightarrow> I (snd (snd (slowLoop sched fn sc b remaining i s got w)))"
proof (induction "nat remaining" arbitrary: b remaining i s got w rule: less_induct)
  case less
  obtain es w1 where r: "runBatch fn got (sched [i..i + b - 1]) w = (es, w1)" by fastforce
  have "I (snd (runBatch fn got (sched [i..i + b - 1]) w))"
    by (rule runBatch_inv [where I = I]) (use step less.prems in auto)
  then have w1: "I w1" using r by simp
  let ?b = "intMin (2 * b) (remaining - b)"
  have rest: "I (snd (snd (slowLoop sched fn sc ?b (remaining - b) (i + b) s' g' w1)))" if "0 < b" for s' g'
  proof (cases "0 < ?b")
    case True
    then have "nat (remaining - b) < nat remaining" using that by (auto simp: intMin_def split: if_splits)
    from less.hyps [OF this w1] show ?thesis .
  next
    case False
    then show ?thesis using w1 by (subst slowLoop.simps) simp
  qed
  show ?case
    using less.prems r w1 rest by (subst slowLoop.simps) (simp add: Let_def)
qed

lemma SlowStartBatch_inv:
  assumes "\<And>i e w. I w \<Longrightarrow> I (snd (fn i e w))" and "I w"
  shows "I (snd (snd (SlowStartBatch sched cnt ib sc fn w)))"
  unfolding SlowStartBatch_def by (rule slowLoop_inv [where I = I, OF assms])

text \<open>The run of all batches from one point on: some calls \<open>order\<close>, the next \<open>k\<close> indices in some
  order, with the errors \<open>es\<close>.\<close>

definition runsAs :: "'w call \<Rightarrow> bool \<Rightarrow> int \<Rightarrow> int \<Rightarrow> int \<Rightarrow> int \<Rightarrow> gerr option \<Rightarrow> 'w \<Rightarrow> int \<times> gerr option \<times> 'w
    \<Rightarrow> int list \<Rightarrow> int \<Rightarrow> gerr list \<Rightarrow> bool" where
  "runsAs fn sc ib remaining i s got w r order k es \<longleftrightarrow>
     (case r of (s', got', w') \<Rightarrow>
        mset order = mset [i..i + k - 1] \<and> 0 \<le> k \<and> k \<le> remaining \<and> runBatch fn None order w = (es, w')
        \<and> s' = s + k - int (length es) \<and> (es = [] \<longrightarrow> got' = got) \<and> (es \<noteq> [] \<longrightarrow> got' \<noteq> None)
        \<and> (\<not> sc \<or> es = [] \<longrightarrow> k = remaining) \<and> (sc \<longrightarrow> int (length es) \<le> k - int (length es) + i + ib))"

lemma slowLoop_runs:
  assumes "ignoresErr fn" and "schedules sched"
    and "b \<le> remaining" and "0 < b \<or> remaining = 0" and "0 \<le> i" and "b \<le> i + ib" and "0 < ib"
  shows "\<exists>order k es. runsAs fn sc ib remaining i s got w (slowLoop sched fn sc b remaining i s got w) order k es"
  using assms(3-7)
proof (induction "nat remaining" arbitrary: b remaining i s got w rule: less_induct)
  case less
  show ?case
  proof (cases "0 < b")
    case False
    with less.prems have "runsAs fn sc ib remaining i s got w (slowLoop sched fn sc b remaining i s got w) [] 0 []"
      by (subst slowLoop.simps) (simp add: runsAs_def)
    then show ?thesis by blast
  next
    case b: True
    let ?o1 = "sched [i..i + b - 1]"
    have o1: "mset ?o1 = mset [i..i + b - 1]" using assms(2) by (simp add: schedules_def)
    from mset_eq_length [OF o1] have len: "length ?o1 = nat b" by simp
    obtain es1 w1 where r1: "runBatch fn None ?o1 w = (es1, w1)" by fastforce
    then have r1': "runBatch fn got ?o1 w = (es1, w1)" using runBatch_got [OF assms(1)] by metis
    have le1: "int (length es1) \<le> b" using runBatch_errs [OF r1] len b by simp
    let ?s1 = "s + (b - int (length es1))" and ?g1 = "case es1 of [] \<Rightarrow> got | e # _ \<Rightarrow> Some e"
    show ?thesis
    proof (cases "es1 \<noteq> [] \<and> sc")
      case True
      then have "slowLoop sched fn sc b remaining i s got w = (?s1, ?g1, w1)"
        using b r1' by (subst slowLoop.simps) (simp add: Let_def)
      then have "runsAs fn sc ib remaining i s got w (slowLoop sched fn sc b remaining i s got w) ?o1 b es1"
        using True o1 r1 le1 b less.prems by (auto simp: runsAs_def split: list.splits)
      then show ?thesis by blast
    next
      case False
      let ?b = "intMin (2 * b) (remaining - b)" and ?r = "remaining - b"
      have eq: "slowLoop sched fn sc b remaining i s got w = slowLoop sched fn sc ?b ?r (i + b) ?s1 ?g1 w1"
        using b r1' False by (subst slowLoop.simps) (auto simp: Let_def)
      have ih0: "?b \<le> ?r" "0 < ?b \<or> ?r = 0" "0 \<le> i + b" "?b \<le> i + b + ib"
        using b less.prems by (auto simp: intMin_def)
      obtain order k es where ih: "runsAs fn sc ib ?r (i + b) ?s1 ?g1 w1 (slowLoop sched fn sc ?b ?r (i + b) ?s1 ?g1 w1) order k es"
        using less.hyps [OF _ ih0(1) ih0(2) ih0(3) ih0(4) less.prems(5), of ?s1 ?g1 w1] b less.prems by auto
      then have k: "0 \<le> k" "mset order = mset [i + b..i + b + k - 1]" by (auto simp: runsAs_def)
      have "[i..i + b - 1] @ [i + b..i + b + k - 1] = [i..i + (b + k) - 1]"
        using upto_split b k by simp
      then have o: "mset (?o1 @ order) = mset [i..i + (b + k) - 1]" using o1 k(2) by (metis mset_append)
      have "runsAs fn sc ib remaining i s got w (slowLoop sched fn sc b remaining i s got w) (?o1 @ order) (b + k) (es1 @ es)"
        using ih o False b r1 unfolding eq by (auto simp: runsAs_def runBatch_append Let_def split: list.splits)
      then show ?thesis by blast
    qed
  qed
qed

lemma SlowStartBatch_runs:
  assumes "ignoresErr fn" and "schedules sched" and "0 < ib"
  shows "\<exists>order k es. runsAs fn sc ib (int n) 0 0 None w (SlowStartBatch sched (int n) ib sc fn w) order k es"
  unfolding SlowStartBatch_def by (rule slowLoop_runs [OF assms(1,2)]) (use assms(3) in \<open>auto simp: intMin_def\<close>)

text \<open>Without short-circuit, a slow start makes every call exactly once, in some order; it counts the calls
  that succeeded and returns an error exactly when some call failed.  (The comment of the function says that the
  batches after a failure are skipped.)\<close>

theorem slow_start_calls_all:
  assumes "ignoresErr fn" and "schedules sched" and "0 < ib"
    and "SlowStartBatch sched (int n) ib False fn w = (succ, got, w')"
  shows "\<exists>order es. mset order = mset [0..int n - 1] \<and> runBatch fn None order w = (es, w')
    \<and> succ = int n - int (length es) \<and> (got = None \<longleftrightarrow> es = [])"
proof -
  obtain order k es where "runsAs fn False ib (int n) 0 0 None w (SlowStartBatch sched (int n) ib False fn w) order k es"
    using SlowStartBatch_runs [OF assms(1-3)] by blast
  then show ?thesis unfolding assms(4) runsAs_def by auto
qed

text \<open>With short-circuit, a slow start calls the first indices only, and at most as many of its calls fail
  as succeeded before, plus the size of the first batch.\<close>

theorem slow_start_wastes_little:
  assumes "ignoresErr fn" and "schedules sched" and "0 < ib"
    and "SlowStartBatch sched (int n) ib True fn w = (succ, got, w')"
  shows "\<exists>order k es. mset order = mset [0..k - 1] \<and> k \<le> int n \<and> runBatch fn None order w = (es, w')
    \<and> succ = k - int (length es) \<and> int (length es) \<le> succ + ib \<and> (es = [] \<longrightarrow> k = int n)"
proof -
  obtain order k es where "runsAs fn True ib (int n) 0 0 None w (SlowStartBatch sched (int n) ib True fn w) order k es"
    using SlowStartBatch_runs [OF assms(1-3)] by blast
  then show ?thesis
    unfolding assms(4) runsAs_def by (intro exI [of _ order] exI [of _ k] exI [of _ es]) auto
qed

text \<open>A call that fails on the indices 3 and 5 and logs every index.\<close>

definition excall :: "int list call" where
  "excall i got w = (if i = 3 \<or> i = 5 then Some (Err ''bad'') else None, w @ [i])"

definition exslow :: "bool \<Rightarrow> int \<times> gerr option \<times> int list" where
  "exslow sc = SlowStartBatch rev 9 1 sc excall []"

lemma excall_ok: "ignoresErr excall" "schedules rev"
  by (simp_all add: ignoresErr_def schedules_def excall_def fun_eq_iff)

lemma exslow_run:
  "exslow False = (7, Some (Err ''bad''), [0, 2, 1, 6, 5, 4, 3, 8, 7])"
  "exslow True = (5, Some (Err ''bad''), [0, 2, 1, 6, 5, 4, 3])"
  by code_simp+

lemma slow_start_calls_all_witness:
  "\<exists>order es. mset order = mset [0..8] \<and> runBatch excall None order [] = (es, [0, 2, 1, 6, 5, 4, 3, 8, 7])
    \<and> 7 = 9 - int (length es)"
  using slow_start_calls_all [OF excall_ok, of 1 9 "[]"] exslow_run(1) by (fastforce simp: exslow_def)

lemma slow_start_wastes_little_witness:
  "\<exists>order k es. mset order = mset [0..k - 1] \<and> runBatch excall None order [] = (es, [0, 2, 1, 6, 5, 4, 3])
    \<and> int (length es) \<le> 5 + 1"
  using slow_start_wastes_little [OF excall_ok, of 1 9 "[]"] exslow_run(2) by (fastforce simp: exslow_def)

end
