(* ===== verification/Finalizers.thy ===== *)
theory Finalizers
  imports PodUtils
begin

text \<open>
  \<^verbatim>\<open>pkg/controllers/utils/finalizer.go\<close>: a finalizer is added to or removed from an object with a
  retried update that reads the object again when the update fails.  The object is of any type;
  \<open>put\<close> and \<open>get\<close> are the client's calls, and \<open>change\<close> is what \<open>controllerutil\<close> does to the
  list of finalizers.  The object that the caller holds is part of the state.
\<close>

definition finalizerTry :: "('o \<Rightarrow> 'w \<Rightarrow> (gerr + 'o) \<times> 'w) \<Rightarrow> ('w \<Rightarrow> 'o \<Rightarrow> gerr + 'o) \<Rightarrow> ('o \<Rightarrow> 'o) \<Rightarrow> 'o \<times> 'w
    \<Rightarrow> gerr option \<times> 'o \<times> 'w" where
  "finalizerTry put get change s =
     (let (ob, w) = s; ob1 = change ob in
      case put ob1 w of
        (Inr ob2, w1) \<Rightarrow> (None, (ob2, w1))
      | (Inl updateErr, w1) \<Rightarrow>
          (case get w1 ob1 of
             Inl e \<Rightarrow> (Some e, (ob1, w1))
           | Inr ob2 \<Rightarrow> (Some updateErr, (ob2, w1))))"

definition AddFinalizer :: "(('o \<times> 'w \<Rightarrow> gerr option \<times> 'o \<times> 'w) \<Rightarrow> 'o \<times> 'w \<Rightarrow> gerr option \<times> 'o \<times> 'w)
    \<Rightarrow> ('o \<Rightarrow> 'w \<Rightarrow> (gerr + 'o) \<times> 'w) \<Rightarrow> ('w \<Rightarrow> 'o \<Rightarrow> gerr + 'o) \<Rightarrow> ('o \<Rightarrow> 'o) \<Rightarrow> 'o \<Rightarrow> 'w \<Rightarrow> gerr option \<times> 'o \<times> 'w" where
  "AddFinalizer retry put get addF ob w = retry (finalizerTry put get addF) (ob, w)"

definition RemoveFinalizer :: "(('o \<times> 'w \<Rightarrow> gerr option \<times> 'o \<times> 'w) \<Rightarrow> 'o \<times> 'w \<Rightarrow> gerr option \<times> 'o \<times> 'w)
    \<Rightarrow> ('o \<Rightarrow> 'w \<Rightarrow> (gerr + 'o) \<times> 'w) \<Rightarrow> ('w \<Rightarrow> 'o \<Rightarrow> gerr + 'o) \<Rightarrow> ('o \<Rightarrow> 'o) \<Rightarrow> 'o \<Rightarrow> 'w \<Rightarrow> gerr option \<times> 'o \<times> 'w" where
  "RemoveFinalizer retry put get remF ob w = retry (finalizerTry put get remF) (ob, w)"

text \<open>
  A server of objects of one type: a write stores the object that was sent, up to its version, and a
  failed one changes nothing; a read returns the stored object.
\<close>

locale object_server =
  fixes put :: "'o \<Rightarrow> 'w \<Rightarrow> (gerr + 'o) \<times> 'w" and get :: "'w \<Rightarrow> 'o \<Rightarrow> gerr + 'o"
    and retry :: "('o \<times> 'w \<Rightarrow> gerr option \<times> 'o \<times> 'w) \<Rightarrow> 'o \<times> 'w \<Rightarrow> gerr option \<times> 'o \<times> 'w"
    and store :: "'w \<Rightarrow> string \<Rightarrow> 'o option" and okey :: "'o \<Rightarrow> string" and version :: "string \<Rightarrow> 'o \<Rightarrow> 'o"
  assumes put_ok: "put ob w = (Inr ob', w') \<Longrightarrow> (\<exists>rv. ob' = version rv ob) \<and> store w' = (store w)(okey ob \<mapsto> ob')"
    and put_err: "put ob w = (Inl e, w') \<Longrightarrow> store w' = store w"
    and get_ok: "get w ob = Inr ob' \<Longrightarrow> store w (okey ob) = Some ob' \<and> okey ob' = okey ob"
    and version_key: "okey (version rv ob) = okey ob"
    and retry_ok: "retried f s (retry f s)"
begin

lemma finalizerTry_effect:
  assumes "\<And>ob. okey (change ob) = okey ob" and "finalizerTry put get change (ob, w) = (r, ob', w')"
  shows "okey ob' = okey ob \<and> (r \<noteq> None \<and> store w' = store w
    \<or> r = None \<and> (\<exists>ob0 rv. ob' = version rv (change ob0)) \<and> store w' = (store w)(okey ob \<mapsto> ob'))"
proof -
  obtain x w1 where x: "put (change ob) w = (x, w1)" by fastforce
  show ?thesis
  proof (cases x)
    case (Inr ob2)
    with x assms(2) have "r = None" "ob' = ob2" "w' = w1" by (auto simp: finalizerTry_def Let_def)
    then show ?thesis using put_ok [of "change ob" w ob2 w1] x Inr assms(1) version_key by auto
  next
    case (Inl e)
    have st: "store w1 = store w" using put_err x Inl by blast
    show ?thesis
    proof (cases "get w1 (change ob)")
      case (Inl e')
      with x \<open>x = Inl e\<close> assms(2) show ?thesis using st assms(1) by (auto simp: finalizerTry_def Let_def)
    next
      case (Inr ob2)
      with x \<open>x = Inl e\<close> assms(2) show ?thesis using st get_ok [OF Inr] assms(1) by (auto simp: finalizerTry_def Let_def)
    qed
  qed
qed

lemma finalizer_effect:
  assumes "\<And>ob. okey (change ob) = okey ob" and "retry (finalizerTry put get change) (ob, w) = (r, ob', w')"
  shows "okey ob' = okey ob \<and> (r \<noteq> None \<and> store w' = store w
    \<or> r = None \<and> (\<exists>ob0 rv. ob' = version rv (change ob0)) \<and> store w' = (store w)(okey ob \<mapsto> ob'))"
proof -
  have "okey (fst (snd x)) = okey (fst s) \<and> (fst x \<noteq> None \<and> store (snd (snd x)) = store (snd s)
    \<or> fst x = None \<and> (\<exists>ob0 rv. fst (snd x) = version rv (change ob0)) \<and> store (snd (snd x)) = (store (snd s))(okey (fst s) \<mapsto> fst (snd x)))"
    if "retried (finalizerTry put get change) s x" for s x
    using that
  proof (induction rule: retried.induct)
    case (last s)
    obtain ob w where s: "s = (ob, w)" by (cases s)
    obtain r ob' w' where "finalizerTry put get change s = (r, ob', w')" by (metis surj_pair)
    with finalizerTry_effect [OF assms(1)] s show ?case by fastforce
  next
    case (again s s1 x)
    obtain ob w ob1 w1 where s: "s = (ob, w)" "s1 = (ob1, w1)" by (cases s, cases s1)
    from finalizerTry_effect [OF assms(1), of ob w "Some Conflict" ob1 w1] again(1) s
    have "okey ob1 = okey ob" "store w1 = store w" by auto
    with again(3) s show ?case by simp
  qed
  from this [OF retry_ok [of "finalizerTry put get change" "(ob, w)"]] assms(2) show ?thesis by simp
qed

text \<open>A property of the object that neither the change nor a version touches survives: what is
  written is the object that the server held.\<close>

lemma finalizer_keeps:
  assumes change: "\<And>ob. okey (change ob) = okey ob" "\<And>ob. Q ob \<Longrightarrow> Q (change ob)" "\<And>rv ob. Q ob \<Longrightarrow> Q (version rv ob)"
    and "Q ob" and "\<And>ob0. store w (okey ob) = Some ob0 \<Longrightarrow> Q ob0"
    and "retry (finalizerTry put get change) (ob, w) = (r, ob', w')"
  shows "Q ob'"
proof -
  let ?I = "\<lambda>s. Q (fst s) \<and> (\<forall>ob0. store (snd s) (okey (fst s)) = Some ob0 \<longrightarrow> Q ob0)"
  have step: "?I (snd (finalizerTry put get change s))" if I: "?I s" for s
  proof -
    obtain ob w where s: "s = (ob, w)" by (cases s)
    obtain x w1 where x: "put (change ob) w = (x, w1)" by fastforce
    have q: "Q (change ob)" using I change(2) s by simp
    show ?thesis
    proof (cases x)
      case (Inr ob2)
      with put_ok [of "change ob" w ob2 w1] x obtain rv where "ob2 = version rv (change ob)"
        "store w1 = (store w)(okey (change ob) \<mapsto> ob2)" by blast
      then show ?thesis using q change(1,3) s x Inr version_key by (simp add: finalizerTry_def Let_def)
    next
      case (Inl e)
      have st: "store w1 = store w" using put_err x Inl by blast
      show ?thesis
        using I q st s x Inl change(1) get_ok [of w1 "change ob"]
        by (cases "get w1 (change ob)") (simp_all add: finalizerTry_def Let_def)
    qed
  qed
  have "?I (snd x)" if "retried (finalizerTry put get change) s x" "?I s" for s x
    using retried_inv [OF that(1), of ?I] that(2) step by blast
  from this [OF retry_ok [of "finalizerTry put get change" "(ob, w)"]] assms(4-6) show ?thesis by simp
qed

end

end
