(* ===== verification/RuleController.thy ===== *)
theory RuleController
  imports Processor SlowStart Finalizers Expectations
begin

text \<open>
  \<^verbatim>\<open>pkg/controllers/podtransitionrule/podtransitionrule_controller.go\<close> and the event handlers of
  \<^verbatim>\<open>eventhandler.go\<close>: one reconciliation of a PodTransitionRule with everything that it writes.

  The calls of the client on rules and the list of pods are the record \<open>rclient\<close>, a parameter; so
  are the retry helper, the JSON encoder of a detail and of a status and the two functions of
  \<open>controllerutil\<close>.  A selector that does not parse is passed on as nil, which the list call takes for
  no restriction.  The pods that the rules see are those of the list, after the patches that
  wrote their details.
\<close>

record 'w rclient =
  rc_cl :: "'w client"
  rc_rule :: "'w \<Rightarrow> string \<Rightarrow> string \<Rightarrow> gerr + ptr"
  rc_list :: "'w \<Rightarrow> string \<Rightarrow> (string gomap \<Rightarrow> bool) option \<Rightarrow> gerr + pod list"
  rc_patch :: "pod \<Rightarrow> string \<Rightarrow> string \<Rightarrow> 'w \<Rightarrow> (gerr + pod) \<times> 'w"
  rc_update :: "ptr \<Rightarrow> 'w \<Rightarrow> (gerr + ptr) \<times> 'w"
  rc_status :: "ptr \<Rightarrow> 'w \<Rightarrow> (gerr + ptr) \<times> 'w"
  rc_retryP :: "(pod \<times> 'w \<Rightarrow> gerr option \<times> pod \<times> 'w) \<Rightarrow> pod \<times> 'w \<Rightarrow> gerr option \<times> pod \<times> 'w"
  rc_retryR :: "(ptr \<times> 'w \<Rightarrow> gerr option \<times> ptr \<times> 'w) \<Rightarrow> ptr \<times> 'w \<Rightarrow> gerr option \<times> ptr \<times> 'w"
  rc_dump :: "string \<Rightarrow> bool \<Rightarrow> (string \<times> string) list \<Rightarrow> string"
  rc_dumpStatus :: "ptr \<Rightarrow> string"
  rc_protect :: string
  rc_addF :: "string \<Rightarrow> string list \<Rightarrow> string list"
  rc_removeF :: "string \<Rightarrow> string list \<Rightarrow> string list"

record 'w rtstate =
  rt_w :: 'w
  rt_exp :: rvstore
  rt_podExp :: rvstore
  rt_pm :: pmgr

definition ruleKey :: "ptr \<Rightarrow> string" where
  "ruleKey r = r_ns r @ ''/'' @ r_name r"

definition detailKey :: "renv \<Rightarrow> string \<Rightarrow> string" where
  "detailKey E rule = re_detailAnno E @ ''/'' @ rule"

subsection \<open>Details on the pods\<close>

definition detailJson :: "'w rclient \<Rightarrow> rdetail option \<Rightarrow> string" where
  "detailJson C detail =
     (case detail of
        Some d \<Rightarrow> rc_dump C (d_stage d) (d_passed d) (d_reject d)
      | None \<Rightarrow> rc_dump C ''Unknown'' True [])"

definition updatePodDetail :: "'w rclient \<Rightarrow> renv \<Rightarrow> string \<Rightarrow> rdetail option \<Rightarrow> pod \<times> 'w \<Rightarrow> gerr option \<times> pod \<times> 'w" where
  "updatePodDetail C E rule detail s =
     (let k = detailKey E rule; js = detailJson C detail in
      if mget (p_annos (fst s)) k = Some js then (None, s)
      else rc_retryP C
             (\<lambda>(p, w). case rc_patch C p k js w of (Inl e, w1) \<Rightarrow> (Some e, (p, w1)) | (Inr p1, w1) \<Rightarrow> (None, (p1, w1))) s)"

text \<open>The call for one index, which is below the length of \<open>names\<close>, works on the pod that the map of
  targets holds under that name.\<close>

definition syncOne :: "'w rclient \<Rightarrow> renv \<Rightarrow> ptr \<Rightarrow> string list \<Rightarrow> (pod gomap \<times> 'w) call" where
  "syncOne C E r names i got s =
     (let (targets, w) = s; n = names ! nat i in
      case mget targets n of
        None \<Rightarrow> (Some (Panic ''nil pod''), s)
      | Some p \<Rightarrow>
          (case updatePodDetail C E (r_name r)
                  (mget (fold (\<lambda>d. mput (d_name d) d) (r_details r) []) (p_name p)) (p, w) of
             (e, p1, w1) \<Rightarrow> (e, (mput n p1 targets, w1))))"

definition syncPodsDetail :: "(int list \<Rightarrow> int list) \<Rightarrow> 'w rclient \<Rightarrow> renv \<Rightarrow> ptr \<Rightarrow> pod gomap \<times> 'w
    \<Rightarrow> gerr option \<times> pod gomap \<times> 'w" where
  "syncPodsDetail sched C E r s =
     snd (SlowStartBatch sched (int (length (fst s))) 1 False (syncOne C E r (map fst (fst s))) s)"

definition cleanOnce :: "'w rclient \<Rightarrow> renv \<Rightarrow> string \<Rightarrow> string \<Rightarrow> string \<Rightarrow> 'w \<Rightarrow> gerr option \<times> 'w" where
  "cleanOnce C E rule n ns w =
     (if cl_get (rc_cl C) w ns n = Inl NotFound then (None, w)
      else attempt (rc_cl C) (cl_update (rc_cl C)) ns n
             (\<lambda>p. if fst (MoveDetailAnno E p rule) then Some (snd (MoveDetailAnno E p rule)) else None) w)"

definition updatePodTransitionRuleOnPod :: "'w rclient \<Rightarrow> renv \<Rightarrow> string \<Rightarrow> string \<Rightarrow> string \<Rightarrow> 'w \<Rightarrow> gerr option \<times> 'w" where
  "updatePodTransitionRuleOnPod C E rule n ns w = cl_retry (rc_cl C) (cleanOnce C E rule n ns) w"

fun cleanUpPodTransitionRulePods :: "'w rclient \<Rightarrow> renv \<Rightarrow> ptr \<Rightarrow> string list \<Rightarrow> 'w \<Rightarrow> gerr option \<times> 'w" where
  "cleanUpPodTransitionRulePods C E r [] w = (None, w)"
| "cleanUpPodTransitionRulePods C E r (n # ns) w =
     (case updatePodTransitionRuleOnPod C E (r_name r) n (r_ns r) w of
        (None, w1) \<Rightarrow> cleanUpPodTransitionRulePods C E r ns w1
      | (Some e, w1) \<Rightarrow>
          if e = NotFound then cleanUpPodTransitionRulePods C E r ns w1 else (Some e, w1))"

text \<open>The pods that the rule no longer selects; here every error counts.\<close>

fun removeUnselected :: "'w rclient \<Rightarrow> renv \<Rightarrow> ptr \<Rightarrow> sset \<Rightarrow> string list \<Rightarrow> 'w \<Rightarrow> gerr option \<times> 'w" where
  "removeUnselected C E r sel [] w = (None, w)"
| "removeUnselected C E r sel (n # ns) w =
     (if n \<in> set sel then removeUnselected C E r sel ns w
      else (case updatePodTransitionRuleOnPod C E (r_name r) n (r_ns r) w of
              (None, w1) \<Rightarrow> removeUnselected C E r sel ns w1
            | (Some e, w1) \<Rightarrow> (Some e, w1)))"

subsection \<open>Status\<close>

definition sortedDetails :: "rdetail gomap \<Rightarrow> rdetail list" where
  "sortedDetails m = map (\<lambda>k. the (mget m k)) (sort (map fst m))"

definition withStatus :: "ptr \<Rightarrow> sset \<Rightarrow> procOut \<Rightarrow> int \<Rightarrow> ptr" where
  "withStatus r sel ot now =
     r\<lparr>r_targets := slist sel, r_observed := r_generation r, r_details := sortedDetails (po_details ot),
       r_states := po_states ot, r_update := Some now\<rparr>"

definition equalStatus :: "'w rclient \<Rightarrow> ptr \<Rightarrow> ptr \<Rightarrow> bool" where
  "equalStatus C updated current \<longleftrightarrow>
     (if r_targets updated = r_targets current \<and> r_details updated = r_details current
         \<and> r_states updated = r_states current \<and> r_observed updated = r_observed current
      then True else rc_dumpStatus C updated = rc_dumpStatus C current)"

subsection \<open>Reconcile\<close>

fun podsFresh :: "int \<Rightarrow> rvstore \<Rightarrow> pod list \<Rightarrow> gerr + bool" where
  "podsFresh now st [] = Inr True"
| "podsFresh now st (p # ps) =
     (case rvSatisfiedExpectations (ObjectKeyString p) (p_rv p) now st of
        Inl e \<Rightarrow> Inl e
      | Inr False \<Rightarrow> Inr False
      | Inr True \<Rightarrow> podsFresh now st ps)"

definition targetsOf :: "pod list \<Rightarrow> pod gomap" where
  "targetsOf pods = fold (\<lambda>p. mput (p_name p) p) pods []"

definition writeStatus :: "'w rclient \<Rightarrow> int \<Rightarrow> ptr \<Rightarrow> sset \<Rightarrow> procOut \<Rightarrow> 'w rtstate \<Rightarrow> gerr option \<times> 'w rtstate" where
  "writeStatus C now r sel ot s =
     (let upd = withStatus r sel ot now; k = ruleKey r in
      if equalStatus C upd r then (None, s)
      else (let e1 = rvExpectUpdate k (r_rv r) now (rt_exp s) in
            case rc_status C upd (rt_w s) of
              (Inl e, w1) \<Rightarrow> (Some e, s\<lparr>rt_w := w1, rt_exp := rvDeleteExpectations k e1\<rparr>)
            | (Inr _, w1) \<Rightarrow> (None, s\<lparr>rt_w := w1, rt_exp := e1\<rparr>)))"

definition processRules :: "'w rclient \<Rightarrow> penv \<Rightarrow> int \<Rightarrow> ptr \<Rightarrow> sset \<Rightarrow> pod gomap \<Rightarrow> 'w rtstate \<Rightarrow> (gerr + rresult) \<times> 'w rtstate" where
  "processRules C P now r sel targets s =
     (case process (Filter P) P r targets (rt_pm s) of
        (Inl e, pm) \<Rightarrow> (Inl e, s\<lparr>rt_pm := pm\<rparr>)
      | (Inr ot, pm) \<Rightarrow>
          (case writeStatus C now r sel ot (s\<lparr>rt_pm := pm\<rparr>) of
             (Some e, s1) \<Rightarrow> (Inl e, s1)
           | (None, s1) \<Rightarrow> (Inr \<lparr>rr_requeue = po_retry ot, rr_after = po_interval ot\<rparr>, s1)))"

definition syncRule :: "(int list \<Rightarrow> int list) \<Rightarrow> 'w rclient \<Rightarrow> penv \<Rightarrow> int \<Rightarrow> ptr \<Rightarrow> pod list \<Rightarrow> 'w rtstate
    \<Rightarrow> (gerr + rresult) \<times> 'w rtstate" where
  "syncRule sched C P now r pods s =
     (case podsFresh now (rt_podExp s) pods of
        Inl e \<Rightarrow> (Inl e, s)
      | Inr False \<Rightarrow> (Inr noResult, s)
      | Inr True \<Rightarrow>
          (let sel = sinserts (map p_name pods) [] in
           case syncPodsDetail sched C (pe_env P) r (targetsOf pods, rt_w s) of
             (Some e, _, w1) \<Rightarrow> (Inl e, s\<lparr>rt_w := w1\<rparr>)
           | (None, targets, w1) \<Rightarrow>
               (case removeUnselected C (pe_env P) r sel (r_targets r) w1 of
                  (Some e, w2) \<Rightarrow> (Inl e, s\<lparr>rt_w := w2\<rparr>)
                | (None, w2) \<Rightarrow> processRules C P now r sel targets (s\<lparr>rt_w := w2\<rparr>))))"

definition ruleGet :: "'w rclient \<Rightarrow> 'w \<Rightarrow> ptr \<Rightarrow> gerr + ptr" where
  "ruleGet C w r = rc_rule C w (r_ns r) (r_name r)"

definition deleteRule :: "'w rclient \<Rightarrow> renv \<Rightarrow> ptr \<Rightarrow> 'w rtstate \<Rightarrow> (gerr + rresult) \<times> 'w rtstate" where
  "deleteRule C E r s =
     (case cleanUpPodTransitionRulePods C E r (r_targets r) (rt_w s) of
        (Some e, w1) \<Rightarrow> (Inl e, s\<lparr>rt_w := w1\<rparr>)
      | (None, w1) \<Rightarrow>
          if rc_protect C \<notin> set (r_finalizers r) then (Inr noResult, s\<lparr>rt_w := w1\<rparr>)
          else (case RemoveFinalizer (rc_retryR C) (rc_update C) (ruleGet C)
                       (\<lambda>r. r\<lparr>r_finalizers := rc_removeF C (rc_protect C) (r_finalizers r)\<rparr>) r w1 of
                  (Some e, _, w2) \<Rightarrow> (Inl e, s\<lparr>rt_w := w2\<rparr>)
                | (None, _, w2) \<Rightarrow> (Inr noResult, s\<lparr>rt_w := w2\<rparr>)))"

definition liveRule :: "(int list \<Rightarrow> int list) \<Rightarrow> 'w rclient \<Rightarrow> penv \<Rightarrow> int \<Rightarrow> ptr \<Rightarrow> pod list \<Rightarrow> 'w rtstate
    \<Rightarrow> (gerr + rresult) \<times> 'w rtstate" where
  "liveRule sched C P now r pods s =
     (if rc_protect C \<in> set (r_finalizers r) then syncRule sched C P now r pods s
      else (case AddFinalizer (rc_retryR C) (rc_update C) (ruleGet C)
                   (\<lambda>r. r\<lparr>r_finalizers := rc_addF C (rc_protect C) (r_finalizers r)\<rparr>) r (rt_w s) of
              (Some e, _, w1) \<Rightarrow> (Inl e, s\<lparr>rt_w := w1\<rparr>)
            | (None, r1, w1) \<Rightarrow> syncRule sched C P now r1 pods (s\<lparr>rt_w := w1\<rparr>)))"

definition ReconcileRule :: "(int list \<Rightarrow> int list) \<Rightarrow> 'w rclient \<Rightarrow> penv \<Rightarrow> int \<Rightarrow> string \<Rightarrow> string \<Rightarrow> 'w rtstate
    \<Rightarrow> (gerr + rresult) \<times> 'w rtstate" where
  "ReconcileRule sched C P now ns name s =
     (case rc_rule C (rt_w s) ns name of
        Inl e \<Rightarrow> (if e = NotFound then Inr noResult else Inl e, s)
      | Inr r \<Rightarrow>
          (case rvSatisfiedExpectations (ruleKey r) (r_rv r) now (rt_exp s) of
             Inl e \<Rightarrow> (Inl e, s)
           | Inr False \<Rightarrow> (Inr noResult, s)
           | Inr True \<Rightarrow>
               (case rc_list C (rt_w s) (r_ns r)
                       (case re_sel (pe_env P) (r_selector r) of Inl _ \<Rightarrow> None | Inr f \<Rightarrow> Some f) of
                  Inl e \<Rightarrow> (Inl e, s)
                | Inr pods \<Rightarrow>
                    if r_deleting r then deleteRule C (pe_env P) r s else liveRule sched C P now r pods s)))"

subsection \<open>Event handlers\<close>

fun involvedPodTransitionRules :: "renv \<Rightarrow> string gomap \<Rightarrow> string \<Rightarrow> ptr list \<Rightarrow> gerr + ptr list" where
  "involvedPodTransitionRules E ls n [] = Inr []"
| "involvedPodTransitionRules E ls n (r # rs) =
     (case re_sel E (r_selector r) of
        Inl e \<Rightarrow> Inl e
      | Inr sel \<Rightarrow>
          (case involvedPodTransitionRules E ls n rs of
             Inl e \<Rightarrow> Inl e
           | Inr xs \<Rightarrow>
               Inr ((if sel ls then [r] else map (\<lambda>_. r) (filter (\<lambda>x. x = n) (r_targets r))) @ xs)))"

text \<open>The requests that one event of a pod adds to the queue; \<open>rules\<close> is the list of the pod's namespace.\<close>

definition enqueuePod :: "renv \<Rightarrow> (gerr + ptr list) \<Rightarrow> pod \<Rightarrow> (string \<times> string) list" where
  "enqueuePod E rules p =
     (case rules of
        Inl e \<Rightarrow> []
      | Inr rs \<Rightarrow>
          (case involvedPodTransitionRules E (p_labels p) (p_name p) rs of
             Inl e \<Rightarrow> [] | Inr xs \<Rightarrow> map (\<lambda>r. (r_ns r, r_name r)) xs))"

fun onPodEvent :: "renv \<Rightarrow> (string \<Rightarrow> gerr + ptr list) \<Rightarrow> pod revent \<Rightarrow> (string \<times> string) list" where
  "onPodEvent E rules (RCreate p) = enqueuePod E (rules (p_ns p)) p"
| "onPodEvent E rules (RUpdate old p) = enqueuePod E (rules (p_ns p)) p"
| "onPodEvent E rules (RDelete p) = enqueuePod E (rules (p_ns p)) p"
| "onPodEvent E rules (RGeneric p) = []"

fun onRuleEvent :: "ptr revent \<Rightarrow> (string \<times> string) list" where
  "onRuleEvent (RCreate r) = [(r_ns r, r_name r)]"
| "onRuleEvent (RUpdate old r) =
     (if r_selector old = r_selector r \<and> r_rules old = r_rules r
         \<and> r_targets old = r_targets r \<and> r_observed old = r_observed r \<and> r_details old = r_details r
         \<and> r_states old = r_states r \<and> r_update old = r_update r \<and> \<not> r_deleting r
      then [] else [(r_ns r, r_name r)])"
| "onRuleEvent (RDelete r) = [(r_ns r, r_name r)]"
| "onRuleEvent (RGeneric r) = []"

end
