(* ===== verification/RuleServer.thy ===== *)
theory RuleServer
  imports RuleController
begin

text \<open>
  What the controller of PodTransitionRules relies on of the server that stores pods and rules, and a server in
  memory that keeps it: pods and rules by key, with optimistic locking on the version of a rule.
\<close>

locale rule_server =
  pod: api_server "rc_cl C" objs +
  rule: object_server "rc_update C" "ruleGet C" "rc_retryR C" rules ruleKey "\<lambda>rv r. r\<lparr>r_rv := rv\<rparr>"
  for C :: "'w rclient" and objs :: "'w \<Rightarrow> string \<Rightarrow> pod option" and rules :: "'w \<Rightarrow> string \<Rightarrow> ptr option" +
  assumes pod_missing: "cl_get (rc_cl C) w ns n = Inl NotFound \<Longrightarrow> objs w (ns @ ''/'' @ n) = Some p
      \<Longrightarrow> p_ns p \<noteq> ns \<or> p_name p \<noteq> n"
    and update_missing: "cl_update (rc_cl C) p w = (Inl NotFound, w') \<Longrightarrow> objs w (controllerKey p) = None"
    and update_rules: "cl_update (rc_cl C) p w = (x, w') \<Longrightarrow> rules w' = rules w"
    and patch_ok: "rc_patch C p k v w = (Inr p', w') \<Longrightarrow> p_name p' = p_name p"
    and patch_rules: "rc_patch C p k v w = (x, w') \<Longrightarrow> rules w' = rules w"
    and retryP: "retried fP sP (rc_retryP C fP sP)"
    and rule_update_pods: "rc_update C r w = (xr, w') \<Longrightarrow> objs w' = objs w"
    and status_ok: "rc_status C r w = (Inr r', w') \<Longrightarrow>
      (\<exists>rv. r' = r\<lparr>r_rv := rv\<rparr>) \<and> rules w' = (rules w)(ruleKey r \<mapsto> r')"
    and status_err: "rc_status C r w = (Inl e, w') \<Longrightarrow> rules w' = rules w"
    and get_rule: "rc_rule C w ns n = Inr r \<Longrightarrow> rules w (ns @ ''/'' @ n) = Some r \<and> r_ns r = ns \<and> r_name r = n"

type_synonym mworld = "pod gomap \<times> ptr gomap"

definition memr_update :: "ptr \<Rightarrow> mworld \<Rightarrow> (gerr + ptr) \<times> mworld" where
  "memr_update r w =
     (case mget (snd w) (ruleKey r) of
        None \<Rightarrow> (Inl NotFound, w)
      | Some q \<Rightarrow>
          if r_rv r = r_rv q
          then (let r' = r\<lparr>r_rv := r_rv r @ ''1''\<rparr> in (Inr r', (fst w, mput (ruleKey r) r' (snd w))))
          else (Inl Conflict, w))"

definition memr_patch :: "pod \<Rightarrow> string \<Rightarrow> string \<Rightarrow> mworld \<Rightarrow> (gerr + pod) \<times> mworld" where
  "memr_patch p k v w =
     (case mget (fst w) (controllerKey p) of
        None \<Rightarrow> (Inl NotFound, w)
      | Some q \<Rightarrow>
          if p_name q = p_name p
          then (let q' = q\<lparr>p_annos := mput k v (p_annos q), p_rv := p_rv q @ ''1''\<rparr>
                in (Inr q', (mput (controllerKey p) q' (fst w), snd w)))
          else (Inl NotFound, w))"

definition memr_pods :: "mworld client" where
  "memr_pods =
     \<lparr>cl_get = (\<lambda>w. cl_get mem_client (fst w)),
      cl_update = (\<lambda>p w. map_prod id (\<lambda>ps. (ps, snd w)) (mem_update p (fst w))),
      cl_status = (\<lambda>p w. map_prod id (\<lambda>ps. (ps, snd w)) (mem_update p (fst w))),
      cl_svc = (\<lambda>w ns n. Inl NotFound), cl_retry = mem_retry 4\<rparr>"

definition memr_dump :: "rdetail \<Rightarrow> string" where
  "memr_dump d = d_name d @ '':'' @ d_stage d @ (if d_passed d then ''+'' else ''-'') @ concat (d_passedRules d)"

definition memr_client :: "mworld rclient" where
  "memr_client =
     \<lparr>rc_cl = memr_pods,
      rc_rule = (\<lambda>w ns n. case mget (snd w) (ns @ ''/'' @ n) of
          None \<Rightarrow> Inl NotFound
        | Some r \<Rightarrow> if r_ns r = ns \<and> r_name r = n then Inr r else Inl NotFound),
      rc_list = (\<lambda>w ns f. Inr (filter (\<lambda>p. p_ns p = ns \<and> (case f of None \<Rightarrow> True | Some g \<Rightarrow> g (p_labels p)))
          (map snd (fst w)))),
      rc_patch = memr_patch, rc_update = memr_update, rc_status = memr_update,
      rc_retryP = mem_retry 4, rc_retryR = mem_retry 4,
      rc_dump = (\<lambda>stage passed rej. stage @ (if passed then ''+'' else ''-'') @ concat (map fst rej)),
      rc_dumpStatus = (\<lambda>r. concat (map memr_dump (r_details r))),
      rc_protect = ''protect'',
      rc_addF = (\<lambda>f fs. if f \<in> set fs then fs else fs @ [f]), rc_removeF = (\<lambda>f fs. filter (\<lambda>x. x \<noteq> f) fs)\<rparr>"

lemma memr_update_ok:
  assumes "memr_update r w = (Inr r', w')"
  shows "(\<exists>rv. r' = r\<lparr>r_rv := rv\<rparr>) \<and> mget (snd w') = (mget (snd w))(ruleKey r \<mapsto> r') \<and> fst w' = fst w"
  using assms by (auto simp: memr_update_def Let_def fun_eq_iff split: option.splits if_splits)

lemma memr_update_err: "memr_update r w = (Inl e, w') \<Longrightarrow> w' = w"
  by (auto simp: memr_update_def Let_def split: option.splits if_splits)

lemma memr_update_pods: "memr_update r (ps, rs) = (x, ps', rs') \<Longrightarrow> ps' = ps"
  by (auto simp: memr_update_def Let_def split: option.splits if_splits)

lemma memr_get:
  "rc_rule memr_client w ns n = Inr r \<Longrightarrow> mget (snd w) (ns @ ''/'' @ n) = Some r \<and> r_ns r = ns \<and> r_name r = n"
  by (auto simp: memr_client_def split: option.splits if_splits)

lemma memr_pod_server: "api_server memr_pods (\<lambda>w. mget (fst w))"
proof
  show "cl_get memr_pods w ns n = Inr p \<Longrightarrow> mget (fst w) (ns @ ''/'' @ n) = Some p \<and> p_ns p = ns \<and> p_name p = n"
    for w ns n p using mem.get_current [of "fst w" ns n p] by (simp add: memr_pods_def)
  show "retried f w (cl_retry memr_pods f w)" for f w by (simp add: memr_pods_def mem_retry_retried)
qed (auto simp: memr_pods_def map_prod_def split: prod.splits dest: mem_update_ok mem_update_err)

lemma memr_rule_server: "object_server memr_update (ruleGet memr_client) (mem_retry 4) (\<lambda>w. mget (snd w)) ruleKey
    (\<lambda>rv r. r\<lparr>r_rv := rv\<rparr>)"
  by unfold_locales
    (auto simp: mem_retry_retried ruleGet_def ruleKey_def dest: memr_update_ok memr_update_err memr_get)

interpretation memr: rule_server memr_client "\<lambda>w. mget (fst w)" "\<lambda>w. mget (snd w)"
proof -
  have 1: "api_server (rc_cl memr_client) (\<lambda>w. mget (fst w))"
    using memr_pod_server by (simp add: memr_client_def)
  have 2: "object_server (rc_update memr_client) (ruleGet memr_client) (rc_retryR memr_client) (\<lambda>w. mget (snd w)) ruleKey
    (\<lambda>rv r. r\<lparr>r_rv := rv\<rparr>)"
    using memr_rule_server by (simp add: memr_client_def)
  show "rule_server memr_client (\<lambda>w. mget (fst w)) (\<lambda>w. mget (snd w))"
  proof (intro rule_server.intro rule_server_axioms.intro)
    show "api_server (rc_cl memr_client) (\<lambda>w. mget (fst w))" by (rule 1)
    show "object_server (rc_update memr_client) (ruleGet memr_client) (rc_retryR memr_client) (\<lambda>w. mget (snd w)) ruleKey
      (\<lambda>rv r. r\<lparr>r_rv := rv\<rparr>)" by (rule 2)
  qed (auto simp: memr_client_def memr_pods_def mem_client_def memr_patch_def mem_update_def map_prod_def Let_def
      mem_retry_retried split: option.splits if_splits prod.splits
      dest: memr_update_ok memr_update_err memr_update_pods)
qed

end
