(* ===== verification/ProcessorProps.thy ===== *)
theory ProcessorProps
  imports Processor
begin

text \<open>
  What the processor of a stage and the details of a rule promise.  The lemmas about the loop over the
  rules are proved in a locale, from the contract of a ruler alone, and hold for the model through its
  interpretation on \<open>Filter\<close>.
\<close>

subsection \<open>Loops\<close>

definition skipped :: "penv \<Rightarrow> pod gomap \<Rightarrow> trule \<Rightarrow> string \<Rightarrow> bool" where
  "skipped P targets t n \<longleftrightarrow>
     onPod targets (skipAnno P t) n \<or> onPod targets (skipCond P t) n \<or> onPod targets (skipSel P t) n"

lemma skipLoop_sets:
  "skipLoop f ns (proc, skip) = (proc', skip') \<Longrightarrow>
     set proc' = set proc - {n \<in> set ns. f n} \<and> set skip' = set skip \<union> {n \<in> set ns. f n}"
  by (induction ns arbitrary: proc skip) (auto split: if_splits)

lemma skipPods_spec:
  assumes "skipPods P targets t s = Inr s'"
  shows "set (ps_proc s') = {n \<in> set (ps_proc s). \<not> skipped P targets t n}
    \<and> set (ps_skip s') = set (ps_skip s) \<union> {n \<in> set (ps_proc s). skipped P targets t n}
    \<and> ps_pass s' = ps_pass s \<and> ps_rej s' = ps_rej s"
proof -
  obtain p1 k1 where 1: "skipLoop (onPod targets (skipAnno P t)) (slist (ps_proc s)) (ps_proc s, ps_skip s) = (p1, k1)"
    by fastforce
  obtain p2 k2 where 2: "skipLoop (onPod targets (skipCond P t)) (slist p1) (p1, k1) = (p2, k2)" by fastforce
  obtain p3 k3 where 3: "skipLoop (onPod targets (skipSel P t)) (slist p2) (p2, k2) = (p3, k3)" by fastforce
  have "s' = s\<lparr>ps_proc := p3, ps_skip := k3\<rparr>"
    using assms 1 2 3 by (auto simp: skipPods_def Let_def split: if_splits)
  then show ?thesis
    using skipLoop_sets [OF 1] skipLoop_sets [OF 2] skipLoop_sets [OF 3] by (auto simp: skipped_def)
qed

definition recorded :: "sset gomap \<Rightarrow> string \<Rightarrow> string \<Rightarrow> bool" where
  "recorded m n rule \<longleftrightarrow> (\<exists>s. mget m n = Some s \<and> rule \<in> set s)"

lemma recorded_mput [simp]:
  "recorded (mput n s m) n' rule \<longleftrightarrow> (if n' = n then rule \<in> set s else recorded m n' rule)"
  by (simp add: recorded_def)

lemma passLoop_spec:
  "passLoop rule ns m = Inr m' \<Longrightarrow>
     (\<forall>n. mhas m' n \<longleftrightarrow> mhas m n)
     \<and> (\<forall>n x. recorded m' n x \<longleftrightarrow> recorded m n x \<or> x = rule \<and> n \<in> set ns)
     \<and> (mwf m \<longrightarrow> mwf m')"
proof (induction ns arbitrary: m)
  case (Cons n ns)
  then obtain s where s: "mget m n = Some s" by (auto split: option.splits)
  with Cons.prems have "passLoop rule ns (mput n (sinsert rule s) m) = Inr m'" by simp
  from Cons.IH [OF this] s show ?case by (auto simp: recorded_def mhas_def)
qed simp

lemma rejLoop_spec:
  "(mhas (rejLoop rule rs m) n \<longleftrightarrow> mhas m n \<or> mhas rs n)
   \<and> (mget (rejLoop rule rs m) n = Some (x, reason) \<longrightarrow> mget m n = Some (x, reason) \<or> x = rule)"
proof (induction rule rs m rule: rejLoop.induct)
  case (2 rule n' reason' ns m)
  then show ?case by (auto split: if_splits)
qed simp

lemma takeResult_spec:
  assumes "takeResult t res s = Inr s'"
  shows "set (ps_proc s') = set (fr_passed res) \<union> set (ps_skip s) \<and> ps_skip s' = ps_skip s
    \<and> passLoop (t_name t) (fr_passed res) (ps_pass s) = Inr (ps_pass s')
    \<and> ps_rej s' = rejLoop (t_name t) (fr_rejected res) (ps_rej s)"
  using assms by (auto simp: takeResult_def Let_def split: sum.splits option.splits if_splits)

subsection \<open>One stage\<close>

text \<open>What the loop keeps, for the set of the pods that it started with.\<close>

definition stageInv :: "string set \<Rightarrow> pst \<Rightarrow> bool" where
  "stageInv S s \<longleftrightarrow> set (ps_proc s) \<subseteq> S \<and> set (ps_skip s) \<subseteq> S
     \<and> (\<forall>n. mhas (ps_pass s) n \<longleftrightarrow> n \<in> S) \<and> mwf (ps_pass s)
     \<and> (\<forall>n. mhas (ps_rej s) n \<longrightarrow> n \<in> S)
     \<and> (\<forall>n \<in> S. \<not> mhas (ps_rej s) n \<longrightarrow> n \<in> set (ps_proc s))"

definition settled :: "penv \<Rightarrow> pod gomap \<Rightarrow> trule \<Rightarrow> string \<Rightarrow> sset gomap \<Rightarrow> bool" where
  "settled P targets t n m \<longleftrightarrow> GetRuler t = None \<or> skipped P targets t n \<or> recorded m n (t_name t)"

definition extends :: "pst \<Rightarrow> pst \<Rightarrow> bool" where
  "extends s s' \<longleftrightarrow> (\<forall>n. mhas (ps_rej s) n \<longrightarrow> mhas (ps_rej s') n)
     \<and> (\<forall>n x. recorded (ps_pass s) n x \<longrightarrow> recorded (ps_pass s') n x)"

lemma extends_refl [simp]: "extends s s"
  by (simp add: extends_def)

lemma extends_trans: "extends s t \<Longrightarrow> extends t u \<Longrightarrow> extends s u"
  by (auto simp: extends_def)

lemma settled_extends: "settled P targets t n (ps_pass s) \<Longrightarrow> extends s s' \<Longrightarrow> settled P targets t n (ps_pass s')"
  by (auto simp: settled_def extends_def)

subsection \<open>Details\<close>

definition detailOk :: "string \<Rightarrow> rdetail \<Rightarrow> bool" where
  "detailOk n d \<longleftrightarrow> d_name d = n \<and> (d_passed d \<longleftrightarrow> d_reject d = [])"

definition detailsOk :: "rdetail gomap \<Rightarrow> bool" where
  "detailsOk m \<longleftrightarrow> (\<forall>n d. mget m n = Some d \<longrightarrow> detailOk n d)"

definition detailGrow :: "rdetail \<Rightarrow> rdetail \<Rightarrow> bool" where
  "detailGrow d d' \<longleftrightarrow> d_stage d' = d_stage d \<and> set (d_passedRules d) \<subseteq> set (d_passedRules d')
     \<and> (d_reject d' = [] \<longrightarrow> d_reject d = [])"

definition detailsGrow :: "rdetail gomap \<Rightarrow> rdetail gomap \<Rightarrow> bool" where
  "detailsGrow m m' \<longleftrightarrow> (\<forall>n d. mget m n = Some d \<longrightarrow> (\<exists>d'. mget m' n = Some d' \<and> detailGrow d d'))"

definition ruleDone :: "penv \<Rightarrow> pod gomap \<Rightarrow> trule \<Rightarrow> string \<Rightarrow> rdetail \<Rightarrow> bool" where
  "ruleDone P pods t n d \<longleftrightarrow> GetRuler t = None \<or> skipped P pods t n \<or> t_name t \<in> set (d_passedRules d)"

lemma detailGrow_refl: "detailGrow d d"
  by (simp add: detailGrow_def)

lemma detailGrow_trans: "detailGrow a b \<Longrightarrow> detailGrow b c \<Longrightarrow> detailGrow a c"
  by (auto simp: detailGrow_def)

lemma detailsGrow_refl: "detailsGrow m m"
  by (auto simp: detailsGrow_def detailGrow_refl)

lemma detailsGrow_trans: "detailsGrow a b \<Longrightarrow> detailsGrow b c \<Longrightarrow> detailsGrow a c"
  unfolding detailsGrow_def using detailGrow_trans by blast

definition newDetail :: "rdetail gomap \<Rightarrow> (string \<times> string) gomap \<Rightarrow> string \<Rightarrow> string \<Rightarrow> sset \<Rightarrow> rdetail" where
  "newDetail details rejected stage po rules =
     (let d = (case mget details po of
                 Some d \<Rightarrow> d
               | None \<Rightarrow> \<lparr>d_name = po, d_stage = stage, d_passed = False, d_passedRules = [], d_reject = []\<rparr>);
          rj = d_reject d @ (case mget rejected po of None \<Rightarrow> [] | Some x \<Rightarrow> [x])
      in d\<lparr>d_passedRules := d_passedRules d @ slist rules, d_reject := rj, d_passed := (rj = [])\<rparr>)"

lemma updateDetail_Cons: "updateDetail details ((po, rules) # m) rejected stage =
    updateDetail (mput po (newDetail details rejected stage po rules) details) m rejected stage"
  by (simp add: newDetail_def Let_def)

lemma updateDetail_other: "\<not> mhas m n \<Longrightarrow> mget (updateDetail details m rejected stage) n = mget details n"
  by (induction m arbitrary: details) (auto simp: updateDetail_Cons simp del: updateDetail.simps(2))

lemma updateDetail_get:
  "mwf m \<Longrightarrow> mget (updateDetail details m rejected stage) n =
     (case mget m n of None \<Rightarrow> mget details n | Some rules \<Rightarrow> Some (newDetail details rejected stage n rules))"
proof (induction m arbitrary: details)
  case (Cons x m)
  obtain po rules where x: "x = (po, rules)" by (cases x)
  from Cons.prems have wf: "mwf m" and nin: "\<not> mhas m po"
    by (auto simp: x mwf_def mhas_iff)
  show ?case
  proof (cases "n = po")
    case True
    with nin show ?thesis by (simp add: x updateDetail_Cons updateDetail_other del: updateDetail.simps)
  next
    case False
    have "newDetail (mput po d details) rejected stage n = newDetail details rejected stage n" for d
      using False by (simp add: newDetail_def fun_eq_iff)
    with False show ?thesis
      by (simp add: x updateDetail_Cons Cons.IH [OF wf] del: updateDetail.simps split: option.split)
  qed
qed simp

lemma newDetail_ok: "detailsOk details \<Longrightarrow> detailOk n (newDetail details rejected stage n rules)"
  by (auto simp: newDetail_def Let_def detailOk_def detailsOk_def split: option.splits)

lemma updateDetail_ok: "detailsOk details \<Longrightarrow> detailsOk (updateDetail details m rejected stage)"
proof (induction m arbitrary: details)
  case (Cons x m)
  obtain po rules where x: "x = (po, rules)" by (cases x)
  have "detailsOk (mput po (newDetail details rejected stage po rules) details)"
    using Cons.prems newDetail_ok [OF Cons.prems, of po] by (auto simp: detailsOk_def)
  from Cons.IH [OF this] show ?case by (simp add: x updateDetail_Cons del: updateDetail.simps)
qed simp

lemma newDetail_grow: "mget details po = Some d \<Longrightarrow> detailGrow d (newDetail details rejected stage po rules)"
  by (auto simp: newDetail_def Let_def detailGrow_def)

lemma updateDetail_grow: "detailsGrow details (updateDetail details m rejected stage)"
proof (induction m arbitrary: details)
  case (Cons x m)
  obtain po rules where x: "x = (po, rules)" by (cases x)
  have "detailsGrow details (mput po (newDetail details rejected stage po rules) details)"
    using newDetail_grow detailGrow_refl by (auto simp: detailsGrow_def)
  from detailsGrow_trans [OF this Cons.IH] show ?case by (simp add: x updateDetail_Cons del: updateDetail.simps)
qed (simp add: detailsGrow_refl)

lemma updateDetail_at:
  assumes "mwf m" and "mhas m n"
  shows "\<exists>d rules. mget (updateDetail details m rejected stage) n = Some d \<and> mget m n = Some rules
    \<and> set rules \<subseteq> set (d_passedRules d) \<and> (d_reject d = [] \<longrightarrow> \<not> mhas rejected n)"
  using assms by (auto simp: updateDetail_get mhas_def newDetail_def Let_def)

lemma updateDetail_new:
  "mget (updateDetail details m rejected stage) n = Some d \<Longrightarrow> \<not> mhas details n \<Longrightarrow> mhas m n \<and> d_stage d = stage"
proof (induction m arbitrary: details)
  case Nil
  then show ?case by (simp add: mhas_def)
next
  case (Cons x m)
  obtain po rules where x: "x = (po, rules)" by (cases x)
  let ?details = "mput po (newDetail details rejected stage po rules) details"
  show ?case
  proof (cases "n = po")
    case True
    have at: "mget ?details n = Some (newDetail details rejected stage po rules)" using True by simp
    have "mget (updateDetail ?details m rejected stage) n = Some d"
      using Cons.prems(1) by (simp add: x updateDetail_Cons del: updateDetail.simps)
    with updateDetail_grow [of ?details m rejected stage] at
    have "detailGrow (newDetail details rejected stage po rules) d"
      unfolding detailsGrow_def by (metis option.sel)
    moreover have "mget details po = None" using Cons.prems(2) True by (simp add: mhas_def)
    ultimately show ?thesis using True by (simp add: x detailGrow_def newDetail_def Let_def)
  next
    case False
    have "mget (updateDetail ?details m rejected stage) n = Some d"
      using Cons.prems(1) by (simp add: x updateDetail_Cons del: updateDetail.simps)
    from Cons.IH [OF this] Cons.prems(2) False show ?thesis by (simp add: x)
  qed
qed

locale stage_rules = ruler filt
  for filt :: "rulerCfg \<Rightarrow> ptr \<Rightarrow> pod gomap \<Rightarrow> sset \<Rightarrow> 'w \<Rightarrow> (gerr + fres) \<times> 'w"
begin

lemma rule_step:
  assumes nt: "named targets" and inv: "stageInv S s" and sk: "skipPods P targets t s = Inr s1"
    and flt: "filt c r targets (ps_proc s1) w = (Inr res, w')" and tk: "takeResult t res s1 = Inr s2"
  shows "stageInv S s2 \<and> extends s s2
    \<and> (\<forall>n \<in> S. \<not> mhas (ps_rej s2) n \<longrightarrow> settled P targets t n (ps_pass s2))
    \<and> (\<forall>n x reason. mget (ps_rej s2) n = Some (x, reason) \<longrightarrow> mget (ps_rej s) n = Some (x, reason) \<or> x = t_name t)
    \<and> (\<forall>n x. recorded (ps_pass s2) n x \<longrightarrow> recorded (ps_pass s) n x \<or> x = t_name t)"
proof -
  note k = skipPods_spec [OF sk] and tr = takeResult_spec [OF tk]
  note pl = passLoop_spec [OF conjunct1 [OF conjunct2 [OF conjunct2 [OF tr]]]]
  have rj: "mhas (ps_rej s2) n \<longleftrightarrow> mhas (ps_rej s) n \<or> mhas (fr_rejected res) n" for n
    using rejLoop_spec [of "t_name t" "fr_rejected res" "ps_rej s1" n] tr k by simp
  have rjn: "mget (ps_rej s2) n = Some (x, reason) \<longrightarrow> mget (ps_rej s) n = Some (x, reason) \<or> x = t_name t" for n x reason
    using rejLoop_spec [of "t_name t" "fr_rejected res" "ps_rej s1" n x reason] tr k by simp
  have cv: "set (fr_passed res) \<union> {n. mhas (fr_rejected res) n} = set (ps_proc s1)"
    by (rule cover [OF nt flt])
  have rec: "recorded (ps_pass s2) n x \<longleftrightarrow> recorded (ps_pass s) n x \<or> x = t_name t \<and> n \<in> set (fr_passed res)" for n x
    using pl k by simp
  have ext: "extends s s2" by (auto simp: extends_def rj rec)
  have i: "stageInv S s2"
    unfolding stageInv_def
  proof (intro conjI allI ballI impI)
    show "set (ps_proc s2) \<subseteq> S" "set (ps_skip s2) \<subseteq> S" using tr k cv inv by (auto simp: stageInv_def)
    show "mwf (ps_pass s2)" using pl k inv by (auto simp: stageInv_def)
    show "mhas (ps_pass s2) n \<longleftrightarrow> n \<in> S" for n using pl k inv by (auto simp: stageInv_def)
    show "mhas (ps_rej s2) n \<Longrightarrow> n \<in> S" for n using rj cv k inv by (auto simp: stageInv_def)
    show "n \<in> S \<Longrightarrow> \<not> mhas (ps_rej s2) n \<Longrightarrow> n \<in> set (ps_proc s2)" for n
      using rj cv k tr inv by (auto simp: stageInv_def)
  qed
  have "settled P targets t n (ps_pass s2)" if "n \<in> S" "\<not> mhas (ps_rej s2) n" for n
    using that rj cv k inv by (auto simp: stageInv_def settled_def rec)
  with i ext rjn rec show ?thesis by blast
qed

lemma ruleLoop_spec:
  "ruleLoop filt P r targets ts s w = (Inr s', w') \<Longrightarrow> named targets \<Longrightarrow> stageInv S s \<Longrightarrow>
     stageInv S s' \<and> extends s s'
     \<and> (\<forall>t \<in> set ts. \<forall>n \<in> S. \<not> mhas (ps_rej s') n \<longrightarrow> settled P targets t n (ps_pass s'))
     \<and> (\<forall>n x reason. mget (ps_rej s') n = Some (x, reason) \<longrightarrow> mget (ps_rej s) n = Some (x, reason)
          \<or> (\<exists>t \<in> set ts. t_name t = x \<and> GetRuler t \<noteq> None))
     \<and> (\<forall>n x. recorded (ps_pass s') n x \<longrightarrow> recorded (ps_pass s) n x
          \<or> (\<exists>t \<in> set ts. t_name t = x \<and> GetRuler t \<noteq> None))"
proof (induction ts arbitrary: s w)
  case (Cons t ts)
  show ?case
  proof (cases "GetRuler t")
    case None
    with Cons.prems(1) have "ruleLoop filt P r targets ts s w = (Inr s', w')" by simp
    from Cons.IH [OF this Cons.prems(2,3)] None show ?thesis by (auto simp: settled_def)
  next
    case (Some c)
    with Cons.prems(1) obtain s1 res w1 s2 where st: "skipPods P targets t s = Inr s1"
      "filt c r targets (ps_proc s1) w = (Inr res, w1)" "takeResult t res s1 = Inr s2"
      and rest: "ruleLoop filt P r targets ts s2 w1 = (Inr s', w')"
      by (auto split: sum.splits prod.splits)
    note step = rule_step [OF Cons.prems(2,3) st]
    note ih = Cons.IH [OF rest Cons.prems(2) conjunct1 [OF step]]
    from step ih have e: "extends s2 s'" by blast
    have "\<forall>n \<in> S. \<not> mhas (ps_rej s') n \<longrightarrow> settled P targets t n (ps_pass s')"
      using step settled_extends [OF _ e] e unfolding extends_def by blast
    moreover have "extends s s'" using step e extends_trans by blast
    moreover have "\<forall>n x reason. mget (ps_rej s') n = Some (x, reason) \<longrightarrow> mget (ps_rej s) n = Some (x, reason)
          \<or> (\<exists>t' \<in> set (t # ts). t_name t' = x \<and> GetRuler t' \<noteq> None)"
      using step ih Some by fastforce
    moreover have "\<forall>n x. recorded (ps_pass s') n x \<longrightarrow> recorded (ps_pass s) n x
          \<or> (\<exists>t' \<in> set (t # ts). t_name t' = x \<and> GetRuler t' \<noteq> None)"
      using step ih Some by fastforce
    ultimately show ?thesis using ih by auto
  qed
qed simp

lemma Process_spec:
  assumes "Process filt P stage r targets w = (Inr z, w')" and nt: "named targets"
  shows "(\<forall>n. mhas (pz_pass z) n \<longleftrightarrow> n \<in> set (inStagePods P stage targets)) \<and> mwf (pz_pass z)
    \<and> (\<forall>n. mhas (pz_rejected z) n \<longrightarrow> n \<in> set (inStagePods P stage targets))
    \<and> (\<forall>t \<in> set (effectiveRules P stage r). \<forall>n \<in> set (inStagePods P stage targets).
         \<not> mhas (pz_rejected z) n \<longrightarrow> settled P targets t n (pz_pass z))
    \<and> (\<forall>n x reason. mget (pz_rejected z) n = Some (x, reason)
         \<longrightarrow> (\<exists>t \<in> set (effectiveRules P stage r). t_name t = x \<and> GetRuler t \<noteq> None))"
proof (cases "sinserts (inStagePods P stage targets) [] = []")
  case True
  then have "set (inStagePods P stage targets) = {}" by (metis set_sinserts empty_set sup_bot_right)
  with assms True show ?thesis by (auto simp: Process_def)
next
  case False
  let ?procs = "sinserts (inStagePods P stage targets) []"
  let ?s = "\<lparr>ps_proc = ?procs, ps_skip = [], ps_pass = map (\<lambda>n. (n, [])) ?procs, ps_rej = [],
     ps_states = [], ps_min = maxInterval, ps_retry = False\<rparr>"
  from assms(1) False obtain s where s: "ruleLoop filt P r targets (effectiveRules P stage r) ?s w = (Inr s, w')"
    and z: "pz_rejected z = ps_rej s" "pz_pass z = ps_pass s"
    by (auto simp: Process_def Let_def split: sum.splits prod.splits)
  have "stageInv (set (inStagePods P stage targets)) ?s"
    by (auto simp: stageInv_def mhas_iff mwf_def image_image comp_def)
  from ruleLoop_spec [OF s nt this] show ?thesis
    unfolding z by (simp add: stageInv_def)
qed


text \<open>The details of all stages.\<close>

lemma processStages_spec:
  "processStages filt P r pods sts ot w = (Inr ot', w') \<Longrightarrow> named pods \<Longrightarrow> detailsOk (po_details ot) \<Longrightarrow>
     detailsOk (po_details ot') \<and> detailsGrow (po_details ot) (po_details ot')
     \<and> (\<forall>st \<in> set sts. \<forall>n \<in> set (inStagePods P st pods). \<exists>d. mget (po_details ot') n = Some d
          \<and> (d_reject d = [] \<longrightarrow> (\<forall>t \<in> set (effectiveRules P st r). ruleDone P pods t n d)))
     \<and> (\<forall>n d. mget (po_details ot') n = Some d \<longrightarrow> mhas (po_details ot) n
          \<or> (\<exists>st \<in> set sts. d_stage d = st \<and> n \<in> set (inStagePods P st pods)))"
proof (induction sts arbitrary: ot w)
  case (Cons st sts)
  from Cons.prems(1) obtain z w1 where z: "Process filt P st r pods w = (Inr z, w1)"
    and rest: "processStages filt P r pods sts
            \<lparr>po_retry = po_retry ot \<or> pz_retry z,
             po_interval = (case pz_interval z of
                None \<Rightarrow> po_interval ot
              | Some i \<Rightarrow> (case po_interval ot of
                             None \<Rightarrow> Some i | Some j \<Rightarrow> if j > i then Some i else Some j)),
             po_details = updateDetail (po_details ot) (pz_pass z) (pz_rejected z) st,
             po_states = po_states ot @ pz_states z\<rparr> w1 = (Inr ot', w')"
    by (auto split: sum.splits prod.splits)
  let ?d = "updateDetail (po_details ot) (pz_pass z) (pz_rejected z) st"
  note pr = Process_spec [OF z Cons.prems(2)]
  note ok = updateDetail_ok [OF Cons.prems(3), of "pz_pass z" "pz_rejected z" st]
  note gr = updateDetail_grow [of "po_details ot" "pz_pass z" "pz_rejected z" st]
  from Cons.IH [OF rest Cons.prems(2)] ok
  have ih: "detailsOk (po_details ot')" "detailsGrow ?d (po_details ot')"
     "\<forall>st \<in> set sts. \<forall>n \<in> set (inStagePods P st pods). \<exists>d. mget (po_details ot') n = Some d
          \<and> (d_reject d = [] \<longrightarrow> (\<forall>t \<in> set (effectiveRules P st r). ruleDone P pods t n d))"
     "\<forall>n d. mget (po_details ot') n = Some d \<longrightarrow> mhas ?d n
          \<or> (\<exists>st \<in> set sts. d_stage d = st \<and> n \<in> set (inStagePods P st pods))"
    by simp_all
  have grow: "detailsGrow (po_details ot) (po_details ot')" using gr ih(2) by (rule detailsGrow_trans)
  have here: "\<exists>d. mget (po_details ot') n = Some d
      \<and> (d_reject d = [] \<longrightarrow> (\<forall>t \<in> set (effectiveRules P st r). ruleDone P pods t n d))"
    if n: "n \<in> set (inStagePods P st pods)" for n
  proof -
    have m: "mhas (pz_pass z) n" and wf: "mwf (pz_pass z)" using pr n by blast+
    from updateDetail_at [OF wf m] obtain d rules where d: "mget ?d n = Some d" and r: "mget (pz_pass z) n = Some rules"
      "set rules \<subseteq> set (d_passedRules d)" "d_reject d = [] \<longrightarrow> \<not> mhas (pz_rejected z) n" by blast
    from ih(2) d obtain d' where d': "mget (po_details ot') n = Some d'" and le: "detailGrow d d'"
      unfolding detailsGrow_def by blast
    have "ruleDone P pods t n d'" if "d_reject d' = []" "t \<in> set (effectiveRules P st r)" for t
    proof -
      from le that(1) have "\<not> mhas (pz_rejected z) n" using r(3) by (auto simp: detailGrow_def)
      with pr that(2) n have "settled P pods t n (pz_pass z)" by blast
      then show ?thesis using r le by (auto simp: settled_def ruleDone_def recorded_def detailGrow_def)
    qed
    with d' show ?thesis by blast
  qed
  have from_: "mhas (po_details ot) n \<or> (\<exists>st' \<in> set (st # sts). d_stage d = st' \<and> n \<in> set (inStagePods P st' pods))"
    if d: "mget (po_details ot') n = Some d" for n d
  proof (cases "mhas ?d n \<and> \<not> mhas (po_details ot) n")
    case True
    then obtain d0 where d0: "mget ?d n = Some d0" by (auto simp: mhas_def)
    from updateDetail_new [OF d0] True have "d_stage d0 = st" "mhas (pz_pass z) n" by auto
    moreover from ih(2) d0 d have "detailGrow d0 d" unfolding detailsGrow_def by fastforce
    ultimately show ?thesis using pr by (auto simp: detailGrow_def)
  next
    case False
    with ih(4) d show ?thesis by auto
  qed
  show ?case using ih(1) grow here ih(3) from_ by simp
qed (auto simp: detailsGrow_refl mhas_def)

end

interpretation stage: stage_rules "Filter P" for P
  by unfold_locales

text \<open>C17: The processor of a stage accounts for every pod of that stage: the pods it reports are those of the
  stage, a pod that it does not reject was, for each effective rule that has a ruler, skipped by its
  annotation, the conditions or the selector of the rule, or is recorded as having passed the rule, and a
  rejection names an effective rule.\<close>

theorem stage_accounts_for_pods:
  assumes "Process (Filter P) P stage r targets w = (Inr z, w')" and "named targets"
  shows "(\<forall>n. mhas (pz_pass z) n \<longleftrightarrow> n \<in> set (inStagePods P stage targets))
    \<and> (\<forall>t \<in> set (effectiveRules P stage r). \<forall>n \<in> set (inStagePods P stage targets).
         \<not> mhas (pz_rejected z) n \<longrightarrow> settled P targets t n (pz_pass z))
    \<and> (\<forall>n x reason. mget (pz_rejected z) n = Some (x, reason)
         \<longrightarrow> n \<in> set (inStagePods P stage targets)
           \<and> (\<exists>t \<in> set (effectiveRules P stage r). t_name t = x \<and> GetRuler t \<noteq> None))"
  using stage.Process_spec [OF assms] by (auto simp: mhas_def)

lemma passed_detail_spec:
  assumes "process (Filter P) P r pods w = (Inr ot, w')" and "named pods"
    and "mget (po_details ot) n = Some d"
  shows "d_name d = n \<and> (d_passed d \<longleftrightarrow> d_reject d = [])
    \<and> d_stage d \<in> set (GetStages (pe_cache P)) \<and> n \<in> set (inStagePods P (d_stage d) pods)
    \<and> (d_passed d \<longrightarrow> (\<forall>st \<in> set (GetStages (pe_cache P)). n \<in> set (inStagePods P st pods)
         \<longrightarrow> (\<forall>t \<in> set (effectiveRules P st r). ruleDone P pods t n d)))"
proof -
  have "detailsOk []" by (simp add: detailsOk_def)
  with stage.processStages_spec [OF assms(1) [unfolded process_def] assms(2)]
  have ok: "detailsOk (po_details ot)"
    and all: "\<forall>st \<in> set (GetStages (pe_cache P)). \<forall>n \<in> set (inStagePods P st pods). \<exists>d. mget (po_details ot) n = Some d
          \<and> (d_reject d = [] \<longrightarrow> (\<forall>t \<in> set (effectiveRules P st r). ruleDone P pods t n d))"
    and from_: "\<forall>n d. mget (po_details ot) n = Some d
          \<longrightarrow> (\<exists>st \<in> set (GetStages (pe_cache P)). d_stage d = st \<and> n \<in> set (inStagePods P st pods))"
    by simp_all
  have d: "detailOk n d" using ok assms(3) by (simp add: detailsOk_def)
  moreover have "ruleDone P pods t n d" if "d_reject d = []" "st \<in> set (GetStages (pe_cache P))"
    "n \<in> set (inStagePods P st pods)" "t \<in> set (effectiveRules P st r)" for st t
    using all assms(3) that by fastforce
  ultimately show ?thesis using from_ assms(3) by (auto simp: detailOk_def)
qed

text \<open>The detail of a pod says that it passed only if, in every stage that the pod is in, each effective rule
  with a ruler skipped the pod or is listed among the passed rules of the detail; the stage of the
  detail is one the pod is in, and a detail passes exactly when it has no rejection.\<close>

theorem passed_detail_means_all_rules:
  assumes "process (Filter P) P r pods w = (Inr ot, w')" and "named pods"
    and "mget (po_details ot) n = Some d"
  shows "d_name d = n \<and> (d_passed d \<longleftrightarrow> d_reject d = [])
    \<and> d_stage d \<in> set (GetStages (pe_cache P)) \<and> n \<in> set (inStagePods P (d_stage d) pods)
    \<and> (d_passed d \<longrightarrow> (\<forall>st \<in> set (GetStages (pe_cache P)). n \<in> set (inStagePods P st pods)
         \<longrightarrow> (\<forall>t \<in> set (effectiveRules P st r). ruleDone P pods t n d)))"
  by (rule passed_detail_spec [OF assms])

lemma process_covers:
  assumes "process (Filter P) P r pods w = (Inr ot, w')" and "named pods"
    and "st \<in> set (GetStages (pe_cache P))" and "n \<in> set (inStagePods P st pods)"
  shows "mhas (po_details ot) n"
  using stage.processStages_spec [OF assms(1) [unfolded process_def] assms(2)] assms(3,4)
  by (fastforce simp: detailsOk_def mhas_def)

end
