(* ===== verification/RuleControllerProps.thy ===== *)
theory RuleControllerProps
  imports RuleServer ProcessorProps
begin

text \<open>
  What a reconciliation of a PodTransitionRule promises.  The lemmas about the writes are proved from the
  contract of the server.
\<close>

context rule_server begin

subsection \<open>Cleaning pods\<close>

definition clean :: "renv \<Rightarrow> string \<Rightarrow> 'w \<Rightarrow> string \<Rightarrow> string \<Rightarrow> bool" where
  "clean E rule w ns n \<longleftrightarrow> (\<forall>p. objs w (ns @ ''/'' @ n) = Some p \<and> p_ns p = ns \<and> p_name p = n
     \<longrightarrow> \<not> mhas (p_annos p) (detailKey E rule))"

text \<open>A write that leaves the rules alone and takes no pod out of the clean ones.\<close>

definition tidy :: "renv \<Rightarrow> string \<Rightarrow> 'w \<Rightarrow> 'w \<Rightarrow> bool" where
  "tidy E rule w w' \<longleftrightarrow> rules w' = rules w \<and> (\<forall>ns n. clean E rule w ns n \<longrightarrow> clean E rule w' ns n)"

lemma tidy_refl: "tidy E rule w w"
  by (simp add: tidy_def)

lemma tidy_trans: "tidy E rule a b \<Longrightarrow> tidy E rule b c \<Longrightarrow> tidy E rule a c"
  by (simp add: tidy_def)

lemma cleanOnce_effect:
  assumes "cleanOnce C E rule n ns w = (r, w')"
  shows "tidy E rule w w' \<and> (r = None \<or> r = Some NotFound \<longrightarrow> clean E rule w' ns n)"
proof (cases "cl_get (rc_cl C) w ns n")
  case (Inl e)
  then show ?thesis
    using assms pod_missing by (auto simp: cleanOnce_def attempt_def tidy_refl clean_def split: if_splits)
next
  case (Inr p)
  note get = pod.get_current [OF Inr]
  let ?k = "detailKey E rule"
  show ?thesis
  proof (cases "mhas (p_annos p) ?k")
    case False
    then have "r = None" "w' = w"
      using assms Inr by (auto simp: cleanOnce_def attempt_def MoveDetailAnno_def Let_def detailKey_def)
    then show ?thesis using get False by (simp add: tidy_refl clean_def)
  next
    case True
    let ?q = "p\<lparr>p_annos := mdel ?k (p_annos p)\<rparr>"
    obtain x w1 where x: "cl_update (rc_cl C) ?q w = (x, w1)" by fastforce
    have w': "w' = w1" "r = (case x of Inl e \<Rightarrow> Some e | Inr _ \<Rightarrow> None)"
      using assms Inr True x
      by (auto simp: cleanOnce_def attempt_def MoveDetailAnno_def Let_def detailKey_def split: sum.splits)
    have key: "controllerKey ?q = ns @ ''/'' @ n" using get by (simp add: controllerKey_def)
    show ?thesis
    proof (cases x)
      case (Inr q)
      with pod.update_ok [of ?q w q w1] x obtain rv where "q = ?q\<lparr>p_rv := rv\<rparr>" "objs w1 = (objs w)(ns @ ''/'' @ n \<mapsto> q)"
        using key by auto
      then show ?thesis using w' Inr update_rules [OF x] by (auto simp: tidy_def clean_def)
    next
      case (Inl e)
      have "objs w1 = objs w" using pod.update_err x Inl by blast
      moreover have "e = NotFound \<Longrightarrow> objs w (ns @ ''/'' @ n) = None"
        using update_missing [of ?q w w1] x Inl key by simp
      ultimately show ?thesis using w' Inl update_rules [OF x] by (auto simp: tidy_def clean_def)
    qed
  qed
qed

lemma cleanPod_effect:
  assumes "updatePodTransitionRuleOnPod C E rule n ns w = (r, w')"
  shows "tidy E rule w w' \<and> (r = None \<or> r = Some NotFound \<longrightarrow> clean E rule w' ns n)"
proof -
  have "tidy E rule w (snd x) \<and> (fst x = None \<or> fst x = Some NotFound \<longrightarrow> clean E rule (snd x) ns n)"
    if "retried (cleanOnce C E rule n ns) w x" for w x
    using that
  proof (induction rule: retried.induct)
    case (last w)
    show ?case by (rule cleanOnce_effect) simp
  next
    case (again w w1 x)
    from cleanOnce_effect [OF again(1)] again(3) show ?case using tidy_trans by blast
  qed
  from this [OF pod.retry [of "cleanOnce C E rule n ns" w]] assms show ?thesis
    by (simp add: updatePodTransitionRuleOnPod_def)
qed

lemma cleanUp_effect:
  "cleanUpPodTransitionRulePods C E r ns w = (res, w') \<Longrightarrow>
     tidy E (r_name r) w w' \<and> (res = None \<longrightarrow> (\<forall>n \<in> set ns. clean E (r_name r) w' (r_ns r) n))"
proof (induction ns arbitrary: w)
  case (Cons n ns)
  obtain x w1 where x: "updatePodTransitionRuleOnPod C E (r_name r) n (r_ns r) w = (x, w1)" by fastforce
  note eff = cleanPod_effect [OF x]
  show ?case
  proof (cases "x = None \<or> x = Some NotFound")
    case True
    then have "cleanUpPodTransitionRulePods C E r ns w1 = (res, w')" using Cons.prems x by auto
    from Cons.IH [OF this] eff True show ?thesis using tidy_trans [of E "r_name r" w w1 w'] by (auto simp: tidy_def)
  next
    case False
    then have "w' = w1" "res \<noteq> None" using Cons.prems x by (auto split: if_splits)
    then show ?thesis using eff by auto
  qed
qed (simp add: tidy_refl)

lemma removeUnselected_effect:
  "removeUnselected C E r sel ns w = (res, w') \<Longrightarrow> rules w' = rules w"
proof (induction ns arbitrary: w)
  case (Cons n ns)
  obtain x w1 where x: "updatePodTransitionRuleOnPod C E (r_name r) n (r_ns r) w = (x, w1)" by fastforce
  have "rules w1 = rules w" using cleanPod_effect [OF x] by (simp add: tidy_def)
  with Cons x show ?case by (auto split: if_splits option.splits)
qed simp

lemma finalizer_pods:
  "finalizerTry (rc_update C) (ruleGet C) f (r, w) = (e, r', w') \<Longrightarrow> objs w' = objs w"
proof -
  obtain x w1 where x: "rc_update C (f r) w = (x, w1)" by fastforce
  then have "objs w1 = objs w" by (rule rule_update_pods)
  then show "finalizerTry (rc_update C) (ruleGet C) f (r, w) = (e, r', w') \<Longrightarrow> objs w' = objs w"
    using x by (auto simp: finalizerTry_def Let_def split: sum.splits)
qed

lemma deleteRule_effect:
  assumes "deleteRule C E r s = (res, s')" and "rules (rt_w s') \<noteq> rules (rt_w s)"
  shows "\<forall>n \<in> set (r_targets r). clean E (r_name r) (rt_w s') (r_ns r) n"
proof -
  obtain x w1 where x: "cleanUpPodTransitionRulePods C E r (r_targets r) (rt_w s) = (x, w1)" by fastforce
  note cu = cleanUp_effect [OF x]
  let ?f = "\<lambda>r. r\<lparr>r_finalizers := rc_removeF C (rc_protect C) (r_finalizers r)\<rparr>"
  obtain e r2 w2 where rf: "RemoveFinalizer (rc_retryR C) (rc_update C) (ruleGet C) ?f r w1 = (e, r2, w2)"
    by (cases "RemoveFinalizer (rc_retryR C) (rc_update C) (ruleGet C) ?f r w1") simp
  have n: "x = None"
  proof (rule ccontr)
    assume "x \<noteq> None"
    then have "rt_w s' = w1" using assms(1) x by (auto simp: deleteRule_def)
    with assms(2) cu show False by (simp add: tidy_def)
  qed
  have f: "rc_protect C \<in> set (r_finalizers r)"
  proof (rule ccontr)
    assume "rc_protect C \<notin> set (r_finalizers r)"
    then have "rt_w s' = w1" using assms(1) x n by (auto simp: deleteRule_def)
    with assms(2) cu show False by (simp add: tidy_def)
  qed
  have w': "rt_w s' = w2"
    using assms(1) x n f rf by (cases e) (auto simp: deleteRule_def)
  have pods: "objs (snd (snd z)) = objs (snd z0)"
    if "retried (finalizerTry (rc_update C) (ruleGet C) ?f) z0 z" for z0 z
    using that
  proof (induction rule: retried.induct)
    case (last z0)
    show ?case using finalizer_pods [of ?f "fst z0" "snd z0"] by (cases "finalizerTry (rc_update C) (ruleGet C) ?f z0") auto
  next
    case (again z0 z1 z)
    then have "objs (snd z1) = objs (snd z0)"
      using finalizer_pods [of ?f "fst z0" "snd z0" "Some Conflict" "fst z1" "snd z1"] by simp
    with again show ?case by simp
  qed
  have "objs w2 = objs w1"
    using pods [OF rule.retry_ok [of "finalizerTry (rc_update C) (ruleGet C) ?f" "(r, w1)"]] rf
    by (simp add: RemoveFinalizer_def)
  then show ?thesis using cu n w' by (simp add: clean_def)
qed

subsection \<open>Writing the status\<close>

lemma updatePodDetail_effect:
  assumes "updatePodDetail C E rule d (p, w) = (e, p1, w1)"
  shows "p_name p1 = p_name p \<and> rules w1 = rules w"
proof -
  let ?k = "detailKey E rule" and ?js = "detailJson C d"
  let ?f = "\<lambda>(p, w). case rc_patch C p ?k ?js w of (Inl e, w1) \<Rightarrow> (Some e, (p, w1)) | (Inr p1, w1) \<Rightarrow> (None, (p1, w1))"
  have step: "p_name (fst (snd (?f z))) = p_name (fst z) \<and> rules (snd (snd (?f z))) = rules (snd z)" for z
  proof -
    obtain p w where z: "z = (p, w)" by (cases z)
    obtain x w1 where x: "rc_patch C p ?k ?js w = (x, w1)" by fastforce
    show ?thesis using patch_ok [of p ?k ?js w _ w1] patch_rules [OF x] x z by (cases x) auto
  qed
  have "p_name (fst (snd x)) = p_name (fst z) \<and> rules (snd (snd x)) = rules (snd z)" if "retried ?f z x" for z x
    using retried_inv [OF that, of "\<lambda>y. p_name (fst y) = p_name (fst z) \<and> rules (snd y) = rules (snd z)"] step by simp
  from this [OF retryP [of ?f "(p, w)"]] assms show ?thesis
    by (auto simp: updatePodDetail_def Let_def split: if_splits)
qed

definition syncInv :: "string set \<Rightarrow> (string \<Rightarrow> ptr option) \<Rightarrow> pod gomap \<times> 'w \<Rightarrow> bool" where
  "syncInv S R z \<longleftrightarrow> named (fst z) \<and> {n. mhas (fst z) n} = S \<and> rules (snd z) = R"

lemma named_mput: "named m \<Longrightarrow> p_name p = n \<Longrightarrow> named (mput n p m)"
  by (induction m) (auto simp: named_def)

lemma syncOne_inv:
  assumes "syncInv S R z"
  shows "syncInv S R (snd (syncOne C E r names i got z))"
proof -
  obtain targets w where z: "z = (targets, w)" by (cases z)
  show ?thesis
  proof (cases "mget targets (names ! nat i)")
    case None
    then show ?thesis using assms z by (simp add: syncOne_def Let_def)
  next
    case (Some p)
    let ?d = "mget (fold (\<lambda>d. mput (d_name d) d) (r_details r) []) (p_name p)"
    obtain e p1 w1 where u: "updatePodDetail C E (r_name r) ?d (p, w) = (e, p1, w1)"
      by (cases "updatePodDetail C E (r_name r) ?d (p, w)") simp
    have nm: "p_name p = names ! nat i" using assms z Some named_get by (auto simp: syncInv_def)
    have "mhas targets (names ! nat i)" using Some by (simp add: mhas_def)
    then show ?thesis
      using assms z Some u nm updatePodDetail_effect [OF u] named_mput [of targets p1]
      by (auto simp: syncOne_def Let_def syncInv_def)
  qed
qed

lemma syncPodsDetail_inv:
  "syncInv S R z \<Longrightarrow> syncInv S R (snd (syncPodsDetail sched C E r z))"
  unfolding syncPodsDetail_def by (rule SlowStartBatch_inv [where I = "syncInv S R"]) (rule syncOne_inv)

lemma targetsOf_inv: "named (targetsOf pods) \<and> {n. mhas (targetsOf pods) n} = set (sinserts (map p_name pods) [])"
proof -
  have "named (fold (\<lambda>p. mput (p_name p) p) pods m) \<and>
      {n. mhas (fold (\<lambda>p. mput (p_name p) p) pods m) n} = p_name ` set pods \<union> {n. mhas m n}" if "named m" for m
    using that
  proof (induction pods arbitrary: m)
    case (Cons p pods)
    from Cons.IH [OF named_mput [OF Cons.prems refl]] show ?case by auto
  qed simp
  from this [of "[]"] show ?thesis by (simp add: targetsOf_def named_def)
qed

lemma writeStatus_effect:
  assumes "writeStatus C now r sel ot s = (res, s')"
  shows "rules (rt_w s') = rules (rt_w s)
    \<or> (\<exists>rv. rules (rt_w s') = (rules (rt_w s))(ruleKey r \<mapsto> (withStatus r sel ot now)\<lparr>r_rv := rv\<rparr>))"
proof -
  have k: "ruleKey (withStatus r sel ot now) = ruleKey r" by (simp add: withStatus_def ruleKey_def)
  obtain x w1 where x: "rc_status C (withStatus r sel ot now) (rt_w s) = (x, w1)" by fastforce
  show ?thesis
  proof (cases x)
    case (Inl e)
    with x status_err have "rules w1 = rules (rt_w s)" by blast
    then show ?thesis using assms x Inl by (auto simp: writeStatus_def Let_def split: if_splits)
  next
    case (Inr r')
    with x status_ok [of _ "rt_w s" r' w1] k obtain rv where "rules w1 = (rules (rt_w s))(ruleKey r \<mapsto> (withStatus r sel ot now)\<lparr>r_rv := rv\<rparr>)"
      by metis
    then show ?thesis using assms x Inr by (auto simp: writeStatus_def Let_def split: if_splits)
  qed
qed

end

text \<open>What the details of a rule vouch for.\<close>

definition vouched :: "penv \<Rightarrow> ptr \<Rightarrow> pod gomap \<Rightarrow> rdetail \<Rightarrow> bool" where
  "vouched P r pods d \<longleftrightarrow>
     d_stage d \<in> set (GetStages (pe_cache P)) \<and> d_name d \<in> set (inStagePods P (d_stage d) pods)
     \<and> (d_passed d \<longrightarrow> (\<forall>st \<in> set (GetStages (pe_cache P)). d_name d \<in> set (inStagePods P st pods)
          \<longrightarrow> (\<forall>t \<in> set (effectiveRules P st r). ruleDone P pods t (d_name d) d)))"

lemma effectiveRules_cong: "r_rules r = r_rules r' \<Longrightarrow> effectiveRules P st r = effectiveRules P st r'"
  by (simp add: effectiveRules_def)

lemma sortedDetails_set: "d \<in> set (sortedDetails m) \<Longrightarrow> \<exists>n. mget m n = Some d"
  by (auto simp: sortedDetails_def) (metis mhas_iff mhas_def image_eqI fst_conv option.collapse)

lemma process_vouches:
  assumes "process (Filter P) P r pods pm = (Inr ot, pm')" and "named pods" and "r_rules r' = r_rules r"
    and "d \<in> set (sortedDetails (po_details ot))"
  shows "vouched P r' pods d"
proof -
  from sortedDetails_set [OF assms(4)] obtain n where n: "mget (po_details ot) n = Some d" by blast
  from passed_detail_spec [OF assms(1,2) n] effectiveRules_cong [OF assms(3)] show ?thesis
    by (auto simp: vouched_def)
qed

context rule_server begin

definition justified :: "penv \<Rightarrow> ptr \<Rightarrow> bool" where
  "justified P r \<longleftrightarrow> (\<exists>pods. named pods \<and> {n. mhas pods n} = set (r_targets r) \<and> (\<forall>d \<in> set (r_details r). vouched P r pods d))"

lemma processRules_effect:
  assumes "processRules C P now r sel targets s = (res, s')" and "named targets" and "{n. mhas targets n} = set sel"
  shows "rules (rt_w s') = rules (rt_w s)
    \<or> (\<exists>r'. rules (rt_w s') = (rules (rt_w s))(ruleKey r \<mapsto> r') \<and> justified P r')"
proof -
  obtain x pm where x: "process (Filter P) P r targets (rt_pm s) = (x, pm)" by fastforce
  show ?thesis
  proof (cases x)
    case (Inl e)
    then show ?thesis using assms(1) x by (auto simp: processRules_def)
  next
    case (Inr ot)
    obtain e s1 where ws: "writeStatus C now r sel ot (s\<lparr>rt_pm := pm\<rparr>) = (e, s1)" by fastforce
    have "rt_w s' = rt_w s1" using assms(1) x Inr ws by (auto simp: processRules_def split: option.splits)
    moreover have "justified P ((withStatus r sel ot now)\<lparr>r_rv := rv\<rparr>)" for rv
      unfolding justified_def
      using process_vouches [of P r targets "rt_pm s" ot pm "(withStatus r sel ot now)\<lparr>r_rv := rv\<rparr>"] x Inr assms(2,3)
      by (intro exI [of _ targets]) (auto simp: withStatus_def)
    ultimately show ?thesis using writeStatus_effect [OF ws] by auto
  qed
qed

lemma syncRule_effect:
  assumes "syncRule sched C P now r pods s = (res, s')"
  shows "rules (rt_w s') = rules (rt_w s)
    \<or> (\<exists>r'. rules (rt_w s') = (rules (rt_w s))(ruleKey r \<mapsto> r') \<and> justified P r')"
proof -
  let ?sel = "sinserts (map p_name pods) []"
  obtain e targets w1 where sy: "syncPodsDetail sched C (pe_env P) r (targetsOf pods, rt_w s) = (e, targets, w1)"
    by (cases "syncPodsDetail sched C (pe_env P) r (targetsOf pods, rt_w s)") simp
  have "syncInv (set ?sel) (rules (rt_w s)) (targetsOf pods, rt_w s)"
    using targetsOf_inv by (simp add: syncInv_def)
  from syncPodsDetail_inv [OF this, of sched "pe_env P" r] sy
  have t: "named targets" "{n. mhas targets n} = set ?sel" "rules w1 = rules (rt_w s)" by (auto simp: syncInv_def)
  obtain e2 w2 where ru: "removeUnselected C (pe_env P) r ?sel (r_targets r) w1 = (e2, w2)" by fastforce
  have w2: "rules w2 = rules (rt_w s)" using removeUnselected_effect [OF ru] t(3) by simp
  show ?thesis
  proof (cases "podsFresh now (rt_podExp s) pods = Inr True \<and> e = None \<and> e2 = None")
    case True
    then have "processRules C P now r ?sel targets (s\<lparr>rt_w := w2\<rparr>) = (res, s')"
      using assms sy ru by (simp add: syncRule_def Let_def)
    from processRules_effect [OF this t(1,2)] w2 show ?thesis by simp
  next
    case False
    then have "rules (rt_w s') = rules (rt_w s)"
      using assms sy ru t(3) w2 by (auto simp: syncRule_def Let_def split: sum.splits bool.splits option.splits)
    then show ?thesis by blast
  qed
qed

lemma ReconcileRule_cases:
  assumes "ReconcileRule sched C P now ns name s = (res, s')"
  obtains "s' = s"
  | r where "rules (rt_w s) (ns @ ''/'' @ name) = Some r" "r_ns r = ns" "r_name r = name" "r_deleting r"
      "deleteRule C (pe_env P) r s = (res, s')"
  | r pods where "rules (rt_w s) (ns @ ''/'' @ name) = Some r" "r_ns r = ns" "r_name r = name" "\<not> r_deleting r"
      "liveRule sched C P now r pods s = (res, s')"
  using assms get_rule [of "rt_w s" ns name]
  by (fastforce simp: ReconcileRule_def split: sum.splits bool.splits if_splits)

lemma liveRule_cases:
  assumes "liveRule sched C P now r pods s = (res, s')" and "rules (rt_w s) (ruleKey r) = Some r"
  obtains "rules (rt_w s') = rules (rt_w s)"
  | r1 where "rules (rt_w s') = (rules (rt_w s))(ruleKey r \<mapsto> r1)" "r_details r1 = r_details r"
  | r1 where "rules (rt_w s') = (rules (rt_w s))(ruleKey r \<mapsto> r1)" "justified P r1"
proof (cases "rc_protect C \<in> set (r_finalizers r)")
  case True
  with assms(1) have "syncRule sched C P now r pods s = (res, s')" by (simp add: liveRule_def)
  from syncRule_effect [OF this] that show thesis by blast
next
  case False
  let ?f = "\<lambda>r. r\<lparr>r_finalizers := rc_addF C (rc_protect C) (r_finalizers r)\<rparr>"
  obtain e r1 w1 where af: "AddFinalizer (rc_retryR C) (rc_update C) (ruleGet C) ?f r (rt_w s) = (e, r1, w1)"
    by (cases "AddFinalizer (rc_retryR C) (rc_update C) (ruleGet C) ?f r (rt_w s)") simp
  have k: "ruleKey (?f r) = ruleKey r" for r by (simp add: ruleKey_def)
  note eff = rule.finalizer_effect [OF k af [unfolded AddFinalizer_def]]
  have d: "r_details r1 = r_details r"
    by (rule rule.finalizer_keeps [where Q = "\<lambda>x. r_details x = r_details r", OF k _ _ _ _ af [unfolded AddFinalizer_def]])
      (use assms(2) in auto)
  show thesis
  proof (cases e)
    case (Some x)
    then have "rt_w s' = w1" using assms(1) af False by (auto simp: liveRule_def)
    then show thesis using eff Some that(1) by auto
  next
    case None
    then have st: "rules w1 = (rules (rt_w s))(ruleKey r \<mapsto> r1)" "ruleKey r1 = ruleKey r" using eff by auto
    have "syncRule sched C P now r1 pods (s\<lparr>rt_w := w1\<rparr>) = (res, s')"
      using assms(1) af False None by (simp add: liveRule_def)
    from syncRule_effect [OF this] st d that(2,3) show thesis by auto
  qed
qed

lemma reconcile_delete:
  assumes "ReconcileRule sched C P now ns name s = (res, s')"
    and "rules (rt_w s) (ns @ ''/'' @ name) = Some r" and "r_deleting r"
    and "rules (rt_w s') (ns @ ''/'' @ name) \<noteq> Some r"
  shows "\<forall>n \<in> set (r_targets r). \<forall>p. objs (rt_w s') (ns @ ''/'' @ n) = Some p \<and> p_ns p = ns \<and> p_name p = n
    \<longrightarrow> \<not> mhas (p_annos p) (detailKey (pe_env P) name)"
  using assms(1)
proof (cases rule: ReconcileRule_cases)
  case 1
  then show ?thesis using assms(2,4) by simp
next
  case (2 r')
  then have "rules (rt_w s') \<noteq> rules (rt_w s)" "r' = r" using assms(2,4) by auto
  with deleteRule_effect [OF 2(5)] 2 show ?thesis by (simp add: clean_def)
next
  case (3 r' pods)
  then show ?thesis using assms(2,3) by simp
qed

lemma reconcile_status:
  assumes "ReconcileRule sched C P now ns name s = (res, s')"
    and "rules (rt_w s) (ns @ ''/'' @ name) = Some r" and "rules (rt_w s') (ns @ ''/'' @ name) = Some r'"
    and "\<not> r_deleting r" and "r_details r' \<noteq> r_details r"
  shows "\<exists>pods. named pods \<and> {n. mhas pods n} = set (r_targets r') \<and> (\<forall>d \<in> set (r_details r'). vouched P r' pods d)"
  using assms(1)
proof (cases rule: ReconcileRule_cases)
  case (3 r0 pods)
  then have r0: "r0 = r" and k: "ruleKey r = ns @ ''/'' @ name" using assms(2) by (auto simp: ruleKey_def)
  have st: "rules (rt_w s) (ruleKey r) = Some r" using assms(2) k by simp
  from 3(5) [unfolded r0] st show ?thesis
  proof (cases rule: liveRule_cases)
    case (3 r1)
    then show ?thesis using assms(3) k by (simp add: justified_def)
  qed (use assms k in auto)
qed (use assms in auto)

end

text \<open>C18: When the controller touches a PodTransitionRule that is being deleted - it removes the finalizer - no pod that
  the rule had as a target carries the detail annotation of the rule any more.\<close>

theorem deletion_waits_for_cleanup:
  assumes "rule_server C objs rules" and "ReconcileRule sched C P now ns name s = (res, s')"
    and "rules (rt_w s) (ns @ ''/'' @ name) = Some r" and "r_deleting r"
    and "rules (rt_w s') (ns @ ''/'' @ name) \<noteq> Some r"
  shows "\<forall>n \<in> set (r_targets r). \<forall>p. objs (rt_w s') (ns @ ''/'' @ n) = Some p \<and> p_ns p = ns \<and> p_name p = n
    \<longrightarrow> \<not> mhas (p_annos p) (detailKey (pe_env P) name)"
  by (rule rule_server.reconcile_delete [OF assms])

text \<open>C16: When a reconciliation changes the details of a rule, there is a set of pods, the targets that it
  wrote, such that every new detail is of a pod in the stage of the detail, and a detail that passes
  vouches for every effective rule of every stage the pod is in.\<close>

theorem status_vouches:
  assumes "rule_server C objs rules" and "ReconcileRule sched C P now ns name s = (res, s')"
    and "rules (rt_w s) (ns @ ''/'' @ name) = Some r" and "rules (rt_w s') (ns @ ''/'' @ name) = Some r'"
    and "\<not> r_deleting r" and "r_details r' \<noteq> r_details r"
  shows "\<exists>pods. named pods \<and> {n. mhas pods n} = set (r_targets r') \<and> (\<forall>d \<in> set (r_details r'). vouched P r' pods d)"
  by (rule rule_server.reconcile_status [OF assms])

subsection \<open>Events\<close>

lemma involved_iff:
  "involvedPodTransitionRules E ls n rs = Inr xs \<Longrightarrow>
     r \<in> set xs \<longleftrightarrow> r \<in> set rs \<and> ((\<exists>sel. re_sel E (r_selector r) = Inr sel \<and> sel ls) \<or> n \<in> set (r_targets r))"
proof (induction rs arbitrary: xs)
  case (Cons x rs)
  from Cons.prems obtain sel ys where x: "re_sel E (r_selector x) = Inr sel"
    "involvedPodTransitionRules E ls n rs = Inr ys"
    and xs: "xs = (if sel ls then [x] else map (\<lambda>_. x) (filter (\<lambda>y. y = n) (r_targets x))) @ ys"
    by (auto split: sum.splits)
  show ?case using Cons.IH [OF x(2)] x(1) xs by auto
qed simp

lemma involved_ok: "list_all (\<lambda>r. \<exists>sel. re_sel E (r_selector r) = Inr sel) rs \<Longrightarrow>
    \<exists>xs. involvedPodTransitionRules E ls n rs = Inr xs"
  by (induction rs) auto

text \<open>An event of a pod, whether it is created, updated or deleted, asks for a reconciliation of exactly the rules
  of its namespace that select the pod or still list it as a target, if all their selectors parse; if one does not parse
  it asks for none.\<close>

theorem pod_event_reaches_rules:
  assumes "rules (p_ns p) = Inr rs"
    and "ev = RCreate p \<or> ev = RUpdate old p \<or> ev = RDelete p"
  shows "set (onPodEvent E rules ev) =
    (if \<exists>r \<in> set rs. is_err (re_sel E (r_selector r)) then {}
     else (\<lambda>r. (r_ns r, r_name r)) ` {r \<in> set rs. (\<exists>sel. re_sel E (r_selector r) = Inr sel \<and> sel (p_labels p))
       \<or> p_name p \<in> set (r_targets r)})"
proof -
  have ev: "onPodEvent E rules ev = enqueuePod E (Inr rs) p" using assms by auto
  show ?thesis
  proof (cases "\<exists>r \<in> set rs. is_err (re_sel E (r_selector r))")
    case True
    have "\<exists>e. involvedPodTransitionRules E ls n rs = Inl e" if "\<exists>r \<in> set rs. is_err (re_sel E (r_selector r))" for ls n
      using that by (induction rs) (fastforce split: sum.splits)+
    from this [OF True] obtain e where "involvedPodTransitionRules E (p_labels p) (p_name p) rs = Inl e" by blast
    then show ?thesis unfolding ev using True by (simp add: enqueuePod_def)
  next
    case False
    then have "list_all (\<lambda>r. \<exists>sel. re_sel E (r_selector r) = Inr sel) rs"
      by (auto simp: list_all_iff) (metis is_err.simps(1) sum.exhaust)
    from involved_ok [OF this] obtain xs where xs: "involvedPodTransitionRules E (p_labels p) (p_name p) rs = Inr xs" by blast
    from involved_iff [OF xs] have "set xs = {r \<in> set rs. (\<exists>sel. re_sel E (r_selector r) = Inr sel \<and> sel (p_labels p))
       \<or> p_name p \<in> set (r_targets r)}" by blast
    then show ?thesis unfolding ev using False xs by (simp add: enqueuePod_def)
  qed
qed

end
