(* ===== verification/RuleExamples.thy ===== *)
theory RuleExamples
  imports Processor WebhookExamples
begin

text \<open>
  Concrete rules and pods on which the properties of the rulers apply: a fleet of three ready
  pods of which one may be disrupted, and a webhook rule whose server approves, is
  unreachable, or was asked before the controller restarted.
\<close>

definition exenv :: renv where
  "exenv = \<lparr>re_scaled = (\<lambda>v n up. case v of IsInt i \<Rightarrow> Inr i | IsStr s \<Rightarrow> Inl (Err s)),
     re_sel = (\<lambda>s. Inr (\<lambda>ls. True)), re_cls = (\<lambda>ns n. Inl NotFound), re_clsApi = ''apps/v1'',
     re_skipAnno = ''skip'', re_skipDec = (\<lambda>s. Inr [s]), re_detailAnno = ''detail'',
     re_fields = [''AvailablePolicy'', ''LabelCheck'', ''Webhook'']\<rparr>"

definition exfleetPod :: "string \<Rightarrow> pod" where
  "exfleetPod n = (expod [])\<lparr>p_name := n,
     p_conds := [\<lparr>c_type = ''Ready'', c_status = CTrue, c_time = 0, c_msg = []\<rparr>]\<rparr>"

definition exfleet :: "pod gomap" where
  "exfleet = map (\<lambda>n. (n, exfleetPod n)) [''a'', ''b'', ''c'']"

definition exptr :: "trule list \<Rightarrow> ruleState list \<Rightarrow> ptr" where
  "exptr rules sts = \<lparr>r_ns = ''ns'', r_name = ''r'', r_rv = ''1'', r_generation = 1, r_deleting = False,
     r_finalizers = [], r_selector = ''s'', r_rules = rules, r_targets = [''a'', ''b'', ''c''], r_observed = 1,
     r_details = [], r_states = sts, r_update = None\<rparr>"

definition exavail :: availRule where
  "exavail = \<lparr>av_name = ''av'', av_min = None, av_max = Some (IsInt 1)\<rparr>"

definition exavailRes :: fres where
  "exavailRes = (case AvailableFilter exenv [defaultUnavailable] exavail (exptr [] []) exfleet [''a'', ''b''] of
     Inr x \<Rightarrow> x | Inl e \<Rightarrow> plainRes [] [])"

lemma exfleet_named: "named exfleet" by code_simp
lemma exfleet_mwf: "mwf exfleet" by code_simp

lemma exavail_run:
  "AvailableFilter exenv [defaultUnavailable] exavail (exptr [] []) exfleet [''a'', ''b''] = Inr exavailRes"
  by code_simp

lemma available_budget_witness:
  "fr_passed exavailRes = [''a''] \<and> mhas (fr_rejected exavailRes) ''b''
   \<and> (\<exists>maxQ minQ un. maxQuota exenv exavail (length exfleet) = Inr maxQ \<and> minQuota exenv exavail (length exfleet) = Inr minQ
    \<and> considerOwnerReplicas exenv exfleet = Inr un
    \<and> disrupted [defaultUnavailable] exavail (exptr [] []) exfleet
        + int (card (set (fr_passed exavailRes) \<inter> set (ofSubjects [defaultUnavailable] exavail (exptr [] []) exfleet [''a'', ''b'']))) + un \<le> maxQ
    \<and> minQ \<le> remaining [defaultUnavailable] exavail (exptr [] []) exfleet
        - int (card (set (fr_passed exavailRes) \<inter> set (ofSubjects [defaultUnavailable] exavail (exptr [] []) exfleet [''a'', ''b'']))))"
proof -
  have 1: "''a'' \<in> set (fr_passed exavailRes)" by code_simp
  have 2: "''a'' \<in> set (ofSubjects [defaultUnavailable] exavail (exptr [] []) exfleet [''a'', ''b''])" by code_simp
  have 3: "fr_passed exavailRes = [''a''] \<and> mhas (fr_rejected exavailRes) ''b''" by code_simp
  show ?thesis
    using available_budget [OF exfleet_named exfleet_mwf _ exavail_run 1 2] 3 by simp
qed

lemma available_maximal_witness:
  "\<exists>maxQ minQ un. maxQuota exenv exavail (length exfleet) = Inr maxQ \<and> minQuota exenv exavail (length exfleet) = Inr minQ
    \<and> considerOwnerReplicas exenv exfleet = Inr un
    \<and> card (set (fr_passed exavailRes) \<inter> set (ofSubjects [defaultUnavailable] exavail (exptr [] []) exfleet [''a'', ''b'']))
      = min (card (set (ofSubjects [defaultUnavailable] exavail (exptr [] []) exfleet [''a'', ''b''])))
          (nat (min (max 0 (maxQ - un) - disrupted [defaultUnavailable] exavail (exptr [] []) exfleet)
                    (remaining [defaultUnavailable] exavail (exptr [] []) exfleet - minQ)))"
proof -
  have 1: "fr_err exavailRes = None" by code_simp
  show ?thesis
    by (rule available_maximal [OF exfleet_named exfleet_mwf _ exavail_run 1]) simp
qed

definition exhookCfg :: wconfig where
  "exhookCfg = \<lparr>wc_url = ''http://h'',
     wc_poll = Some \<lparr>pl_url = ''http://p'', pl_rawKey = [], pl_timeout = Some 60, pl_interval = Some 5\<rparr>, wc_params = [], wc_ca = [], wc_failure = None\<rparr>"

definition exhookRule :: trule where
  "exhookRule = \<lparr>t_name = ''hook'', t_disabled = False, t_stage = None, t_conditions = [], t_filter = None,
     t_avail = None, t_label = None, t_webhook = Some exhookCfg\<rparr>"

definition exweb :: "httpOutcome \<Rightarrow> wenv" where
  "exweb x = \<lparr>we_http = (\<lambda>url req. x), we_json = (\<lambda>p s. Inr []), we_qname = (\<lambda>s. True), we_quote = (\<lambda>s. s),
     we_trace = ''t''\<rparr>"

definition exanswer :: httpOutcome where
  "exanswer = Response \<lparr>wx_success = False, wx_names = [''a''], wx_async = False, wx_poll = False, wx_task = [],
     wx_trace = [], wx_msg = []\<rparr>"

definition exhookRes :: fres where
  "exhookRes = (case WebhookFilter (exweb exanswer) 0 ''hook'' (exptr [exhookRule] []) exfleet [''a'', ''b''] [] of
     (Inr x, pm) \<Rightarrow> x | (Inl e, pm) \<Rightarrow> plainRes [] [])"

lemma exhook_run:
  "WebhookFilter (exweb exanswer) 0 ''hook'' (exptr [exhookRule] []) exfleet [''a'', ''b''] [] = (Inr exhookRes, [])"
  by code_simp

lemma webhook_pass_has_reason_witness:
  "fr_passed exhookRes = [''a''] \<and> (\<exists>h hs. GetWebhook (exptr [exhookRule] []) [''hook''] = h # hs
    \<and> set (fr_passed exhookRes) \<union> {n. mhas (fr_rejected exhookRes) n} = set [''a'', ''b'']
    \<and> passReason (exweb exanswer) h exfleet [''a'', ''b''] [] ''a'')"
proof -
  have 1: "fr_passed exhookRes = [''a'']" by code_simp
  show ?thesis using webhook_pass_has_reason [OF exhook_run] 1 by auto
qed

definition exhook :: "webhookStatus \<Rightarrow> whook" where
  "exhook st = \<lparr>wh_key = ''ns/r/hook'', wh_rule = ''hook'', wh_stage = None, wh_cfg = exhookCfg, wh_state = st,
     wh_approved = (\<lambda>po. False)\<rparr>"

definition exreq :: whreq where
  "exreq = (case buildRequest (exweb (NoResponse (Err ''refused''))) (exhook \<lparr>ws_tasks = [], ws_history = []\<rparr>) [''a''] exfleet of
     Inr q \<Rightarrow> q | Inl e \<Rightarrow> \<lparr>wq_rule = [], wq_stage = None, wq_trace = [], wq_pods = []\<rparr>)"

definition exstep :: wstep where
  "exstep = \<lparr>wd_checked = [], wd_rej = [], wd_trace = [], wd_tasks = [], wd_hist = [], wd_pm = []\<rparr>"

lemma unreachable_webhook_panics_witness:
  "\<exists>msg. firstRequest (exweb (NoResponse (Err ''refused''))) (exhook \<lparr>ws_tasks = [], ws_history = []\<rparr>) 0
     exfleet [''a''] exstep = Inl (Panic msg)"
proof -
  have 1: "buildRequest (exweb (NoResponse (Err ''refused''))) (exhook \<lparr>ws_tasks = [], ws_history = []\<rparr>) [''a''] exfleet = Inr exreq"
    by code_simp
  show ?thesis
    by (rule unreachable_webhook_panics [OF 1, of "Err ''refused''"]) (simp add: exweb_def)
qed

definition exlost :: taskInfo where
  "exlost = \<lparr>ti_id = ''task'', ti_begin = 0, ti_last = None, ti_msg = [], ti_processing = [''a''], ti_approved = []\<rparr>"

lemma restart_panics_witness:
  "\<exists>msg. Do (exweb exanswer) (exhook \<lparr>ws_tasks = [exlost], ws_history = []\<rparr>) 0 exfleet [''a''] [] = (Inl (Panic msg), [])"
proof -
  have 1: "mget exfleet ''a'' = Some (exfleetPod ''a'')" by code_simp
  show ?thesis
    by (rule restart_panics [where x = "''a''" and t = exlost and ts = "[]" and p = "exfleetPod ''a''"])
      (simp_all add: exhook_def exlost_def 1)
qed

end
