(* ===== verification/RuleControllerExamples.thy ===== *)
theory RuleControllerExamples
  imports RuleControllerProps RuleExamples
begin

text \<open>
  Runs of the processor and of the controller of PodTransitionRules on the server in memory: one stage that every
  pod is in, an availability rule that lets one pod of two through, and a rule that is deleted.
\<close>

definition exP :: penv where
  "exP = \<lparr>pe_env = exenv, pe_unavail = [defaultUnavailable], pe_web = exweb exanswer, pe_now = 0,
     pe_cache = RegisterStage ''st'' (\<lambda>p. True) newCache, pe_ruleStage = [], pe_skip = []\<rparr>"

definition exrule :: trule where
  "exrule = \<lparr>t_name = ''av'', t_disabled = False, t_stage = Some ''st'', t_conditions = [], t_filter = None,
     t_avail = Some \<lparr>ap_max = Some (IsInt 1), ap_min = None\<rparr>, t_label = None, t_webhook = None\<rparr>"

definition exz :: presult where
  "exz = (case Process (Filter exP) exP ''st'' (exptr [exrule] []) exfleet [] of
     (Inr z, w) \<Rightarrow> z | (Inl e, w) \<Rightarrow> \<lparr>pz_rejected = [], pz_pass = [], pz_retry = False, pz_interval = None, pz_states = []\<rparr>)"

lemma exz_run: "Process (Filter exP) exP ''st'' (exptr [exrule] []) exfleet [] = (Inr exz, [])"
  by code_simp

lemma stage_accounts_for_pods_witness:
  "mget (pz_pass exz) ''a'' = Some [''av''] \<and> mhas (pz_rejected exz) ''b''
   \<and> settled exP exfleet exrule ''a'' (pz_pass exz)"
proof -
  have 1: "mget (pz_pass exz) ''a'' = Some [''av''] \<and> mhas (pz_rejected exz) ''b'' \<and> \<not> mhas (pz_rejected exz) ''a''"
    by code_simp
  have 2: "exrule \<in> set (effectiveRules exP ''st'' (exptr [exrule] []))" by code_simp
  have 3: "''a'' \<in> set (inStagePods exP ''st'' exfleet)" by code_simp
  show ?thesis using stage_accounts_for_pods [OF exz_run exfleet_named] 1 2 3 by blast
qed

definition exot :: procOut where
  "exot = (case process (Filter exP) exP (exptr [exrule] []) exfleet [] of
     (Inr ot, w) \<Rightarrow> ot | (Inl e, w) \<Rightarrow> \<lparr>po_retry = False, po_interval = None, po_details = [], po_states = []\<rparr>)"

definition exdetail :: "string \<Rightarrow> rdetail" where
  "exdetail n = (case mget (po_details exot) n of Some d \<Rightarrow> d | None \<Rightarrow> emptyDetail)"

lemma exot_run: "process (Filter exP) exP (exptr [exrule] []) exfleet [] = (Inr exot, [])"
  by code_simp

lemma passed_detail_means_all_rules_witness:
  "d_passed (exdetail ''a'') \<and> \<not> d_passed (exdetail ''b'') \<and> ruleDone exP exfleet exrule ''a'' (exdetail ''a'')"
proof -
  have 1: "mget (po_details exot) ''a'' = Some (exdetail ''a'')" by code_simp
  have 2: "d_passed (exdetail ''a'') \<and> \<not> d_passed (exdetail ''b'')" by code_simp
  have 3: "exrule \<in> set (effectiveRules exP ''st'' (exptr [exrule] []))" by code_simp
  have 4: "''a'' \<in> set (inStagePods exP ''st'' exfleet) \<and> ''st'' \<in> set (GetStages (pe_cache exP))" by code_simp
  show ?thesis using passed_detail_means_all_rules [OF exot_run exfleet_named 1] 2 3 4 by blast
qed

subsection \<open>The controller\<close>

definition exworld :: "ptr \<Rightarrow> mworld" where
  "exworld r = (map (\<lambda>n. (''ns/'' @ n, (exfleetPod n)\<lparr>p_annos := [(''detail/r'', ''old'')]\<rparr>)) [''a'', ''b''], [(''ns/r'', r)])"

definition exstate :: "ptr \<Rightarrow> mworld rtstate" where
  "exstate r = \<lparr>rt_w = exworld r, rt_exp = [], rt_podExp = [], rt_pm = []\<rparr>"

definition exreconcile :: "ptr \<Rightarrow> (gerr + rresult) \<times> mworld rtstate" where
  "exreconcile r = ReconcileRule id memr_client exP 5 ''ns'' ''r'' (exstate r)"

abbreviation "exlive \<equiv> exptr [exrule] []"
abbreviation "exdying \<equiv> (exptr [exrule] [])\<lparr>r_deleting := True, r_finalizers := [''protect''], r_targets := [''a'', ''b'']\<rparr>"

definition exafter :: "ptr \<Rightarrow> ptr" where
  "exafter r = the (mget (snd (rt_w (snd (exreconcile r)))) ''ns/r'')"

lemma exreconcile_eq: "ReconcileRule id memr_client exP 5 ''ns'' ''r'' (exstate r) = (fst (exreconcile r), snd (exreconcile r))"
  by (simp add: exreconcile_def)

lemma exstate_rule: "mget (snd (rt_w (exstate r))) (''ns'' @ ''/'' @ ''r'') = Some r"
  by (simp add: exstate_def exworld_def)

definition excleaned :: pod where
  "excleaned = the (mget (fst (rt_w (snd (exreconcile exdying)))) ''ns/a'')"

lemma deletion_waits_for_cleanup_witness:
  "mhas (p_annos (the (mget (fst (exworld exdying)) ''ns/a''))) ''detail/r'' \<and> r_finalizers (exafter exdying) = []
   \<and> \<not> mhas (p_annos excleaned) (detailKey exenv ''r'')"
proof -
  have 1: "mget (snd (rt_w (snd (exreconcile exdying)))) (''ns'' @ ''/'' @ ''r'') \<noteq> Some exdying" by code_simp
  have 2: "mhas (p_annos (the (mget (fst (exworld exdying)) ''ns/a''))) ''detail/r'' \<and> r_finalizers (exafter exdying) = []"
    by code_simp
  have 3: "pe_env exP = exenv" by (simp add: exP_def)
  have 4: "mget (fst (rt_w (snd (exreconcile exdying)))) ''ns/a'' \<noteq> None" by code_simp
  have 5: "p_ns excleaned = ''ns'' \<and> p_name excleaned = ''a''" by code_simp
  have 6: "mget (fst (rt_w (snd (exreconcile exdying)))) ''ns/a'' = Some excleaned"
    unfolding excleaned_def using 4 by (rule option.collapse [symmetric])
  from deletion_waits_for_cleanup [OF memr.rule_server_axioms exreconcile_eq exstate_rule _ 1] 5 6
  have "\<not> mhas (p_annos excleaned) (detailKey exenv ''r'')" by (simp add: 3)
  with 2 show ?thesis by blast
qed

lemma status_vouches_witness:
  "map d_passed (r_details (exafter exlive)) = [True, False]
   \<and> (\<exists>pods. named pods \<and> {n. mhas pods n} = {''a'', ''b''} \<and> (\<forall>d \<in> set (r_details (exafter exlive)). vouched exP (exafter exlive) pods d))"
proof -
  have 1: "mget (snd (rt_w (snd (exreconcile exlive)))) (''ns'' @ ''/'' @ ''r'') = Some (exafter exlive)" by code_simp
  have 2: "\<not> r_deleting exlive" by code_simp
  have 3: "r_details (exafter exlive) \<noteq> r_details exlive" by code_simp
  have 4: "map d_passed (r_details (exafter exlive)) = [True, False]" by code_simp
  have 5: "set (r_targets (exafter exlive)) = {''a'', ''b''}" by code_simp
  show ?thesis
    using status_vouches [OF memr.rule_server_axioms exreconcile_eq exstate_rule 1 2 3] 4 5 by simp
qed

lemma pod_event_reaches_rules_witness:
  "set (onPodEvent exenv (\<lambda>ns. Inr [exlive]) (RCreate (exfleetPod ''z''))) = {(''ns'', ''r'')}"
  using pod_event_reaches_rules [of "\<lambda>ns. Inr [exlive]" "exfleetPod ''z''" "[exlive]" "RCreate (exfleetPod ''z'')" "exfleetPod ''z''" exenv]
  by (simp add: exenv_def exptr_def)

end
