(* ===== verification/CollaSets.thy ===== *)
theory CollaSets
  imports PodUtils
begin

text \<open>
  The objects around a CollaSet, as far as the code looks at them: its specification and status, its
  label selector and the claims of volumes that it has templates of.  The policies are string
  constants of kube-api; the empty string is a value of its own.  \<open>None\<close> is a nil pointer.
\<close>

record lselector =
  se_labels :: "string gomap"
  se_exprs :: string

record pvc =
  v_ns :: string
  v_name :: string
  v_genName :: string
  v_labels :: "string gomap"
  v_owners :: "owner list"
  v_deleting :: bool
  v_rv :: string
  v_spec :: string

datatype updatePolicy = RecreatePolicy | ReplacePolicy | InPlaceIfPossiblePolicy | InPlaceOnlyPolicy
  | NoUpdatePolicy | OtherUpdatePolicy

datatype suffixPolicy = PersistentSequence | RandomSuffix | NoSuffixPolicy | OtherSuffixPolicy

datatype retention = RetainClaim | DeleteClaim | NoRetention | OtherRetention

text \<open>A rolling update by label is an empty object; the partition of one by partition is a pointer.\<close>

record updRolling =
  up_byLabel :: bool
  up_byPartition :: "int option option"

record csCond =
  cx_type :: string
  cx_status :: string
  cx_time :: int
  cx_reason :: string
  cx_msg :: string

record collaset =
  co_ns :: string
  co_name :: string
  co_uid :: string
  co_rv :: string
  co_deleting :: bool
  co_paused :: bool
  co_replicas :: "int option"
  co_selector :: "lselector option"
  co_history :: int
  co_tmplLabels :: "string gomap"
  co_template :: string
  co_vcts :: "pvc list"
  co_updPolicy :: updatePolicy
  co_rolling :: "updRolling option"
  co_updDelay :: "int option"
  co_toDelete :: "string list"
  co_toExclude :: "string list"
  co_toInclude :: "string list"
  co_context :: string
  co_scaleDelay :: "int option"
  co_retention :: "(retention \<times> retention) option"
  co_naming :: "suffixPolicy option"
  co_curReplicas :: int
  co_ready :: int
  co_updatedReplicas :: int
  co_operating :: int
  co_terminating :: int
  co_updatedReady :: int
  co_available :: int
  co_updatedAvailable :: int
  co_scheduled :: int
  co_conds :: "csCond list"
  co_observed :: int
  co_current :: string
  co_updated :: string
  co_collision :: "int option"

text \<open>The empty object, which a variable holds before it is read.\<close>

definition noCollaSet :: collaset where
  "noCollaSet =
     \<lparr>co_ns = [], co_name = [], co_uid = [], co_rv = [], co_deleting = False, co_paused = False, co_replicas = None,
      co_selector = None, co_history = 0, co_tmplLabels = [], co_template = [], co_vcts = [], co_updPolicy = NoUpdatePolicy,
      co_rolling = None, co_updDelay = None, co_toDelete = [], co_toExclude = [], co_toInclude = [], co_context = [],
      co_scaleDelay = None, co_retention = None, co_naming = None, co_curReplicas = 0, co_ready = 0,
      co_updatedReplicas = 0, co_operating = 0, co_terminating = 0, co_updatedReady = 0, co_available = 0,
      co_updatedAvailable = 0, co_scheduled = 0, co_conds = [], co_observed = 0, co_current = [], co_updated = [],
      co_collision = None\<rparr>"

text \<open>\<open>ObjectKeyString\<close> of a CollaSet.\<close>

definition clsKey :: "collaset \<Rightarrow> string" where
  "clsKey c = co_ns c @ ''/'' @ co_name c"

end
