(* ===== verification/RefManager.thy ===== *)
theory RefManager
  imports CollaSets
begin

text \<open>
  \<^verbatim>\<open>pkg/controllers/utils/refmanager/ref_manager.go\<close>: an owner adopts the objects that its selector
  matches and releases those that it no longer matches.

  The objects are of any type; \<open>objAcc\<close> is what \<open>client.Object\<close> gives access to.  The client's update
  (\<open>rw_update\<close>, which writes the stored object back into its argument), \<open>SetControllerReference\<close> of
  controller-runtime (\<open>rw_setRef\<close>) and the parser of selectors are parameters.  Operations return the
  object as they leave it.  An aggregated error is the list of its errors.
\<close>

record 'o objAcc =
  oa_labels :: "'o \<Rightarrow> string gomap"
  oa_owners :: "'o \<Rightarrow> owner list"
  oa_setOwners :: "owner list \<Rightarrow> 'o \<Rightarrow> 'o"
  oa_deleting :: "'o \<Rightarrow> bool"

record ('o, 'w) refWriter =
  rw_update :: "'o \<Rightarrow> 'w \<Rightarrow> (gerr + 'o) \<times> 'w"
  rw_setRef :: "'o \<Rightarrow> gerr + 'o"

record refOwner =
  fo_uid :: string
  fo_deleting :: bool

text \<open>\<open>rf_once\<close> is the pair of the fields \<open>once\<close> and \<open>canAdoptErr\<close>.\<close>

record refMgr =
  rf_matches :: "string gomap \<Rightarrow> bool"
  rf_owner :: refOwner
  rf_schema :: bool
  rf_once :: "gerr option option"

definition NewRefManager :: "(lselector option \<Rightarrow> gerr + (string gomap \<Rightarrow> bool)) \<Rightarrow> lselector option \<Rightarrow> refOwner \<Rightarrow> bool
    \<Rightarrow> gerr + refMgr" where
  "NewRefManager parse sel ow schema =
     rbind (parse sel) (\<lambda>f. Inr \<lparr>rf_matches = f, rf_owner = ow, rf_schema = schema, rf_once = None\<rparr>)"

definition canAdopt :: "refMgr \<Rightarrow> gerr option" where
  "canAdopt m = (if fo_deleting (rf_owner m) then Some (Err ''has just been deleted'') else None)"

definition canAdoptOnce :: "refMgr \<Rightarrow> gerr option \<times> refMgr" where
  "canAdoptOnce m =
     (case rf_once m of
        Some e \<Rightarrow> (e, m)
      | None \<Rightarrow> (canAdopt m, m\<lparr>rf_once := Some (canAdopt m)\<rparr>))"

definition adoptObj :: "('o, 'w) refWriter \<Rightarrow> 'o \<Rightarrow> refMgr \<Rightarrow> 'w \<Rightarrow> gerr option \<times> 'o \<times> refMgr \<times> 'w" where
  "adoptObj C ob m w =
     (case canAdoptOnce m of
        (Some e, m1) \<Rightarrow> (Some (Err ''can't adopt Object''), ob, m1, w)
      | (None, m1) \<Rightarrow>
          if \<not> rf_schema m1 then (Some (Err ''schema should not be nil''), ob, m1, w)
          else (case rw_setRef C ob of
                  Inl e \<Rightarrow> (Some (Err ''can't set Object owner reference''), ob, m1, w)
                | Inr ob1 \<Rightarrow>
                    (case rw_update C ob1 w of
                       (Inl e, w1) \<Rightarrow> (Some e, ob1, m1, w1)
                     | (Inr ob2, w1) \<Rightarrow> (None, ob2, m1, w1))))"

fun ownerIndex :: "string \<Rightarrow> owner list \<Rightarrow> nat \<Rightarrow> nat option" where
  "ownerIndex uid [] i = None"
| "ownerIndex uid (r # rs) i = (if o_uid r = uid then Some i else ownerIndex uid rs (Suc i))"

definition Release :: "'o objAcc \<Rightarrow> ('o, 'w) refWriter \<Rightarrow> refMgr \<Rightarrow> 'o \<Rightarrow> 'w \<Rightarrow> gerr option \<times> 'o \<times> 'w" where
  "Release T C m ob w =
     (case ownerIndex (fo_uid (rf_owner m)) (oa_owners T ob) 0 of
        None \<Rightarrow> (None, ob, w)
      | Some i \<Rightarrow>
          (let ob1 = oa_setOwners T (take i (oa_owners T ob) @ drop (Suc i) (oa_owners T ob)) ob
           in case rw_update C ob1 w of
                (Inl e, w1) \<Rightarrow> (Some e, ob1, w1)
              | (Inr ob2, w1) \<Rightarrow> (None, ob2, w1)))"

text \<open>The first component is what \<open>ClaimObject\<close> returns.\<close>

definition ClaimObject :: "'o objAcc \<Rightarrow> ('o, 'w) refWriter \<Rightarrow> refMgr \<Rightarrow> 'o \<Rightarrow> 'w \<Rightarrow> (gerr + bool) \<times> 'o \<times> refMgr \<times> 'w" where
  "ClaimObject T C m ob w =
     (case find o_ctrl (oa_owners T ob) of
        Some r \<Rightarrow>
          if o_uid r \<noteq> fo_uid (rf_owner m) then (Inr False, ob, m, w)
          else if rf_matches m (oa_labels T ob) then (Inr True, ob, m, w)
          else if fo_deleting (rf_owner m) then (Inr False, ob, m, w)
          else (case Release T C m ob w of
                  (Some e, ob1, w1) \<Rightarrow> (if e = NotFound then Inr False else Inl e, ob1, m, w1)
                | (None, ob1, w1) \<Rightarrow> (Inr False, ob1, m, w1))
      | None \<Rightarrow>
          if fo_deleting (rf_owner m) \<or> \<not> rf_matches m (oa_labels T ob) then (Inr False, ob, m, w)
          else if oa_deleting T ob then (Inr False, ob, m, w)
          else (case adoptObj C ob m w of
                  (Some e, ob1, m1, w1) \<Rightarrow> (if e = NotFound then Inr False else Inl e, ob1, m1, w1)
                | (None, ob1, m1, w1) \<Rightarrow> (Inr True, ob1, m1, w1)))"

fun claimLoop :: "'o objAcc \<Rightarrow> ('o, 'w) refWriter \<Rightarrow> 'o list \<Rightarrow> 'o list \<times> gerr list \<times> refMgr \<times> 'w
    \<Rightarrow> 'o list \<times> gerr list \<times> refMgr \<times> 'w" where
  "claimLoop T C [] acc = acc"
| "claimLoop T C (ob # obs) (cl, es, m, w) =
     (case ClaimObject T C m ob w of
        (Inl e, ob1, m1, w1) \<Rightarrow> claimLoop T C obs (cl, es @ [e], m1, w1)
      | (Inr True, ob1, m1, w1) \<Rightarrow> claimLoop T C obs (cl @ [ob1], es, m1, w1)
      | (Inr False, ob1, m1, w1) \<Rightarrow> claimLoop T C obs (cl, es, m1, w1))"

definition ClaimOwned :: "'o objAcc \<Rightarrow> ('o, 'w) refWriter \<Rightarrow> refMgr \<Rightarrow> 'o list \<Rightarrow> 'w
    \<Rightarrow> 'o list \<times> gerr list \<times> refMgr \<times> 'w" where
  "ClaimOwned T C m obs w = claimLoop T C obs ([], [], m, w)"

end
