(* ===== verification/VolumeClaims.thy ===== *)
theory VolumeClaims
  imports RefManager "HOL-Library.Word"
begin

unbundle bit_operations_syntax

text \<open>
  The claims of the volumes of a CollaSet: \<^verbatim>\<open>collaset/utils/pvc.go\<close> and
  \<^verbatim>\<open>collaset/legacy/pvc_control.go\<close> (below \<^verbatim>\<open>pkg/controllers\<close>).  A pod has an instance id; the claims of
  an instance carry the id, the name of their template and the hash of the template in labels.

  Parameters (\<open>venv\<close>): the calls of the client, the expectations of kube-utils (a store of type \<open>'e\<close>),
  \<open>json.Marshal\<close> of a template, \<open>rand.SafeEncodeString\<close>, the parser of selectors and
  \<open>SetControllerReference\<close>, and \<open>ve_order\<close>, the order in which Go visits a map.  The labels of a claim
  that was read are nil when they are empty.  The state is the world and the expectations.
\<close>

record ('w, 'e) venv =
  ve_list :: "'w \<Rightarrow> string \<Rightarrow> string \<Rightarrow> gerr + pvc list"
  ve_create :: "pvc \<Rightarrow> 'w \<Rightarrow> (gerr + pvc) \<times> 'w"
  ve_delete :: "pvc \<Rightarrow> 'w \<Rightarrow> gerr option \<times> 'w"
  ve_update :: "pvc \<Rightarrow> 'w \<Rightarrow> (gerr + pvc) \<times> 'w"
  ve_expCreate :: "string \<Rightarrow> string \<Rightarrow> string \<Rightarrow> 'e \<Rightarrow> gerr option \<times> 'e"
  ve_expDelete :: "string \<Rightarrow> string \<Rightarrow> string \<Rightarrow> 'e \<Rightarrow> gerr option \<times> 'e"
  ve_marshal :: "pvc \<Rightarrow> gerr + string"
  ve_safe :: "string \<Rightarrow> string"
  ve_parse :: "lselector option \<Rightarrow> gerr + (string gomap \<Rightarrow> bool)"
  ve_setRef :: "collaset \<Rightarrow> pvc \<Rightarrow> gerr + pvc"
  ve_order :: "pvc gomap \<Rightarrow> pvc gomap"

subsection \<open>Hashes of templates\<close>

text \<open>FNV-1 of 32 bits.\<close>

fun fnv32 :: "string \<Rightarrow> 32 word \<Rightarrow> 32 word" where
  "fnv32 [] h = h"
| "fnv32 (c # cs) h = fnv32 cs ((h * 16777619) XOR word_of_nat (of_char c))"

definition PvcTmpHash :: "('w, 'e) venv \<Rightarrow> pvc \<Rightarrow> gerr + string" where
  "PvcTmpHash V t =
     (case ve_marshal V t of
        Inl e \<Rightarrow> Inl (Err ''fail to marshal pvc template'')
      | Inr b \<Rightarrow> Inr (ve_safe V (natStr (unat (fnv32 b 2166136261)))))"

fun hashLoop :: "('w, 'e) venv \<Rightarrow> pvc list \<Rightarrow> string gomap \<Rightarrow> gerr + string gomap" where
  "hashLoop V [] m = Inr m"
| "hashLoop V (t # ts) m = rbind (PvcTmpHash V t) (\<lambda>h. hashLoop V ts (mput (v_name t) h m))"

definition PvcTmpHashMapping :: "('w, 'e) venv \<Rightarrow> pvc list \<Rightarrow> gerr + string gomap" where
  "PvcTmpHashMapping V ts = hashLoop V ts []"

subsection \<open>Building a claim and telling its template\<close>

text \<open>The name is generated by the server.  A nil selector is dereferenced.\<close>

definition BuildPvcWithHash :: "api \<Rightarrow> ('w, 'e) venv \<Rightarrow> collaset \<Rightarrow> pvc \<Rightarrow> string \<Rightarrow> gerr + pvc" where
  "BuildPvcWithHash A V c t i =
     (case co_selector c of
        None \<Rightarrow> Inl (Panic ''nil selector'')
      | Some sel \<Rightarrow>
          rbind (PvcTmpHash V t) (\<lambda>h.
            Inr (t\<lparr>v_name := [], v_genName := co_name c @ ''-'' @ v_name t @ ''-'', v_ns := co_ns c,
                   v_owners := v_owners t @ [\<lparr>o_kind = ''CollaSet'', o_api = ''apps.kusionstack.io/v1alpha1'',
                     o_name = co_name c, o_uid = co_uid c, o_ctrl = True\<rparr>],
                   v_labels := mput (tmplL A) (v_name t) (mput (instIdL A) i (mput (tmplHashL A) h
                     (mput (ctrlByL A) ''true'' (mputs (se_labels sel) (v_labels t)))))\<rparr>)))"

text \<open>\<open>strings.LastIndex\<close> of a character.\<close>

definition lastIndexOf :: "char \<Rightarrow> string \<Rightarrow> nat option" where
  "lastIndexOf c s =
     (if c \<notin> set s then None else Some (length s - Suc (length (takeWhile (\<lambda>x. x \<noteq> c) (List.rev s)))))"

definition ExtractPvcTmpName :: "api \<Rightarrow> collaset \<Rightarrow> pvc \<Rightarrow> gerr + string" where
  "ExtractPvcTmpName A c v =
     (case mget (v_labels v) (tmplL A) of
        Some n \<Rightarrow> Inr n
      | None \<Rightarrow>
          (case lastIndexOf (CHR ''-'') (v_name v) of
             None \<Rightarrow> Inl (Err ''pvc has no postfix'')
           | Some i \<Rightarrow>
               if \<not> hasPrefix (take i (v_name v)) (co_name c @ ''-'') then Inl (Err ''malformed pvc name'')
               else Inr (drop (length (co_name c) + 1) (take i (v_name v)))))"

definition PvcPolicyWhenScaled :: "collaset \<Rightarrow> retention" where
  "PvcPolicyWhenScaled c =
     (case co_retention c of
        None \<Rightarrow> DeleteClaim
      | Some (scaled, deleted) \<Rightarrow> if scaled = NoRetention then DeleteClaim else scaled)"

definition PvcPolicyWhenDelete :: "collaset \<Rightarrow> retention" where
  "PvcPolicyWhenDelete c =
     (case co_retention c of
        None \<Rightarrow> DeleteClaim
      | Some (scaled, deleted) \<Rightarrow> if deleted = NoRetention then DeleteClaim else deleted)"

subsection \<open>The claims of a CollaSet and of an instance\<close>

definition GetFilteredPvcs :: "('w, 'e) venv \<Rightarrow> 'w \<Rightarrow> collaset \<Rightarrow> gerr + pvc list" where
  "GetFilteredPvcs V w c =
     rbind (ve_list V w (co_ns c) (co_uid c)) (\<lambda>vs. Inr (filter (\<lambda>v. \<not> v_deleting v) vs))"

text \<open>The current claims by the name of their template, and the old ones.\<close>

definition relevant :: "api \<Rightarrow> string \<Rightarrow> pvc \<Rightarrow> bool" where
  "relevant A i v \<longleftrightarrow> \<not> v_deleting v \<and> mget (v_labels v) (instIdL A) = Some i \<and> mhas (v_labels v) (tmplHashL A)"

fun classifyLoop :: "api \<Rightarrow> collaset \<Rightarrow> string \<Rightarrow> string gomap \<Rightarrow> pvc list \<Rightarrow> pvc gomap \<times> pvc gomap
    \<Rightarrow> gerr + pvc gomap \<times> pvc gomap" where
  "classifyLoop A c i hs [] acc = Inr acc"
| "classifyLoop A c i hs (v # vs) (new, old) =
     (if \<not> relevant A i v then classifyLoop A c i hs vs (new, old)
      else (case ExtractPvcTmpName A c v of
              Inl e \<Rightarrow> Inl e
            | Inr n \<Rightarrow>
                classifyLoop A c i hs vs
                  (if mgetd hs n = mgetd (v_labels v) (tmplHashL A) then (mput n v new, old) else (new, mput n v old))))"

definition classifyPodPvcs :: "api \<Rightarrow> ('w, 'e) venv \<Rightarrow> collaset \<Rightarrow> string \<Rightarrow> pvc list \<Rightarrow> gerr + pvc gomap \<times> pvc gomap" where
  "classifyPodPvcs A V c i vs =
     rbind (PvcTmpHashMapping V (co_vcts c)) (\<lambda>hs. classifyLoop A c i hs vs ([], []))"

subsection \<open>Creating\<close>

fun provisionLoop :: "api \<Rightarrow> ('w, 'e) venv \<Rightarrow> collaset \<Rightarrow> string \<Rightarrow> pvc list \<Rightarrow> pvc gomap \<Rightarrow> 'w \<times> 'e
    \<Rightarrow> (gerr + pvc gomap) \<times> 'w \<times> 'e" where
  "provisionLoop A V c i [] upd s = (Inr upd, s)"
| "provisionLoop A V c i (t # ts) upd (w, ex) =
     (if mhas upd (v_name t) then provisionLoop A V c i ts upd (w, ex)
      else (case BuildPvcWithHash A V c t i of
              Inl e \<Rightarrow> (Inl e, (w, ex))
            | Inr claim \<Rightarrow>
                (case ve_create V claim w of
                   (Inl e, w1) \<Rightarrow> (Inl (Err ''fail to create pvc''), (w1, ex))
                 | (Inr claim1, w1) \<Rightarrow>
                     (case ve_expCreate V (clsKey c) (v_ns claim1) (v_name claim1) ex of
                        (Some e, ex1) \<Rightarrow> (Inl e, (w1, ex1))
                      | (None, ex1) \<Rightarrow> provisionLoop A V c i ts (mput (v_name t) claim1 upd) (w1, ex1)))))"

definition provisionUpdatedPvc :: "api \<Rightarrow> ('w, 'e) venv \<Rightarrow> collaset \<Rightarrow> string \<Rightarrow> pvc list \<Rightarrow> 'w \<times> 'e
    \<Rightarrow> (gerr + pvc gomap) \<times> 'w \<times> 'e" where
  "provisionUpdatedPvc A V c i vs s =
     (case classifyPodPvcs A V c i vs of
        Inl e \<Rightarrow> (Inl e, s)
      | Inr (new, _) \<Rightarrow> provisionLoop A V c i (co_vcts c) new s)"

definition CreatePodPvcs :: "api \<Rightarrow> ('w, 'e) venv \<Rightarrow> collaset \<Rightarrow> pod \<Rightarrow> pvc list \<Rightarrow> 'w \<times> 'e \<Rightarrow> (gerr + pod) \<times> 'w \<times> 'e" where
  "CreatePodPvcs A V c p vs s =
     (case mget (p_labels p) (instIdL A) of
        None \<Rightarrow> (Inr p, s)
      | Some i \<Rightarrow>
          (case provisionUpdatedPvc A V c i vs s of
             (Inl e, s1) \<Rightarrow> (Inl e, s1)
           | (Inr m, s1) \<Rightarrow>
               (Inr (p\<lparr>p_volumes := map (\<lambda>(n, v). (n, Claim (v_name v))) (ve_order V m)
                      @ filter (\<lambda>(n, _). \<not> mhas m n) (p_volumes p)\<rparr>), s1)))"

subsection \<open>Deleting\<close>

definition deletePvc :: "('w, 'e) venv \<Rightarrow> collaset \<Rightarrow> pvc \<Rightarrow> 'w \<times> 'e \<Rightarrow> gerr option \<times> 'w \<times> 'e" where
  "deletePvc V c v s =
     (let (w, ex) = s in
      case ve_delete V v w of
        (Some e, w1) \<Rightarrow> (Some e, (w1, ex))
      | (None, w1) \<Rightarrow>
          (case ve_expDelete V (clsKey c) (v_ns v) (v_name v) ex of (r, ex1) \<Rightarrow> (r, (w1, ex1))))"

text \<open>Claims for which the loop does not \<open>continue\<close>.\<close>

fun deleteEach :: "('w, 'e) venv \<Rightarrow> collaset \<Rightarrow> (pvc \<Rightarrow> bool) \<Rightarrow> pvc list \<Rightarrow> 'w \<times> 'e \<Rightarrow> gerr option \<times> 'w \<times> 'e" where
  "deleteEach V c P [] s = (None, s)"
| "deleteEach V c P (v # vs) s =
     (if \<not> P v then deleteEach V c P vs s
      else (case deletePvc V c v s of
              (Some e, s1) \<Rightarrow> (Some e, s1)
            | (None, s1) \<Rightarrow> deleteEach V c P vs s1))"

definition DeletePodPvcs :: "api \<Rightarrow> ('w, 'e) venv \<Rightarrow> collaset \<Rightarrow> pod \<Rightarrow> pvc list \<Rightarrow> 'w \<times> 'e \<Rightarrow> gerr option \<times> 'w \<times> 'e" where
  "DeletePodPvcs A V c p vs s =
     deleteEach V c (\<lambda>v. v_labels v \<noteq> [] \<and> p_labels p \<noteq> []
       \<and> mgetd (v_labels v) (instIdL A) = mgetd (p_labels p) (instIdL A)) vs s"

text \<open>The loops over the old claims; entries are a template's name and a claim.\<close>

fun deleteOld :: "('w, 'e) venv \<Rightarrow> collaset \<Rightarrow> (string \<Rightarrow> bool) \<Rightarrow> pvc gomap \<Rightarrow> 'w \<times> 'e \<Rightarrow> gerr option \<times> 'w \<times> 'e" where
  "deleteOld V c P [] s = (None, s)"
| "deleteOld V c P ((n, v) # m) s =
     (if \<not> P n then deleteOld V c P m s
      else (case deletePvc V c v s of
              (Some e, s1) \<Rightarrow> (Some e, s1)
            | (None, s1) \<Rightarrow> deleteOld V c P m s1))"

definition deleteUnclaimedPvcs :: "('w, 'e) venv \<Rightarrow> collaset \<Rightarrow> pvc gomap \<Rightarrow> sset \<Rightarrow> 'w \<times> 'e \<Rightarrow> gerr option \<times> 'w \<times> 'e" where
  "deleteUnclaimedPvcs V c old mounted s =
     deleteOld V c (\<lambda>n. n \<notin> set mounted \<and> n \<notin> set (sinserts (map v_name (co_vcts c)) [])) (ve_order V old) s"

definition deleteOldPvcs :: "('w, 'e) venv \<Rightarrow> collaset \<Rightarrow> pvc gomap \<Rightarrow> pvc gomap \<Rightarrow> 'w \<times> 'e \<Rightarrow> gerr option \<times> 'w \<times> 'e" where
  "deleteOldPvcs V c new old s = deleteOld V c (mhas new) (ve_order V old) s"

definition mountedNames :: "pod \<Rightarrow> sset" where
  "mountedNames p = sinserts (concat (map (map fst \<circ> k_mounts) (p_containers p))) []"

definition DeletePodUnusedPvcs :: "api \<Rightarrow> ('w, 'e) venv \<Rightarrow> collaset \<Rightarrow> pod \<Rightarrow> pvc list \<Rightarrow> 'w \<times> 'e \<Rightarrow> gerr option \<times> 'w \<times> 'e" where
  "DeletePodUnusedPvcs A V c p vs s =
     (case mget (p_labels p) (instIdL A) of
        None \<Rightarrow> (None, s)
      | Some i \<Rightarrow>
          (case classifyPodPvcs A V c i vs of
             Inl e \<Rightarrow> (Some e, s)
           | Inr (new, old) \<Rightarrow>
               (case deleteUnclaimedPvcs V c old (mountedNames p) s of
                  (Some e, s1) \<Rightarrow> (Some e, s1)
                | (None, s1) \<Rightarrow>
                    if PvcPolicyWhenScaled c = DeleteClaim then deleteOldPvcs V c new old s1 else (None, s1))))"

subsection \<open>Has the template of a pod's claims changed\<close>

fun existingHash :: "api \<Rightarrow> pod \<Rightarrow> pvc list \<Rightarrow> string gomap \<Rightarrow> string gomap" where
  "existingHash A p [] m = m"
| "existingHash A p (v # vs) m =
     existingHash A p vs
       (if v_labels v \<noteq> [] \<and> p_labels p \<noteq> [] \<and> mgetd (p_labels p) (instIdL A) = mgetd (v_labels v) (instIdL A)
           \<and> mhas (v_labels v) (tmplHashL A)
        then mput (v_name v) (mgetd (v_labels v) (tmplHashL A)) m else m)"

fun changedIn :: "string gomap \<Rightarrow> string gomap \<Rightarrow> (string \<times> vsource) list \<Rightarrow> bool" where
  "changedIn new ex [] = False"
| "changedIn new ex ((n, src) # vols) =
     (case src of
        OtherSource _ \<Rightarrow> changedIn new ex vols
      | Claim v \<Rightarrow> if v = [] then changedIn new ex vols else mgetd new n \<noteq> mgetd ex v \<or> changedIn new ex vols)"

definition IsPodPvcTmpChanged :: "api \<Rightarrow> ('w, 'e) venv \<Rightarrow> collaset \<Rightarrow> pod \<Rightarrow> pvc list \<Rightarrow> gerr + bool" where
  "IsPodPvcTmpChanged A V c p vs =
     rbind (PvcTmpHashMapping V (co_vcts c)) (\<lambda>hs. Inr (changedIn hs (existingHash A p vs []) (p_volumes p)))"

subsection \<open>Orphans\<close>

definition pvcAcc :: "pvc objAcc" where
  "pvcAcc = \<lparr>oa_labels = v_labels, oa_owners = v_owners, oa_setOwners = (\<lambda>os v. v\<lparr>v_owners := os\<rparr>), oa_deleting = v_deleting\<rparr>"

definition pvcWriter :: "('w, 'e) venv \<Rightarrow> collaset \<Rightarrow> (pvc, 'w) refWriter" where
  "pvcWriter V c = \<lparr>rw_update = ve_update V, rw_setRef = ve_setRef V c\<rparr>"

definition clsManager :: "('w, 'e) venv \<Rightarrow> collaset \<Rightarrow> gerr + refMgr" where
  "clsManager V c = NewRefManager (ve_parse V) (co_selector c) \<lparr>fo_uid = co_uid c, fo_deleting = co_deleting c\<rparr> True"

definition OrphanPvc :: "('w, 'e) venv \<Rightarrow> collaset \<Rightarrow> pvc \<Rightarrow> 'w \<Rightarrow> gerr option \<times> pvc \<times> 'w" where
  "OrphanPvc V c v w =
     (case co_selector c of
        None \<Rightarrow> (Some (Panic ''nil selector''), v, w)
      | Some sel \<Rightarrow>
          if se_labels sel = [] then (None, v, w)
          else (case clsManager V c of
                  Inl e \<Rightarrow> (Some (Err ''fail to create ref manager''), v, w)
                | Inr m \<Rightarrow> Release pvcAcc (pvcWriter V c) m v w))"

definition AdoptPvc :: "('w, 'e) venv \<Rightarrow> collaset \<Rightarrow> pvc \<Rightarrow> 'w \<Rightarrow> gerr list \<times> 'w" where
  "AdoptPvc V c v w =
     (case co_selector c of
        None \<Rightarrow> ([Panic ''nil selector''], w)
      | Some sel \<Rightarrow>
          if se_labels sel = [] then ([], w)
          else (case clsManager V c of
                  Inl e \<Rightarrow> ([Err ''fail to create ref manager''], w)
                | Inr m \<Rightarrow> (case ClaimOwned pvcAcc (pvcWriter V c) m [v] w of (cl, es, m1, w1) \<Rightarrow> (es, w1))))"

end
