(* ===== verification/VolumeClaimsProps.thy ===== *)
theory VolumeClaimsProps
  imports VolumeClaims
begin

text \<open>
  What the control of claims promises: every template gets a claim of the pod's instance with the
  current hash, and only one; a pod that has just got its claims counts as unchanged; and which
  claims can be deleted.  The locale \<open>claim_server\<close> is what the control relies on of the API server.
\<close>

definition pvcKey :: "pvc \<Rightarrow> string" where
  "pvcKey v = v_ns v @ ''/'' @ v_name v"

definition ownedBy :: "string \<Rightarrow> pvc \<Rightarrow> bool" where
  "ownedBy uid v \<longleftrightarrow> (\<exists>ow \<in> set (v_owners v). o_uid ow = uid)"

text \<open>A claim of the instance \<open>i\<close> with the current hash of the template \<open>n\<close>.\<close>

definition currentClaim :: "api \<Rightarrow> collaset \<Rightarrow> string gomap \<Rightarrow> string \<Rightarrow> string \<Rightarrow> pvc \<Rightarrow> bool" where
  "currentClaim A c hs i n v \<longleftrightarrow> relevant A i v \<and> ExtractPvcTmpName A c v = Inr n
     \<and> mgetd hs n = mgetd (v_labels v) (tmplHashL A)"

definition oldClaim :: "api \<Rightarrow> collaset \<Rightarrow> string gomap \<Rightarrow> string \<Rightarrow> string \<Rightarrow> pvc \<Rightarrow> bool" where
  "oldClaim A c hs i n v \<longleftrightarrow> relevant A i v \<and> ExtractPvcTmpName A c v = Inr n
     \<and> mgetd hs n \<noteq> mgetd (v_labels v) (tmplHashL A)"

subsection \<open>Label names\<close>

lemma claim_labels [label_simps]:
  assumes "api_ok A"
  shows "instIdL A \<noteq> tmplHashL A" "instIdL A \<noteq> tmplL A" "tmplHashL A \<noteq> tmplL A"
    "tmplHashL A \<noteq> instIdL A" "tmplL A \<noteq> instIdL A" "tmplL A \<noteq> tmplHashL A"
  using api_plain_distinct [OF assms] by (auto simp: plainLabels_def)

subsection \<open>Hashes and classes\<close>

lemma PvcTmpHashMapping_mget:
  assumes "PvcTmpHashMapping V ts = Inr hs" and "distinct (map v_name ts)" and "t \<in> set ts"
  shows "\<exists>h. PvcTmpHash V t = Inr h \<and> mget hs (v_name t) = Some h"
proof -
  have "hashLoop V ts m = Inr hs \<Longrightarrow> \<exists>h. PvcTmpHash V t = Inr h \<and> mget hs (v_name t) = Some h" for m
    using assms(2,3)
  proof (induction ts arbitrary: m)
    case (Cons u us)
    then obtain h where h: "PvcTmpHash V u = Inr h" "hashLoop V us (mput (v_name u) h m) = Inr hs"
      by (auto simp: rbind_Inr_iff)
    show ?case
    proof (cases "t = u")
      case True
      have "k \<notin> v_name ` set us \<Longrightarrow> hashLoop V us m' = Inr hs \<Longrightarrow> mget hs k = mget m' k" for k m'
        by (induction us arbitrary: m') (auto simp: rbind_Inr_iff)
      with h Cons.prems True show ?thesis by auto
    next
      case False
      with Cons.prems(2,3) Cons.IH [OF h(2)] show ?thesis by simp
    qed
  qed simp
  then show ?thesis using assms(1) by (simp add: PvcTmpHashMapping_def)
qed

text \<open>One step of the loop: the claim goes into one of the maps, or into none.\<close>

lemma classify_step:
  assumes "classifyLoop A c i hs (v # vs) (new0, old0) = Inr r"
  obtains new1 old1 where "classifyLoop A c i hs vs (new1, old1) = Inr r"
    "\<And>n u. mget new1 n = Some u \<Longrightarrow> mget new0 n = Some u \<or> u = v \<and> currentClaim A c hs i n v"
    "\<And>n u. mget old1 n = Some u \<Longrightarrow> mget old0 n = Some u \<or> u = v \<and> oldClaim A c hs i n v"
    "\<And>n. mhas new1 n \<longleftrightarrow> mhas new0 n \<or> currentClaim A c hs i n v"
    "mwf new0 \<Longrightarrow> mwf new1" "mwf old0 \<Longrightarrow> mwf old1"
proof (cases "relevant A i v")
  case False
  with assms have "classifyLoop A c i hs vs (new0, old0) = Inr r" by simp
  then show thesis by (rule that) (use False in \<open>auto simp: currentClaim_def\<close>)
next
  case True
  with assms obtain n where n: "ExtractPvcTmpName A c v = Inr n" by (auto split: sum.splits)
  show thesis
  proof (cases "mgetd hs n = mgetd (v_labels v) (tmplHashL A)")
    case cur: True
    with assms True n have "classifyLoop A c i hs vs (mput n v new0, old0) = Inr r" by simp
    then show thesis by (rule that) (use True n cur in \<open>auto simp: currentClaim_def split: if_splits\<close>)
  next
    case old: False
    with assms True n have "classifyLoop A c i hs vs (new0, mput n v old0) = Inr r" by simp
    then show thesis by (rule that) (use True n old in \<open>auto simp: currentClaim_def oldClaim_def split: if_splits\<close>)
  qed
qed

lemma classifyLoop_new:
  "classifyLoop A c i hs vs (new0, old0) = Inr (new, old) \<Longrightarrow> mget new n = Some u
   \<Longrightarrow> mget new0 n = Some u \<or> u \<in> set vs \<and> currentClaim A c hs i n u"
proof (induction vs arbitrary: new0 old0)
  case (Cons v vs)
  from Cons.prems(1) show ?case
    by (rule classify_step) (use Cons.IH Cons.prems(2) in \<open>fastforce\<close>)
qed simp

lemma classifyLoop_old:
  "classifyLoop A c i hs vs (new0, old0) = Inr (new, old) \<Longrightarrow> mget old n = Some u
   \<Longrightarrow> mget old0 n = Some u \<or> u \<in> set vs \<and> oldClaim A c hs i n u"
proof (induction vs arbitrary: new0 old0)
  case (Cons v vs)
  from Cons.prems(1) show ?case
    by (rule classify_step) (use Cons.IH Cons.prems(2) in \<open>fastforce\<close>)
qed simp

lemma classifyLoop_has:
  "classifyLoop A c i hs vs (new0, old0) = Inr (new, old) \<Longrightarrow>
     (mhas new n \<longleftrightarrow> mhas new0 n \<or> (\<exists>v \<in> set vs. currentClaim A c hs i n v)) \<and> (mwf new0 \<longrightarrow> mwf new) \<and> (mwf old0 \<longrightarrow> mwf old)"
proof (induction vs arbitrary: new0 old0)
  case (Cons v vs)
  from Cons.prems show ?case
    by (rule classify_step) (use Cons.IH in auto)
qed simp

lemma classifyPodPvcs_spec:
  assumes "classifyPodPvcs A V c i vs = Inr (new, old)"
  obtains hs where "PvcTmpHashMapping V (co_vcts c) = Inr hs"
    "\<And>n v. mget new n = Some v \<Longrightarrow> v \<in> set vs \<and> currentClaim A c hs i n v"
    "\<And>n v. mget old n = Some v \<Longrightarrow> v \<in> set vs \<and> oldClaim A c hs i n v"
    "\<And>n. mhas new n \<longleftrightarrow> (\<exists>v \<in> set vs. currentClaim A c hs i n v)" "mwf new" "mwf old"
proof -
  from assms obtain hs where hs: "PvcTmpHashMapping V (co_vcts c) = Inr hs" "classifyLoop A c i hs vs ([], []) = Inr (new, old)"
    by (auto simp: classifyPodPvcs_def rbind_Inr_iff)
  show ?thesis
    by (rule that [OF hs(1)]) (use classifyLoop_new [OF hs(2)] classifyLoop_old [OF hs(2)] classifyLoop_has [OF hs(2)] in auto)
qed

lemma BuildPvcWithHash_labels:
  assumes "api_ok A" and "BuildPvcWithHash A V c t i = Inr v"
  shows "PvcTmpHash V t = Inr (mgetd (v_labels v) (tmplHashL A))" "mget (v_labels v) (instIdL A) = Some i"
    "mget (v_labels v) (tmplL A) = Some (v_name t)" "mhas (v_labels v) (tmplHashL A)"
    "v_ns v = co_ns c" "ownedBy (co_uid c) v" "v_deleting v = v_deleting t"
  using assms(2) claim_labels [OF assms(1)]
  by (auto simp: BuildPvcWithHash_def rbind_Inr_iff ownedBy_def mgetd_def mhas_def split: option.splits)

text \<open>A claim that is built for an instance is classified as a current one of its template.\<close>

lemma built_is_current:
  assumes "api_ok A" and "PvcTmpHashMapping V (co_vcts c) = Inr hs" and "distinct (map v_name (co_vcts c))"
    and "t \<in> set (co_vcts c)" and "\<not> v_deleting t" and "BuildPvcWithHash A V c t i = Inr v"
  shows "currentClaim A c hs i (v_name t) (v\<lparr>v_name := n, v_rv := rv\<rparr>)"
  using BuildPvcWithHash_labels [OF assms(1,6)] PvcTmpHashMapping_mget [OF assms(2-4)] assms(5)
  by (auto simp: currentClaim_def relevant_def ExtractPvcTmpName_def mgetd_def)

subsection \<open>What the control relies on of the server\<close>

text \<open>A claim that is created gets a fresh name; a claim that is deleted is gone, or marked while it has finalizers.\<close>

definition gone :: "pvc option \<Rightarrow> bool" where
  "gone x \<longleftrightarrow> (case x of None \<Rightarrow> True | Some v \<Rightarrow> v_deleting v)"

locale claim_server =
  fixes V :: "('w, 'e) venv" and claims :: "'w \<Rightarrow> string \<Rightarrow> pvc option"
  assumes list_ok: "ve_list V w ns uid = Inr vs \<Longrightarrow> v \<in> set vs \<longleftrightarrow> claims w (pvcKey v) = Some v \<and> v_ns v = ns \<and> ownedBy uid v"
    and create_ok: "ve_create V v w = (Inr v', w') \<Longrightarrow> (\<exists>n rv. v' = v\<lparr>v_name := n, v_rv := rv\<rparr>)
      \<and> claims w (pvcKey v') = None \<and> claims w' = (claims w)(pvcKey v' \<mapsto> v')"
    and create_err: "ve_create V v w = (Inl e, w') \<Longrightarrow> claims w' = claims w"
    and delete_ok: "ve_delete V v w = (None, w') \<Longrightarrow> gone (claims w' (pvcKey v)) \<and> (\<forall>k. k \<noteq> pvcKey v \<longrightarrow> claims w' k = claims w k)"
    and delete_err: "ve_delete V v w = (Some e, w') \<Longrightarrow> claims w' = claims w"
    and order_ok: "set (ve_order V m) = set m"
begin

lemma provisionLoop_spec:
  assumes api: "api_ok A" and hs: "PvcTmpHashMapping V (co_vcts c) = Inr hs" "distinct (map v_name (co_vcts c))"
    and del: "\<forall>t \<in> set (co_vcts c). \<not> v_deleting t"
  shows "provisionLoop A V c i ts upd (w, ex) = (Inr m, (w', ex')) \<Longrightarrow> set ts \<subseteq> set (co_vcts c) \<Longrightarrow>
     (\<forall>n v. mget m n = Some v \<longrightarrow> mget upd n = Some v \<or> claims w' (pvcKey v) = Some v \<and> v_ns v = co_ns c
         \<and> ownedBy (co_uid c) v \<and> currentClaim A c hs i n v)
   \<and> (\<forall>n. mhas m n \<longleftrightarrow> mhas upd n \<or> n \<in> v_name ` set ts)
   \<and> (\<forall>k v. claims w k = Some v \<longrightarrow> claims w' k = Some v)
   \<and> (\<forall>k v. claims w k = None \<longrightarrow> claims w' k = Some v \<longrightarrow> (\<exists>t \<in> set ts. \<not> mhas upd (v_name t) \<and> currentClaim A c hs i (v_name t) v))
   \<and> (mwf upd \<longrightarrow> mwf m)"
proof (induction ts arbitrary: upd w ex)
  case (Cons t ts)
  show ?case
  proof (cases "mhas upd (v_name t)")
    case True
    with Cons.prems have "provisionLoop A V c i ts upd (w, ex) = (Inr m, (w', ex'))" "set ts \<subseteq> set (co_vcts c)" by simp_all
    note IH = Cons.IH [OF this]
    have 2: "mhas m n \<longleftrightarrow> mhas upd n \<or> n \<in> v_name ` set (t # ts)" for n using IH True by auto
    have 4: "\<exists>u \<in> set (t # ts). \<not> mhas upd (v_name u) \<and> currentClaim A c hs i (v_name u) v"
      if "claims w k = None" "claims w' k = Some v" for k v
    proof -
      from IH that obtain u where "u \<in> set ts" "\<not> mhas upd (v_name u)" "currentClaim A c hs i (v_name u) v" by blast
      then show ?thesis by auto
    qed
    from 2 4 IH show ?thesis by blast
  next
    case False
    with Cons.prems obtain claim claim1 w1 ex1 where
      b: "BuildPvcWithHash A V c t i = Inr claim" and cr: "ve_create V claim w = (Inr claim1, w1)"
      and l: "provisionLoop A V c i ts (mput (v_name t) claim1 upd) (w1, ex1) = (Inr m, (w', ex'))"
      by (auto split: sum.splits prod.splits option.splits)
    have ts: "set ts \<subseteq> set (co_vcts c)" "t \<in> set (co_vcts c)" using Cons.prems(2) by auto
    from create_ok [OF cr] obtain n rv where c1: "claim1 = claim\<lparr>v_name := n, v_rv := rv\<rparr>"
      and fresh: "claims w (pvcKey claim1) = None" and w1: "claims w1 = (claims w)(pvcKey claim1 \<mapsto> claim1)" by blast
    have cur: "currentClaim A c hs i (v_name t) claim1"
      unfolding c1 using built_is_current [OF api hs ts(2) _ b] del ts(2) by blast
    have own: "v_ns claim1 = co_ns c" "ownedBy (co_uid c) claim1"
      using BuildPvcWithHash_labels(5,6) [OF api b] by (simp_all add: c1 ownedBy_def)
    note IH = Cons.IH [OF l ts(1)]
    from IH have keep: "claims w1 k = Some v \<Longrightarrow> claims w' k = Some v" for k v by blast
    from keep have c1': "claims w' (pvcKey claim1) = Some claim1" by (simp add: w1)
    have 1: "mget upd k = Some v \<or> claims w' (pvcKey v) = Some v \<and> v_ns v = co_ns c
         \<and> ownedBy (co_uid c) v \<and> currentClaim A c hs i k v" if "mget m k = Some v" for k v
    proof -
      from IH that have "mget (mput (v_name t) claim1 upd) k = Some v \<or> claims w' (pvcKey v) = Some v \<and> v_ns v = co_ns c
         \<and> ownedBy (co_uid c) v \<and> currentClaim A c hs i k v" by blast
      then show ?thesis using cur own c1' by (auto split: if_splits)
    qed
    have 3: "claims w' k = Some v" if "claims w k = Some v" for k v
    proof -
      have "k \<noteq> pvcKey claim1" using that fresh by auto
      with that have "claims w1 k = Some v" by (simp add: w1)
      then show ?thesis by (rule keep)
    qed
    have 4: "\<exists>u \<in> set (t # ts). \<not> mhas upd (v_name u) \<and> currentClaim A c hs i (v_name u) v"
      if "claims w k = None" "claims w' k = Some v" for k v
    proof (cases "k = pvcKey claim1")
      case True
      with that(2) c1' cur False show ?thesis by auto
    next
      case k: False
      with that(1) have "claims w1 k = None" by (simp add: w1)
      with IH that(2) obtain u where "u \<in> set ts" "\<not> mhas (mput (v_name t) claim1 upd) (v_name u)" "currentClaim A c hs i (v_name u) v" by blast
      then show ?thesis by auto
    qed
    have 2: "mhas m k \<longleftrightarrow> mhas upd k \<or> k \<in> v_name ` set (t # ts)" for k using IH by auto
    have "mwf upd \<longrightarrow> mwf m" using IH by auto
    with 1 2 3 4 show ?thesis by blast
  qed
qed simp

lemma create_spec:
  assumes "api_ok A" and "distinct (map v_name (co_vcts c))" and "\<forall>t \<in> set (co_vcts c). \<not> v_deleting t"
    and "mget (p_labels p) (instIdL A) = Some i" and "GetFilteredPvcs V w c = Inr vs"
    and "CreatePodPvcs A V c p vs (w, ex) = (Inr p', (w', ex'))"
  obtains hs m where "PvcTmpHashMapping V (co_vcts c) = Inr hs" "mwf m"
    "p' = p\<lparr>p_volumes := map (\<lambda>(n, v). (n, Claim (v_name v))) (ve_order V m) @ filter (\<lambda>(n, _). \<not> mhas m n) (p_volumes p)\<rparr>"
    "\<And>n v. mget m n = Some v \<Longrightarrow> claims w' (pvcKey v) = Some v \<and> v_ns v = co_ns c \<and> ownedBy (co_uid c) v \<and> currentClaim A c hs i n v"
    "\<And>t. t \<in> set (co_vcts c) \<Longrightarrow> mhas m (v_name t)"
    "\<And>k v. claims w k = Some v \<Longrightarrow> claims w' k = Some v"
    "\<And>k v. claims w k = None \<Longrightarrow> claims w' k = Some v \<Longrightarrow> \<exists>t \<in> set (co_vcts c). currentClaim A c hs i (v_name t) v
       \<and> (\<forall>u \<in> set vs. \<not> currentClaim A c hs i (v_name t) u)"
proof -
  from assms(4,6) obtain m where pr: "provisionUpdatedPvc A V c i vs (w, ex) = (Inr m, (w', ex'))"
    and p': "p' = p\<lparr>p_volumes := map (\<lambda>(n, v). (n, Claim (v_name v))) (ve_order V m) @ filter (\<lambda>(n, _). \<not> mhas m n) (p_volumes p)\<rparr>"
    by (auto simp: CreatePodPvcs_def split: sum.splits prod.splits)
  from pr obtain new old where cl: "classifyPodPvcs A V c i vs = Inr (new, old)"
    and lp: "provisionLoop A V c i (co_vcts c) new (w, ex) = (Inr m, (w', ex'))"
    by (auto simp: provisionUpdatedPvc_def split: sum.splits prod.splits)
  from cl obtain hs where hs: "PvcTmpHashMapping V (co_vcts c) = Inr hs"
    and new: "\<And>n v. mget new n = Some v \<Longrightarrow> v \<in> set vs \<and> currentClaim A c hs i n v"
    and has: "\<And>n. mhas new n \<longleftrightarrow> (\<exists>v \<in> set vs. currentClaim A c hs i n v)" and wf: "mwf new"
    by (rule classifyPodPvcs_spec) blast
  note L = provisionLoop_spec [OF assms(1) hs assms(2,3) lp subset_refl]
  from assms(5) obtain us where us: "ve_list V w (co_ns c) (co_uid c) = Inr us" "set vs \<subseteq> set us"
    by (auto simp: GetFilteredPvcs_def rbind_Inr_iff)
  have vs: "claims w (pvcKey v) = Some v \<and> v_ns v = co_ns c \<and> ownedBy (co_uid c) v" if "v \<in> set vs" for v
    using that us(2) list_ok [OF us(1)] by blast
  show thesis
  proof (rule that [OF hs _ p'])
    show "mwf m" using L wf by blast
    show "claims w' (pvcKey v) = Some v \<and> v_ns v = co_ns c \<and> ownedBy (co_uid c) v \<and> currentClaim A c hs i n v"
      if "mget m n = Some v" for n v
      using L that new vs by blast
    show "mhas m (v_name t)" if "t \<in> set (co_vcts c)" for t using L that by blast
    show "claims w' k = Some v" if "claims w k = Some v" for k v using L that by blast
    show "\<exists>t \<in> set (co_vcts c). currentClaim A c hs i (v_name t) v \<and> (\<forall>u \<in> set vs. \<not> currentClaim A c hs i (v_name t) u)"
      if "claims w k = None" "claims w' k = Some v" for k v
      using L that has by blast
  qed
qed

text \<open>Deleting: only what the test admits, and all of it when there is no error.\<close>

lemma deletePvc_effect:
  assumes "deletePvc V c v (w, ex) = (r, (w', ex'))"
  shows "(\<forall>k. k \<noteq> pvcKey v \<longrightarrow> claims w' k = claims w k) \<and> (r = None \<longrightarrow> gone (claims w' (pvcKey v)))
    \<and> (claims w' (pvcKey v) = claims w (pvcKey v) \<or> gone (claims w' (pvcKey v)))"
proof -
  obtain x w1 where x: "ve_delete V v w = (x, w1)" by fastforce
  show ?thesis
  proof (cases x)
    case None
    with x assms have "w' = w1" by (auto simp: deletePvc_def Let_def split: prod.splits)
    with delete_ok [of v w w1] x None show ?thesis by blast
  next
    case (Some e)
    with x assms have "w' = w1" "r = Some e" by (auto simp: deletePvc_def Let_def)
    with delete_err [of v w e w1] x Some show ?thesis by simp
  qed
qed

lemma deleteEach_effect:
  "deleteEach V c P vs (w, ex) = (r, (w', ex')) \<Longrightarrow>
     (\<forall>k. claims w' k \<noteq> claims w k \<longrightarrow> (\<exists>v \<in> set vs. P v \<and> pvcKey v = k))
   \<and> (\<forall>k. gone (claims w k) \<longrightarrow> gone (claims w' k)) \<and> (r = None \<longrightarrow> (\<forall>v \<in> set vs. P v \<longrightarrow> gone (claims w' (pvcKey v))))"
proof (induction vs arbitrary: w ex)
  case (Cons v vs)
  show ?case
  proof (cases "P v")
    case False
    with Cons show ?thesis by auto
  next
    case True
    obtain x w1 ex1 where d: "deletePvc V c v (w, ex) = (x, (w1, ex1))" by (metis surj_pair)
    note D = deletePvc_effect [OF d]
    have g: "gone (claims w1 k)" if "gone (claims w k)" for k using D that by (cases "k = pvcKey v") auto
    show ?thesis
    proof (cases x)
      case (Some e)
      with True Cons.prems d have "w' = w1" "r = Some e" by auto
      with D g True show ?thesis by auto
    next
      case None
      with True Cons.prems d have "deleteEach V c P vs (w1, ex1) = (r, (w', ex'))" by simp
      note IH = Cons.IH [OF this]
      have "\<exists>u \<in> set (v # vs). P u \<and> pvcKey u = k" if "claims w' k \<noteq> claims w k" for k
      proof (cases "claims w' k = claims w1 k")
        case True
        with that D have "k = pvcKey v" by metis
        then show ?thesis using \<open>P v\<close> by simp
      next
        case False
        with IH show ?thesis by auto
      qed
      moreover have "gone (claims w1 (pvcKey v))" using D None by simp
      ultimately show ?thesis using IH g by simp
    qed
  qed
qed simp

lemma deleteOld_each: "deleteOld V c P m s = deleteEach V c (\<lambda>v. True) (map snd (filter (\<lambda>(n, v). P n) m)) s"
  by (induction m arbitrary: s) (auto split: prod.splits option.splits)

lemma deleteOld_effect:
  assumes "deleteOld V c P (ve_order V old) (w, ex) = (r, (w', ex'))" and "claims w' k \<noteq> claims w k"
  shows "\<exists>n v. (n, v) \<in> set old \<and> P n \<and> pvcKey v = k"
  using deleteEach_effect [OF assms(1) [unfolded deleteOld_each]] assms(2) order_ok [of old] by auto

lemma unused_effect:
  assumes "DeletePodUnusedPvcs A V c p vs (w, ex) = (r, (w', ex'))" and k: "claims w' k \<noteq> claims w k"
  obtains i hs n v where "mget (p_labels p) (instIdL A) = Some i" "PvcTmpHashMapping V (co_vcts c) = Inr hs"
    "v \<in> set vs" "pvcKey v = k" "oldClaim A c hs i n v"
    "n \<notin> set (mountedNames p) \<and> n \<notin> v_name ` set (co_vcts c)
     \<or> PvcPolicyWhenScaled c = DeleteClaim \<and> (\<exists>u \<in> set vs. currentClaim A c hs i n u)"
proof -
  from assms obtain i where i: "mget (p_labels p) (instIdL A) = Some i"
    by (auto simp: DeletePodUnusedPvcs_def split: option.splits)
  with assms obtain new old where cl: "classifyPodPvcs A V c i vs = Inr (new, old)"
    by (auto simp: DeletePodUnusedPvcs_def split: sum.splits)
  obtain x w1 ex1 where d: "deleteUnclaimedPvcs V c old (mountedNames p) (w, ex) = (x, (w1, ex1))" by (metis surj_pair)
  from cl obtain hs where hs: "PvcTmpHashMapping V (co_vcts c) = Inr hs"
    and old: "\<And>n v. mget old n = Some v \<Longrightarrow> v \<in> set vs \<and> oldClaim A c hs i n v"
    and has: "\<And>n. mhas new n \<longleftrightarrow> (\<exists>v \<in> set vs. currentClaim A c hs i n v)" and wf: "mwf old"
    by (rule classifyPodPvcs_spec) blast
  have mem: "v \<in> set vs \<and> oldClaim A c hs i n v" if "(n, v) \<in> set old" for n v
    using old wf that by (simp add: mwf_in_iff)
  show thesis
  proof (cases "claims w1 k = claims w k")
    case False
    from deleteOld_effect [OF d [unfolded deleteUnclaimedPvcs_def] False] obtain n v where
      "(n, v) \<in> set old" "n \<notin> set (mountedNames p) \<and> n \<notin> v_name ` set (co_vcts c)" "pvcKey v = k" by auto
    with mem that [OF i hs] show thesis by blast
  next
    case True
    with assms(2) have ne: "claims w' k \<noteq> claims w1 k" by simp
    have pol: "PvcPolicyWhenScaled c = DeleteClaim" and dd: "deleteOldPvcs V c new old (w1, ex1) = (r, (w', ex'))"
      using assms(1) i cl d ne by (auto simp: DeletePodUnusedPvcs_def split: option.splits if_splits)
    from deleteOld_effect [OF dd [unfolded deleteOldPvcs_def] ne] obtain n v where
      "(n, v) \<in> set old" "mhas new n" "pvcKey v = k" by auto
    with mem has pol that [OF i hs] show thesis by blast
  qed
qed

end

text \<open>The hash of a claim that a list of claims with distinct names holds.\<close>

lemma existingHash_other: "\<forall>u \<in> set vs. v_name u \<noteq> n \<Longrightarrow> mget (existingHash A p vs m) n = mget m n"
  by (induction vs arbitrary: m) auto

lemma existingHash_mget:
  assumes "v \<in> set vs" and "\<forall>u \<in> set vs. v_name u = v_name v \<longrightarrow> u = v" and "relevant A i v"
    and "mget (p_labels p) (instIdL A) = Some i"
  shows "mgetd (existingHash A p vs m) (v_name v) = mgetd (v_labels v) (tmplHashL A)"
  using assms(1,2)
proof (induction vs arbitrary: m)
  case (Cons u vs)
  have r: "v_labels v \<noteq> [] \<and> p_labels p \<noteq> [] \<and> mgetd (p_labels p) (instIdL A) = mgetd (v_labels v) (instIdL A)
     \<and> mhas (v_labels v) (tmplHashL A)"
    using assms(3,4) by (auto simp: relevant_def mgetd_def)
  show ?case
  proof (cases "v \<in> set vs")
    case True
    with Cons show ?thesis by simp
  next
    case False
    with Cons.prems have "u = v" "\<forall>u \<in> set vs. v_name u \<noteq> v_name v" by auto
    then show ?thesis using r by (simp add: mgetd_def existingHash_other mhas_def split: option.splits)
  qed
qed simp

lemma changedIn_False: "(\<forall>(n, src) \<in> set vols. \<forall>v. src = Claim v \<longrightarrow> v = [] \<or> mgetd new n = mgetd ex v) \<Longrightarrow> \<not> changedIn new ex vols"
  by (induction vols) (auto split: vsource.splits if_splits)

subsection \<open>Properties\<close>

text \<open>C12: When a pod gets its claims without an error, each template of the CollaSet has exactly one volume in the pod, backed by
  a stored claim of the pod's instance with the template's current hash; no stored claim is changed, and a new claim is created
  only for a template without such a claim.\<close>

theorem claims_provisioned:
  assumes "claim_server V claims" and "api_ok A" and "distinct (map v_name (co_vcts c))"
    and "\<forall>t \<in> set (co_vcts c). \<not> v_deleting t" and "mget (p_labels p) (instIdL A) = Some i"
    and "GetFilteredPvcs V w c = Inr vs" and "CreatePodPvcs A V c p vs (w, ex) = (Inr p', (w', ex'))"
  shows "\<exists>hs. PvcTmpHashMapping V (co_vcts c) = Inr hs
    \<and> (\<forall>t \<in> set (co_vcts c). \<exists>v. {src. (v_name t, src) \<in> set (p_volumes p')} = {Claim (v_name v)}
         \<and> claims w' (pvcKey v) = Some v \<and> currentClaim A c hs i (v_name t) v)
    \<and> (\<forall>k v. claims w k = Some v \<longrightarrow> claims w' k = Some v)
    \<and> (\<forall>k v. claims w k = None \<longrightarrow> claims w' k = Some v \<longrightarrow>
         (\<exists>t \<in> set (co_vcts c). currentClaim A c hs i (v_name t) v \<and> (\<forall>u \<in> set vs. \<not> currentClaim A c hs i (v_name t) u)))"
proof -
  obtain hs m where hs: "PvcTmpHashMapping V (co_vcts c) = Inr hs" and wf: "mwf m"
    and p': "p' = p\<lparr>p_volumes := map (\<lambda>(n, v). (n, Claim (v_name v))) (ve_order V m) @ filter (\<lambda>(n, _). \<not> mhas m n) (p_volumes p)\<rparr>"
    and cur: "\<And>n v. mget m n = Some v \<Longrightarrow> claims w' (pvcKey v) = Some v \<and> v_ns v = co_ns c \<and> ownedBy (co_uid c) v \<and> currentClaim A c hs i n v"
    and has: "\<And>t. t \<in> set (co_vcts c) \<Longrightarrow> mhas m (v_name t)"
    and keep: "\<And>k v. claims w k = Some v \<Longrightarrow> claims w' k = Some v"
    and fresh: "\<And>k v. claims w k = None \<Longrightarrow> claims w' k = Some v \<Longrightarrow> \<exists>t \<in> set (co_vcts c). currentClaim A c hs i (v_name t) v
       \<and> (\<forall>u \<in> set vs. \<not> currentClaim A c hs i (v_name t) u)"
    by (rule claim_server.create_spec [OF assms(1-7)], rule that, assumption+)
  have "\<exists>v. {src. (v_name t, src) \<in> set (p_volumes p')} = {Claim (v_name v)}
         \<and> claims w' (pvcKey v) = Some v \<and> currentClaim A c hs i (v_name t) v" if t: "t \<in> set (co_vcts c)" for t
  proof -
    from has [OF t] obtain v where v: "mget m (v_name t) = Some v" by (auto simp: mhas_def)
    have "(v_name t, src) \<in> set (p_volumes p') \<longleftrightarrow> src = Claim (v_name v)" for src
      using v has [OF t] wf claim_server.order_ok [OF assms(1), of m] by (force simp: p' mwf_in_iff)
    with cur [OF v] show ?thesis by blast
  qed
  with hs keep fresh show ?thesis by blast
qed

text \<open>C38: A pod that has just got its claims counts as one whose templates have not changed, when the claims are listed again,
  provided that its other volumes refer to no claims.\<close>

theorem created_pod_is_current:
  assumes "claim_server V claims" and "api_ok A" and "distinct (map v_name (co_vcts c))"
    and "\<forall>t \<in> set (co_vcts c). \<not> v_deleting t" and "mget (p_labels p) (instIdL A) = Some i"
    and "GetFilteredPvcs V w c = Inr vs" and "CreatePodPvcs A V c p vs (w, ex) = (Inr p', (w', ex'))"
    and "\<forall>(n, src) \<in> set (p_volumes p). n \<notin> v_name ` set (co_vcts c) \<longrightarrow> (\<forall>v. src \<noteq> Claim v)"
    and "GetFilteredPvcs V w' c = Inr vs'"
  shows "IsPodPvcTmpChanged A V c p' vs' = Inr False"
proof -
  obtain hs m where hs: "PvcTmpHashMapping V (co_vcts c) = Inr hs" and wf: "mwf m"
    and p': "p' = p\<lparr>p_volumes := map (\<lambda>(n, v). (n, Claim (v_name v))) (ve_order V m) @ filter (\<lambda>(n, _). \<not> mhas m n) (p_volumes p)\<rparr>"
    and cur: "\<And>n v. mget m n = Some v \<Longrightarrow> claims w' (pvcKey v) = Some v \<and> v_ns v = co_ns c \<and> ownedBy (co_uid c) v \<and> currentClaim A c hs i n v"
    and has: "\<And>t. t \<in> set (co_vcts c) \<Longrightarrow> mhas m (v_name t)"
    by (rule claim_server.create_spec [OF assms(1-7)], rule that, assumption+)
  from assms(9) obtain us where us: "ve_list V w' (co_ns c) (co_uid c) = Inr us" "vs' = filter (\<lambda>v. \<not> v_deleting v) us"
    by (auto simp: GetFilteredPvcs_def rbind_Inr_iff)
  have vs': "v \<in> set vs' \<longleftrightarrow> claims w' (pvcKey v) = Some v \<and> v_ns v = co_ns c \<and> ownedBy (co_uid c) v \<and> \<not> v_deleting v" for v
    using claim_server.list_ok [OF assms(1) us(1), of v] us(2) by auto
  have "mgetd hs n = mgetd (existingHash A p' vs' []) (v_name v)" if "mget m n = Some v" for n v
  proof -
    from cur [OF that] have c: "currentClaim A c hs i n v" and v: "v \<in> set vs'" by (auto simp: vs' currentClaim_def relevant_def)
    have "u = v" if "u \<in> set vs'" "v_name u = v_name v" for u
    proof -
      have "pvcKey u = pvcKey v" using that v by (simp add: vs' pvcKey_def)
      with that v show ?thesis by (simp add: vs')
    qed
    then have "\<forall>u \<in> set vs'. v_name u = v_name v \<longrightarrow> u = v" by blast
    from existingHash_mget [OF v this, of A i p' "[]"] c assms(5) show ?thesis by (simp add: p' currentClaim_def)
  qed
  moreover have "mhas m n" if "(n, Claim x) \<in> set (p_volumes p)" for n x
    using assms(8) that has by fastforce
  ultimately have "\<not> changedIn hs (existingHash A p' vs' []) (p_volumes p')"
    using wf claim_server.order_ok [OF assms(1), of m] by (intro changedIn_False) (auto simp: p' mwf_in_iff)
  with hs show ?thesis by (simp add: IsPodPvcTmpChanged_def)
qed


text \<open>Deleting the claims of a pod deletes, when there is no error, every listed claim of the pod's instance and touches no
  other; but a pod without an instance id takes with it every labelled claim that has none either.\<close>

theorem pod_claims_deleted:
  assumes "claim_server V claims" and "DeletePodPvcs A V c p vs (w, ex) = (r, (w', ex'))" and "p_labels p \<noteq> []"
  shows "(\<forall>k. claims w' k \<noteq> claims w k \<longrightarrow> (\<exists>v \<in> set vs. pvcKey v = k \<and> v_labels v \<noteq> []
      \<and> mgetd (v_labels v) (instIdL A) = mgetd (p_labels p) (instIdL A)))
    \<and> (r = None \<longrightarrow> (\<forall>v \<in> set vs. v_labels v \<noteq> [] \<and> mget (v_labels v) (instIdL A) = mget (p_labels p) (instIdL A)
         \<longrightarrow> gone (claims w' (pvcKey v))))"
  using claim_server.deleteEach_effect [OF assms(1) assms(2) [unfolded DeletePodPvcs_def]] assms(3)
  by (auto simp: mgetd_def)

end
