(* ===== verification/VolumeServer.thy ===== *)
theory VolumeServer
  imports VolumeClaimsProps
begin

text \<open>
  A server of claims in memory that keeps the contract \<open>claim_server\<close>.  The claims are the second
  part of the world; a generated name is longer than all the names in the store.
\<close>

definition memv_name :: "'v gomap \<Rightarrow> string \<Rightarrow> string" where
  "memv_name m g = g @ replicate (Suc (sum_list (map (length \<circ> fst) m))) (CHR ''x'')"

definition memv_create :: "pvc \<Rightarrow> 'a \<times> pvc gomap \<Rightarrow> (gerr + pvc) \<times> 'a \<times> pvc gomap" where
  "memv_create v w =
     (let v' = v\<lparr>v_name := memv_name (snd w) (v_genName v), v_rv := ''1''\<rparr>
      in (Inr v', (fst w, mput (pvcKey v') v' (snd w))))"

definition memv_delete :: "pvc \<Rightarrow> 'a \<times> pvc gomap \<Rightarrow> gerr option \<times> 'a \<times> pvc gomap" where
  "memv_delete v w =
     (if mhas (snd w) (pvcKey v) then (None, (fst w, mdel (pvcKey v) (snd w))) else (Some NotFound, w))"

definition memv_update :: "pvc \<Rightarrow> 'a \<times> pvc gomap \<Rightarrow> (gerr + pvc) \<times> 'a \<times> pvc gomap" where
  "memv_update v w =
     (if mhas (snd w) (pvcKey v)
      then (let v' = v\<lparr>v_rv := v_rv v @ ''1''\<rparr> in (Inr v', (fst w, mput (pvcKey v) v' (snd w))))
      else (Inl NotFound, w))"

definition memv_env :: "('a \<times> pvc gomap, string list) venv" where
  "memv_env =
     \<lparr>ve_list = (\<lambda>w ns uid. Inr (filter (\<lambda>v. v_ns v = ns \<and> ownedBy uid v \<and> mget (snd w) (pvcKey v) = Some v) (map snd (snd w)))),
      ve_create = memv_create, ve_delete = memv_delete, ve_update = memv_update,
      ve_expCreate = (\<lambda>k ns n ex. (None, n # ex)), ve_expDelete = (\<lambda>k ns n ex. (None, n # ex)),
      ve_marshal = (\<lambda>v. Inr (v_spec v)), ve_safe = (\<lambda>s. s),
      ve_parse = (\<lambda>sel. Inr (\<lambda>ls. case sel of None \<Rightarrow> False | Some x \<Rightarrow> list_all (\<lambda>(k, v). mget ls k = Some v) (se_labels x))),
      ve_setRef = (\<lambda>c v. Inr (v\<lparr>v_owners := v_owners v @ [\<lparr>o_kind = ''CollaSet'', o_api = ''apps.kusionstack.io/v1alpha1'',
        o_name = co_name c, o_uid = co_uid c, o_ctrl = True\<rparr>]\<rparr>)),
      ve_order = (\<lambda>m. m)\<rparr>"

lemma memv_fresh: "mget m (ns @ ''/'' @ memv_name m g) = None"
proof -
  have "length k \<le> sum_list (map (length \<circ> fst) m)" if "k \<in> fst ` set m" for k
    using that by (induction m) force+
  then have "ns @ ''/'' @ memv_name m g \<notin> fst ` set m" by (fastforce simp: memv_name_def)
  then show ?thesis by (simp add: map_of_eq_None_iff)
qed

interpretation memv: claim_server memv_env "\<lambda>w. mget (snd w)"
proof
  show "v \<in> set vs \<longleftrightarrow> mget (snd w) (pvcKey v) = Some v \<and> v_ns v = ns \<and> ownedBy uid v"
    if "ve_list memv_env w ns uid = Inr vs" for w :: "'a \<times> pvc gomap" and ns uid vs v
  proof -
    have "mget (snd w) (pvcKey v) = Some v \<Longrightarrow> v \<in> snd ` set (snd w)" by (drule map_of_SomeD) (force intro: rev_image_eqI)
    with that show ?thesis by (auto simp: memv_env_def)
  qed
  show "(\<exists>n rv. v' = v\<lparr>v_name := n, v_rv := rv\<rparr>) \<and> mget (snd w) (pvcKey v') = None \<and> mget (snd w') = (mget (snd w))(pvcKey v' \<mapsto> v')"
    if "ve_create memv_env v w = (Inr v', w')" for v v' and w w' :: "'a \<times> pvc gomap"
    using that memv_fresh [of "snd w" "v_ns v" "v_genName v"]
    by (auto simp: memv_env_def memv_create_def Let_def pvcKey_def fun_eq_iff)
qed (auto simp: memv_env_def memv_create_def memv_delete_def Let_def gone_def split: if_splits)

end
