(* ===== verification/PodDeletion.thy ===== *)
theory PodDeletion
  imports LifecycleOps Expectations VolumeServer
begin

text \<open>
  \<^verbatim>\<open>pkg/controllers/poddeletion\<close> and \<^verbatim>\<open>pkg/webhook/server/generic/pod/gracedelete\<close>: a pod is deleted
  through a lifecycle.  The webhook turns the deletion of a pod into a label that asks for it, the controller
  begins the lifecycle \<open>pod-delete\<close> and deletes the pod once the operation is allowed.

  The expectations of this controller come from the package kube-utils: a store of type \<open>'e\<close> with its three
  operations is part of the parameter \<open>pdclient\<close>, and so are the calls for deleting pods and reading a CollaSet.
  The claims of a replaced pod go through \<open>VolumeClaims\<close>, whose expectations, of type \<open>'x\<close>, stand next to the world.
\<close>

record ('w, 'e, 'x) pdclient =
  pd_cl :: "'w client"
  pd_delete :: "pod \<Rightarrow> 'w \<Rightarrow> gerr option \<times> 'w"
  pd_cls :: "'w \<Rightarrow> string \<Rightarrow> string \<Rightarrow> gerr + collaset"
  pd_vol :: "('w, 'x) venv"
  pd_satisfied :: "string \<Rightarrow> string \<Rightarrow> 'e \<Rightarrow> bool"
  pd_expect :: "string \<Rightarrow> string \<Rightarrow> 'e \<Rightarrow> gerr option \<times> 'e"
  pd_forget :: "string \<Rightarrow> 'e \<Rightarrow> 'e"

subsection \<open>Which pods the controller watches\<close>

definition hasTerminatingLabel :: "api \<Rightarrow> pod \<Rightarrow> bool" where
  "hasTerminatingLabel A p \<longleftrightarrow> mhas (p_labels p) (delIndL A)"

datatype pdevent = DCreate pod | DUpdate pod pod | DDelete pod | DGeneric pod

fun PredicateDeletionIndicatedPod :: "api \<Rightarrow> pdevent \<Rightarrow> bool" where
  "PredicateDeletionIndicatedPod A (DCreate p) \<longleftrightarrow> ControlledByKusionStack A p \<and> hasTerminatingLabel A p"
| "PredicateDeletionIndicatedPod A (DDelete p) \<longleftrightarrow> ControlledByKusionStack A p \<and> hasTerminatingLabel A p"
| "PredicateDeletionIndicatedPod A (DUpdate old p) \<longleftrightarrow> ControlledByKusionStack A p \<and> hasTerminatingLabel A p"
| "PredicateDeletionIndicatedPod A (DGeneric p) \<longleftrightarrow> ControlledByKusionStack A p \<and> hasTerminatingLabel A p"

subsection \<open>The controller\<close>

text \<open>Without a CollaSet among the owners the variable stays empty and has no templates.\<close>

definition deleteReplacedPodPvcs :: "api \<Rightarrow> ('w, 'e, 'x) pdclient \<Rightarrow> pod \<Rightarrow> 'w \<times> 'x \<Rightarrow> gerr option \<times> 'w \<times> 'x" where
  "deleteReplacedPodPvcs A C p s =
     (case (case find (\<lambda>ow. o_kind ow = ''CollaSet'') (p_owners p) of
              None \<Rightarrow> Inr noCollaSet
            | Some ow \<Rightarrow> pd_cls C (fst s) (p_ns p) (o_name ow)) of
        Inl e \<Rightarrow> (Some e, s)
      | Inr c \<Rightarrow>
          if co_vcts c = [] then (None, s)
          else (case GetFilteredPvcs (pd_vol C) (fst s) c of
                  Inl e \<Rightarrow> (Some e, s)
                | Inr vs \<Rightarrow> DeletePodPvcs A (pd_vol C) c p vs s))"

definition deletePod :: "api \<Rightarrow> ('w, 'e, 'x) pdclient \<Rightarrow> string \<Rightarrow> pod \<Rightarrow> 'w \<times> 'x \<Rightarrow> gerr option \<times> 'w \<times> 'x" where
  "deletePod A C stamp p s =
     (if snd (AllowOps A 0 (PodDeleteOpsLifecycleAdapter A stamp) 0 p)
      then (case pd_delete C p (fst s) of
              (Some e, w1) \<Rightarrow> (Some e, (w1, snd s))
            | (None, w1) \<Rightarrow>
                if mhas (p_labels p) (replIndL A) \<or> mhas (p_labels p) (replOriginL A)
                then deleteReplacedPodPvcs A C p (w1, snd s) else (None, (w1, snd s)))
      else (None, s))"

text \<open>When the pod is gone the controller forgets the key of an empty object.\<close>

definition ReconcileDeletion :: "api \<Rightarrow> ('w, 'e, 'x) pdclient \<Rightarrow> string \<Rightarrow> string \<Rightarrow> string \<Rightarrow> 'e \<Rightarrow> 'w \<times> 'x
    \<Rightarrow> gerr option \<times> 'e \<times> 'w \<times> 'x" where
  "ReconcileDeletion A C stamp ns n ex s =
     (case cl_get (pd_cl C) (fst s) ns n of
        Inl e \<Rightarrow> if e = NotFound then (None, pd_forget C ''/'' ex, s) else (Some e, ex, s)
      | Inr p \<Rightarrow>
          if \<not> pd_satisfied C (ObjectKeyString p) (p_rv p) ex \<or> p_deleting p then (None, ex, s)
          else if IsDuringOps A (PodDeleteOpsLifecycleAdapter A stamp) p
          then (case deletePod A C stamp p s of (r, s1) \<Rightarrow> (r, ex, s1))
          else (case Begin A stamp (pd_cl C) (PodDeleteOpsLifecycleAdapter A stamp) [] p (fst s) of
                  (Inl e, w1) \<Rightarrow> (Some e, ex, (w1, snd s))
                | (Inr (updated, p1), w1) \<Rightarrow>
                    (case (if updated then pd_expect C (ObjectKeyString p1) (p_rv p1) ex else (None, ex)) of
                       (Some e, ex1) \<Rightarrow> (Some e, ex1, (w1, snd s))
                     | (None, ex1) \<Rightarrow> (case deletePod A C stamp p1 (w1, snd s) of (r, s2) \<Rightarrow> (r, ex1, s2)))))"

subsection \<open>The webhook\<close>

datatype dop = DopDelete | DopOther

definition graceInterval :: int where
  "graceInterval = 5000000000"

definition markDeletion :: "api \<Rightarrow> string \<Rightarrow> int \<Rightarrow> string \<Rightarrow> pod \<Rightarrow> pod option" where
  "markDeletion A graceAnno now stamp p =
     (if (case mget (p_annos p) graceAnno of
            None \<Rightarrow> False
          | Some s \<Rightarrow> (case parseInt64 s of None \<Rightarrow> False | Some t \<Rightarrow> now - t < graceInterval))
      then None
      else Some (p\<lparr>p_labels := (if mhas (p_labels p) (delIndL A) then p_labels p
                                else mput (delIndL A) stamp (p_labels p)),
                   p_annos := mput graceAnno stamp (p_annos p)\<rparr>))"

definition GraceValidating :: "api \<Rightarrow> bool \<Rightarrow> string \<Rightarrow> int \<Rightarrow> string \<Rightarrow> 'w client \<Rightarrow> pod \<Rightarrow> dop \<Rightarrow> 'w \<Rightarrow> gerr option \<times> 'w" where
  "GraceValidating A enabled graceAnno now stamp C old operation w =
     (if \<not> enabled \<or> operation \<noteq> DopDelete \<or> \<not> ControlledByKusionStack A old then (None, w)
      else if svcReadyGate A \<notin> set (p_gates old) then (None, w)
      else if snd (AllowOps A now (PodDeleteOpsLifecycleAdapter A stamp) 0 old) then (None, w)
      else (case cl_retry C (attempt C (cl_update C) (p_ns old) (p_name old) (markDeletion A graceAnno now stamp)) w of
              (Some e, w1) \<Rightarrow> (Some e, w1)
            | (None, w1) \<Rightarrow>
                if filter (\<lambda>f. hasPrefix f (protFinP A)) (p_finalizers old) = []
                then (Some (Err ''pod deletion process is underway''), w1)
                else (Some (Err ''pod deletion process is underway with finalizers''), w1)))"

subsection \<open>What the controller relies on and promises\<close>

text \<open>A pod that is deleted is gone, or marked as being deleted while it has finalizers.\<close>

locale pod_deleter = pod: api_server "pd_cl C" objs
  for C :: "('w, 'e, 'x) pdclient" and objs :: "'w \<Rightarrow> string \<Rightarrow> pod option" +
  assumes delete_ok: "pd_delete C p w = (None, w') \<Longrightarrow> (\<forall>k. k \<noteq> controllerKey p \<longrightarrow> objs w' k = objs w k)
      \<and> (objs w' (controllerKey p) = None \<or> (\<exists>q. objs w' (controllerKey p) = Some q \<and> p_deleting q))"
    and delete_err: "pd_delete C p w = (Some e, w') \<Longrightarrow> objs w' = objs w"
    and pvcs_frame: "ve_delete (pd_vol C) v w = (r, w') \<Longrightarrow> objs w' = objs w"
begin

definition goes :: "'w \<Rightarrow> string \<Rightarrow> bool" where
  "goes w k \<longleftrightarrow> (\<forall>q. objs w k = Some q \<longrightarrow> p_deleting q)"

lemma deleteEach_frame: "deleteEach (pd_vol C) c P vs (w, cx) = (r, (w', cx')) \<Longrightarrow> objs w' = objs w"
proof (induction vs arbitrary: w cx)
  case (Cons v vs)
  show ?case
  proof (cases "P v")
    case True
    obtain x w1 cx1 where d: "deletePvc (pd_vol C) c v (w, cx) = (x, (w1, cx1))" by (metis surj_pair)
    then have "objs w1 = objs w" by (auto simp: deletePvc_def Let_def dest!: pvcs_frame split: prod.splits option.splits)
    with Cons True d show ?thesis by (cases x) auto
  qed (use Cons in simp)
qed simp

lemma pvcs_effect: "deleteReplacedPodPvcs A C p (w, cx) = (r, (w', cx')) \<Longrightarrow> objs w' = objs w"
  by (auto simp: deleteReplacedPodPvcs_def DeletePodPvcs_def dest: deleteEach_frame split: option.splits sum.splits if_splits)

lemma deletePod_effect:
  assumes "deletePod A C stamp p (w, cx) = (r, (w', cx'))"
  shows "objs w' = objs w \<or> snd (AllowOps A 0 (PodDeleteOpsLifecycleAdapter A stamp) 0 p)
    \<and> goes w' (controllerKey p) \<and> (\<forall>k. k \<noteq> controllerKey p \<longrightarrow> objs w' k = objs w k)"
    and "r = None \<Longrightarrow> snd (AllowOps A 0 (PodDeleteOpsLifecycleAdapter A stamp) 0 p) \<Longrightarrow> goes w' (controllerKey p)"
proof -
  obtain x w1 where x: "pd_delete C p w = (x, w1)" by fastforce
  obtain r2 w2 cx2 where y: "deleteReplacedPodPvcs A C p (w1, cx) = (r2, (w2, cx2))" by (metis surj_pair)
  have w2: "objs w2 = objs w1" by (rule pvcs_effect [OF y])
  show "objs w' = objs w \<or> snd (AllowOps A 0 (PodDeleteOpsLifecycleAdapter A stamp) 0 p)
    \<and> goes w' (controllerKey p) \<and> (\<forall>k. k \<noteq> controllerKey p \<longrightarrow> objs w' k = objs w k)"
  proof (cases x)
    case None
    with delete_ok [of p w w1] x show ?thesis
      using assms y w2 by (auto simp: deletePod_def goes_def split: if_splits)
  next
    case (Some e)
    with delete_err [of p w e w1] x show ?thesis using assms by (auto simp: deletePod_def split: if_splits)
  qed
  show "goes w' (controllerKey p)" if "r = None" "snd (AllowOps A 0 (PodDeleteOpsLifecycleAdapter A stamp) 0 p)"
    using that assms x y w2 delete_ok [of p w w1]
    by (cases x) (auto simp: deletePod_def goes_def split: if_splits)
qed

lemma begin_deleting:
  "beginObj A stamp (PodDeleteOpsLifecycleAdapter A stamp) [] p = Inr (need, p') \<Longrightarrow>
     p_deleting p' = p_deleting p \<and> p_ns p' = p_ns p \<and> p_name p' = p_name p"
  by (auto simp: beginObj_def PodDeleteOpsLifecycleAdapter_def WhenBeginDelete_def AddLabel_def Let_def
      setOperatingID_def setOperationType_def setLabel_def split: prod.splits if_splits sum.splits)

lemma begin_effect:
  assumes "api_ok A" and "Begin A stamp (pd_cl C) (PodDeleteOpsLifecycleAdapter A stamp) [] p w = (Inr (b, p1), w1)"
    and "cl_get (pd_cl C) w ns n = Inr p"
  shows "p_deleting p1 = p_deleting p \<and> controllerKey p1 = controllerKey p
    \<and> IsDuringOps A (PodDeleteOpsLifecycleAdapter A stamp) p1
    \<and> mget (p_labels p1) (key A POperate ''pod-delete'') = mget (p_labels p) (key A POperate ''pod-delete'')
    \<and> (objs w1 = objs w \<and> p1 = p \<or> objs w1 = (objs w)(controllerKey p \<mapsto> p1))"
proof -
  let ?ad = "PodDeleteOpsLifecycleAdapter A stamp"
  have id: "GetID ?ad = ''pod-delete''" by (simp add: PodDeleteOpsLifecycleAdapter_def)
  from assms(2) obtain need p' where b: "beginObj A stamp ?ad [] p = Inr (need, p')"
    and s: "submit (pd_cl C) need p' w = (Inr (b, p1), w1)"
    by (auto simp: Begin_def split: sum.splits)
  note same = begin_deleting [OF b]
  have during: "IsDuringOps A ?ad p'" by (rule pod_delete.begin_during [OF assms(1) b])
  have op: "mget (p_labels p') (key A POperate ''pod-delete'') = mget (p_labels p) (key A POperate ''pod-delete'')"
    using pod_delete.begin_keeps_others [OF assms(1) b, of POperate "''pod-delete''"] by simp
  show ?thesis
  proof (cases need)
    case True
    with s obtain x where "cl_update (pd_cl C) p' w = (Inr p1, w1)"
      by (auto simp: submit_def split: prod.splits sum.splits)
    from pod.update_ok [OF this] obtain rv where p1: "p1 = p'\<lparr>p_rv := rv\<rparr>"
      and w1: "objs w1 = (objs w)(controllerKey p' \<mapsto> p1)" by blast
    have k: "controllerKey p' = controllerKey p" "controllerKey p1 = controllerKey p'"
      using same p1 by (simp_all add: controllerKey_def)
    have "IsDuringOps A ?ad p1" using during p1 by (simp add: IsDuringOps_def lc_defs Let_def)
    then show ?thesis using same p1 w1 op k by auto
  next
    case False
    with s have "p1 = p'" "w1 = w" by (auto simp: submit_def)
    moreover have "IsDuringOps A ?ad p \<Longrightarrow> p' = p"
      using b False by (auto simp: beginObj_def Let_def IsDuringOps_def PodDeleteOpsLifecycleAdapter_def
          WhenBeginDelete_def AddLabel_def split: prod.splits if_splits)
    moreover have "IsDuringOps A ?ad p"
      using pod_delete.beginObj_cases [OF b] False by metis
    ultimately show ?thesis using during by simp
  qed
qed

lemma begin_failed:
  "Begin A stamp (pd_cl C) ad [] p w = (Inl e, w1) \<Longrightarrow> objs w1 = objs w"
  by (auto simp: Begin_def submit_def dest: pod.update_err split: sum.splits prod.splits if_splits)

text \<open>The run as far as the attempt to delete: the pod \<open>p1\<close> that the controller then holds.\<close>

lemma deletion_cases:
  assumes ok: "api_ok A" and run: "ReconcileDeletion A C stamp ns n ex (w, cx) = (r, ex', (w', cx'))"
  obtains (nothing) "objs w' = objs w" "r = None \<Longrightarrow> \<forall>p. cl_get (pd_cl C) w ns n = Inr p
      \<longrightarrow> \<not> pd_satisfied C (ObjectKeyString p) (p_rv p) ex \<or> p_deleting p"
  | (acted) p p1 w1 where "cl_get (pd_cl C) w ns n = Inr p" "pd_satisfied C (ObjectKeyString p) (p_rv p) ex" "\<not> p_deleting p"
      "IsDuringOps A (PodDeleteOpsLifecycleAdapter A stamp) p1" "p_deleting p1 = p_deleting p" "controllerKey p1 = controllerKey p"
      "mget (p_labels p1) (key A POperate ''pod-delete'') = mget (p_labels p) (key A POperate ''pod-delete'')"
      "objs w1 = objs w \<and> p1 = p \<or> objs w1 = (objs w)(controllerKey p \<mapsto> p1)"
      "deletePod A C stamp p1 (w1, cx) = (r, (w', cx')) \<or> r \<noteq> None \<and> w' = w1"
proof (cases "cl_get (pd_cl C) w ns n")
  case (Inl e)
  then have "w' = w" using run by (auto simp: ReconcileDeletion_def split: if_splits)
  show thesis by (rule nothing) (use \<open>w' = w\<close> Inl in auto)
next
  case g: (Inr p)
  let ?ad = "PodDeleteOpsLifecycleAdapter A stamp"
  show thesis
  proof (cases "pd_satisfied C (ObjectKeyString p) (p_rv p) ex \<and> \<not> p_deleting p")
    case False
    then have "w' = w" using run g by (auto simp: ReconcileDeletion_def)
    show thesis by (rule nothing) (use \<open>w' = w\<close> g False in auto)
  next
    case live: True
    show thesis
    proof (cases "IsDuringOps A ?ad p")
      case True
      then have "deletePod A C stamp p (w, cx) = (r, (w', cx'))"
        using run g live by (auto simp: ReconcileDeletion_def split: prod.splits)
      with acted [of p p w] g live True show thesis by simp
    next
      case False
      obtain x w1 where b: "Begin A stamp (pd_cl C) ?ad [] p w = (x, w1)" by fastforce
      show thesis
      proof (cases x)
        case (Inl e)
        have r: "r \<noteq> None" "w' = w1" using run g live False b Inl by (auto simp: ReconcileDeletion_def)
        have st: "objs w1 = objs w" using begin_failed b Inl by blast
        show thesis by (rule nothing) (use r st in simp_all)
      next
        case (Inr y)
        obtain u p1 where y: "y = (u, p1)" by (cases y)
        obtain z ex1 where z: "(if u then pd_expect C (ObjectKeyString p1) (p_rv p1) ex else (None, ex)) = (z, ex1)"
          by fastforce
        have "deletePod A C stamp p1 (w1, cx) = (r, (w', cx')) \<or> r \<noteq> None \<and> w' = w1"
          using run g live False b Inr y z by (cases z) (auto simp: ReconcileDeletion_def split: prod.splits)
        with acted [of p p1 w1] g live begin_effect [OF ok b [unfolded Inr y] g] show thesis by blast
      qed
    qed
  qed
qed

lemma only_with_permission:
  assumes "api_ok A" and "ReconcileDeletion A C stamp ns n ex (w, cx) = (r, ex', (w', cx'))"
    and "objs w k = Some q" and "\<not> p_deleting q" and "goes w' k"
  shows "k = ns @ ''/'' @ n \<and> pd_satisfied C (ObjectKeyString q) (p_rv q) ex
    \<and> mhas (p_labels q) (key A POperate ''pod-delete'')"
  using assms(1,2)
proof (cases rule: deletion_cases)
  case nothing
  then show ?thesis using assms(3-5) by (simp add: goes_def)
next
  case (acted p p1 w1)
  have kp: "objs w (ns @ ''/'' @ n) = Some p" "controllerKey p = ns @ ''/'' @ n"
    using pod.get_current [OF acted(1)] by (simp_all add: controllerKey_def)
  have live: "\<not> goes w1 k"
    using acted(3,5,8) assms(3,4) kp by (auto simp: goes_def)
  with acted(9) assms(5) have d: "deletePod A C stamp p1 (w1, cx) = (r, (w', cx'))" by auto
  from deletePod_effect(1) [OF d] live assms(5) have al: "snd (AllowOps A 0 (PodDeleteOpsLifecycleAdapter A stamp) 0 p1)"
    and k: "k = controllerKey p1" by (auto simp: goes_def)
  have "q = p" using k acted(6) kp assms(3) by simp
  moreover have "mhas (p_labels p) (key A POperate ''pod-delete'')"
    using al acted(7) by (simp add: AllowOps_snd mhas_def PodDeleteOpsLifecycleAdapter_def)
  ultimately show ?thesis using k acted(2,6) kp by simp
qed

lemma progress:
  assumes "api_ok A" and "ReconcileDeletion A C stamp ns n ex (w, cx) = (None, ex', (w', cx'))"
    and "cl_get (pd_cl C) w ns n = Inr p" and "pd_satisfied C (ObjectKeyString p) (p_rv p) ex" and "\<not> p_deleting p"
  shows "goes w' (ns @ ''/'' @ n) \<or> (\<exists>q. objs w' (ns @ ''/'' @ n) = Some q
    \<and> IsDuringOps A (PodDeleteOpsLifecycleAdapter A stamp) q \<and> \<not> mhas (p_labels q) (key A POperate ''pod-delete''))"
  using assms(1,2)
proof (cases rule: deletion_cases)
  case nothing
  then show ?thesis using assms(3-5) by simp
next
  case (acted p0 p1 w1)
  then have p0: "p0 = p" using assms(3) by simp
  have kp: "objs w (ns @ ''/'' @ n) = Some p" "controllerKey p = ns @ ''/'' @ n"
    using pod.get_current [OF assms(3)] by (simp_all add: controllerKey_def)
  have d: "deletePod A C stamp p1 (w1, cx) = (None, (w', cx'))" using acted(9) by auto
  have st: "objs w1 (ns @ ''/'' @ n) = Some p1" using acted(8) p0 kp by auto
  show ?thesis
  proof (cases "snd (AllowOps A 0 (PodDeleteOpsLifecycleAdapter A stamp) 0 p1)")
    case True
    from deletePod_effect(2) [OF d refl True] acted(6) p0 kp show ?thesis by simp
  next
    case False
    then have "w' = w1" using d by (simp add: deletePod_def)
    moreover have "\<not> mhas (p_labels p1) (key A POperate ''pod-delete'')"
      using False acted(4) by (simp add: AllowOps_snd PodDeleteOpsLifecycleAdapter_def)
    ultimately show ?thesis using st acted(4) by blast
  qed
qed

end

text \<open>A server in memory of pods and claims, on which a pod without finalizers is gone when it is deleted.\<close>

definition mem_delete :: "pod \<Rightarrow> pod gomap \<Rightarrow> gerr option \<times> pod gomap" where
  "mem_delete p w =
     (case mget w (controllerKey p) of
        None \<Rightarrow> (Some NotFound, w)
      | Some q \<Rightarrow>
          if p_finalizers q = [] then (None, mdel (controllerKey p) w)
          else (None, mput (controllerKey p) (q\<lparr>p_deleting := True\<rparr>) w))"

definition onFst :: "('r \<times> 'a) \<Rightarrow> 'b \<Rightarrow> 'r \<times> 'a \<times> 'b" where
  "onFst x b = (fst x, (snd x, b))"

definition mem_pods :: "(pod gomap \<times> 'b) client" where
  "mem_pods =
     \<lparr>cl_get = (\<lambda>w. cl_get mem_client (fst w)), cl_update = (\<lambda>p w. onFst (mem_update p (fst w)) (snd w)),
      cl_status = (\<lambda>p w. onFst (mem_update p (fst w)) (snd w)), cl_svc = (\<lambda>w ns n. Inl NotFound), cl_retry = mem_retry 4\<rparr>"

definition mem_pdclient :: "(string \<Rightarrow> gerr + collaset) \<Rightarrow> (pod gomap \<times> pvc gomap, rvstore, string list) pdclient" where
  "mem_pdclient cls =
     \<lparr>pd_cl = mem_pods, pd_delete = (\<lambda>p w. onFst (mem_delete p (fst w)) (snd w)), pd_cls = (\<lambda>w ns n. cls n), pd_vol = memv_env,
      pd_satisfied = (\<lambda>k rv ex. True), pd_expect = (\<lambda>k rv ex. (None, ex)), pd_forget = (\<lambda>k ex. ex)\<rparr>"

lemma onFst_eq [simp]: "onFst x b = (r, w) \<longleftrightarrow> x = (r, fst w) \<and> snd w = b"
  by (cases x; cases w) (auto simp: onFst_def)

interpretation memp: api_server mem_pods "\<lambda>w. mget (fst w)"
proof
  show "cl_get mem_pods w ns n = Inr p \<Longrightarrow> mget (fst w) (ns @ ''/'' @ n) = Some p \<and> p_ns p = ns \<and> p_name p = n"
    for w :: "pod gomap \<times> 'b" and ns n p using mem.get_current [of "fst w" ns n p] by (simp add: mem_pods_def)
qed (auto simp: mem_pods_def mem_retry_retried dest!: mem_update_ok mem_update_err)

interpretation memd: pod_deleter "mem_pdclient cls" "\<lambda>w. mget (fst w)" for cls
proof (intro pod_deleter.intro pod_deleter_axioms.intro)
  show "api_server (pd_cl (mem_pdclient cls)) (\<lambda>w. mget (fst w))" by (simp add: mem_pdclient_def memp.api_server_axioms)
qed (auto simp: mem_pdclient_def mem_delete_def memv_env_def memv_delete_def split: option.splits if_splits)

subsection \<open>The claims that go with a pod\<close>

text \<open>Pods and claims are stored apart.\<close>

locale deletion_server = pod_deleter C objs + vol: claim_server "pd_vol C" claims
  for C :: "('w, 'e, 'x) pdclient" and objs :: "'w \<Rightarrow> string \<Rightarrow> pod option" and claims :: "'w \<Rightarrow> string \<Rightarrow> pvc option" +
  assumes update_claims: "cl_update (pd_cl C) p w = (y, w') \<Longrightarrow> claims w' = claims w"
    and delete_claims: "pd_delete C p w = (r, w') \<Longrightarrow> claims w' = claims w"
begin

lemma begin_claims: "Begin A stamp (pd_cl C) ad [] p w = (y, w1) \<Longrightarrow> claims w1 = claims w"
  by (auto simp: Begin_def submit_def dest: update_claims split: sum.splits prod.splits if_splits)

lemma replaced_claims:
  assumes "deleteReplacedPodPvcs A C p (w, cx) = (r, (w', cx'))" and "claims w' k \<noteq> claims w k"
  obtains ow c v where "ow \<in> set (p_owners p)" "o_kind ow = ''CollaSet''" "pd_cls C w (p_ns p) (o_name ow) = Inr c"
    "claims w k = Some v" "v_ns v = co_ns c" "ownedBy (co_uid c) v" "mgetd (v_labels v) (instIdL A) = mgetd (p_labels p) (instIdL A)"
proof -
  obtain ow c where f: "find (\<lambda>ow. o_kind ow = ''CollaSet'') (p_owners p) = Some ow" "pd_cls C w (p_ns p) (o_name ow) = Inr c"
    using assms by (auto simp: deleteReplacedPodPvcs_def noCollaSet_def split: option.splits sum.splits)
  with assms obtain vs where vs: "GetFilteredPvcs (pd_vol C) w c = Inr vs" "DeletePodPvcs A (pd_vol C) c p vs (w, cx) = (r, (w', cx'))"
    by (auto simp: deleteReplacedPodPvcs_def split: sum.splits if_splits)
  from vol.deleteEach_effect [OF vs(2) [unfolded DeletePodPvcs_def]] assms(2) obtain v where
    v: "v \<in> set vs" "pvcKey v = k" "mgetd (v_labels v) (instIdL A) = mgetd (p_labels p) (instIdL A)" by blast
  from vs(1) obtain us where "ve_list (pd_vol C) w (co_ns c) (co_uid c) = Inr us" "set vs \<subseteq> set us"
    by (auto simp: GetFilteredPvcs_def rbind_Inr_iff)
  with v vol.list_ok have "claims w k = Some v" "v_ns v = co_ns c" "ownedBy (co_uid c) v" by blast+
  moreover from f(1) have "ow \<in> set (p_owners p)" "o_kind ow = ''CollaSet''" by (auto simp: find_Some_iff)
  ultimately show thesis using that f(2) v(3) by blast
qed

lemma deletePod_claims:
  assumes "deletePod A C stamp p (w, cx) = (r, (w', cx'))" and "claims w' k \<noteq> claims w k"
  obtains ow c v w1 where "snd (AllowOps A 0 (PodDeleteOpsLifecycleAdapter A stamp) 0 p)" "goes w' (controllerKey p)"
    "mhas (p_labels p) (replIndL A) \<or> mhas (p_labels p) (replOriginL A)"
    "ow \<in> set (p_owners p)" "o_kind ow = ''CollaSet''" "pd_cls C w1 (p_ns p) (o_name ow) = Inr c"
    "claims w k = Some v" "v_ns v = co_ns c" "ownedBy (co_uid c) v" "mgetd (v_labels v) (instIdL A) = mgetd (p_labels p) (instIdL A)"
proof -
  obtain x w1 where x: "pd_delete C p w = (x, w1)" by fastforce
  have c1: "claims w1 = claims w" by (rule delete_claims [OF x])
  have al: "snd (AllowOps A 0 (PodDeleteOpsLifecycleAdapter A stamp) 0 p)" and xn: "x = None"
    and l: "mhas (p_labels p) (replIndL A) \<or> mhas (p_labels p) (replOriginL A)"
    and d: "deleteReplacedPodPvcs A C p (w1, cx) = (r, (w', cx'))"
    using assms x c1 by (auto simp: deletePod_def split: if_splits option.splits)
  have "goes w1 (controllerKey p)" using delete_ok [of p w w1] x xn by (auto simp: goes_def)
  then have g: "goes w' (controllerKey p)" using pvcs_effect [OF d] by (simp add: goes_def)
  from assms(2) have "claims w' k \<noteq> claims w1 k" by (simp add: c1)
  from replaced_claims [OF d this] show thesis using that [OF al g l] c1 by metis
qed

lemma begin_keeps:
  assumes "api_ok A" and "Begin A stamp (pd_cl C) (PodDeleteOpsLifecycleAdapter A stamp) [] p w = (Inr (b, p1), w1)"
  shows "p_owners p1 = p_owners p" "p_ns p1 = p_ns p" "l \<in> {replIndL A, replOriginL A, instIdL A} \<Longrightarrow> mget (p_labels p1) l = mget (p_labels p) l"
proof -
  let ?ad = "PodDeleteOpsLifecycleAdapter A stamp"
  from assms(2) obtain need p' where b: "beginObj A stamp ?ad [] p = Inr (need, p')"
    and s: "submit (pd_cl C) need p' w = (Inr (b, p1), w1)"
    by (auto simp: Begin_def split: sum.splits)
  have k: "l \<noteq> key A q i" "l \<noteq> prepDeleteL A" if "l \<in> {replIndL A, replOriginL A, instIdL A}" for l q i
    using that key_plain [OF assms(1), of l q i] api_plain_distinct [OF assms(1)] by (auto simp: plainLabels_def)
  have p': "p_owners p' = p_owners p \<and> p_ns p' = p_ns p
    \<and> (l \<in> {replIndL A, replOriginL A, instIdL A} \<longrightarrow> mget (p_labels p') l = mget (p_labels p) l)"
    using b k by (auto simp: beginObj_def PodDeleteOpsLifecycleAdapter_def WhenBeginDelete_def AddLabel_def Let_def
      setOperatingID_def setOperationType_def setLabel_def split: prod.splits if_splits sum.splits)
  have "p1 = p' \<or> (\<exists>rv. p1 = p'\<lparr>p_rv := rv\<rparr>)"
    using s by (auto simp: submit_def dest: pod.update_ok split: if_splits sum.splits prod.splits)
  with p' show "p_owners p1 = p_owners p" "p_ns p1 = p_ns p"
    "l \<in> {replIndL A, replOriginL A, instIdL A} \<Longrightarrow> mget (p_labels p1) l = mget (p_labels p) l" by auto
qed

lemma own_claims:
  assumes "api_ok A" and "ReconcileDeletion A C stamp ns n ex (w, cx) = (r, ex', (w', cx'))" and "claims w' k \<noteq> claims w k"
  shows "\<exists>p ow c v w1. cl_get (pd_cl C) w ns n = Inr p \<and> mhas (p_labels p) (key A POperate ''pod-delete'') \<and> goes w' (ns @ ''/'' @ n)
    \<and> (mhas (p_labels p) (replIndL A) \<or> mhas (p_labels p) (replOriginL A))
    \<and> ow \<in> set (p_owners p) \<and> o_kind ow = ''CollaSet'' \<and> pd_cls C w1 ns (o_name ow) = Inr c
    \<and> claims w k = Some v \<and> v_ns v = co_ns c \<and> ownedBy (co_uid c) v
    \<and> mgetd (v_labels v) (instIdL A) = mgetd (p_labels p) (instIdL A)"
proof -
  let ?ad = "PodDeleteOpsLifecycleAdapter A stamp"
  obtain p where g: "cl_get (pd_cl C) w ns n = Inr p"
    using assms(2,3) by (auto simp: ReconcileDeletion_def split: sum.splits if_splits)
  have pk: "p_ns p = ns" "controllerKey p = ns @ ''/'' @ n" using pod.get_current [OF g] by (simp_all add: controllerKey_def)
  obtain p1 w1 where d: "deletePod A C stamp p1 (w1, cx) = (r, (w', cx'))" and c1: "claims w1 = claims w"
    and p1: "p1 = p \<or> (\<exists>u. Begin A stamp (pd_cl C) ?ad [] p w = (Inr (u, p1), w1))"
  proof (cases "IsDuringOps A ?ad p")
    case True
    with assms(2,3) g have "deletePod A C stamp p (w, cx) = (r, (w', cx'))"
      by (auto simp: ReconcileDeletion_def split: if_splits prod.splits)
    then show thesis by (rule that) simp_all
  next
    case False
    obtain y w1 where b: "Begin A stamp (pd_cl C) ?ad [] p w = (y, w1)" by fastforce
    have c1: "claims w1 = claims w" by (rule begin_claims [OF b])
    from assms(2,3) g False b c1 obtain u p1 where y: "y = Inr (u, p1)" by (cases y) (auto simp: ReconcileDeletion_def split: if_splits)
    obtain z ex1 where z: "(if u then pd_expect C (ObjectKeyString p1) (p_rv p1) ex else (None, ex)) = (z, ex1)" by fastforce
    have "deletePod A C stamp p1 (w1, cx) = (r, (w', cx'))"
      using assms(2,3) g False b y c1 z by (cases z) (auto simp: ReconcileDeletion_def split: if_splits prod.splits)
    then show thesis using c1 by (rule that) (use b y in blast)
  qed
  have same: "p_owners p1 = p_owners p" "p_ns p1 = p_ns p" "controllerKey p1 = controllerKey p"
    "mget (p_labels p1) (key A POperate ''pod-delete'') = mget (p_labels p) (key A POperate ''pod-delete'')"
    "\<And>l. l \<in> {replIndL A, replOriginL A, instIdL A} \<Longrightarrow> mget (p_labels p1) l = mget (p_labels p) l"
  proof -
    have "p_owners p1 = p_owners p \<and> p_ns p1 = p_ns p \<and> controllerKey p1 = controllerKey p
      \<and> mget (p_labels p1) (key A POperate ''pod-delete'') = mget (p_labels p) (key A POperate ''pod-delete'')
      \<and> (\<forall>l \<in> {replIndL A, replOriginL A, instIdL A}. mget (p_labels p1) l = mget (p_labels p) l)"
    proof (cases "p1 = p")
      case False
      with p1 obtain u where b: "Begin A stamp (pd_cl C) ?ad [] p w = (Inr (u, p1), w1)" by blast
      from begin_effect [OF assms(1) b g] begin_keeps(1,2) [OF assms(1) b] show ?thesis
        by (auto simp: begin_keeps(3) [OF assms(1) b])
    qed simp
    then show "p_owners p1 = p_owners p" "p_ns p1 = p_ns p" "controllerKey p1 = controllerKey p"
      "mget (p_labels p1) (key A POperate ''pod-delete'') = mget (p_labels p) (key A POperate ''pod-delete'')"
      "\<And>l. l \<in> {replIndL A, replOriginL A, instIdL A} \<Longrightarrow> mget (p_labels p1) l = mget (p_labels p) l" by blast+
  qed
  from assms(3) have "claims w' k \<noteq> claims w1 k" by (simp add: c1)
  then obtain ow c v w2 where f: "snd (AllowOps A 0 ?ad 0 p1)" "goes w' (controllerKey p1)"
    "mhas (p_labels p1) (replIndL A) \<or> mhas (p_labels p1) (replOriginL A)" "ow \<in> set (p_owners p1)" "o_kind ow = ''CollaSet''"
    "pd_cls C w2 (p_ns p1) (o_name ow) = Inr c" "claims w1 k = Some v" "v_ns v = co_ns c" "ownedBy (co_uid c) v"
    "mgetd (v_labels v) (instIdL A) = mgetd (p_labels p1) (instIdL A)"
    by (rule deletePod_claims [OF d]) (rule that, assumption+)
  have "mhas (p_labels p) (key A POperate ''pod-delete'')"
    using f(1) same(4) by (simp add: AllowOps_snd mhas_def PodDeleteOpsLifecycleAdapter_def)
  then show ?thesis
    using g f same pk c1 by (intro exI [of _ p] exI [of _ ow] exI [of _ c] exI [of _ v] exI [of _ w2]) (simp add: mhas_def mgetd_def)
qed

end

interpretation memdc: deletion_server "mem_pdclient cls" "\<lambda>w. mget (fst w)" "\<lambda>w. mget (snd w)" for cls
proof (intro deletion_server.intro deletion_server_axioms.intro)
  show "pod_deleter (mem_pdclient cls) (\<lambda>w. mget (fst w))" by (rule memd.pod_deleter_axioms)
  show "claim_server (pd_vol (mem_pdclient cls)) (\<lambda>w. mget (snd w))" by (simp add: mem_pdclient_def memv.claim_server_axioms)
qed (auto simp: mem_pdclient_def mem_pods_def)

text \<open>C28: The controller takes a pod out of the cluster, or marks it as being deleted, only if it is the pod of the request, its
  expectations for the version it read are met and the webhook has granted the operation pod-delete.\<close>

theorem pod_deleted_only_with_permission:
  assumes "api_ok A" and "pod_deleter C objs" and "ReconcileDeletion A C stamp ns n ex (w, cx) = (r, ex', (w', cx'))"
    and "objs w k = Some q" and "\<not> p_deleting q" and "\<forall>q'. objs w' k = Some q' \<longrightarrow> p_deleting q'"
  shows "k = ns @ ''/'' @ n \<and> pd_satisfied C (ObjectKeyString q) (p_rv q) ex
    \<and> mhas (p_labels q) (key A POperate ''pod-delete'')"
  using pod_deleter.only_with_permission [OF assms(2,1,3-5)] assms(6) pod_deleter.goes_def [OF assms(2)] by blast

text \<open>C31: A run that succeeds on a pod that is not being deleted makes progress: afterwards the pod is gone or being deleted, or
  it is in the lifecycle pod-delete and only the permission to operate is missing.\<close>

theorem deletion_makes_progress:
  assumes "api_ok A" and "pod_deleter C objs" and "ReconcileDeletion A C stamp ns n ex (w, cx) = (None, ex', (w', cx'))"
    and "cl_get (pd_cl C) w ns n = Inr p" and "pd_satisfied C (ObjectKeyString p) (p_rv p) ex" and "\<not> p_deleting p"
  shows "(\<forall>q. objs w' (ns @ ''/'' @ n) = Some q \<longrightarrow> p_deleting q) \<or> (\<exists>q. objs w' (ns @ ''/'' @ n) = Some q
    \<and> IsDuringOps A (PodDeleteOpsLifecycleAdapter A stamp) q \<and> \<not> mhas (p_labels q) (key A POperate ''pod-delete''))"
  using pod_deleter.progress [OF assms(2,1,3-6)] pod_deleter.goes_def [OF assms(2)] by blast

text \<open>C29: The deletion controller touches a claim only together with its pod: the pod of the request may be deleted, is gone or being
  deleted afterwards and takes part in a replacement, and the claim belongs to the CollaSet that owns the pod and has the
  pod's instance id.\<close>

theorem deletion_takes_own_claims:
  assumes "api_ok A" and "deletion_server C objs claims" and "ReconcileDeletion A C stamp ns n ex (w, cx) = (r, ex', (w', cx'))"
    and "claims w' k \<noteq> claims w k"
  shows "\<exists>p ow c v w1. cl_get (pd_cl C) w ns n = Inr p \<and> mhas (p_labels p) (key A POperate ''pod-delete'')
    \<and> (\<forall>q. objs w' (ns @ ''/'' @ n) = Some q \<longrightarrow> p_deleting q)
    \<and> (mhas (p_labels p) (replIndL A) \<or> mhas (p_labels p) (replOriginL A))
    \<and> ow \<in> set (p_owners p) \<and> o_kind ow = ''CollaSet'' \<and> pd_cls C w1 ns (o_name ow) = Inr c
    \<and> claims w k = Some v \<and> v_ns v = co_ns c \<and> ownedBy (co_uid c) v
    \<and> mgetd (v_labels v) (instIdL A) = mgetd (p_labels p) (instIdL A)"
proof -
  have d: "pod_deleter C objs" using assms(2) by (simp add: deletion_server_def)
  show ?thesis using deletion_server.own_claims [OF assms(2,1,3,4)] unfolding pod_deleter.goes_def [OF d] .
qed

subsection \<open>The webhook\<close>

lemma markDeletion_key: "markDeletion A g now stamp p = Some q \<Longrightarrow> controllerKey q = controllerKey p"
  by (auto simp: markDeletion_def controllerKey_def split: if_splits)

lemma markDeletion_label: "markDeletion A g now stamp p = Some q \<Longrightarrow>
    mhas (p_labels q) (delIndL A) \<and> (\<forall>k. k \<noteq> delIndL A \<longrightarrow> mget (p_labels q) k = mget (p_labels p) k)"
  by (auto simp: markDeletion_def split: if_splits)

text \<open>The webhook admits the deletion of a pod exactly when it is switched off, the request is no deletion, the pod is not under
  control or has no service-ready gate, or the deletion lifecycle may operate; then it writes nothing.  When it denies
  the request, the only thing it writes is the label that asks for the deletion, with its time stamp, on that pod.\<close>

theorem grace_delete_decides:
  assumes "api_server C objs" and "GraceValidating A enabled g now stamp C old operation w = (r, w')"
  shows "(r = None \<longleftrightarrow> \<not> enabled \<or> operation \<noteq> DopDelete \<or> \<not> ControlledByKusionStack A old \<or> svcReadyGate A \<notin> set (p_gates old)
      \<or> IsDuringOps A (PodDeleteOpsLifecycleAdapter A stamp) old \<and> mhas (p_labels old) (key A POperate ''pod-delete''))
    \<and> (r = None \<longrightarrow> w' = w)
    \<and> (objs w' = objs w \<or> (\<exists>p q. objs w (controllerKey old) = Some p \<and> objs w' = (objs w)(controllerKey old \<mapsto> q)
         \<and> mhas (p_labels q) (delIndL A) \<and> (\<forall>k. k \<noteq> delIndL A \<longrightarrow> mget (p_labels q) k = mget (p_labels p) k)))"
proof -
  let ?f = "markDeletion A g now stamp"
  obtain e w1 where x: "cl_retry C (attempt C (cl_update C) (p_ns old) (p_name old) ?f) w = (e, w1)" by fastforce
  have eff: "objs w1 = objs w \<or> (\<exists>p q. objs w (controllerKey old) = Some p \<and> objs w1 = (objs w)(controllerKey old \<mapsto> q)
         \<and> mhas (p_labels q) (delIndL A) \<and> (\<forall>k. k \<noteq> delIndL A \<longrightarrow> mget (p_labels q) k = mget (p_labels p) k))"
  proof (cases "objs w1 = objs w")
    case False
    have "e = None \<and> api_server.wrote objs w w1 (p_ns old @ ''/'' @ p_name old)
        (\<lambda>p q. \<exists>q' rv. ?f p = Some q' \<and> q = q'\<lparr>p_rv := rv\<rparr>)"
      using api_server.retry_attempt [OF assms(1) disjI1 [OF refl] _ x] markDeletion_key False by blast
    then obtain p q' rv where p: "objs w (controllerKey old) = Some p" and q: "?f p = Some q'"
      and w1: "objs w1 = (objs w)(controllerKey old \<mapsto> q'\<lparr>p_rv := rv\<rparr>)"
      unfolding api_server.wrote_def [OF assms(1)] controllerKey_def by blast
    then show ?thesis using markDeletion_label [OF q] by (intro disjI2 exI [of _ p] exI [of _ "q'\<lparr>p_rv := rv\<rparr>"]) simp
  qed simp
  let ?adm = "\<not> enabled \<or> operation \<noteq> DopDelete \<or> \<not> ControlledByKusionStack A old \<or> svcReadyGate A \<notin> set (p_gates old)
      \<or> snd (AllowOps A now (PodDeleteOpsLifecycleAdapter A stamp) 0 old)"
  have al: "snd (AllowOps A now (PodDeleteOpsLifecycleAdapter A stamp) 0 old) \<longleftrightarrow>
      IsDuringOps A (PodDeleteOpsLifecycleAdapter A stamp) old \<and> mhas (p_labels old) (key A POperate ''pod-delete'')"
    by (simp add: AllowOps_snd PodDeleteOpsLifecycleAdapter_def)
  show ?thesis
  proof (cases ?adm)
    case True
    then have "r = None" "w' = w" using assms(2) by (auto simp: GraceValidating_def split: if_splits)
    with True show ?thesis by (simp add: al)
  next
    case False
    then have r: "r \<noteq> None" and w: "w' = w1"
      using assms(2) x by (cases e; auto simp: GraceValidating_def split: if_splits)+
    have "\<not> (r = None)" "\<not> ?adm" using r False by blast+
    then show ?thesis using eff unfolding w al by blast
  qed
qed

end
