(* ===== verification/PodDeletionExamples.thy ===== *)
theory PodDeletionExamples
  imports PodDeletion WebhookExamples
begin

text \<open>Runs of the deletion controller and of its webhook on the server in memory.\<close>

abbreviation "delBase \<equiv> [(delIndL api0, ''1'')]"
abbreviation "delReady \<equiv> [(key api0 POperating ''pod-delete'', ''1''), (key api0 POperationType ''pod-delete'', ''delete''),
  (key api0 POperate ''pod-delete'', ''1'')]"

text \<open>A CollaSet with one template, and its claims: one of instance 0, one of instance 1.\<close>

definition exTmpl :: pvc where
  "exTmpl = \<lparr>v_ns = [], v_name = ''data'', v_genName = [], v_labels = [], v_owners = [], v_deleting = False, v_rv = [], v_spec = ''1Gi''\<rparr>"

definition exOwner :: owner where
  "exOwner = \<lparr>o_kind = ''CollaSet'', o_api = ''apps.kusionstack.io/v1alpha1'', o_name = ''cs'', o_uid = ''u1'', o_ctrl = True\<rparr>"

definition exClsV :: collaset where
  "exClsV = noCollaSet\<lparr>co_ns := ''ns'', co_name := ''cs'', co_uid := ''u1'', co_vcts := [exTmpl],
     co_selector := Some \<lparr>se_labels = [(''app'', ''a'')], se_exprs = []\<rparr>\<rparr>"

definition exClaim :: "string \<Rightarrow> string \<Rightarrow> string \<Rightarrow> pvc" where
  "exClaim n i h = exTmpl\<lparr>v_ns := ''ns'', v_name := n, v_owners := [exOwner],
     v_labels := [(instIdL api0, i), (tmplHashL api0, h), (tmplL api0, ''data'')]\<rparr>"

definition exClaims :: "pvc gomap" where
  "exClaims = [(''ns/c0'', exClaim ''c0'' ''0'' ''h''), (''ns/c1'', exClaim ''c1'' ''1'' ''h'')]"

definition exget :: "string \<Rightarrow> gerr + collaset" where
  "exget n = (if n = ''cs'' then Inr exClsV else Inl NotFound)"

definition exdel :: "string gomap \<Rightarrow> gerr option \<times> rvstore \<times> (pod gomap \<times> pvc gomap) \<times> string list" where
  "exdel ls = ReconcileDeletion api0 (mem_pdclient exget) ''7'' ''ns'' ''p'' []
     (([(''ns/p'', (expod ls)\<lparr>p_owners := [exOwner]\<rparr>)], exClaims), [])"

abbreviation "exdelPods ls \<equiv> fst (fst (snd (snd (exdel ls))))"
abbreviation "exdelClaims ls \<equiv> snd (fst (snd (snd (exdel ls))))"

lemma exdel_eq: "ReconcileDeletion api0 (mem_pdclient exget) ''7'' ''ns'' ''p'' []
    (([(''ns/p'', (expod ls)\<lparr>p_owners := [exOwner]\<rparr>)], exClaims), [])
    = (fst (exdel ls), fst (snd (exdel ls)), (fst (snd (snd (exdel ls))), snd (snd (snd (exdel ls)))))"
  by (simp add: exdel_def)

lemma pod_deleted_only_with_permission_witness:
  "mget (exdelPods delReady) ''ns/p'' = None \<and> mhas (p_labels (expod delReady)) (key api0 POperate ''pod-delete'')"
proof -
  let ?p = "(expod delReady)\<lparr>p_owners := [exOwner]\<rparr>"
  have 1: "mget (fst ([(''ns/p'', ?p)], exClaims)) ''ns/p'' = Some ?p" by simp
  have 2: "\<not> p_deleting ?p" by code_simp
  have 3: "mget (exdelPods delReady) ''ns/p'' = None" by code_simp
  have 4: "\<forall>q'. mget (exdelPods delReady) ''ns/p'' = Some q' \<longrightarrow> p_deleting q'" using 3 by simp
  from pod_deleted_only_with_permission [OF api0_ok memd.pod_deleter_axioms, OF exdel_eq [of delReady] 1 2 4] 3
  show ?thesis by simp
qed

lemma deletion_makes_progress_witness:
  "(\<forall>q. mget (exdelPods delBase) ''ns/p'' = Some q \<longrightarrow> p_deleting q)
   \<or> (\<exists>q. mget (exdelPods delBase) ''ns/p'' = Some q
      \<and> IsDuringOps api0 (PodDeleteOpsLifecycleAdapter api0 ''7'') q \<and> \<not> mhas (p_labels q) (key api0 POperate ''pod-delete''))"
proof -
  let ?p = "(expod delBase)\<lparr>p_owners := [exOwner]\<rparr>"
  have 1: "fst (exdel delBase) = None" by code_simp
  have 2: "cl_get (pd_cl (mem_pdclient exget)) ([(''ns/p'', ?p)], exClaims) ''ns'' ''p'' = Inr ?p" by code_simp
  have 3: "\<not> p_deleting ?p" by code_simp
  have 4: "pd_satisfied (mem_pdclient exget) (ObjectKeyString ?p) (p_rv ?p) []"
    by (simp add: mem_pdclient_def)
  have 5: "''ns'' @ ''/'' @ ''p'' = ''ns/p''" by simp
  from deletion_makes_progress [OF api0_ok memd.pod_deleter_axioms, OF exdel_eq [of delBase, unfolded 1] 2 4 3]
  show ?thesis unfolding 5 .
qed

text \<open>The pod of instance 0, in a replacement, goes with the claim of instance 0.\<close>

abbreviation "delPair \<equiv> (replIndL api0, ''true'') # (instIdL api0, ''0'') # delReady"

lemma deletion_takes_own_claims_witness:
  "mget (exdelClaims delPair) ''ns/c0'' = None \<and> mget (exdelClaims delPair) ''ns/c1'' \<noteq> None
   \<and> pred_option p_deleting (mget (exdelPods delPair) (''ns'' @ ''/'' @ ''p''))"
proof -
  let ?w = "([(''ns/p'', (expod delPair)\<lparr>p_owners := [exOwner]\<rparr>)], exClaims)"
  have 1: "mget (exdelClaims delPair) ''ns/c0'' = None" "mget (exdelClaims delPair) ''ns/c1'' \<noteq> None" by code_simp+
  have "mget (snd ?w) ''ns/c0'' \<noteq> None" by code_simp
  with 1 have 2: "mget (snd (fst (snd (snd (exdel delPair))))) ''ns/c0'' \<noteq> mget (snd ?w) ''ns/c0''" by metis
  from deletion_takes_own_claims [OF api0_ok memdc.deletion_server_axioms, OF exdel_eq [of delPair] 2]
  have "pred_option p_deleting (mget (exdelPods delPair) (''ns'' @ ''/'' @ ''p''))"
    unfolding option.pred_set by (metis elem_set)
  with 1 show ?thesis by blast
qed

definition exgrace :: "gerr option \<times> pod gomap" where
  "exgrace = GraceValidating api0 True ''grace'' 9 ''9'' mem_client ((expod [])\<lparr>p_gates := [svcReadyGate api0]\<rparr>) DopDelete
     [(''ns/p'', expod [])]"

lemma grace_delete_decides_witness:
  "fst exgrace \<noteq> None \<and> mhas (p_labels (the (mget (snd exgrace) ''ns/p''))) (delIndL api0)"
proof -
  let ?old = "(expod [])\<lparr>p_gates := [svcReadyGate api0]\<rparr>"
  have 1: "GraceValidating api0 True ''grace'' 9 ''9'' mem_client ?old DopDelete [(''ns/p'', expod [])] = (fst exgrace, snd exgrace)"
    by (simp add: exgrace_def)
  have 2: "ControlledByKusionStack api0 ?old \<and> \<not> mhas (p_labels ?old) (key api0 POperate ''pod-delete'')" by code_simp
  have 3: "mhas (p_labels (the (mget (snd exgrace) ''ns/p''))) (delIndL api0)" by code_simp
  have 4: "svcReadyGate api0 \<in> set (p_gates ?old)" by simp
  have "fst exgrace \<noteq> None" using grace_delete_decides [OF mem.api_server_axioms, OF 1] 2 4 by blast
  with 3 show ?thesis by simp
qed

subsection \<open>Claims\<close>

text \<open>The CollaSet gets a second template; instance 0 has an old claim of the first one and a claim of one that is gone.\<close>

definition exClsW :: collaset where
  "exClsW = exClsV\<lparr>co_vcts := [exTmpl, exTmpl\<lparr>v_name := ''logs'', v_spec := ''2Gi''\<rparr>]\<rparr>"

definition exPodV :: pod where
  "exPodV = (expod [(instIdL api0, ''0'')])\<lparr>p_volumes := [(''tmp'', OtherSource ''empty'')]\<rparr>"

definition exWorldV :: "unit \<times> pvc gomap" where
  "exWorldV = ((), exClaims @ [(''ns/old'', (exClaim ''old'' ''0'' ''h'')\<lparr>v_labels := [(instIdL api0, ''0''), (tmplHashL api0, ''h''), (tmplL api0, ''gone'')]\<rparr>)])"

definition exListed :: "pvc list" where
  "exListed = (case GetFilteredPvcs memv_env exWorldV exClsW of Inr vs \<Rightarrow> vs | Inl _ \<Rightarrow> [])"

lemma exListed_run: "GetFilteredPvcs memv_env exWorldV exClsW = Inr exListed" by code_simp

text \<open>The hashes of the templates, the classes of the listed claims and the claims that are built.\<close>

abbreviation "exTmpl2 \<equiv> exTmpl\<lparr>v_name := ''logs'', v_spec := ''2Gi''\<rparr>"

lemma hash_data: "PvcTmpHash memv_env exTmpl = Inr ''1205191614''"
  by (simp add: PvcTmpHash_def memv_env_def exTmpl_def natStr.simps) code_simp

lemma hash_logs: "PvcTmpHash memv_env exTmpl2 = Inr ''399718873''"
  by (simp add: PvcTmpHash_def memv_env_def exTmpl_def natStr.simps) code_simp

lemma exHashes: "PvcTmpHashMapping memv_env (co_vcts exClsW) = Inr [(''data'', ''1205191614''), (''logs'', ''399718873'')]"
proof -
  have "co_vcts exClsW = [exTmpl, exTmpl2]" "v_name exTmpl = ''data''" "v_name exTmpl2 = ''logs''"
    by (simp_all add: exClsW_def exTmpl_def)
  then show ?thesis by (simp add: PvcTmpHashMapping_def hash_data hash_logs)
qed

definition exOld :: "pvc gomap" where
  "exOld = [(''data'', exClaim ''c0'' ''0'' ''h''), (''gone'', (exClaim ''old'' ''0'' ''h'')\<lparr>v_labels := [(instIdL api0, ''0''), (tmplHashL api0, ''h''), (tmplL api0, ''gone'')]\<rparr>)]"

lemma exClassify: "classifyPodPvcs api0 memv_env exClsW ''0'' exListed = Inr ([], exOld)"
proof -
  have "classifyLoop api0 exClsW ''0'' [(''data'', ''1205191614''), (''logs'', ''399718873'')] exListed ([], []) = Inr ([], exOld)"
    by code_simp
  then show ?thesis by (simp add: classifyPodPvcs_def exHashes)
qed

definition exBuilt :: "string \<Rightarrow> string \<Rightarrow> string \<Rightarrow> pvc" where
  "exBuilt t spec h = exTmpl\<lparr>v_genName := ''cs-'' @ t @ ''-'', v_name := [], v_ns := ''ns'', v_owners := [exOwner], v_spec := spec,
     v_labels := [(''app'', ''a''), (ctrlByL api0, ''true''), (tmplHashL api0, h), (instIdL api0, ''0''), (tmplL api0, t)]\<rparr>"

lemma exBuild:
  "BuildPvcWithHash api0 memv_env exClsW exTmpl ''0'' = Inr (exBuilt ''data'' ''1Gi'' ''1205191614'')"
  "BuildPvcWithHash api0 memv_env exClsW exTmpl2 ''0'' = Inr (exBuilt ''logs'' ''2Gi'' ''399718873'')"
proof -
  have c: "co_selector exClsW = Some \<lparr>se_labels = [(''app'', ''a'')], se_exprs = []\<rparr>" "co_name exClsW = ''cs''" "co_ns exClsW = ''ns''"
    "co_uid exClsW = ''u1''" by (simp_all add: exClsW_def exClsV_def)
  show "BuildPvcWithHash api0 memv_env exClsW exTmpl ''0'' = Inr (exBuilt ''data'' ''1Gi'' ''1205191614'')"
    by (simp add: BuildPvcWithHash_def c hash_data) (simp add: exBuilt_def exTmpl_def exOwner_def api0_def)
  show "BuildPvcWithHash api0 memv_env exClsW exTmpl2 ''0'' = Inr (exBuilt ''logs'' ''2Gi'' ''399718873'')"
    by (simp add: BuildPvcWithHash_def c hash_logs) (simp add: exBuilt_def exTmpl_def exOwner_def api0_def)
qed

text \<open>The two claims that are created, one after the other.\<close>

definition exNew1 :: "(gerr + pvc) \<times> unit \<times> pvc gomap" where
  "exNew1 = memv_create (exBuilt ''data'' ''1Gi'' ''1205191614'') exWorldV"

definition exNew2 :: "(gerr + pvc) \<times> unit \<times> pvc gomap" where
  "exNew2 = memv_create (exBuilt ''logs'' ''2Gi'' ''399718873'') (snd exNew1)"

definition exMade :: pod where
  "exMade = exPodV\<lparr>p_volumes := [(''data'', Claim (v_name (projr (fst exNew1)))), (''logs'', Claim (v_name (projr (fst exNew2)))),
     (''tmp'', OtherSource ''empty'')]\<rparr>"

lemma exCreated_run: "CreatePodPvcs api0 memv_env exClsW exPodV exListed (exWorldV, [])
    = (Inr exMade, (snd exNew2, [v_name (projr (fst exNew2)), v_name (projr (fst exNew1))]))"
proof -
  have t: "co_vcts exClsW = [exTmpl, exTmpl2]" "v_name exTmpl = ''data''" "v_name exTmpl2 = ''logs''"
    by (simp_all add: exClsW_def exTmpl_def)
  have n: "memv_create (exBuilt ''data'' ''1Gi'' ''1205191614'') exWorldV = (Inr (projr (fst exNew1)), snd exNew1)"
    "memv_create (exBuilt ''logs'' ''2Gi'' ''399718873'') (snd exNew1) = (Inr (projr (fst exNew2)), snd exNew2)"
    unfolding exNew1_def exNew2_def by (simp_all add: memv_create_def Let_def)
  have e: "ve_create memv_env = (memv_create :: pvc \<Rightarrow> unit \<times> pvc gomap \<Rightarrow> _)" "ve_expCreate memv_env = (\<lambda>k ns n ex. (None, n # ex))"
    "ve_order memv_env = (\<lambda>m. m)" by (simp_all add: memv_env_def)
  have "provisionLoop api0 memv_env exClsW ''0'' [exTmpl, exTmpl2] [] (exWorldV, [])
    = (Inr [(''data'', projr (fst exNew1)), (''logs'', projr (fst exNew2))],
       (snd exNew2, [v_name (projr (fst exNew2)), v_name (projr (fst exNew1))]))"
    using t(2,3) by (simp add: exBuild e n)
  then have "provisionUpdatedPvc api0 memv_env exClsW ''0'' exListed (exWorldV, [])
    = (Inr [(''data'', projr (fst exNew1)), (''logs'', projr (fst exNew2))],
       (snd exNew2, [v_name (projr (fst exNew2)), v_name (projr (fst exNew1))]))"
    by (simp add: provisionUpdatedPvc_def exClassify t)
  moreover have "mget (p_labels exPodV) (instIdL api0) = Some ''0''" "p_volumes exPodV = [(''tmp'', OtherSource ''empty'')]"
    by code_simp (simp add: exPodV_def)
  ultimately show ?thesis by (simp add: CreatePodPvcs_def e exMade_def)
qed

lemma exClsW_ok: "distinct (map v_name (co_vcts exClsW))" "\<forall>t \<in> set (co_vcts exClsW). \<not> v_deleting t"
  "mget (p_labels exPodV) (instIdL api0) = Some ''0''"
  by code_simp+

lemma claims_provisioned_witness:
  "list_all (\<lambda>t. \<exists>v. {src. (v_name t, src) \<in> set (p_volumes exMade)} = {Claim (v_name v)}
      \<and> mget (snd (snd exNew2)) (pvcKey v) = Some v) (co_vcts exClsW)
   \<and> length (snd (snd exNew2)) = length exClaims + 3"
proof -
  have "length (snd (snd exNew2)) = length exClaims + 3" by code_simp
  with claims_provisioned [OF memv.claim_server_axioms api0_ok exClsW_ok exListed_run exCreated_run]
  show ?thesis unfolding list_all_iff by blast
qed

definition exRelisted :: "pvc list" where
  "exRelisted = projr (GetFilteredPvcs memv_env (snd exNew2) exClsW)"

lemma created_pod_is_current_witness:
  "IsPodPvcTmpChanged api0 (memv_env :: (unit \<times> pvc gomap, string list) venv) exClsW exMade exRelisted = Inr False"
proof -
  have v: "\<forall>(n, src) \<in> set (p_volumes exPodV). n \<notin> v_name ` set (co_vcts exClsW) \<longrightarrow> (\<forall>v. src \<noteq> Claim v)"
    by (simp add: exPodV_def)
  have r: "GetFilteredPvcs memv_env (snd exNew2) exClsW = Inr exRelisted"
    by (simp add: exRelisted_def GetFilteredPvcs_def memv_env_def)
  show ?thesis
    by (rule created_pod_is_current [OF memv.claim_server_axioms api0_ok exClsW_ok exListed_run exCreated_run v r])
qed



text \<open>A pod without an instance id takes a claim without one.\<close>

definition exStray :: "unit \<times> pvc gomap" where
  "exStray = ((), [(''ns/s'', (exClaim ''s'' ''0'' ''h'')\<lparr>v_labels := [(''app'', ''a'')]\<rparr>)])"

definition exTaken :: "gerr option \<times> (unit \<times> pvc gomap) \<times> string list" where
  "exTaken = DeletePodPvcs api0 memv_env exClsW (expod [(''app'', ''a'')]) (map snd (snd exStray)) (exStray, [])"

lemma pod_claims_deleted_witness:
  "\<forall>v \<in> snd ` set (snd exStray). gone (mget (snd (fst (snd exTaken))) (pvcKey v))"
proof -
  have r: "DeletePodPvcs api0 memv_env exClsW (expod [(''app'', ''a'')]) (map snd (snd exStray)) (exStray, [])
      = (None, (fst (snd exTaken), snd (snd exTaken)))" by code_simp
  have l: "p_labels (expod [(''app'', ''a'')]) \<noteq> []" by code_simp
  have v: "\<forall>v \<in> set (map snd (snd exStray)). v_labels v \<noteq> [] \<and> mget (v_labels v) (instIdL api0) = mget (p_labels (expod [(''app'', ''a'')])) (instIdL api0)"
    by code_simp
  from pod_claims_deleted [OF memv.claim_server_axioms r l] v show ?thesis by auto
qed

end
