(* ===== verification/OpsCore.thy ===== *)
theory OpsCore
  imports LifecycleOps SlowStart Expectations "HOL-Library.Product_Lexorder" "HOL-Library.Word"
begin

unbundle bit_operations_syntax

text \<open>
  \<^verbatim>\<open>pkg/controllers/operationjob/opscore\<close> and \<^verbatim>\<open>operationjob/utils\<close>: the targets of an OperationJob, their
  progress, the registry of actions and the lifecycle of an operation, with \<^verbatim>\<open>apis/apps/v1alpha1/helper.go\<close>,
  \<^verbatim>\<open>controllers/utils/error.go\<close> and \<^verbatim>\<open>controllers/utils/timestamp.go\<close>.

  A candidate owns its status here.  In the code it points into the status of the job, which nobody reads before
  it is calculated anew; two candidates share a status only if two targets have one name, which the
  validating webhook refuses.  Times are nanoseconds.
\<close>

subsection \<open>Errors and times\<close>

fun aggregate :: "gerr option list \<Rightarrow> gerr option \<Rightarrow> gerr option" where
  "aggregate [] agg = agg"
| "aggregate (None # es) agg = aggregate es agg"
| "aggregate (Some e # es) None = aggregate es (Some e)"
| "aggregate (Some e # es) (Some a) = aggregate es (Some (Err (errText a @ ''; '' @ errText e)))"

fun AggregateErrors :: "gerr option list \<Rightarrow> gerr option" where
  "AggregateErrors [] = None"
| "AggregateErrors [e] = e"
| "AggregateErrors es = aggregate es None"

lemma aggregate_None: "aggregate es agg = None \<longleftrightarrow> agg = None \<and> set es \<subseteq> {None}"
  by (induction es agg rule: aggregate.induct) auto

lemma AggregateErrors_None [simp]: "AggregateErrors es = None \<longleftrightarrow> set es \<subseteq> {None}"
  by (cases es rule: AggregateErrors.cases) (auto simp: aggregate_None)

definition FormatTimeNow :: "int \<Rightarrow> int" where
  "FormatTimeNow now = now - now mod 1000000000"

subsection \<open>Jobs and candidates\<close>

datatype oprogress = OpUnset | OpPending | OpProcessing | OpFailed | OpSucceeded

record opstatus =
  op_name :: string
  op_prog :: oprogress
  op_start :: "int option"
  op_end :: "int option"
  op_err :: "(string \<times> string) option"
  op_extra :: "string gomap"

record jobstatus =
  js_start :: "int option"
  js_end :: "int option"
  js_prog :: oprogress
  js_observed :: int
  js_total :: int
  js_succeeded :: int
  js_failed :: int
  js_details :: "opstatus list"

record optarget =
  tg_name :: string
  tg_containers :: "string list"

record ojob =
  oj_ns :: string
  oj_name :: string
  oj_rv :: string
  oj_generation :: int
  oj_deleting :: bool
  oj_finalizers :: "string list"
  oj_action :: string
  oj_partition :: "int option"
  oj_targets :: "optarget list"
  oj_deadline :: "int option"
  oj_ttl :: "int option"
  oj_delay :: "int option"
  oj_status :: jobstatus

record candidate =
  ca_idx :: int
  ca_pod :: "pod option"
  ca_podName :: string
  ca_containers :: "string list"
  ca_status :: opstatus

definition setProgress :: "oprogress \<Rightarrow> candidate \<Rightarrow> candidate" where
  "setProgress x c = c\<lparr>ca_status := (ca_status c)\<lparr>op_prog := x\<rparr>\<rparr>"

definition setExtra :: "string gomap \<Rightarrow> candidate \<Rightarrow> candidate" where
  "setExtra m c = c\<lparr>ca_status := (ca_status c)\<lparr>op_extra := m\<rparr>\<rparr>"

abbreviation caProg :: "candidate \<Rightarrow> oprogress" where
  "caProg c \<equiv> op_prog (ca_status c)"

definition IsCandidateOpsPending :: "candidate \<Rightarrow> bool" where
  "IsCandidateOpsPending c \<longleftrightarrow> caProg c = OpUnset \<or> caProg c = OpPending"

definition IsCandidateOpsFinished :: "candidate \<Rightarrow> bool" where
  "IsCandidateOpsFinished c \<longleftrightarrow> caProg c = OpFailed \<or> caProg c = OpSucceeded"

definition IsCandidateOpsFailed :: "candidate \<Rightarrow> bool" where
  "IsCandidateOpsFailed c \<longleftrightarrow> caProg c = OpFailed"

definition ExtraInfoReleased :: string where
  "ExtraInfoReleased = ''Released''"

definition IsCandidateOpsReleased :: "candidate \<Rightarrow> bool" where
  "IsCandidateOpsReleased c \<longleftrightarrow> mget (op_extra (ca_status c)) ExtraInfoReleased = Some ''true''"

definition IsCandidateServiceAvailable :: "api \<Rightarrow> candidate \<Rightarrow> bool" where
  "IsCandidateServiceAvailable A c = (case ca_pod c of None \<Rightarrow> False | Some p \<Rightarrow> mhas (p_labels p) (svcAvailL A))"

definition MarkCandidateFailed :: "candidate \<Rightarrow> candidate" where
  "MarkCandidateFailed c = (if caProg c \<noteq> OpSucceeded then setProgress OpFailed c else c)"

definition MarkCandidateReleased :: "candidate \<Rightarrow> candidate" where
  "MarkCandidateReleased c = setExtra (mput ExtraInfoReleased ''true'' (op_extra (ca_status c))) c"

definition SetOpsStatusError :: "string \<Rightarrow> string \<Rightarrow> candidate \<Rightarrow> candidate" where
  "SetOpsStatusError reason message c =
     c\<lparr>ca_status := (ca_status c)\<lparr>op_err := if reason = [] \<and> message = [] then None else Some (reason, message)\<rparr>\<rparr>"

definition IsJobFinished :: "jobstatus \<Rightarrow> bool" where
  "IsJobFinished st \<longleftrightarrow> js_prog st = OpSucceeded \<or> js_prog st = OpFailed"

definition MapOpsStatusByPod :: "ojob \<Rightarrow> opstatus gomap" where
  "MapOpsStatusByPod j = fold (\<lambda>st. mput (op_name st) st) (js_details (oj_status j)) []"

subsection \<open>The candidates that the partition lets start\<close>

text \<open>The slice is sorted in place: the caller sees its candidates in the new order.  The second component is the
  number of candidates that are selected; slicing with a negative bound panics.\<close>

definition startOrder :: "candidate list \<Rightarrow> candidate list" where
  "startOrder cs = sort_key (\<lambda>c. (IsCandidateOpsPending c, ca_idx c)) cs"

definition DecideCandidateByPartition :: "ojob \<Rightarrow> candidate list \<Rightarrow> gerr + candidate list \<times> nat" where
  "DecideCandidateByPartition j cs =
     (case oj_partition j of
        None \<Rightarrow> Inr (cs, length cs)
      | Some n \<Rightarrow>
          if n \<ge> int (length cs) then Inr (startOrder cs, length cs)
          else if n < 0 then Inl (Panic ''slice bounds out of range'')
          else Inr (startOrder cs, nat n))"

subsection \<open>The lifecycle of an operation\<close>

text \<open>FNV-1a of 32 bits, and \<open>%#x\<close>.\<close>

fun fnv32a :: "string \<Rightarrow> 32 word \<Rightarrow> 32 word" where
  "fnv32a [] h = h"
| "fnv32a (c # cs) h = fnv32a cs ((h XOR word_of_nat (of_char c)) * 16777619)"

definition hexDigit :: "nat \<Rightarrow> char" where
  "hexDigit n = (if n < 10 then char_of (48 + n) else char_of (87 + n))"

fun hexStr :: "nat \<Rightarrow> string" where
  "hexStr n = (if n < 16 then [hexDigit n] else hexStr (n div 16) @ [hexDigit (n mod 16)])"

declare hexStr.simps [simp del]

definition GenerateLifecycleID :: "string \<Rightarrow> string" where
  "GenerateLifecycleID v = (if length v > 63 then ''0x'' @ hexStr (unat (fnv32a v 2166136261)) else v)"

definition NewLifecycleAdapter :: "string \<Rightarrow> string \<Rightarrow> adapter" where
  "NewLifecycleAdapter ojName lifecycleType = GenericLifecycleAdapter (GenerateLifecycleID ojName) lifecycleType"

record 'w ostate =
  os_w :: 'w
  os_exp :: rvstore

definition expectPod :: "int \<Rightarrow> bool \<Rightarrow> pod \<Rightarrow> rvstore \<Rightarrow> rvstore" where
  "expectPod now updated p ex = (if updated then rvExpectUpdate (ObjectKeyString p) (p_rv p) now ex else ex)"

definition BeginOperateLifecycle :: "api \<Rightarrow> 'w client \<Rightarrow> int \<Rightarrow> string \<Rightarrow> adapter \<Rightarrow> pod option \<Rightarrow> 'w ostate
    \<Rightarrow> (gerr + bool \<times> pod option) \<times> 'w ostate" where
  "BeginOperateLifecycle A C now stamp ad po s =
     (case po of
        None \<Rightarrow> (Inr (False, None), s)
      | Some p \<Rightarrow>
          (case NumOfLifecycleOnPod A (Some p) of
             Inl e \<Rightarrow> (Inl e, s)
           | Inr n \<Rightarrow>
               if n > 0 then (Inr (False, Some p), s)
               else (case Begin A stamp C ad [] p (os_w s) of
                       (Inl e, w1) \<Rightarrow> (Inl e, s\<lparr>os_w := w1\<rparr>)
                     | (Inr (updated, p1), w1) \<Rightarrow>
                         (Inr (True, Some p1), s\<lparr>os_w := w1, os_exp := expectPod now updated p1 (os_exp s)\<rparr>))))"

definition FinishOperateLifecycle :: "api \<Rightarrow> 'w client \<Rightarrow> int \<Rightarrow> adapter \<Rightarrow> pod option \<Rightarrow> 'w ostate
    \<Rightarrow> (gerr + pod option) \<times> 'w ostate" where
  "FinishOperateLifecycle A C now ad po s =
     (case po of
        None \<Rightarrow> (Inr None, s)
      | Some p \<Rightarrow>
          (case Finish A C ad [] p (os_w s) of
             (Inl e, w1) \<Rightarrow> (Inl e, s\<lparr>os_w := w1\<rparr>)
           | (Inr (updated, p1), w1) \<Rightarrow>
               (Inr (Some p1), s\<lparr>os_w := w1, os_exp := expectPod now updated p1 (os_exp s)\<rparr>)))"

definition CancelOpsLifecycle :: "api \<Rightarrow> 'w client \<Rightarrow> adapter \<Rightarrow> pod option \<Rightarrow> 'w ostate
    \<Rightarrow> (gerr + pod option) \<times> 'w ostate" where
  "CancelOpsLifecycle A C ad po s =
     (case po of
        None \<Rightarrow> (Inr None, s)
      | Some p \<Rightarrow>
          (case IsLifecycleOnPod A (GetID ad) (Some p) of
             Inl e \<Rightarrow> (Inl e, s)
           | Inr False \<Rightarrow> (Inr (Some p), s)
           | Inr True \<Rightarrow>
               (case Undo A C ad p (os_w s) of
                  (Inl e, w1) \<Rightarrow> (Inl e, s\<lparr>os_w := w1\<rparr>)
                | (Inr p1, w1) \<Rightarrow> (Inr (Some p1), s\<lparr>os_w := w1\<rparr>))))"

subsection \<open>Actions\<close>

text \<open>The Go interface \<open>ActionHandler\<close>.  A handler may change the candidates that it is given; it returns the errors by
  the name of the pod.\<close>

datatype aprogress = ActionProcessing | ActionFailed | ActionSucceeded

record 'w ohandler =
  oh_operate :: "candidate list \<Rightarrow> ojob \<Rightarrow> 'w \<Rightarrow> gerr option gomap \<times> candidate list \<times> 'w"
  oh_progress :: "candidate \<Rightarrow> ojob \<Rightarrow> 'w \<Rightarrow> (aprogress \<times> gerr option) \<times> candidate \<times> 'w"
  oh_release :: "candidate list \<Rightarrow> ojob \<Rightarrow> 'w \<Rightarrow> gerr option gomap \<times> candidate list \<times> 'w"

record 'w oregistry =
  ActionRegistry :: "'w ohandler gomap"
  EnablePodOpsLifecycleRegistry :: "bool gomap"

definition RegisterAction :: "string \<Rightarrow> 'w ohandler \<Rightarrow> bool \<Rightarrow> 'w oregistry \<Rightarrow> 'w oregistry" where
  "RegisterAction action h enable R =
     R\<lparr>ActionRegistry := mput action h (ActionRegistry R),
       EnablePodOpsLifecycleRegistry := mput action enable (EnablePodOpsLifecycleRegistry R)\<rparr>"

definition GetActionResources :: "'w oregistry \<Rightarrow> string \<Rightarrow> 'w ohandler option \<times> bool" where
  "GetActionResources R action =
     (mget (ActionRegistry R) action,
      case mget (EnablePodOpsLifecycleRegistry R) action of None \<Rightarrow> False | Some b \<Rightarrow> b)"

subsection \<open>A call for every target\<close>

text \<open>The code runs one closure per target with \<open>SlowStartBatch\<close>; the closure for the index \<open>i\<close> works on the \<open>i\<close>-th
  candidate and on what the closures share.\<close>

definition batchCall :: "('c \<Rightarrow> 's \<Rightarrow> gerr option \<times> 'c \<times> 's) \<Rightarrow> ('c list \<times> 's) call" where
  "batchCall step i got st =
     (let (cs, s) = st in
      if nat i < length cs
      then (let (e, c, s1) = step (cs ! nat i) s in (e, (cs[nat i := c], s1)))
      else (Some (Panic ''index out of range''), st))"

definition eachTarget :: "(int list \<Rightarrow> int list) \<Rightarrow> ('c \<Rightarrow> 's \<Rightarrow> gerr option \<times> 'c \<times> 's) \<Rightarrow> 'c list \<Rightarrow> 's
    \<Rightarrow> 'c list \<times> 's" where
  "eachTarget sched step cs s =
     snd (snd (SlowStartBatch sched (int (length cs)) SlowStartInitialBatchSize False (batchCall step) (cs, s)))"

text \<open>Every closure runs once, on the candidate as it was.\<close>

lemma batchCall_ignores: "ignoresErr (batchCall step)"
  by (simp add: ignoresErr_def batchCall_def fun_eq_iff)

lemma runBatch_each:
  assumes step: "\<And>c s e c' s'. c \<in> set cs \<Longrightarrow> I s \<Longrightarrow> step c s = (e, c', s') \<Longrightarrow> R c c' \<and> I s'"
  shows "runBatch (batchCall step) got is (ds, s) = (es, (ds', s')) \<Longrightarrow> distinct is \<Longrightarrow> length ds = length cs \<Longrightarrow>
    (\<forall>i \<in> set is. 0 \<le> i \<and> nat i < length cs \<and> ds ! nat i = cs ! nat i) \<Longrightarrow>
    (\<forall>j < length cs. int j \<notin> set is \<longrightarrow> R (cs ! j) (ds ! j)) \<Longrightarrow> I s \<Longrightarrow>
    length ds' = length cs \<and> (\<forall>j < length cs. R (cs ! j) (ds' ! j)) \<and> I s'"
proof (induction "is" arbitrary: ds s es ds' s')
  case (Cons i "is")
  let ?n = "nat i"
  have i: "0 \<le> i" "?n < length cs" "ds ! ?n = cs ! ?n" using Cons.prems(4) by auto
  obtain e c s1 where st: "step (cs ! ?n) s = (e, c, s1)" by (metis prod_cases3)
  have r: "R (cs ! ?n) c" "I s1" using step [OF _ Cons.prems(6) st] i by auto
  have call: "batchCall step i got (ds, s) = (e, (ds[?n := c], s1))"
    using Cons.prems(3) i st by (simp add: batchCall_def)
  obtain es1 where rest: "runBatch (batchCall step) got is (ds[?n := c], s1) = (es1, (ds', s'))"
    using Cons.prems(1) call by (auto simp: Let_def split: prod.splits)
  have other: "nat j \<noteq> ?n" if "j \<in> set is" for j
    using that Cons.prems(2,4) i by (metis distinct.simps(2) eq_nat_nat_iff list.set_intros(2))
  show ?case
  proof (rule Cons.IH [OF rest])
    show "\<forall>j \<in> set is. 0 \<le> j \<and> nat j < length cs \<and> ds[?n := c] ! nat j = cs ! nat j"
      using Cons.prems(4) other by (metis list.set_intros(2) nth_list_update_neq)
    show "\<forall>j < length cs. int j \<notin> set is \<longrightarrow> R (cs ! j) (ds[?n := c] ! j)"
      using Cons.prems(3,5) r i by (auto simp: nth_list_update)
  qed (use Cons.prems r in auto)
qed simp

lemma eachTarget_rel:
  assumes "schedules sched" and "I s"
    and step: "\<And>c s e c' s'. c \<in> set cs \<Longrightarrow> I s \<Longrightarrow> step c s = (e, c', s') \<Longrightarrow> R c c' \<and> I s'"
    and "eachTarget sched step cs s = (cs', s')"
  shows "list_all2 R cs cs' \<and> I s'"
proof -
  obtain order k es where run: "runsAs (batchCall step) False 1 (int (length cs)) 0 0 None (cs, s)
      (SlowStartBatch sched (int (length cs)) 1 False (batchCall step) (cs, s)) order k es"
    using SlowStartBatch_runs [OF batchCall_ignores assms(1) zero_less_one] by blast
  obtain a b where r: "SlowStartBatch sched (int (length cs)) 1 False (batchCall step) (cs, s) = (a, b, (cs', s'))"
    using assms(4) by (auto simp: eachTarget_def SlowStartInitialBatchSize_def prod_eq_iff)
  have o: "mset order = mset [0..int (length cs) - 1]" "runBatch (batchCall step) None order (cs, s) = (es, (cs', s'))"
    using run unfolding r runsAs_def by auto
  have d: "distinct order" using o(1) by (metis distinct_upto mset_eq_imp_distinct_iff)
  have se: "set order = {0..int (length cs) - 1}" using o(1) by (metis set_upto set_mset_mset)
  have "length cs' = length cs \<and> (\<forall>j < length cs. R (cs ! j) (cs' ! j)) \<and> I s'"
    by (rule runBatch_each [where I = I and R = R, OF step o(2) d]) (use se assms(2) in auto)
  then show ?thesis by (auto simp: list_all2_conv_all_nth)
qed

end
