(* ===== verification/OperationJob.thy ===== *)
theory OperationJob
  imports OpsCore Finalizers
begin

text \<open>
  \<^verbatim>\<open>pkg/controllers/operationjob/operationjob_controller.go\<close> and \<^verbatim>\<open>operationjob_manager.go\<close>: one reconciliation of an
  OperationJob, with \<^verbatim>\<open>event_handler.go\<close>.

  The record \<open>oenv\<close> is what a run is given: the client, the registered actions, the order in which concurrent
  closures take effect, and the time.  The closures of one batch share \<open>ostate\<close> and the accumulated error;
  they run one after the other here (in the code the assignments to the shared error are a data race).
  A candidate that leaves a sub-list changed is written back by its index, which is what sharing the pointer does.
\<close>

record 'w oclient =
  oc_cl :: "'w client"
  oc_job :: "'w \<Rightarrow> string \<Rightarrow> string \<Rightarrow> gerr + ojob"
  oc_update :: "ojob \<Rightarrow> 'w \<Rightarrow> (gerr + ojob) \<times> 'w"
  oc_updateStatus :: "ojob \<Rightarrow> 'w \<Rightarrow> (gerr + ojob) \<times> 'w"
  oc_delete :: "ojob \<Rightarrow> 'w \<Rightarrow> gerr option \<times> 'w"
  oc_retry :: "(ojob \<times> 'w \<Rightarrow> gerr option \<times> ojob \<times> 'w) \<Rightarrow> ojob \<times> 'w \<Rightarrow> gerr option \<times> ojob \<times> 'w"
  oc_protect :: string
  oc_addF :: "string \<Rightarrow> string list \<Rightarrow> string list"
  oc_removeF :: "string \<Rightarrow> string list \<Rightarrow> string list"

record 'w oenv =
  oe_api :: api
  oe_c :: "'w oclient"
  oe_reg :: "'w oregistry"
  oe_sched :: "int list \<Rightarrow> int list"
  oe_now :: int
  oe_stamp :: string
  oe_podNotFound :: string

definition jobKey :: "ojob \<Rightarrow> string" where
  "jobKey j = (if oj_ns j = [] then oj_name j else oj_ns j @ ''/'' @ oj_name j)"

definition putBack :: "candidate list \<Rightarrow> candidate list \<Rightarrow> candidate list" where
  "putBack cs changed = map (\<lambda>c. case find (\<lambda>d. ca_idx d = ca_idx c) changed of None \<Rightarrow> c | Some d \<Rightarrow> d) cs"

definition getActionHandler :: "'w oenv \<Rightarrow> ojob \<Rightarrow> gerr + 'w ohandler \<times> bool" where
  "getActionHandler E j =
     (case GetActionResources (oe_reg E) (oj_action j) of
        (None, _) \<Rightarrow> Inl (Err ''unsupported operation type'')
      | (Some h, enable) \<Rightarrow> Inr (h, enable))"

subsection \<open>Targets\<close>

definition targetCandidate :: "opstatus gomap \<Rightarrow> int \<Rightarrow> optarget \<Rightarrow> pod option \<Rightarrow> candidate" where
  "targetCandidate sts idx t po =
     \<lparr>ca_idx = idx, ca_pod = po, ca_podName = tg_name t,
      ca_containers = (if tg_containers t = [] \<and> po \<noteq> None then map k_name (p_containers (the po)) else tg_containers t),
      ca_status = (case mget sts (tg_name t) of
                     Some st \<Rightarrow> st
                   | None \<Rightarrow> \<lparr>op_name = tg_name t, op_prog = OpPending, op_start = None, op_end = None, op_err = None, op_extra = []\<rparr>)\<rparr>"

fun listFrom :: "'w oenv \<Rightarrow> ojob \<Rightarrow> 'w \<Rightarrow> int \<Rightarrow> optarget list \<Rightarrow> gerr + candidate list" where
  "listFrom E j w idx [] = Inr []"
| "listFrom E j w idx (t # ts) =
     (case cl_get (oc_cl (oe_c E)) w (oj_ns j) (tg_name t) of
        Inl e \<Rightarrow>
          if e = NotFound then map_sum id (Cons (targetCandidate (MapOpsStatusByPod j) idx t None)) (listFrom E j w (idx + 1) ts)
          else Inl e
      | Inr p \<Rightarrow> map_sum id (Cons (targetCandidate (MapOpsStatusByPod j) idx t (Some p))) (listFrom E j w (idx + 1) ts))"

definition listTargets :: "'w oenv \<Rightarrow> ojob \<Rightarrow> 'w \<Rightarrow> gerr + candidate list" where
  "listTargets E j w = listFrom E j w 0 (oj_targets j)"

subsection \<open>Operating on the targets\<close>

record 'w obatch =
  ob_s :: "'w ostate"
  ob_allowed :: "candidate list"
  ob_err :: "gerr option"

definition startCandidate :: "int \<Rightarrow> candidate \<Rightarrow> candidate" where
  "startCandidate now c =
     (let c1 = setProgress OpProcessing c in
      if op_start (ca_status c1) = None then c1\<lparr>ca_status := (ca_status c1)\<lparr>op_start := Some (FormatTimeNow now)\<rparr>\<rparr> else c1)"

text \<open>The closure of \<open>filterAndOperateAllowOpsTargets\<close>; \<open>ob_allowed\<close> is the channel.\<close>

definition sendAllowed :: "bool \<Rightarrow> candidate \<Rightarrow> 'w obatch \<Rightarrow> gerr option \<times> candidate \<times> 'w obatch" where
  "sendAllowed allowed c b = (None, c, if allowed then b\<lparr>ob_allowed := ob_allowed b @ [c]\<rparr> else b)"

definition filterOne :: "'w oenv \<Rightarrow> bool \<Rightarrow> ojob \<Rightarrow> candidate \<Rightarrow> 'w obatch \<Rightarrow> gerr option \<times> candidate \<times> 'w obatch" where
  "filterOne E enable j c b =
     (if IsCandidateOpsFinished c then (None, c, b)
      else if enable \<and> ca_pod c = None
      then (None, SetOpsStatusError (oe_podNotFound E) ''failed to operate a non-exist pod'' (MarkCandidateFailed c), b)
      else (let A = oe_api E; now = oe_now E;
                ad = NewLifecycleAdapter (oj_name j) (oj_action j);
                isDuringOps = (enable \<and> IsDuringOps A ad (the (ca_pod c)));
                delay = (case oj_delay j of None \<Rightarrow> 0 | Some d \<Rightarrow> d);
                isAllowedOps = (\<not> enable \<or> snd (AllowOps A now ad delay (the (ca_pod c))))
            in if \<not> IsCandidateOpsPending c then sendAllowed isAllowedOps c b
               else if \<not> enable \<or> isDuringOps then sendAllowed isAllowedOps (startCandidate now c) b
               else (case BeginOperateLifecycle A (oc_cl (oe_c E)) now (oe_stamp E) ad (ca_pod c) (ob_s b) of
                       (Inl e, s1) \<Rightarrow> (Some e, c, b\<lparr>ob_s := s1, ob_err := AggregateErrors [ob_err b, Some e]\<rparr>)
                     | (Inr (updated, po), s1) \<Rightarrow>
                         if \<not> updated then (None, c\<lparr>ca_pod := po\<rparr>, b\<lparr>ob_s := s1\<rparr>)
                         else sendAllowed isAllowedOps (startCandidate now (c\<lparr>ca_pod := po\<rparr>)) (b\<lparr>ob_s := s1\<rparr>))))"

definition operateTargets :: "'w ohandler \<Rightarrow> candidate list \<Rightarrow> ojob \<Rightarrow> 'w \<Rightarrow> gerr option \<times> candidate list \<times> 'w" where
  "operateTargets h cs j w =
     (if cs = [] then (None, cs, w)
      else (case oh_operate h cs j w of (errMap, cs1, w1) \<Rightarrow> (AggregateErrors (map snd errMap), cs1, w1)))"

definition filterAndOperateAllowOpsTargets :: "'w oenv \<Rightarrow> 'w ohandler \<Rightarrow> bool \<Rightarrow> ojob \<Rightarrow> candidate list \<Rightarrow> 'w ostate
    \<Rightarrow> gerr option \<times> candidate list \<times> 'w ostate" where
  "filterAndOperateAllowOpsTargets E h enable j cs s =
     (case eachTarget (oe_sched E) (filterOne E enable j) cs \<lparr>ob_s = s, ob_allowed = [], ob_err = None\<rparr> of
        (cs1, b) \<Rightarrow>
          (case operateTargets h (ob_allowed b) j (os_w (ob_s b)) of
             (e, changed, w1) \<Rightarrow> (AggregateErrors [ob_err b, e], putBack cs1 changed, (ob_s b)\<lparr>os_w := w1\<rparr>)))"

subsection \<open>The lifecycle of a target\<close>

definition cleanCandidateOpsLifecycle :: "'w oenv \<Rightarrow> bool \<Rightarrow> ojob \<Rightarrow> candidate \<Rightarrow> 'w ostate
    \<Rightarrow> gerr option \<times> candidate \<times> 'w ostate" where
  "cleanCandidateOpsLifecycle E forced j c s =
     (case ca_pod c of
        None \<Rightarrow> (None, c, s)
      | Some p \<Rightarrow>
          (let A = oe_api E; C = oc_cl (oe_c E); ad = NewLifecycleAdapter (oj_name j) (oj_action j) in
           if forced
           then (case CancelOpsLifecycle A C ad (ca_pod c) s of
                   (Inl e, s1) \<Rightarrow> (Some e, c, s1)
                 | (Inr po, s1) \<Rightarrow> (None, c\<lparr>ca_pod := po\<rparr>, s1))
           else if IsDuringOps A ad p
           then (case FinishOperateLifecycle A C (oe_now E) ad (ca_pod c) s of
                   (Inl e, s1) \<Rightarrow> (Some e, c, s1)
                 | (Inr po, s1) \<Rightarrow> (None, c\<lparr>ca_pod := po\<rparr>, s1))
           else (None, c, s)))"

definition nextProgress :: "api \<Rightarrow> bool \<Rightarrow> aprogress \<Rightarrow> candidate \<Rightarrow> candidate" where
  "nextProgress A enable pr c =
     (case pr of
        ActionProcessing \<Rightarrow> setProgress OpProcessing c
      | ActionFailed \<Rightarrow> setProgress OpFailed c
      | ActionSucceeded \<Rightarrow>
          if enable then (if IsCandidateServiceAvailable A c then setProgress OpSucceeded c else c)
          else setProgress OpSucceeded c)"

definition addErr :: "gerr option \<Rightarrow> gerr option \<Rightarrow> gerr option" where
  "addErr agg e = (if e = None then agg else AggregateErrors [agg, e])"

definition cleanAfter :: "'w oenv \<Rightarrow> bool \<Rightarrow> aprogress \<Rightarrow> ojob \<Rightarrow> candidate \<Rightarrow> 'w ostate \<Rightarrow> gerr option \<times> candidate \<times> 'w ostate" where
  "cleanAfter E enable pr j c s =
     (if enable \<and> pr = ActionFailed then cleanCandidateOpsLifecycle E True j c s
      else if enable \<and> pr = ActionSucceeded then cleanCandidateOpsLifecycle E False j c s
      else (None, c, s))"

text \<open>The closure of \<open>getTargetsOpsStatus\<close>.\<close>

definition statusOne :: "'w oenv \<Rightarrow> 'w ohandler \<Rightarrow> bool \<Rightarrow> ojob \<Rightarrow> candidate \<Rightarrow> 'w ostate \<times> gerr option
    \<Rightarrow> gerr option \<times> candidate \<times> 'w ostate \<times> gerr option" where
  "statusOne E h enable j c st =
     (let (s, updateErr) = st in
      if IsCandidateOpsFinished c \<or> enable \<and> ca_pod c = None \<or> IsCandidateOpsPending c then (None, c, st)
      else (case oh_progress h c j (os_w s) of
              ((pr, e), c1, w1) \<Rightarrow>
                (let err1 = addErr updateErr e in
                 case cleanAfter E enable pr j c1 (s\<lparr>os_w := w1\<rparr>) of
                      (Some e', c2, s2) \<Rightarrow>
                        (Some e', SetOpsStatusError ''UpdateObjectFailed'' (errText e') c2, (s2, addErr err1 (Some e')))
                    | (None, c2, s2) \<Rightarrow> (e, nextProgress (oe_api E) enable pr c2, (s2, err1)))))"

definition getTargetsOpsStatus :: "'w oenv \<Rightarrow> 'w ohandler \<Rightarrow> bool \<Rightarrow> ojob \<Rightarrow> candidate list \<Rightarrow> 'w ostate
    \<Rightarrow> gerr option \<times> candidate list \<times> 'w ostate" where
  "getTargetsOpsStatus E h enable j cs s =
     (case eachTarget (oe_sched E) (statusOne E h enable j) cs (s, None) of (cs1, s1, updateErr) \<Rightarrow> (updateErr, cs1, s1))"

subsection \<open>The status of the job\<close>

definition endCandidate :: "int \<Rightarrow> candidate \<Rightarrow> candidate" where
  "endCandidate now c =
     (if op_end (ca_status c) = None \<and> IsCandidateOpsFinished c
      then c\<lparr>ca_status := (ca_status c)\<lparr>op_end := Some (FormatTimeNow now)\<rparr>\<rparr> else c)"

definition countProg :: "oprogress \<Rightarrow> opstatus list \<Rightarrow> int" where
  "countProg x ds = int (length (filter (\<lambda>d. op_prog d = x) ds))"

definition calculateStatus :: "'w oenv \<Rightarrow> ojob \<Rightarrow> candidate list \<Rightarrow> jobstatus \<times> candidate list" where
  "calculateStatus E j cs =
     (let now = FormatTimeNow (oe_now E); old = oj_status j;
          cs1 = map (endCandidate (oe_now E)) cs; ds = map ca_status cs1;
          totalPodCount = int (length ds); failed = countProg OpFailed ds;
          succeeded = countProg OpSucceeded ds; pending = countProg OpPending ds;
          st = \<lparr>js_start = js_start old, js_end = js_end old, js_prog = js_prog old, js_observed = oj_generation j,
                js_total = totalPodCount, js_succeeded = succeeded, js_failed = failed, js_details = ds\<rparr>;
          st1 = (if IsJobFinished st then st
                 else (let a = st\<lparr>js_prog := OpProcessing, js_start := (if js_start st = None then Some now else js_start st)\<rparr>;
                           b = (if pending = totalPodCount then a\<lparr>js_prog := OpPending\<rparr> else a)
                       in if succeeded + failed = totalPodCount
                          then b\<lparr>js_prog := (if failed > 0 then OpFailed else OpSucceeded),
                                 js_end := (if js_end b = None then Some now else js_end b)\<rparr>
                          else b))
      in (st1, cs1))"

text \<open>The retried closure writes the object that was read before the first attempt.\<close>

definition statusTry :: "'w oclient \<Rightarrow> jobstatus \<Rightarrow> ojob \<times> 'w \<Rightarrow> gerr option \<times> ojob \<times> 'w" where
  "statusTry C st ow =
     (let old1 = (fst ow)\<lparr>oj_status := st\<rparr> in
      case oc_updateStatus C old1 (snd ow) of
        (Inl e, w1) \<Rightarrow> (Some e, old1, w1)
      | (Inr old2, w1) \<Rightarrow> (None, old2, w1))"

definition updateStatus :: "'w oenv \<Rightarrow> ojob \<Rightarrow> 'w ostate \<Rightarrow> gerr option \<times> 'w ostate" where
  "updateStatus E j s =
     (let C = oe_c E in
      case oc_job C (os_w s) (oj_ns j) (oj_name j) of
        Inl e \<Rightarrow> (Some e, s)
      | Inr old \<Rightarrow>
          if oj_status old = oj_status j then (None, s)
          else (let ex1 = rvExpectUpdate (jobKey j) (oj_rv j) (oe_now E) (os_exp s) in
                case oc_retry C (statusTry C (oj_status j)) (old, os_w s) of
                  (Some e, _, w1) \<Rightarrow> (Some e, \<lparr>os_w = w1, os_exp = rvDeleteExpectations (jobKey j) ex1\<rparr>)
                | (None, _, w1) \<Rightarrow> (None, \<lparr>os_w = w1, os_exp = ex1\<rparr>)))"

definition writeJobStatus :: "'w oenv \<Rightarrow> ojob \<Rightarrow> candidate list \<Rightarrow> 'w ostate \<Rightarrow> gerr option \<times> ojob \<times> candidate list \<times> 'w ostate" where
  "writeJobStatus E j cs s =
     (case calculateStatus E j cs of
        (st, cs1) \<Rightarrow> (let j1 = j\<lparr>oj_status := st\<rparr> in case updateStatus E j1 s of (e, s1) \<Rightarrow> (e, j1, cs1, s1)))"

subsection \<open>Deadlines\<close>

text \<open>The loop over the started candidates: the time that the first one in time has left, or all the others failed.\<close>

fun deadlineLoop :: "int \<Rightarrow> int \<Rightarrow> candidate list \<Rightarrow> int option \<times> candidate list" where
  "deadlineLoop now deadline [] = (None, [])"
| "deadlineLoop now deadline (c # cs) =
     (case op_start (ca_status c) of
        None \<Rightarrow> (case deadlineLoop now deadline cs of (left, cs1) \<Rightarrow> (left, c # cs1))
      | Some t \<Rightarrow>
          if deadline * 1000000000 - (now - t) > 0 then (Some (deadline * 1000000000 - (now - t)), c # cs)
          else (case deadlineLoop now deadline cs of (left, cs1) \<Rightarrow> (left, MarkCandidateFailed c # cs1)))"

definition ttlStep :: "'w oenv \<Rightarrow> ojob \<Rightarrow> 'w ostate \<Rightarrow> (bool \<times> int option \<times> gerr option) \<times> 'w ostate" where
  "ttlStep E j s =
     (case (oj_ttl j, js_end (oj_status j)) of
        (Some ttl, Some t) \<Rightarrow>
          if IsJobFinished (oj_status j)
          then (let leftTime = ttl * 1000000000 - (oe_now E - t) in
                if leftTime > 0 then ((False, Some leftTime, None), s)
                else (case oc_delete (oe_c E) j (os_w s) of (e, w1) \<Rightarrow> ((True, None, e), s\<lparr>os_w := w1\<rparr>)))
          else ((False, None, None), s)
      | _ \<Rightarrow> ((False, None, None), s))"

definition ensureActiveDeadlineAndTTL :: "'w oenv \<Rightarrow> ojob \<Rightarrow> candidate list \<Rightarrow> 'w ostate
    \<Rightarrow> (bool \<times> int option \<times> gerr option) \<times> candidate list \<times> 'w ostate" where
  "ensureActiveDeadlineAndTTL E j cs s =
     (case (case oj_deadline j of None \<Rightarrow> (None, cs) | Some d \<Rightarrow> deadlineLoop (oe_now E) d cs) of
        (Some left, cs1) \<Rightarrow> ((False, Some left, None), cs1, s)
      | (None, cs1) \<Rightarrow> (case ttlStep E j s of (r, s1) \<Rightarrow> (r, cs1, s1)))"

subsection \<open>Releasing targets\<close>

text \<open>The closure of \<open>releaseTargets\<close> and the errors by name that the closures share.\<close>

definition releaseOne :: "'w oenv \<Rightarrow> bool \<Rightarrow> ojob \<Rightarrow> candidate \<Rightarrow> 'w ostate \<times> gerr option gomap
    \<Rightarrow> gerr option \<times> candidate \<times> 'w ostate \<times> gerr option gomap" where
  "releaseOne E enable j c st =
     (let (s, errs) = st;
          (c1, s1, errs1) =
            (if enable
             then (case cleanCandidateOpsLifecycle E True j c s of
                     (e, c1, s1) \<Rightarrow>
                       (c1, s1, mput (ca_podName c) (AggregateErrors [case mget errs (ca_podName c) of None \<Rightarrow> None | Some x \<Rightarrow> x, e]) errs))
             else (c, s, errs))
      in (None, if IsCandidateOpsFinished c1 then c1 else setProgress OpFailed c1, s1, errs1))"

definition markReleased :: "gerr option gomap \<Rightarrow> candidate \<Rightarrow> candidate" where
  "markReleased errs c =
     (if mget errs (ca_podName c) = None \<or> mget errs (ca_podName c) = Some None then MarkCandidateReleased c else c)"

definition releaseAll :: "'w oenv \<Rightarrow> ojob \<Rightarrow> candidate list \<Rightarrow> 'w ostate \<Rightarrow> gerr option \<times> candidate list \<times> 'w ostate" where
  "releaseAll E j cs s =
     (case getActionHandler E j of
        Inl e \<Rightarrow> (Some e, cs, s)
      | Inr (h, enable) \<Rightarrow>
          (case oh_release h cs j (os_w s) of
             (errs, cs1, w1) \<Rightarrow>
               (case eachTarget (oe_sched E) (releaseOne E enable j) cs1 (s\<lparr>os_w := w1\<rparr>, errs) of
                  (cs2, s2, errs2) \<Rightarrow> (AggregateErrors (map snd errs2), map (markReleased errs2) cs2, s2))))"

text \<open>The call of \<open>releaseTargets\<close> with \<open>needUpdateStatus\<close>; without it the call is \<open>releaseAll\<close>.\<close>

definition releaseTargets :: "'w oenv \<Rightarrow> ojob \<Rightarrow> candidate list \<Rightarrow> 'w ostate \<Rightarrow> gerr option \<times> ojob \<times> 'w ostate" where
  "releaseTargets E j cs s =
     (case getActionHandler E j of
        Inl e \<Rightarrow> (Some e, j, s)
      | Inr _ \<Rightarrow>
          (case releaseAll E j cs s of
             (releaseErr, cs1, s1) \<Rightarrow>
               (case writeJobStatus E j cs1 s1 of
                  (updateErr, j1, _, s2) \<Rightarrow> (AggregateErrors [releaseErr, updateErr], j1, s2))))"

definition ensureFailedTargetsReleased :: "'w oenv \<Rightarrow> ojob \<Rightarrow> candidate list \<Rightarrow> 'w ostate
    \<Rightarrow> gerr option \<times> ojob \<times> candidate list \<times> 'w ostate" where
  "ensureFailedTargetsReleased E j cs s =
     (let allow = filter (\<lambda>c. IsCandidateOpsFailed c \<and> \<not> IsCandidateOpsReleased c) cs in
      if allow = [] then (None, j, cs, s)
      else (case releaseAll E j allow s of
              (releaseErr, changed, s1) \<Rightarrow>
                (case writeJobStatus E j (putBack cs changed) s1 of
                   (updateErr, j1, cs1, s2) \<Rightarrow> (AggregateErrors [releaseErr, updateErr], j1, cs1, s2))))"

subsection \<open>Reconcile\<close>

definition requeueResult :: "int option \<Rightarrow> rresult" where
  "requeueResult t =
     (case t of
        None \<Rightarrow> noResult
      | Some d \<Rightarrow> if d = 0 then \<lparr>rr_requeue = True, rr_after = None\<rparr> else \<lparr>rr_requeue = False, rr_after = Some d\<rparr>)"

definition doReconcile :: "'w oenv \<Rightarrow> ojob \<Rightarrow> candidate list \<Rightarrow> 'w ostate \<Rightarrow> gerr option \<times> 'w ostate" where
  "doReconcile E j cs s =
     (case getActionHandler E j of
        Inl e \<Rightarrow> (Some e, s)
      | Inr (h, enable) \<Rightarrow>
          (case DecideCandidateByPartition j cs of
             Inl e \<Rightarrow> (Some e, s)
           | Inr (ordered, n) \<Rightarrow>
               (case filterAndOperateAllowOpsTargets E h enable j (take n ordered) s of
                  (opsErr, sel1, s1) \<Rightarrow>
                    (case getTargetsOpsStatus E h enable j sel1 s1 of
                       (getErr, sel2, s2) \<Rightarrow>
                         (case writeJobStatus E j (sel2 @ drop n ordered) s2 of
                            (updateErr, _, _, s3) \<Rightarrow> (AggregateErrors [opsErr, getErr, updateErr], s3))))))"

definition jobGet :: "'w oclient \<Rightarrow> 'w \<Rightarrow> ojob \<Rightarrow> gerr + ojob" where
  "jobGet C w j = oc_job C w (oj_ns j) (oj_name j)"

definition deleteJob :: "'w oenv \<Rightarrow> ojob \<Rightarrow> candidate list \<Rightarrow> 'w ostate \<Rightarrow> (gerr + rresult) \<times> 'w ostate" where
  "deleteJob E j cs s =
     (case releaseTargets E j cs s of
        (Some e, _, s1) \<Rightarrow> (Inl e, s1)
      | (None, j1, s1) \<Rightarrow>
          (let C = oe_c E in
           case RemoveFinalizer (oc_retry C) (oc_update C) (jobGet C)
                  (\<lambda>j. j\<lparr>oj_finalizers := oc_removeF C (oc_protect C) (oj_finalizers j)\<rparr>) j1 (os_w s1) of
             (r, _, w2) \<Rightarrow>
               (case r of None \<Rightarrow> Inr noResult | Some e \<Rightarrow> Inl e,
                \<lparr>os_w = w2, os_exp = rvDeleteExpectations (jobKey j) (os_exp s1)\<rparr>)))"

definition runJob :: "'w oenv \<Rightarrow> ojob \<Rightarrow> candidate list \<Rightarrow> 'w ostate \<Rightarrow> (gerr + rresult) \<times> 'w ostate" where
  "runJob E j cs s =
     (case ensureActiveDeadlineAndTTL E j cs s of
        ((jobDeleted, requeueAfter, err), cs1, s1) \<Rightarrow>
          if jobDeleted \<or> err \<noteq> None then (case err of None \<Rightarrow> Inr noResult | Some e \<Rightarrow> Inl e, s1)
          else (case ensureFailedTargetsReleased E j cs1 s1 of
                  (Some e, _, _, s2) \<Rightarrow> (Inl e, s2)
                | (None, j2, cs2, s2) \<Rightarrow>
                    (case doReconcile E j2 cs2 s2 of
                       (Some e, s3) \<Rightarrow> (Inl e, s3)
                     | (None, s3) \<Rightarrow> (Inr (requeueResult requeueAfter), s3))))"

definition liveJob :: "'w oenv \<Rightarrow> ojob \<Rightarrow> candidate list \<Rightarrow> 'w ostate \<Rightarrow> (gerr + rresult) \<times> 'w ostate" where
  "liveJob E j cs s =
     (let C = oe_c E in
      case AddFinalizer (oc_retry C) (oc_update C) (jobGet C)
             (\<lambda>j. j\<lparr>oj_finalizers := oc_addF C (oc_protect C) (oj_finalizers j)\<rparr>) j (os_w s) of
        (Some e, _, w1) \<Rightarrow> (Inl e, s\<lparr>os_w := w1\<rparr>)
      | (None, j1, w1) \<Rightarrow> runJob E j1 cs (s\<lparr>os_w := w1\<rparr>))"

definition ReconcileJob :: "'w oenv \<Rightarrow> string \<Rightarrow> string \<Rightarrow> 'w ostate \<Rightarrow> (gerr + rresult) \<times> 'w ostate" where
  "ReconcileJob E ns n s =
     (case oc_job (oe_c E) (os_w s) ns n of
        Inl e \<Rightarrow> (if e = NotFound then Inr noResult else Inl e, s)
      | Inr j \<Rightarrow>
          (case rvSatisfiedExpectations (jobKey j) (oj_rv j) (oe_now E) (os_exp s) of
             Inl e \<Rightarrow> (Inl e, s)
           | Inr False \<Rightarrow> (Inr \<lparr>rr_requeue = True, rr_after = None\<rparr>, s)
           | Inr True \<Rightarrow>
               (case listTargets E j (os_w s) of
                  Inl e \<Rightarrow> (Inl e, s)
                | Inr cs \<Rightarrow> if oj_deleting j then deleteJob E j cs s else liveJob E j cs s)))"

subsection \<open>Events\<close>

fun operatedByOperationJob :: "pod \<Rightarrow> ojob list \<Rightarrow> sset" where
  "operatedByOperationJob p [] = []"
| "operatedByOperationJob p (j # js) =
     (let rest = operatedByOperationJob p js in
      if p_name p \<in> tg_name ` set (oj_targets j) then sinsert (oj_name j) rest else rest)"

text \<open>\<open>jobs\<close> lists the jobs of a namespace; a failed list enqueues nothing.\<close>

definition EnqueueOperationJobFromPod :: "(string \<Rightarrow> gerr + ojob list) \<Rightarrow> (pod \<Rightarrow> ojob list \<Rightarrow> sset) \<Rightarrow> pod \<Rightarrow> (string \<times> string) list" where
  "EnqueueOperationJobFromPod jobs fn p =
     (case jobs (p_ns p) of Inl _ \<Rightarrow> [] | Inr js \<Rightarrow> map (\<lambda>n. (p_ns p, n)) (fn p js))"

text \<open>An update is handled for the pod as it was before.\<close>

fun onJobPodEvent :: "(string \<Rightarrow> gerr + ojob list) \<Rightarrow> (pod \<Rightarrow> ojob list \<Rightarrow> sset) \<Rightarrow> pod revent \<Rightarrow> (string \<times> string) list" where
  "onJobPodEvent jobs fn (RCreate p) = EnqueueOperationJobFromPod jobs fn p"
| "onJobPodEvent jobs fn (RDelete p) = EnqueueOperationJobFromPod jobs fn p"
| "onJobPodEvent jobs fn (RUpdate old p) = EnqueueOperationJobFromPod jobs fn old"
| "onJobPodEvent jobs fn (RGeneric p) = EnqueueOperationJobFromPod jobs fn p"

end
