(* ===== verification/OpsReplace.thy ===== *)
theory OpsReplace
  imports OperationJob
begin

text \<open>
  \<^verbatim>\<open>pkg/controllers/operationjob/replace\<close>: the action that replaces pods, its event handler, and
  \<^verbatim>\<open>UpdatePodWithRetry\<close> of \<^verbatim>\<open>operationjob/utils/common.go\<close>.

  The action labels the origin pod, which makes another controller create the new pod, and waits until the origin
  pod is gone and the new pod is available for service.  Reading the new pods by label and the names in the
  extra information come from outside the repository and are fields of the record \<open>rpenv\<close>.
\<close>

record 'w rpenv =
  rp_api :: api
  rp_cl :: "'w client"
  rp_list :: "'w \<Rightarrow> string \<Rightarrow> string \<Rightarrow> string \<Rightarrow> gerr + pod list"
  rp_sched :: "int list \<Rightarrow> int list"
  rp_newPodKey :: string
  rp_podNotFound :: string
  rp_action :: string
  rp_addF :: "string \<Rightarrow> string list \<Rightarrow> string list"
  rp_removeF :: "string \<Rightarrow> string list \<Rightarrow> string list"
  rp_retryP :: "(pod \<times> 'w \<Rightarrow> gerr option \<times> pod \<times> 'w) \<Rightarrow> pod \<times> 'w \<Rightarrow> gerr option \<times> pod \<times> 'w"

definition OperationJobReplacePodFinalizer :: string where
  "OperationJobReplacePodFinalizer = ''finalizer.operationjob.kusionstack.io/replace-protected''"

definition ExtraInfoNotAllowedToReplaceNewPod :: string where
  "ExtraInfoNotAllowedToReplaceNewPod = ''NotAllowedToReplaceNewPod''"

definition updateTry :: "'w client \<Rightarrow> string \<Rightarrow> string \<Rightarrow> (pod \<Rightarrow> gerr + pod) \<Rightarrow> 'w \<Rightarrow> gerr option \<times> 'w" where
  "updateTry C ns n f w =
     (case cl_get C w ns n of
        Inl e \<Rightarrow> (Some e, w)
      | Inr p \<Rightarrow>
          (case f p of
             Inl e \<Rightarrow> (Some e, w)
           | Inr p1 \<Rightarrow> (case cl_update C p1 w of (Inl e, w1) \<Rightarrow> (Some e, w1) | (Inr _, w1) \<Rightarrow> (None, w1))))"

definition UpdatePodWithRetry :: "'w client \<Rightarrow> pod \<Rightarrow> (pod \<Rightarrow> gerr + pod) \<Rightarrow> 'w \<Rightarrow> gerr option \<times> 'w" where
  "UpdatePodWithRetry C p f w = cl_retry C (updateTry C (p_ns p) (p_name p) f) w"

subsection \<open>Operate\<close>

text \<open>Without any labels the assignment to the nil map panics.\<close>

definition triggerReplace :: "'w rpenv \<Rightarrow> pod \<Rightarrow> gerr + pod" where
  "triggerReplace V p =
     (if p_labels p = [] then Inl (Panic ''assignment to entry in nil map'')
      else Inr (p\<lparr>p_labels := mput (replIndL (rp_api V)) ''true'' (p_labels p),
                  p_finalizers := rp_addF V OperationJobReplacePodFinalizer (p_finalizers p)\<rparr>))"

text \<open>The state of the closures: the errors by name, and the cluster.\<close>

definition stored :: "candidate \<Rightarrow> gerr option \<Rightarrow> candidate \<Rightarrow> gerr option gomap \<times> 'w
    \<Rightarrow> gerr option \<times> candidate \<times> gerr option gomap \<times> 'w" where
  "stored c e c1 st = (e, c1, mput (ca_podName c) e (fst st), snd st)"

definition replaceOne :: "'w rpenv \<Rightarrow> candidate \<Rightarrow> gerr option gomap \<times> 'w \<Rightarrow> gerr option \<times> candidate \<times> gerr option gomap \<times> 'w" where
  "replaceOne V c st =
     (case ca_pod c of
        None \<Rightarrow> stored c None c st
      | Some p \<Rightarrow>
          (let A = rp_api V; extra = op_extra (ca_status c) in
           if p_labels p = [] then stored c None c st
           else if mhas (p_labels p) (replOriginL A)
           then stored c None (setExtra (mput ExtraInfoNotAllowedToReplaceNewPod
                  (''Not allowed to replace pod when it is a new pod for origin pod ['' @ mgetd (p_labels p) (replOriginL A) @ '']'') extra) c) st
           else (let c1 = setExtra (mdel ExtraInfoNotAllowedToReplaceNewPod extra) c in
                 if mhas (p_labels p) (replIndL A) \<or> mhas (p_labels p) (replByUpdL A) \<or> mhas (p_labels p) (replNewIdL A)
                 then stored c None c1 st
                 else (case UpdatePodWithRetry (rp_cl V) p (triggerReplace V) (snd st) of
                         (None, w1) \<Rightarrow> stored c None c1 (fst st, w1)
                       | (Some e, w1) \<Rightarrow>
                           (let e1 = Err (''fail to add finalizer or replace indicate label: '' @ errText e) in
                            stored c (Some e1) (SetOpsStatusError ''UpdateObjectFailed'' (errText e1) c1) (fst st, w1))))))"

definition ReplaceOperateTargets :: "'w rpenv \<Rightarrow> candidate list \<Rightarrow> ojob \<Rightarrow> 'w \<Rightarrow> gerr option gomap \<times> candidate list \<times> 'w" where
  "ReplaceOperateTargets V cs j w =
     (case eachTarget (rp_sched V) (replaceOne V) cs ([], w) of (cs1, m, w1) \<Rightarrow> (m, cs1, w1))"

subsection \<open>Progress\<close>

text \<open>The first new pod that fits: the pair of ids matches and it is not terminating.\<close>

definition fitsNewPod :: "api \<Rightarrow> string \<Rightarrow> pod \<Rightarrow> bool" where
  "fitsNewPod A newPodId q \<longleftrightarrow>
     newPodId = mgetd (p_labels q) (instIdL A) \<and> \<not> (mhas (p_labels q) (delIndL A) \<or> p_deleting q)"

definition podRemoveFinalizer :: "'w rpenv \<Rightarrow> pod \<Rightarrow> 'w \<Rightarrow> gerr option \<times> pod \<times> 'w" where
  "podRemoveFinalizer V p w =
     RemoveFinalizer (rp_retryP V) (cl_update (rp_cl V)) (\<lambda>w p. cl_get (rp_cl V) w (p_ns p) (p_name p))
       (\<lambda>p. p\<lparr>p_finalizers := rp_removeF V OperationJobReplacePodFinalizer (p_finalizers p)\<rparr>) p w"

definition progressOfOrigin :: "'w rpenv \<Rightarrow> candidate \<Rightarrow> pod \<Rightarrow> ojob \<Rightarrow> 'w \<Rightarrow> (aprogress \<times> gerr option) \<times> candidate \<times> 'w" where
  "progressOfOrigin V c p j w =
     (let A = rp_api V in
      case mget (p_labels p) (replNewIdL A) of
        None \<Rightarrow> ((ActionProcessing, None), c, w)
      | Some newPodId \<Rightarrow>
          (case rp_list V w (oj_ns j) (replOriginL A) (p_name p) of
             Inl e \<Rightarrow> ((ActionProcessing, Some e), c, w)
           | Inr newPods \<Rightarrow>
               (case find (fitsNewPod A newPodId) newPods of
                  None \<Rightarrow> ((ActionProcessing, None), c, w)
                | Some q \<Rightarrow>
                    (let c1 = setExtra (mput (rp_newPodKey V) (p_name q) (op_extra (ca_status c))) c in
                     if \<not> p_deleting p then ((ActionProcessing, None), c1, w)
                     else (case podRemoveFinalizer V p w of
                             (None, p1, w1) \<Rightarrow> ((ActionProcessing, None), c1\<lparr>ca_pod := Some p1\<rparr>, w1)
                           | (Some e, p1, w1) \<Rightarrow>
                               (let e1 = Err (''fail to add finalizer to origin pod: '' @ errText e) in
                                ((ActionProcessing, Some e1),
                                 SetOpsStatusError ''UpdateObjectFailed'' (errText e1) (c1\<lparr>ca_pod := Some p1\<rparr>), w1)))))))"

definition progressWithoutOrigin :: "'w rpenv \<Rightarrow> candidate \<Rightarrow> ojob \<Rightarrow> 'w \<Rightarrow> (aprogress \<times> gerr option) \<times> candidate \<times> 'w" where
  "progressWithoutOrigin V c j w =
     (case mget (op_extra (ca_status c)) (rp_newPodKey V) of
        None \<Rightarrow> ((ActionFailed, None), SetOpsStatusError (rp_podNotFound V) ''failed to replace a non-exist pod'' c, w)
      | Some n \<Rightarrow>
          (case cl_get (rp_cl V) w (oj_ns j) n of
             Inl e \<Rightarrow>
               (let e1 = Err (''fail to find replace newPod: '' @ errText e) in
                ((ActionProcessing, Some e1), SetOpsStatusError ''GetObjectFailed'' (errText e1) c, w))
           | Inr q \<Rightarrow>
               if \<not> mhas (p_labels q) (svcAvailL (rp_api V)) then ((ActionProcessing, None), c, w)
               else ((ActionSucceeded, None), SetOpsStatusError [] [] c, w)))"

definition ReplaceGetOpsProgress :: "'w rpenv \<Rightarrow> candidate \<Rightarrow> ojob \<Rightarrow> 'w \<Rightarrow> (aprogress \<times> gerr option) \<times> candidate \<times> 'w" where
  "ReplaceGetOpsProgress V c j w =
     (case ca_pod c of Some p \<Rightarrow> progressOfOrigin V c p j w | None \<Rightarrow> progressWithoutOrigin V c j w)"

subsection \<open>Release\<close>

definition cancelReplace :: "'w rpenv \<Rightarrow> pod \<Rightarrow> gerr + pod" where
  "cancelReplace V p =
     Inr (p\<lparr>p_labels := mdel (replIndL (rp_api V)) (p_labels p),
            p_finalizers := rp_removeF V OperationJobReplacePodFinalizer (p_finalizers p)\<rparr>)"

definition releaseReplaced :: "'w rpenv \<Rightarrow> candidate \<Rightarrow> gerr option gomap \<times> 'w \<Rightarrow> gerr option \<times> candidate \<times> gerr option gomap \<times> 'w" where
  "releaseReplaced V c st =
     (case ca_pod c of
        None \<Rightarrow> stored c None c st
      | Some p \<Rightarrow>
          if p_deleting p then stored c None c st
          else if \<not> mhas (p_labels p) (replIndL (rp_api V)) \<and> \<not> ContainsFinalizer p OperationJobReplacePodFinalizer
          then stored c None c st
          else (case UpdatePodWithRetry (rp_cl V) p (cancelReplace V) (snd st) of
                  (None, w1) \<Rightarrow> stored c None (MarkCandidateReleased c) (fst st, w1)
                | (Some e, w1) \<Rightarrow>
                    (let e1 = Err (''fail to remove finalizer or replace indicate label: '' @ errText e) in
                     stored c (Some e1) (SetOpsStatusError ''UpdateObjectFailed'' (errText e1) c) (fst st, w1))))"

definition ReplaceReleaseTargets :: "'w rpenv \<Rightarrow> candidate list \<Rightarrow> ojob \<Rightarrow> 'w \<Rightarrow> gerr option gomap \<times> candidate list \<times> 'w" where
  "ReplaceReleaseTargets V cs j w =
     (case eachTarget (rp_sched V) (releaseReplaced V) cs ([], w) of (cs1, m, w1) \<Rightarrow> (m, cs1, w1))"

definition PodReplaceHandler :: "'w rpenv \<Rightarrow> 'w ohandler" where
  "PodReplaceHandler V =
     \<lparr>oh_operate = ReplaceOperateTargets V, oh_progress = ReplaceGetOpsProgress V, oh_release = ReplaceReleaseTargets V\<rparr>"

definition RegisterOperationJobActions :: "'w rpenv \<Rightarrow> 'w oregistry \<Rightarrow> 'w oregistry" where
  "RegisterOperationJobActions V R = RegisterAction (rp_action V) (PodReplaceHandler V) False R"

subsection \<open>Events of new pods\<close>

fun replacedByOperationJob :: "api \<Rightarrow> string \<Rightarrow> pod \<Rightarrow> ojob list \<Rightarrow> sset" where
  "replacedByOperationJob A newPodKey p [] = []"
| "replacedByOperationJob A newPodKey p (j # js) =
     (let rest = replacedByOperationJob A newPodKey p js in
      if mgetd (p_labels p) (replOriginL A) \<in> tg_name ` set (oj_targets j)
         \<or> (\<exists>st \<in> set (js_details (oj_status j)). op_extra st \<noteq> [] \<and> p_name p = mgetd (op_extra st) newPodKey)
      then sinsert (oj_name j) rest else rest)"

end
