(* ===== verification/OperationJobProps.thy ===== *)
theory OperationJobProps
  imports OpsReplace
begin

text \<open>
  What the controller of OperationJobs promises: the progress of a target only moves forward, the partition bounds
  how many targets have started, and a deleted job lets go of its targets first.  The locale \<open>action_handler\<close> is the
  contract of an action, \<open>job_server\<close> that of the server.
\<close>

subsection \<open>How a candidate may change\<close>

definition keepsStatus :: "candidate \<Rightarrow> candidate \<Rightarrow> bool" where
  "keepsStatus c d \<longleftrightarrow> ca_idx d = ca_idx c \<and> ca_podName d = ca_podName c \<and> op_name (ca_status d) = op_name (ca_status c)
     \<and> caProg d = caProg c \<and> op_start (ca_status d) = op_start (ca_status c)"

definition evolves :: "candidate \<Rightarrow> candidate \<Rightarrow> bool" where
  "evolves c d \<longleftrightarrow> ca_idx d = ca_idx c \<and> ca_podName d = ca_podName c \<and> op_name (ca_status d) = op_name (ca_status c)
     \<and> (IsCandidateOpsFinished c \<longrightarrow> caProg d = caProg c) \<and> (IsCandidateOpsPending d \<longrightarrow> IsCandidateOpsPending c)"

definition covers :: "candidate list \<Rightarrow> candidate list \<Rightarrow> bool" where
  "covers cs ds \<longleftrightarrow> (\<forall>c \<in> set cs. \<exists>d \<in> set ds. evolves c d) \<and> mset (map ca_podName ds) = mset (map ca_podName cs)
     \<and> mset (map ca_idx ds) = mset (map ca_idx cs) \<and> (\<forall>d \<in> set ds. \<exists>c \<in> set cs. evolves c d)"

lemmas progDefs = IsCandidateOpsFinished_def IsCandidateOpsPending_def IsCandidateOpsFailed_def

lemma keeps_refl [simp]: "keepsStatus c c"
  by (simp add: keepsStatus_def)

lemma keeps_trans: "keepsStatus c d \<Longrightarrow> keepsStatus d e \<Longrightarrow> keepsStatus c e"
  by (simp add: keepsStatus_def)

lemma evolves_refl [simp]: "evolves c c"
  by (simp add: evolves_def)

lemma keeps_evolves: "keepsStatus c d \<Longrightarrow> evolves c d"
  by (simp add: keepsStatus_def evolves_def progDefs)

lemma evolves_trans: "evolves c d \<Longrightarrow> evolves d e \<Longrightarrow> evolves c e"
  by (auto simp: evolves_def progDefs)

lemma covers_refl [simp]: "covers cs cs"
  by (auto simp: covers_def intro: evolves_refl)

lemma covers_trans: "covers cs ds \<Longrightarrow> covers ds es \<Longrightarrow> covers cs es"
  unfolding covers_def by (auto; meson evolves_trans)

lemma list_all2_covers:
  assumes "list_all2 evolves cs ds"
  shows "covers cs ds"
proof -
  have "map ca_podName ds = map ca_podName cs" "map ca_idx ds = map ca_idx cs"
    using assms by (induction rule: list_all2_induct) (auto simp: evolves_def)
  moreover have "\<forall>c \<in> set cs. \<exists>d \<in> set ds. evolves c d" "\<forall>d \<in> set ds. \<exists>c \<in> set cs. evolves c d"
    using assms by (auto simp: list_all2_conv_all_nth in_set_conv_nth) (metis nth_mem)+
  ultimately show ?thesis by (simp add: covers_def)
qed

lemma perm_covers: "mset ds = mset cs \<Longrightarrow> covers cs ds"
  unfolding covers_def by (metis evolves_refl mset_map set_mset_mset)

lemma list_evolves_trans: "list_all2 evolves cs ds \<Longrightarrow> list_all2 evolves ds es \<Longrightarrow> list_all2 evolves cs es"
  by (rule list_all2_trans [OF evolves_trans])

lemma list_keeps_evolves: "list_all2 keepsStatus cs ds \<Longrightarrow> list_all2 evolves cs ds"
  by (erule list_all2_mono) (rule keeps_evolves)

lemma list_all2_origin: "list_all2 R cs ds \<Longrightarrow> d \<in> set ds \<Longrightarrow> \<exists>c \<in> set cs. R c d"
  by (induction rule: list_all2_induct) auto

lemma setProgress_simps [simp]:
  "caProg (setProgress x c) = x" "ca_idx (setProgress x c) = ca_idx c" "ca_podName (setProgress x c) = ca_podName c"
  "op_name (ca_status (setProgress x c)) = op_name (ca_status c)" "op_start (ca_status (setProgress x c)) = op_start (ca_status c)"
  "ca_pod (setProgress x c) = ca_pod c"
  by (simp_all add: setProgress_def)

lemma keeps_upd [simp]:
  "keepsStatus c (setExtra m c)" "keepsStatus c (SetOpsStatusError r msg c)" "keepsStatus c (c\<lparr>ca_pod := po\<rparr>)"
  "keepsStatus c (MarkCandidateReleased c)" "keepsStatus c (endCandidate now c)" "keepsStatus c (markReleased errs c)"
  by (simp_all add: keepsStatus_def setExtra_def SetOpsStatusError_def MarkCandidateReleased_def endCandidate_def markReleased_def)

lemma evolves_upd:
  "evolves c (MarkCandidateFailed c)" "\<not> IsCandidateOpsFinished c \<Longrightarrow> evolves c (setProgress OpFailed c)"
  "\<not> IsCandidateOpsFinished c \<Longrightarrow> x \<noteq> OpPending \<Longrightarrow> x \<noteq> OpUnset \<Longrightarrow> evolves c (setProgress x c)"
  "\<not> IsCandidateOpsFinished c \<Longrightarrow> evolves c (startCandidate now c)"
  by (auto simp: evolves_def MarkCandidateFailed_def startCandidate_def progDefs Let_def)

lemma find_index: "find P xs = Some x \<Longrightarrow> x \<in> set xs \<and> P x"
  by (auto simp: find_Some_iff)

lemma putBack_rel:
  assumes R: "\<And>c d. R c d \<Longrightarrow> ca_idx d = ca_idx c"
    and "distinct (map ca_idx cs)" and "list_all2 R cs ds" and "\<forall>d \<in> set changed. \<exists>c \<in> set cs. R c d"
  shows "list_all2 R cs (putBack ds changed)"
  unfolding list_all2_conv_all_nth
proof (intro conjI allI impI)
  show len: "length cs = length (putBack ds changed)" using assms(3) by (simp add: putBack_def list_all2_lengthD)
  fix i assume i: "i < length cs"
  have ev: "R (cs ! i) (ds ! i)" using assms(3) i by (simp add: list_all2_conv_all_nth)
  have at: "putBack ds changed ! i = (case find (\<lambda>d. ca_idx d = ca_idx (ds ! i)) changed of None \<Rightarrow> ds ! i | Some d \<Rightarrow> d)"
    using i len by (simp add: putBack_def)
  show "R (cs ! i) (putBack ds changed ! i)"
  proof (cases "find (\<lambda>d. ca_idx d = ca_idx (ds ! i)) changed")
    case None
    then show ?thesis using at ev by simp
  next
    case (Some d)
    with find_index have d: "d \<in> set changed" "ca_idx d = ca_idx (ds ! i)" by fastforce+
    then obtain c where c: "c \<in> set cs" "R c d" using assms(4) by blast
    have "ca_idx c = ca_idx (cs ! i)" using R [OF c(2)] R [OF ev] d(2) by simp
    then have "c = cs ! i" using c(1) i assms(2) by (metis distinct_map inj_onD nth_mem)
    with c Some at show ?thesis by simp
  qed
qed

text \<open>The candidates that have started, and changes that start none.\<close>

definition started :: "candidate list \<Rightarrow> nat" where
  "started cs = length (filter (\<lambda>c. \<not> IsCandidateOpsPending c) cs)"

definition startsNone :: "candidate \<Rightarrow> candidate \<Rightarrow> bool" where
  "startsNone c d \<longleftrightarrow> evolves c d \<and> (IsCandidateOpsPending c \<longrightarrow> IsCandidateOpsPending d)"

lemma started_append [simp]: "started (cs @ ds) = started cs + started ds"
  by (simp add: started_def)

lemma started_le: "started cs \<le> length cs"
  by (simp add: started_def)

lemma started_same: "list_all2 startsNone cs ds \<Longrightarrow> started ds = started cs"
  by (induction rule: list_all2_induct) (auto simp: started_def startsNone_def evolves_def)

lemma startsNone_evolves: "list_all2 startsNone cs ds \<Longrightarrow> list_all2 evolves cs ds"
  by (erule list_all2_mono) (simp add: startsNone_def)

lemma startsNone_refl [simp]: "startsNone c c"
  by (simp add: startsNone_def)

lemma list_startsNone_trans: "list_all2 startsNone cs ds \<Longrightarrow> list_all2 startsNone ds es \<Longrightarrow> list_all2 startsNone cs es"
  by (rule list_all2_trans [of startsNone startsNone]) (auto simp: startsNone_def intro: evolves_trans)

lemma list_keeps_startsNone: "list_all2 keepsStatus cs ds \<Longrightarrow> list_all2 startsNone cs ds"
  by (erule list_all2_mono) (simp add: startsNone_def keeps_evolves, simp add: keepsStatus_def IsCandidateOpsPending_def)

definition startInv :: "candidate list \<Rightarrow> bool" where
  "startInv cs \<longleftrightarrow> (\<forall>c \<in> set cs. op_start (ca_status c) \<noteq> None \<longrightarrow> \<not> IsCandidateOpsPending c)"

text \<open>The statuses that a run may leave: the one it found, or one of candidates that come from its own.\<close>

definition wrote :: "nat \<Rightarrow> candidate list \<Rightarrow> jobstatus \<Rightarrow> jobstatus \<Rightarrow> bool" where
  "wrote b cs st0 st \<longleftrightarrow> st = st0 \<or> (\<exists>ds. covers cs ds \<and> started ds \<le> b \<and> js_details st = map ca_status ds)"

text \<open>A bound on the started targets that a run keeps.\<close>

definition bounds :: "nat \<Rightarrow> ojob \<Rightarrow> candidate list \<Rightarrow> bool" where
  "bounds b j cs \<longleftrightarrow> length cs \<le> b \<or> startInv cs \<and> (\<exists>m. oj_partition j = Some m \<and> int b = max m (int (started cs)))"

text \<open>The status that lets a deleted job go.\<close>

definition letGo :: "jobstatus \<Rightarrow> bool" where
  "letGo st \<longleftrightarrow> (\<forall>d \<in> set (js_details st). (op_prog d = OpFailed \<or> op_prog d = OpSucceeded)
     \<and> mget (op_extra d) ExtraInfoReleased = Some ''true'')"

subsection \<open>Reading the progress of a target off a job\<close>

definition progOf :: "ojob \<Rightarrow> string \<Rightarrow> oprogress" where
  "progOf j n = (case mget (MapOpsStatusByPod j) n of None \<Rightarrow> OpPending | Some st \<Rightarrow> op_prog st)"

definition startedName :: "ojob \<Rightarrow> string \<Rightarrow> bool" where
  "startedName j n \<longleftrightarrow> progOf j n \<noteq> OpUnset \<and> progOf j n \<noteq> OpPending"

definition hasStarted :: "ojob \<Rightarrow> optarget \<Rightarrow> bool" where
  "hasStarted j t \<longleftrightarrow> startedName j (tg_name t)"

lemma fold_status_mem:
  "mget (fold (\<lambda>st. mput (op_name st) st) sts m) n = Some st \<Longrightarrow> st \<in> set sts \<or> mget m n = Some st"
proof (induction sts arbitrary: m)
  case (Cons a sts)
  from Cons.IH [of "mput (op_name a) a m"] Cons.prems show ?case by (auto split: if_splits)
qed simp

lemma MapOpsStatusByPod_mem: "mget (MapOpsStatusByPod j) n = Some st \<Longrightarrow> st \<in> set (js_details (oj_status j))"
  unfolding MapOpsStatusByPod_def using fold_status_mem by fastforce

lemma fold_status_get:
  "distinct (map op_name sts) \<Longrightarrow> mget (fold (\<lambda>st. mput (op_name st) st) sts m) n
     = (case find (\<lambda>st. op_name st = n) sts of Some st \<Rightarrow> Some st | None \<Rightarrow> mget m n)"
proof (induction sts arbitrary: m)
  case (Cons st sts)
  have "find (\<lambda>x. op_name x = op_name st) sts = None" using Cons.prems by (auto simp: find_None_iff) (metis image_eqI)
  then show ?case using Cons by (auto split: option.split)
qed simp

lemma fold_status_name:
  "mget (fold (\<lambda>st. mput (op_name st) st) sts m) n = Some st \<Longrightarrow> (\<forall>k x. mget m k = Some x \<longrightarrow> op_name x = k) \<Longrightarrow> op_name st = n"
  by (induction sts arbitrary: m) (auto split: if_splits)

lemma MapOpsStatusByPod_name: "mget (MapOpsStatusByPod j) n = Some st \<Longrightarrow> op_name st = n"
  unfolding MapOpsStatusByPod_def by (rule fold_status_name) auto

lemma progOf_details:
  assumes "js_details (oj_status q) = map ca_status ds" and "\<forall>d \<in> set ds. op_name (ca_status d) = ca_podName d"
    and "distinct (map ca_podName ds)" and "d \<in> set ds"
  shows "progOf q (ca_podName d) = caProg d"
proof -
  have nm: "map op_name (map ca_status ds) = map ca_podName ds" using assms(2) by simp
  have "mget (MapOpsStatusByPod q) (ca_podName d) = find (\<lambda>st. op_name st = ca_podName d) (map ca_status ds)"
    using assms(3) unfolding MapOpsStatusByPod_def assms(1) by (subst fold_status_get) (simp_all only: nm, simp split: option.split)
  moreover have "find (\<lambda>st. op_name st = ca_podName d) (map ca_status ds) = Some (ca_status d)"
  proof -
    have same: "st = ca_status d" if "st \<in> set (map ca_status ds)" "op_name st = ca_podName d" for st
    proof -
      from that(1) obtain c where c: "c \<in> set ds" "st = ca_status c" by auto
      then have nm: "ca_podName c = ca_podName d" using that(2) assms(2) by simp
      have "inj_on ca_podName (set ds)" using assms(3) by (simp add: distinct_map)
      from inj_onD [OF this nm c(1) assms(4)] have "c = d" .
      with c(2) show ?thesis by simp
    qed
    have "find (\<lambda>st. op_name st = ca_podName d) (map ca_status ds) \<noteq> None"
      using assms(2,4) by (auto simp: find_None_iff)
    then obtain st where f: "find (\<lambda>st. op_name st = ca_podName d) (map ca_status ds) = Some st" by blast
    have "st = ca_status d" by (rule same) (use find_index [OF f] in auto)
    with f show ?thesis by simp
  qed
  ultimately show ?thesis by (simp add: progOf_def)
qed

lemma covers_target:
  assumes "covers cs ds" and "js_details (oj_status q) = map ca_status ds" and "distinct (map ca_podName cs)"
    and "\<forall>c \<in> set cs. op_name (ca_status c) = ca_podName c" and "c \<in> set cs"
  shows "\<exists>d \<in> set ds. evolves c d \<and> progOf q (ca_podName c) = caProg d"
proof -
  from assms(1,5) obtain d where d: "d \<in> set ds" "evolves c d" by (auto simp: covers_def)
  have "distinct (map ca_podName ds)" using assms(1,3) unfolding covers_def by (metis mset_eq_imp_distinct_iff)
  moreover have "\<forall>d \<in> set ds. op_name (ca_status d) = ca_podName d"
    using assms(1,4) by (fastforce simp: covers_def evolves_def)
  ultimately have "progOf q (ca_podName d) = caProg d" using progOf_details [OF assms(2)] d(1) by blast
  then show ?thesis using d by (auto simp: evolves_def)
qed

subsection \<open>Contracts\<close>

definition storeKey :: "ojob \<Rightarrow> string" where
  "storeKey j = oj_ns j @ ''/'' @ oj_name j"

locale action_handler =
  fixes H :: "'w ohandler" and jobs :: "'w \<Rightarrow> string \<Rightarrow> ojob option"
  assumes operate_keeps: "oh_operate H cs j w = (m, cs', w') \<Longrightarrow> list_all2 keepsStatus cs cs' \<and> jobs w' = jobs w"
    and progress_keeps: "oh_progress H c j w = (r, c', w') \<Longrightarrow> keepsStatus c c' \<and> jobs w' = jobs w"
    and release_keeps: "oh_release H cs j w = (m, cs', w') \<Longrightarrow> list_all2 keepsStatus cs cs' \<and> jobs w' = jobs w"

locale job_server =
  pod: api_server "oc_cl (oe_c E)" objs +
  job: object_server "oc_update (oe_c E)" "jobGet (oe_c E)" "oc_retry (oe_c E)" jobs storeKey "\<lambda>rv j. j\<lparr>oj_rv := rv\<rparr>"
  for E :: "'w oenv" and objs :: "'w \<Rightarrow> string \<Rightarrow> pod option" and jobs :: "'w \<Rightarrow> string \<Rightarrow> ojob option" +
  assumes get_job: "oc_job (oe_c E) w ns n = Inr j \<Longrightarrow> jobs w (ns @ ''/'' @ n) = Some j \<and> oj_ns j = ns \<and> oj_name j = n"
    and pod_frame: "cl_update (oc_cl (oe_c E)) p w = (x, w') \<Longrightarrow> jobs w' = jobs w"
    and status_ok: "oc_updateStatus (oe_c E) j w = (Inr j', w') \<Longrightarrow>
      (\<exists>rv. j' = j\<lparr>oj_rv := rv\<rparr>) \<and> jobs w' = (jobs w)(storeKey j \<mapsto> j')"
    and status_err: "oc_updateStatus (oe_c E) j w = (Inl e, w') \<Longrightarrow> jobs w' = jobs w"
    and delete_ok: "oc_delete (oe_c E) j w = (None, w') \<Longrightarrow> (\<forall>k. k \<noteq> storeKey j \<longrightarrow> jobs w' k = jobs w k)
      \<and> (jobs w' (storeKey j) = None \<or> (\<exists>q rv. jobs w (storeKey j) = Some q
           \<and> jobs w' (storeKey j) = Some (q\<lparr>oj_deleting := True, oj_rv := rv\<rparr>)))"
    and delete_err: "oc_delete (oe_c E) j w = (Some e, w') \<Longrightarrow> jobs w' = jobs w"
    and order: "schedules (oe_sched E)"
    and handlers: "mget (ActionRegistry (oe_reg E)) a = Some h \<Longrightarrow> action_handler h jobs"
begin

lemma handler: "getActionHandler E j = Inr (h, b) \<Longrightarrow> action_handler h jobs"
  by (auto simp: getActionHandler_def GetActionResources_def split: option.splits intro: handlers)

subsection \<open>The pods' lifecycles leave the jobs alone\<close>

lemma submit_frame: "submit (oc_cl (oe_c E)) need p w = (x, w') \<Longrightarrow> jobs w' = jobs w"
  by (auto simp: submit_def dest: pod_frame split: if_splits prod.splits sum.splits)

lemma begin_frame: "BeginOperateLifecycle A (oc_cl (oe_c E)) now stamp ad po s = (x, s') \<Longrightarrow> jobs (os_w s') = jobs (os_w s)"
  by (auto simp: BeginOperateLifecycle_def Begin_def dest: submit_frame split: option.splits sum.splits if_splits prod.splits)

lemma clean_effect:
  "cleanCandidateOpsLifecycle E forced j c s = (e, c', s') \<Longrightarrow> keepsStatus c c' \<and> jobs (os_w s') = jobs (os_w s)"
  by (auto simp: cleanCandidateOpsLifecycle_def CancelOpsLifecycle_def FinishOperateLifecycle_def Undo_def Finish_def Let_def
      dest: submit_frame pod_frame split: option.splits sum.splits if_splits prod.splits bool.splits)

lemma cleanAfter_effect:
  "cleanAfter E enable pr j c s = (e, c', s') \<Longrightarrow> keepsStatus c c' \<and> jobs (os_w s') = jobs (os_w s)"
  unfolding cleanAfter_def by (auto dest: clean_effect split: if_splits)

subsection \<open>The closures\<close>

definition permitted :: "bool \<Rightarrow> ojob \<Rightarrow> candidate \<Rightarrow> bool" where
  "permitted enable j c \<longleftrightarrow> \<not> IsCandidateOpsFinished c \<and> (enable \<longrightarrow> (\<exists>p. ca_pod c = Some p
     \<and> snd (AllowOps (oe_api E) (oe_now E) (NewLifecycleAdapter (oj_name j) (oj_action j))
           (case oj_delay j of None \<Rightarrow> 0 | Some d \<Rightarrow> d) p)))"

definition filterInv :: "bool \<Rightarrow> ojob \<Rightarrow> candidate list \<Rightarrow> 'w \<Rightarrow> 'w obatch \<Rightarrow> bool" where
  "filterInv enable j cs w b \<longleftrightarrow> jobs (os_w (ob_s b)) = jobs w
     \<and> (\<forall>d \<in> set (ob_allowed b). \<exists>c \<in> set cs. evolves c d \<and> permitted enable j c)"

lemma filterOne_step:
  assumes "c \<in> set cs" and "filterInv enable j cs w b" and "filterOne E enable j c b = (e, c', b')"
  shows "evolves c c' \<and> filterInv enable j cs w b'"
proof -
  let ?ad = "NewLifecycleAdapter (oj_name j) (oj_action j)"
  let ?allowed = "\<not> enable \<or> snd (AllowOps (oe_api E) (oe_now E) ?ad (case oj_delay j of None \<Rightarrow> 0 | Some d \<Rightarrow> d) (the (ca_pod c)))"
  have send: "evolves c c' \<and> filterInv enable j cs w b'"
    if "sendAllowed ?allowed d b1 = (e, c', b')" "evolves c d" "filterInv enable j cs w b1" "\<not> IsCandidateOpsFinished c"
      "\<not> (enable \<and> ca_pod c = None)" for d b1
  proof -
    have "?allowed \<Longrightarrow> permitted enable j c" using that(4,5) by (auto simp: permitted_def)
    then show ?thesis using that(1-3) assms(1) by (auto simp: sendAllowed_def filterInv_def split: if_splits)
  qed
  show ?thesis
  proof (cases "IsCandidateOpsFinished c \<or> enable \<and> ca_pod c = None")
    case True
    then show ?thesis using assms
      by (auto simp: filterOne_def split: if_splits intro: evolves_trans [OF evolves_upd(1) keeps_evolves])
  next
    case False
    then have live: "\<not> IsCandidateOpsFinished c" "\<not> (enable \<and> ca_pod c = None)" by auto
    show ?thesis
    proof (cases "IsCandidateOpsPending c \<and> enable \<and> \<not> IsDuringOps (oe_api E) ?ad (the (ca_pod c))")
      case bg: True
      obtain x s1 where x: "BeginOperateLifecycle (oe_api E) (oc_cl (oe_c E)) (oe_now E) (oe_stamp E) ?ad (ca_pod c) (ob_s b) = (x, s1)"
        by fastforce
      note fr = begin_frame [OF x]
      have inv: "filterInv enable j cs w (b\<lparr>ob_s := s1\<rparr>)" using assms(2) fr by (simp add: filterInv_def)
      show ?thesis
      proof (cases x)
        case (Inl err)
        then show ?thesis using assms(2,3) live bg x fr by (auto simp: filterOne_def Let_def filterInv_def)
      next
        case (Inr up)
        obtain u po where up: "up = (u, po)" by (cases up)
        have ev: "evolves c (startCandidate (oe_now E) (c\<lparr>ca_pod := po\<rparr>))"
          using live by (intro evolves_trans [OF keeps_evolves [OF keeps_upd(3)] evolves_upd(4)]) (simp add: progDefs)
        show ?thesis
        proof (cases u)
          case True
          then have "sendAllowed ?allowed (startCandidate (oe_now E) (c\<lparr>ca_pod := po\<rparr>)) (b\<lparr>ob_s := s1\<rparr>) = (e, c', b')"
            using assms(3) live bg x Inr up by (auto simp: filterOne_def Let_def)
          then show ?thesis using ev inv live by (rule send)
        next
          case False
          then show ?thesis using assms(3) live bg x Inr up inv
            by (auto simp: filterOne_def Let_def keeps_evolves)
        qed
      qed
    next
      case False
      then have "sendAllowed ?allowed (if IsCandidateOpsPending c then startCandidate (oe_now E) c else c) b = (e, c', b')"
        using assms(3) live by (auto simp: filterOne_def Let_def split: if_splits)
      moreover have "evolves c (if IsCandidateOpsPending c then startCandidate (oe_now E) c else c)"
        using live evolves_upd(4) by simp
      ultimately show ?thesis using assms(2) live by (rule send)
    qed
  qed
qed

lemma filter_effect:
  assumes "distinct (map ca_idx cs)" and "action_handler h jobs"
    and "filterAndOperateAllowOpsTargets E h enable j cs s = (e, cs', s')"
  shows "list_all2 evolves cs cs' \<and> jobs (os_w s') = jobs (os_w s)"
proof -
  let ?b0 = "\<lparr>ob_s = s, ob_allowed = [], ob_err = None\<rparr>"
  obtain cs1 b where r: "eachTarget (oe_sched E) (filterOne E enable j) cs ?b0 = (cs1, b)" by fastforce
  have "filterInv enable j cs (os_w s) ?b0" by (simp add: filterInv_def)
  from eachTarget_rel [where I = "filterInv enable j cs (os_w s)" and R = evolves, OF order this filterOne_step r]
  have b: "list_all2 evolves cs cs1" "filterInv enable j cs (os_w s) b" by auto
  obtain e1 ch w1 where op: "operateTargets h (ob_allowed b) j (os_w (ob_s b)) = (e1, ch, w1)" by (metis prod_cases3)
  have ch: "list_all2 keepsStatus (ob_allowed b) ch \<and> jobs w1 = jobs (os_w (ob_s b))"
    using op action_handler.operate_keeps [OF assms(2)]
    by (fastforce simp: operateTargets_def list_all2_refl split: if_splits prod.splits)
  have "\<exists>c \<in> set cs. evolves c d" if "d \<in> set ch" for d
  proof -
    from list_all2_origin [OF conjunct1 [OF ch] that] obtain a where a: "a \<in> set (ob_allowed b)" "keepsStatus a d" by blast
    with b(2) show ?thesis by (metis evolves_trans filterInv_def keeps_evolves)
  qed
  then have "list_all2 evolves cs (putBack cs1 ch)"
    using putBack_rel [where R = evolves, OF _ assms(1) b(1)] by (simp add: evolves_def)
  moreover have "cs' = putBack cs1 ch" "s' = (ob_s b)\<lparr>os_w := w1\<rparr>"
    using assms(3) by (simp_all add: filterAndOperateAllowOpsTargets_def r op)
  ultimately show ?thesis using ch b(2) by (simp add: filterInv_def)
qed

lemma statusOne_step:
  assumes h: "action_handler h jobs" and inv: "jobs (os_w (fst st)) = W"
    and run: "statusOne E h enable j c st = (e, c', st')"
  shows "evolves c c' \<and> jobs (os_w (fst st')) = W"
proof (cases "IsCandidateOpsFinished c \<or> enable \<and> ca_pod c = None \<or> IsCandidateOpsPending c")
  case True
  then show ?thesis using run inv by (auto simp: statusOne_def Let_def split: prod.splits if_splits)
next
  case False
  obtain s u where st: "st = (s, u)" by (cases st)
  obtain pr e0 c1 w1 where pr: "oh_progress h c j (os_w s) = ((pr, e0), c1, w1)" by (metis prod_cases3 surj_pair)
  from action_handler.progress_keeps [OF h pr] have k1: "keepsStatus c c1" "jobs w1 = W" using inv st by auto
  obtain e2 c2 s2 where cl: "cleanAfter E enable pr j c1 (s\<lparr>os_w := w1\<rparr>) = (e2, c2, s2)" by (metis prod_cases3)
  have k2: "keepsStatus c1 c2 \<and> jobs (os_w s2) = W"
    using cleanAfter_effect [OF cl] k1(2) by simp
  have k: "keepsStatus c c2" using k1(1) k2 keeps_trans by blast
  have live: "\<not> IsCandidateOpsFinished c2" using False k by (simp add: keepsStatus_def progDefs)
  have np: "\<not> IsCandidateOpsPending c2" using False k by (simp add: keepsStatus_def progDefs)
  have nx: "evolves c2 (nextProgress (oe_api E) enable pr c2)"
    using live np by (auto simp: nextProgress_def split: aprogress.splits intro: evolves_upd)
  have res: "(c' = SetOpsStatusError ''UpdateObjectFailed'' (errText (the e2)) c2 \<or> c' = nextProgress (oe_api E) enable pr c2)
      \<and> fst st' = s2"
    using run False by (cases e2) (auto simp: statusOne_def st pr cl)
  have "evolves c2 c'" using res nx keeps_evolves [OF keeps_upd(2)] by blast
  then have "evolves c c'" by (rule evolves_trans [OF keeps_evolves [OF k]])
  with res k2 show ?thesis by simp
qed

lemma status_effect:
  assumes "action_handler h jobs" and "getTargetsOpsStatus E h enable j cs s = (e, cs', s')"
  shows "list_all2 evolves cs cs' \<and> jobs (os_w s') = jobs (os_w s)"
proof -
  obtain cs1 s1 u where r: "eachTarget (oe_sched E) (statusOne E h enable j) cs (s, None) = (cs1, s1, u)"
    by (metis prod_cases3)
  have "list_all2 evolves cs cs1 \<and> jobs (os_w (fst (s1, u))) = jobs (os_w s)"
    by (rule eachTarget_rel [where I = "\<lambda>st. jobs (os_w (fst st)) = jobs (os_w s)", OF order _ _ r])
      (auto dest: statusOne_step [OF assms(1)])
  then show ?thesis using assms(2) r by (simp add: getTargetsOpsStatus_def)
qed

lemma releaseOne_step:
  assumes "jobs (os_w (fst st)) = W" and "releaseOne E enable j c st = (e, c', st')"
  shows "evolves c c' \<and> IsCandidateOpsFinished c' \<and> ca_podName c' = ca_podName c \<and> jobs (os_w (fst st')) = W"
proof -
  obtain s m where st: "st = (s, m)" by (cases st)
  obtain e1 c1 s1 where cl: "cleanCandidateOpsLifecycle E True j c s = (e1, c1, s1)" by (metis prod_cases3)
  from clean_effect [OF cl] assms(1) st have k: "keepsStatus c c1" "jobs (os_w s1) = W" by auto
  let ?d = "if enable then c1 else c"
  have d: "keepsStatus c ?d" using k(1) by simp
  have c': "c' = (if IsCandidateOpsFinished ?d then ?d else setProgress OpFailed ?d)"
    and st': "jobs (os_w (fst st')) = W"
    using assms(2) st cl k(2) assms(1) by (auto simp: releaseOne_def Let_def split: if_splits)
  have "evolves ?d c'" unfolding c' by (auto intro: evolves_upd)
  then have "evolves c c'" using evolves_trans keeps_evolves d by blast
  moreover have "IsCandidateOpsFinished c'" unfolding c' by (auto simp: progDefs)
  ultimately show ?thesis using st' by (simp add: evolves_def)
qed

lemma releaseAll_effect:
  assumes "releaseAll E j cs s = (e, cs', s')"
  shows "list_all2 evolves cs cs' \<and> jobs (os_w s') = jobs (os_w s)
    \<and> (e = None \<longrightarrow> (\<forall>c \<in> set cs'. IsCandidateOpsFinished c \<and> IsCandidateOpsReleased c))"
proof (cases "getActionHandler E j")
  case (Inl err)
  then show ?thesis using assms by (auto simp: releaseAll_def list_all2_refl)
next
  case (Inr he)
  obtain h enable where he: "he = (h, enable)" by (cases he)
  obtain m cs1 w1 where rel: "oh_release h cs j (os_w s) = (m, cs1, w1)" by (metis prod_cases3)
  from action_handler.release_keeps [OF handler [OF Inr [unfolded he]] rel]
  have k: "list_all2 keepsStatus cs cs1" "jobs w1 = jobs (os_w s)" by auto
  obtain cs2 s2 m2 where r: "eachTarget (oe_sched E) (releaseOne E enable j) cs1 (s\<lparr>os_w := w1\<rparr>, m) = (cs2, s2, m2)"
    by (metis prod_cases3)
  have "list_all2 (\<lambda>c c'. evolves c c' \<and> IsCandidateOpsFinished c') cs1 cs2 \<and> jobs (os_w (fst (s2, m2))) = jobs w1"
    by (rule eachTarget_rel [where I = "\<lambda>st. jobs (os_w (fst st)) = jobs w1", OF order _ _ r])
      (auto dest: releaseOne_step)
  then have ev: "list_all2 (\<lambda>c c'. evolves c c' \<and> IsCandidateOpsFinished c') cs1 cs2" "jobs (os_w s2) = jobs w1" by auto
  have res: "e = AggregateErrors (map snd m2)" "cs' = map (markReleased m2) cs2" "s' = s2"
    using assms by (simp_all add: releaseAll_def Inr he rel r)
  have "list_all2 evolves cs cs'"
    unfolding res(2) list_all2_conv_all_nth
  proof (intro conjI allI impI)
    show "length cs = length (map (markReleased m2) cs2)" using k(1) ev(1) by (simp add: list_all2_lengthD)
    fix i assume i: "i < length cs"
    then have "keepsStatus (cs ! i) (cs1 ! i)" "evolves (cs1 ! i) (cs2 ! i)" "i < length cs2"
      using k(1) ev(1) by (auto simp: list_all2_conv_all_nth)
    then show "evolves (cs ! i) (map (markReleased m2) cs2 ! i)"
      by (metis evolves_trans keeps_evolves keeps_upd(6) nth_map)
  qed
  moreover have "\<forall>c \<in> set cs'. IsCandidateOpsFinished c \<and> IsCandidateOpsReleased c" if "e = None"
  proof
    fix c assume "c \<in> set cs'"
    then obtain d where d: "d \<in> set cs2" "c = markReleased m2 d" using res(2) by auto
    have fin: "IsCandidateOpsFinished d"
      using ev(1) d(1) unfolding list_all2_conv_all_nth in_set_conv_nth by auto
    have "mget m2 (ca_podName d) = None \<or> mget m2 (ca_podName d) = Some None"
      using that res(1) by (cases "mget m2 (ca_podName d)") (auto dest!: map_of_SomeD)
    then have "c = MarkCandidateReleased d" using d(2) by (simp add: markReleased_def)
    with fin show "IsCandidateOpsFinished c \<and> IsCandidateOpsReleased c"
      by (simp add: MarkCandidateReleased_def setExtra_def progDefs IsCandidateOpsReleased_def)
  qed
  ultimately show ?thesis using res(3) ev(2) k(2) by simp
qed

subsection \<open>Writing the status\<close>

lemma calculateStatus_details:
  "calculateStatus E j cs = (st, cs') \<Longrightarrow> cs' = map (endCandidate (oe_now E)) cs \<and> js_details st = map ca_status cs'"
  by (auto simp: calculateStatus_def Let_def)

lemma endCandidates_keep: "list_all2 keepsStatus cs (map (endCandidate now) cs)"
  by (simp add: list_all2_conv_all_nth)

lemma statusTry_effect:
  assumes "retried (statusTry (oe_c E) st) (old, w) (r, old', w')" and "jobs w (storeKey old) = Some q" "q\<lparr>oj_status := st\<rparr> = old\<lparr>oj_status := st\<rparr>"
  shows "r \<noteq> None \<and> jobs w' = jobs w \<or> r = None \<and> (\<exists>rv. jobs w' = (jobs w)(storeKey old \<mapsto> q\<lparr>oj_status := st, oj_rv := rv\<rparr>))"
proof -
  have "fst x \<noteq> None \<and> jobs (snd (snd x)) = jobs (snd s)
      \<or> fst x = None \<and> (\<exists>rv. jobs (snd (snd x)) = (jobs (snd s))(storeKey old \<mapsto> q\<lparr>oj_status := st, oj_rv := rv\<rparr>))"
    if "retried (statusTry (oe_c E) st) s x" "(fst s)\<lparr>oj_status := st\<rparr> = q\<lparr>oj_status := st\<rparr>" for s x
    using that
  proof (induction rule: retried.induct)
    case (last s)
    obtain y w1 where y: "oc_updateStatus (oe_c E) ((fst s)\<lparr>oj_status := st\<rparr>) (snd s) = (y, w1)" by fastforce
    have key: "storeKey ((fst s)\<lparr>oj_status := st\<rparr>) = storeKey old"
      using last assms(3) by (simp add: storeKey_def)
    show ?case
    proof (cases y)
      case (Inl e)
      then show ?thesis using status_err y by (simp add: statusTry_def Let_def)
    next
      case (Inr j')
      from status_ok [OF y [unfolded Inr]] obtain rv where "j' = (fst s)\<lparr>oj_status := st, oj_rv := rv\<rparr>"
        "jobs w1 = (jobs (snd s))(storeKey old \<mapsto> j')" using key by auto
      then show ?thesis using y Inr last by (auto simp: statusTry_def Let_def)
    qed
  next
    case (again s s1 x)
    obtain y w1 where y: "oc_updateStatus (oe_c E) ((fst s)\<lparr>oj_status := st\<rparr>) (snd s) = (y, w1)" by fastforce
    with again(1) have "s1 = ((fst s)\<lparr>oj_status := st\<rparr>, w1)" "jobs w1 = jobs (snd s)"
      by (auto simp: statusTry_def Let_def dest: status_err split: sum.splits)
    with again show ?case by simp
  qed
  from this [OF assms(1)] assms(3) show ?thesis by simp
qed

lemma updateStatus_effect:
  assumes "updateStatus E j s = (e, s')"
  shows "(jobs (os_w s') = jobs (os_w s) \<or> (\<exists>q rv. jobs (os_w s) (storeKey j) = Some q
      \<and> jobs (os_w s') = (jobs (os_w s))(storeKey j \<mapsto> q\<lparr>oj_status := oj_status j, oj_rv := rv\<rparr>)))
    \<and> (e = None \<longrightarrow> (\<exists>q. jobs (os_w s') (storeKey j) = Some q \<and> oj_status q = oj_status j))"
proof (cases "oc_job (oe_c E) (os_w s) (oj_ns j) (oj_name j)")
  case (Inl err)
  then show ?thesis using assms by (auto simp: updateStatus_def)
next
  case (Inr old)
  from get_job [OF Inr] have old: "jobs (os_w s) (storeKey j) = Some old" "storeKey old = storeKey j"
    by (auto simp: storeKey_def)
  show ?thesis
  proof (cases "oj_status old = oj_status j")
    case True
    then show ?thesis using assms Inr old by (auto simp: updateStatus_def)
  next
    case False
    obtain r o1 w1 where r: "oc_retry (oe_c E) (statusTry (oe_c E) (oj_status j)) (old, os_w s) = (r, o1, w1)"
      by (metis prod_cases3)
    have "retried (statusTry (oe_c E) (oj_status j)) (old, os_w s) (r, o1, w1)"
      using job.retry_ok [of "statusTry (oe_c E) (oj_status j)" "(old, os_w s)"] r by simp
    from statusTry_effect [OF this] old have eff: "r \<noteq> None \<and> jobs w1 = jobs (os_w s)
      \<or> r = None \<and> (\<exists>rv. jobs w1 = (jobs (os_w s))(storeKey j \<mapsto> old\<lparr>oj_status := oj_status j, oj_rv := rv\<rparr>))" by simp
    have "e = r \<and> os_w s' = w1" using assms Inr False r by (cases r) (auto simp: updateStatus_def Let_def)
    then show ?thesis using eff old by auto
  qed
qed

definition tracked :: "nat \<Rightarrow> ojob \<Rightarrow> candidate list \<Rightarrow> jobstatus \<Rightarrow> 'w \<Rightarrow> bool" where
  "tracked b j cs st0 w \<longleftrightarrow> (\<forall>q. jobs w (storeKey j) = Some q \<longrightarrow> wrote b cs st0 (oj_status q) \<and> oj_targets q = oj_targets j)"

lemma writeJobStatus_effect:
  assumes "writeJobStatus E j ds s = (e, j1, ds1, s')" and "covers cs ds" and "started ds \<le> b"
    and "tracked b j cs st0 (os_w s)"
  shows "tracked b j cs st0 (os_w s') \<and> covers cs ds1 \<and> storeKey j1 = storeKey j \<and> (\<exists>st. j1 = j\<lparr>oj_status := st\<rparr>)
    \<and> js_details (oj_status j1) = map ca_status ds1 \<and> list_all2 keepsStatus ds ds1
    \<and> (e = None \<longrightarrow> (\<exists>q. jobs (os_w s') (storeKey j) = Some q \<and> oj_status q = oj_status j1))"
proof -
  obtain st cs1 where c: "calculateStatus E j ds = (st, cs1)" by fastforce
  note det = calculateStatus_details [OF c]
  obtain e1 s1 where u: "updateStatus E (j\<lparr>oj_status := st\<rparr>) s = (e1, s1)" by fastforce
  have r: "e = e1" "j1 = j\<lparr>oj_status := st\<rparr>" "ds1 = cs1" "s' = s1"
    using assms(1) c u by (auto simp: writeJobStatus_def Let_def)
  have k: "list_all2 keepsStatus ds ds1" using det r endCandidates_keep by simp
  have "list_all2 evolves ds ds1" using k by (rule list_keeps_evolves)
  then have cov: "covers cs ds1" using assms(2) covers_trans list_all2_covers by blast
  have w: "wrote b cs st0 st"
    using cov det r assms(3) started_same [OF list_keeps_startsNone [OF k]] by (auto simp: wrote_def)
  consider "jobs (os_w s1) = jobs (os_w s)"
    | q rv where "jobs (os_w s) (storeKey j) = Some q"
        "jobs (os_w s1) = (jobs (os_w s))(storeKey j \<mapsto> q\<lparr>oj_status := st, oj_rv := rv\<rparr>)"
    using updateStatus_effect [OF u] by (auto simp: storeKey_def)
  then have "tracked b j cs st0 (os_w s')"
    using assms(4) w by cases (simp_all add: tracked_def r)
  then show ?thesis using cov det r k updateStatus_effect [OF u] by (auto simp: storeKey_def)
qed

subsection \<open>The parts of a run\<close>

lemma covers_idx: "covers cs ds \<Longrightarrow> distinct (map ca_idx cs) \<Longrightarrow> distinct (map ca_idx ds)"
  unfolding covers_def by (metis mset_eq_imp_distinct_iff)

lemma covers_app: "list_all2 evolves (take n cs) ds \<Longrightarrow> list_all2 evolves cs (ds @ drop n cs)"
  using list_all2_appendI [of evolves "take n cs" ds "drop n cs" "drop n cs"] by (simp add: list_all2_refl)

lemma deadline_effect: "deadlineLoop now d cs = (left, cs') \<Longrightarrow> list_all2 evolves cs cs'"
  by (induction cs arbitrary: left cs') (auto intro: evolves_upd(1) simp: list_all2_refl split: option.splits if_splits prod.splits)

lemma deadline_starts:
  "deadlineLoop now d cs = (left, cs') \<Longrightarrow> startInv cs \<Longrightarrow> list_all2 startsNone cs cs'"
  by (induction cs arbitrary: left cs')
    (auto simp: startInv_def startsNone_def evolves_upd(1) list_all2_refl split: option.splits if_splits prod.splits)

lemma tracked_cong: "jobs w' = jobs w \<Longrightarrow> tracked b j cs st0 w' = tracked b j cs st0 w"
  by (simp add: tracked_def)

lemma tracked_key: "storeKey j' = storeKey j \<Longrightarrow> oj_targets j' = oj_targets j \<Longrightarrow> tracked b j' cs st0 w = tracked b j cs st0 w"
  by (simp add: tracked_def)

lemma ttl_effect:
  assumes "ttlStep E j s = (x, s')" and "tracked b j cs st0 (os_w s)"
  shows "tracked b j cs st0 (os_w s')"
proof -
  obtain e w1 where d: "oc_delete (oe_c E) j (os_w s) = (e, w1)" by fastforce
  have "tracked b j cs st0 w1"
    using delete_ok [of j "os_w s" w1] delete_err [of j "os_w s" _ w1] d assms(2)
    by (cases e) (auto simp: tracked_def)
  then show ?thesis using assms d by (auto simp: ttlStep_def Let_def split: option.splits if_splits)
qed

lemma deadlineTTL_effect:
  assumes "ensureActiveDeadlineAndTTL E j cs s = (x, cs', s')" and "tracked b j cs0 st0 (os_w s)"
  shows "list_all2 evolves cs cs' \<and> (startInv cs \<longrightarrow> list_all2 startsNone cs cs') \<and> tracked b j cs0 st0 (os_w s')"
proof -
  obtain left cs1 where l: "(case oj_deadline j of None \<Rightarrow> (None, cs) | Some d \<Rightarrow> deadlineLoop (oe_now E) d cs) = (left, cs1)"
    by fastforce
  have ev: "list_all2 evolves cs cs1 \<and> (startInv cs \<longrightarrow> list_all2 startsNone cs cs1)"
    using l deadline_effect deadline_starts by (cases "oj_deadline j") (auto simp: list_all2_refl)
  obtain y s1 where t: "ttlStep E j s = (y, s1)" by fastforce
  show ?thesis
    using assms l ev ttl_effect [OF t assms(2)] t by (cases left) (auto simp: ensureActiveDeadlineAndTTL_def)
qed

lemma failedReleased_effect:
  assumes "ensureFailedTargetsReleased E j ds s = (e, j1, ds1, s')" and "covers cs ds" and "distinct (map ca_idx cs)"
    and "started ds \<le> b" and "tracked b j cs st0 (os_w s)"
  shows "tracked b j cs st0 (os_w s') \<and> covers cs ds1 \<and> storeKey j1 = storeKey j \<and> (\<exists>st. j1 = j\<lparr>oj_status := st\<rparr>)
    \<and> list_all2 startsNone ds ds1"
proof -
  let ?al = "filter (\<lambda>c. IsCandidateOpsFailed c \<and> \<not> IsCandidateOpsReleased c) ds"
  show ?thesis
  proof (cases "?al = []")
    case True
    then have "e = None" "j1 = j" "ds1 = ds" "s' = s" using assms(1) by (simp_all add: ensureFailedTargetsReleased_def)
    moreover have "\<exists>st. j = j\<lparr>oj_status := st\<rparr>" by (intro exI [of _ "oj_status j"]) simp
    ultimately show ?thesis using assms by (simp add: list_all2_refl)
  next
    case False
    obtain e1 ch s1 where rel: "releaseAll E j ?al s = (e1, ch, s1)" by (metis prod_cases3)
    note eff = releaseAll_effect [OF rel]
    have "\<exists>c \<in> set ds. startsNone c d" if "d \<in> set ch" for d
      using list_all2_origin [OF conjunct1 [OF eff] that] by (auto simp: startsNone_def progDefs)
    then have ev: "list_all2 startsNone ds (putBack ds ch)"
      using putBack_rel [where R = startsNone, OF _ covers_idx [OF assms(2,3)], of ds ch]
      by (simp add: list_all2_refl startsNone_def evolves_def)
    then have cov: "covers cs (putBack ds ch)" "started (putBack ds ch) \<le> b"
      using assms(2,4) covers_trans list_all2_covers startsNone_evolves started_same by metis+
    obtain e2 j2 ds2 s2 where w: "writeJobStatus E j (putBack ds ch) s1 = (e2, j2, ds2, s2)" by (metis prod_cases4)
    have tr: "tracked b j cs st0 (os_w s1)" using tracked_cong eff assms(5) by blast
    have r: "j1 = j2" "ds1 = ds2" "s' = s2"
      using assms(1) False by (simp_all add: ensureFailedTargetsReleased_def Let_def rel w)
    note we = writeJobStatus_effect [OF w cov tr]
    have "list_all2 startsNone (putBack ds ch) ds1" using we r list_keeps_startsNone by simp
    with ev have "list_all2 startsNone ds ds1" by (rule list_startsNone_trans)
    then show ?thesis using we r by simp
  qed
qed

lemma startOrder_perm [simp]: "mset (startOrder cs) = mset cs" "length (startOrder cs) = length cs" "set (startOrder cs) = set cs"
  by (simp_all add: startOrder_def)

lemma partition_perm: "DecideCandidateByPartition j cs = Inr (ordered, n) \<Longrightarrow> mset ordered = mset cs"
  by (auto simp: DecideCandidateByPartition_def split: option.splits if_splits)

lemma doReconcile_effect:
  assumes "doReconcile E j ds s = (e, s')" and "covers cs ds" and "distinct (map ca_idx cs)"
    and bound: "\<And>ordered n fin. DecideCandidateByPartition j ds = Inr (ordered, n) \<Longrightarrow>
      list_all2 evolves (take n ordered) fin \<Longrightarrow> started (fin @ drop n ordered) \<le> b"
    and "tracked b j cs st0 (os_w s)"
  shows "tracked b j cs st0 (os_w s')"
proof (cases "getActionHandler E j")
  case (Inl err)
  then show ?thesis using assms(1,5) by (simp add: doReconcile_def)
next
  case ah: (Inr he)
  obtain h enable where he: "he = (h, enable)" by (cases he)
  have hd: "action_handler h jobs" using handler ah he by blast
  show ?thesis
  proof (cases "DecideCandidateByPartition j ds")
    case (Inl err)
    then show ?thesis using assms(1,5) ah he by (simp add: doReconcile_def)
  next
    case dc: (Inr on)
    obtain ordered n where on: "on = (ordered, n)" by (cases on)
    have perm: "mset ordered = mset ds" using partition_perm dc on by blast
    have d1: "covers cs ordered" using assms(2) covers_trans perm_covers [OF perm] by blast
    obtain e1 sel1 s1 where f: "filterAndOperateAllowOpsTargets E h enable j (take n ordered) s = (e1, sel1, s1)"
      by (metis prod_cases3)
    have dist: "distinct (map ca_idx (take n ordered))"
      using covers_idx [OF d1 assms(3)] by (simp add: take_map [symmetric])
    note fe = filter_effect [OF dist hd f]
    obtain e2 sel2 s2 where g: "getTargetsOpsStatus E h enable j sel1 s1 = (e2, sel2, s2)" by (metis prod_cases3)
    note ge = status_effect [OF hd g]
    have se: "list_all2 evolves (take n ordered) sel2"
      using fe ge list_evolves_trans by blast
    then have cov: "covers cs (sel2 @ drop n ordered)"
      using d1 covers_trans covers_app list_all2_covers by blast
    have st: "started (sel2 @ drop n ordered) \<le> b" using bound dc on se by blast
    obtain e3 j3 ds3 s3 where w: "writeJobStatus E j (sel2 @ drop n ordered) s2 = (e3, j3, ds3, s3)" by (metis prod_cases4)
    have tr: "tracked b j cs st0 (os_w s2)" using tracked_cong fe ge assms(5) by metis
    have "s' = s3" using assms(1) by (simp add: doReconcile_def ah he dc on f g w)
    with writeJobStatus_effect [OF w cov st tr] show ?thesis by simp
  qed
qed

lemma partition_bound:
  assumes "DecideCandidateByPartition j ds = Inr (ordered, n)" and "oj_partition j = Some m" and "list_all2 evolves (take n ordered) fin"
  shows "int (started (fin @ drop n ordered)) \<le> max m (int (started ds))"
proof -
  have o: "ordered = startOrder ds" "int n \<le> m" "n \<le> length ds"
    using assms(1,2) by (auto simp: DecideCandidateByPartition_def split: if_splits)
  have fin: "started fin \<le> n" "length fin = n"
    using started_le [of fin] list_all2_lengthD [OF assms(3)] o by simp_all
  have all: "started ds = started (take n ordered) + started (drop n ordered)"
  proof -
    have "started ordered = started ds"
      unfolding started_def o(1) by (metis mset_filter size_mset startOrder_perm(1))
    then show ?thesis by (metis append_take_drop_id started_append)
  qed
  show ?thesis
  proof (cases "started (drop n ordered) = 0")
    case True
    then show ?thesis using fin o(2) by simp
  next
    case False
    then have "filter (\<lambda>c. \<not> IsCandidateOpsPending c) (drop n ordered) \<noteq> []" by (simp add: started_def)
    then obtain x where x: "x \<in> set (drop n ordered)" "\<not> IsCandidateOpsPending x"
      by (metis filter_False)
    have srt: "sorted (map (\<lambda>c. (IsCandidateOpsPending c, ca_idx c)) (take n ordered @ drop n ordered))"
      unfolding append_take_drop_id o(1) startOrder_def by simp
    have "\<not> IsCandidateOpsPending c" if "c \<in> set (take n ordered)" for c
    proof -
      have "(IsCandidateOpsPending c, ca_idx c) \<le> (IsCandidateOpsPending x, ca_idx x)"
        using srt that x(1) unfolding map_append sorted_append by auto
      then show ?thesis using x(2) by (auto simp: less_eq_prod_def)
    qed
    then have "started (take n ordered) = length (take n ordered)" unfolding started_def by (simp add: filter_id_conv)
    then show ?thesis using all fin o by simp
  qed
qed

lemma runJob_effect:
  assumes "runJob E j cs s = (r, s')" and "distinct (map ca_idx cs)" and "bounds b j cs" and "tracked b j cs st0 (os_w s)"
  shows "tracked b j cs st0 (os_w s')"
proof -
  obtain jd ra er cs1 s1 where d: "ensureActiveDeadlineAndTTL E j cs s = ((jd, ra, er), cs1, s1)" by (metis prod_cases3 surj_pair)
  from deadlineTTL_effect [OF d assms(4)] have d1: "list_all2 evolves cs cs1" "tracked b j cs st0 (os_w s1)"
    "startInv cs \<Longrightarrow> list_all2 startsNone cs cs1" by simp_all
  have len1: "length cs1 = length cs" using d1(1) by (simp add: list_all2_lengthD)
  have b1: "started cs1 \<le> b" using assms(3) d1(3) started_le [of cs1] len1 started_same by (fastforce simp: bounds_def)
  obtain e j2 cs2 s2 where f: "ensureFailedTargetsReleased E j cs1 s1 = (e, j2, cs2, s2)" by (metis prod_cases4)
  from failedReleased_effect [OF f list_all2_covers [OF d1(1)] assms(2) b1 d1(2)]
  have d2: "covers cs cs2" "tracked b j cs st0 (os_w s2)" "storeKey j2 = storeKey j" "\<exists>st. j2 = j\<lparr>oj_status := st\<rparr>"
    "list_all2 startsNone cs1 cs2" by simp_all
  obtain e3 s3 where g: "doReconcile E j2 cs2 s2 = (e3, s3)" by fastforce
  have part: "oj_partition j2 = oj_partition j" "oj_targets j2 = oj_targets j" using d2(4) by auto
  have bd: "started (fin @ drop n ordered) \<le> b"
    if x: "DecideCandidateByPartition j2 cs2 = Inr (ordered, n)" "list_all2 evolves (take n ordered) fin" for ordered n fin
  proof (cases "length cs \<le> b")
    case True
    have "length ordered = length cs" using partition_perm [OF x(1)] len1 d2(5) by (metis list_all2_lengthD mset_eq_length)
    then have "length (fin @ drop n ordered) = length cs" using list_all2_lengthD [OF x(2)] by simp
    then show ?thesis using started_le [of "fin @ drop n ordered"] True by simp
  next
    case False
    then obtain m where m: "oj_partition j2 = Some m" "int b = max m (int (started cs))" "startInv cs"
      using assms(3) part by (auto simp: bounds_def)
    have "started cs2 = started cs" using started_same d1(3) d2(5) m(3) by metis
    then show ?thesis using partition_bound [OF x(1) m(1) x(2)] m(2) by simp
  qed
  have "tracked b j2 cs st0 (os_w s2)" using d2 part(2) tracked_key by blast
  from doReconcile_effect [OF g d2(1) assms(2) bd this] have d3: "tracked b j cs st0 (os_w s3)" using d2(3) part(2) tracked_key by blast
  have "s' = (if jd \<or> er \<noteq> None then s1 else if e \<noteq> None then s2 else s3)"
    using assms(1) by (auto simp: runJob_def d f g split: option.splits)
  then show ?thesis using d1 d2 d3 by simp
qed

subsection \<open>Reconcile\<close>

lemma listFrom_candidates:
  "listFrom E j w idx ts = Inr cs \<Longrightarrow> map ca_podName cs = map tg_name ts \<and> map ca_idx cs = [idx..idx + int (length ts) - 1]
     \<and> (\<forall>c \<in> set cs. ca_status c = (case mget (MapOpsStatusByPod j) (ca_podName c) of
           Some st \<Rightarrow> st | None \<Rightarrow> \<lparr>op_name = ca_podName c, op_prog = OpPending, op_start = None, op_end = None, op_err = None, op_extra = []\<rparr>)
         \<and> (\<forall>p. ca_pod c = Some p \<longrightarrow> cl_get (oc_cl (oe_c E)) w (oj_ns j) (ca_podName c) = Inr p))"
proof (induction ts arbitrary: idx cs)
  case (Cons t ts)
  from Cons.prems obtain po cs1 where c: "cs = targetCandidate (MapOpsStatusByPod j) idx t po # cs1"
    and r: "listFrom E j w (idx + 1) ts = Inr cs1" and po: "\<forall>p. po = Some p \<longrightarrow> cl_get (oc_cl (oe_c E)) w (oj_ns j) (tg_name t) = Inr p"
    by (cases "listFrom E j w (idx + 1) ts") (auto split: sum.splits if_splits)
  show ?case using Cons.IH [OF r] po
    by (cases "mget (MapOpsStatusByPod j) (tg_name t)") (simp_all add: c targetCandidate_def upto_rec1 algebra_simps)
qed simp

lemma listTargets_idx: "listTargets E j w = Inr cs \<Longrightarrow> distinct (map ca_idx cs)"
  using listFrom_candidates [of j w 0 "oj_targets j" cs] by (simp add: listTargets_def)

text \<open>The object as the finalizer leaves it.\<close>

definition refinalized :: "ojob \<Rightarrow> ojob \<Rightarrow> bool" where
  "refinalized j q \<longleftrightarrow> q\<lparr>oj_finalizers := oj_finalizers j, oj_rv := oj_rv j\<rparr> = j"

lemma refinalized_same:
  "refinalized j q \<Longrightarrow> storeKey q = storeKey j \<and> oj_status q = oj_status j \<and> oj_partition q = oj_partition j \<and> oj_targets q = oj_targets j"
  by (cases q, cases j) (simp add: refinalized_def storeKey_def)

lemma addFinalizer_effect:
  assumes "AddFinalizer (oc_retry (oe_c E)) (oc_update (oe_c E)) (jobGet (oe_c E)) (\<lambda>j. j\<lparr>oj_finalizers := f (oj_finalizers j)\<rparr>) j w = (r, j1, w1)"
    and "jobs w (storeKey j) = Some j" and "tracked b j cs (oj_status j) w"
  shows "refinalized j j1 \<and> tracked b j cs (oj_status j) w1 \<and> (r = None \<longrightarrow> jobs w1 (storeKey j) = Some j1)"
proof -
  have run: "oc_retry (oe_c E) (finalizerTry (oc_update (oe_c E)) (jobGet (oe_c E)) (\<lambda>j. j\<lparr>oj_finalizers := f (oj_finalizers j)\<rparr>)) (j, w) = (r, j1, w1)"
    using assms(1) by (simp add: AddFinalizer_def)
  have self: "refinalized j j" by (simp add: refinalized_def)
  have q: "refinalized j j1"
    by (rule job.finalizer_keeps [where Q = "refinalized j", OF _ _ _ self _ run])
      (use assms(2) self in \<open>auto simp: storeKey_def refinalized_def\<close>)
  have eff: "r \<noteq> None \<and> jobs w1 = jobs w \<or> r = None \<and> jobs w1 = (jobs w)(storeKey j \<mapsto> j1)"
    using job.finalizer_effect [OF _ run] by (auto simp: storeKey_def)
  have "oj_status j1 = oj_status j" "oj_targets j1 = oj_targets j" using refinalized_same [OF q] by simp_all
  then show ?thesis using q eff assms(3) by (auto simp: tracked_def wrote_def)
qed

lemma liveJob_effect:
  assumes "liveJob E j cs s = (r, s')" and "distinct (map ca_idx cs)" and "bounds b j cs" and "jobs (os_w s) (storeKey j) = Some j"
  shows "tracked b j cs (oj_status j) (os_w s')"
proof -
  let ?f = "\<lambda>j. j\<lparr>oj_finalizers := oc_addF (oe_c E) (oc_protect (oe_c E)) (oj_finalizers j)\<rparr>"
  obtain e j1 w1 where a: "AddFinalizer (oc_retry (oe_c E)) (oc_update (oe_c E)) (jobGet (oe_c E)) ?f j (os_w s) = (e, j1, w1)"
    by (rule prod_cases3)
  have "tracked b j cs (oj_status j) (os_w s)" using assms(4) by (simp add: tracked_def wrote_def)
  from addFinalizer_effect [OF a assms(4) this]
  have q: "refinalized j j1" and tr: "tracked b j cs (oj_status j) w1" by auto
  have k: "storeKey j1 = storeKey j" and tg: "oj_targets j1 = oj_targets j" using refinalized_same [OF q] by simp_all
  show ?thesis
  proof (cases e)
    case (Some err)
    then show ?thesis using assms(1) a tr by (auto simp: liveJob_def Let_def)
  next
    case None
    then have "runJob E j1 cs (s\<lparr>os_w := w1\<rparr>) = (r, s')" using assms(1) a by (simp add: liveJob_def Let_def)
    have "bounds b j1 cs" using refinalized_same [OF q] assms(3) by (simp add: bounds_def)
    from runJob_effect [OF \<open>runJob E j1 cs (s\<lparr>os_w := w1\<rparr>) = (r, s')\<close> assms(2) this, of "oj_status j"] tr show ?thesis using tracked_key [OF k tg] by simp
  qed
qed

lemma removeFinalizer_effect:
  assumes "RemoveFinalizer (oc_retry (oe_c E)) (oc_update (oe_c E)) (jobGet (oe_c E)) (\<lambda>j. j\<lparr>oj_finalizers := f (oj_finalizers j)\<rparr>) j w = (r, j1, w1)"
    and P: "\<And>q fs rv. P q \<Longrightarrow> P (q\<lparr>oj_finalizers := fs\<rparr>) \<and> P (q\<lparr>oj_rv := rv\<rparr>)" and "P j"
    and "\<And>q. jobs w (storeKey j) = Some q \<Longrightarrow> P q"
  shows "\<forall>q. jobs w1 (storeKey j) = Some q \<longrightarrow> P q"
proof -
  have run: "oc_retry (oe_c E) (finalizerTry (oc_update (oe_c E)) (jobGet (oe_c E)) (\<lambda>j. j\<lparr>oj_finalizers := f (oj_finalizers j)\<rparr>)) (j, w) = (r, j1, w1)"
    using assms(1) by (simp add: RemoveFinalizer_def)
  have "P j1"
    by (rule job.finalizer_keeps [where Q = P, OF _ _ _ assms(3) _ run])
      (use P assms(4) in \<open>auto simp: storeKey_def\<close>)
  moreover have "r \<noteq> None \<and> jobs w1 = jobs w \<or> r = None \<and> jobs w1 = (jobs w)(storeKey j \<mapsto> j1)"
    using job.finalizer_effect [OF _ run] by (auto simp: storeKey_def)
  ultimately show ?thesis using assms(4) by auto
qed

lemma releaseTargets_effect:
  assumes "releaseTargets E j cs s = (e, j1, s')" and "tracked b j cs st0 (os_w s)" and "length cs \<le> b"
  shows "tracked b j cs st0 (os_w s') \<and> storeKey j1 = storeKey j \<and> oj_targets j1 = oj_targets j
    \<and> (e = None \<longrightarrow> wrote b cs st0 (oj_status j1) \<and> letGo (oj_status j1) \<and> (\<exists>q. jobs (os_w s') (storeKey j) = Some q \<and> oj_status q = oj_status j1))"
proof (cases "getActionHandler E j")
  case (Inl err)
  then show ?thesis using assms by (auto simp: releaseTargets_def)
next
  case (Inr he)
  obtain e1 cs1 s1 where r: "releaseAll E j cs s = (e1, cs1, s1)" by (rule prod_cases3)
  note re = releaseAll_effect [OF r]
  have cov: "covers cs cs1" using re list_all2_covers by blast
  have st: "started cs1 \<le> b" using started_le [of cs1] list_all2_lengthD [OF conjunct1 [OF re]] assms(3) by linarith
  have tr: "tracked b j cs st0 (os_w s1)" using re tracked_cong assms(2) by blast
  obtain e2 j2 cs2 s2 where w: "writeJobStatus E j cs1 s1 = (e2, j2, cs2, s2)" by (rule prod_cases4)
  note we = writeJobStatus_effect [OF w cov st tr]
  have res: "e = AggregateErrors [e1, e2]" "j1 = j2" "s' = s2"
    using assms(1) by (simp_all add: releaseTargets_def Inr r w)
  have fin: "letGo (oj_status j1)" if "e = None"
  proof -
    have "e1 = None" using that res(1) by (cases e1; cases e2) auto
    then have all: "\<forall>c \<in> set cs1. IsCandidateOpsFinished c \<and> IsCandidateOpsReleased c" using re by blast
    have "IsCandidateOpsFinished d \<and> IsCandidateOpsReleased d" if "d \<in> set cs2" for d
    proof -
      obtain st where "calculateStatus E j cs1 = (st, cs2)"
        using w by (auto simp: writeJobStatus_def Let_def split: prod.splits)
      then have "cs2 = map (endCandidate (oe_now E)) cs1" using calculateStatus_details by blast
      then obtain c where "c \<in> set cs1" "d = endCandidate (oe_now E) c" using \<open>d \<in> set cs2\<close> by auto
      then show ?thesis using all by (simp add: endCandidate_def progDefs IsCandidateOpsReleased_def)
    qed
    then show ?thesis using we res by (auto simp: letGo_def progDefs IsCandidateOpsReleased_def)
  qed
  have "e2 = None" if "e = None" using that res(1) by (cases e1; cases e2) auto
  moreover have "wrote b cs st0 (oj_status j1)" if "e = None"
    using we res calculation [OF that] that by (auto simp: tracked_def)
  ultimately show ?thesis using we res fin by auto
qed

lemma deleteJob_effect:
  assumes "deleteJob E j cs s = (r, s')" and "tracked b j cs st0 (os_w s)" and "length cs \<le> b"
  shows "tracked b j cs st0 (os_w s') \<and> (\<forall>x q. r = Inr x \<longrightarrow> jobs (os_w s') (storeKey j) = Some q \<longrightarrow> letGo (oj_status q))"
proof -
  obtain e j1 s1 where rel: "releaseTargets E j cs s = (e, j1, s1)" by (rule prod_cases3)
  note re = releaseTargets_effect [OF rel assms(2,3)]
  show ?thesis
  proof (cases e)
    case (Some err)
    then show ?thesis using assms(1) rel re by (auto simp: deleteJob_def)
  next
    case None
    let ?f = "\<lambda>j. j\<lparr>oj_finalizers := oc_removeF (oe_c E) (oc_protect (oe_c E)) (oj_finalizers j)\<rparr>"
    obtain r2 j2 w2 where rm: "RemoveFinalizer (oc_retry (oe_c E)) (oc_update (oe_c E)) (jobGet (oe_c E)) ?f j1 (os_w s1) = (r2, j2, w2)"
      by (rule prod_cases3)
    let ?P = "\<lambda>q. wrote b cs st0 (oj_status q) \<and> letGo (oj_status q) \<and> oj_targets q = oj_targets j"
    have "\<forall>q. jobs w2 (storeKey j1) = Some q \<longrightarrow> ?P q"
      by (rule removeFinalizer_effect [where P = ?P, OF rm]) (use re None in \<open>auto simp: tracked_def\<close>)
    moreover have "os_w s' = w2" using assms(1) rel None rm by (auto simp: deleteJob_def Let_def)
    ultimately show ?thesis using re by (auto simp: tracked_def)
  qed
qed

lemma reconcile_effect:
  assumes "ReconcileJob E ns n s = (r, s')" and "jobs (os_w s) (ns @ ''/'' @ n) = Some j"
    and b: "\<And>cs. listTargets E j (os_w s) = Inr cs \<Longrightarrow> length cs \<le> b \<or> \<not> oj_deleting j \<and> bounds b j cs"
  shows "jobs (os_w s') = jobs (os_w s) \<or> (\<exists>cs. listTargets E j (os_w s) = Inr cs \<and> oj_ns j = ns \<and> oj_name j = n
    \<and> tracked b j cs (oj_status j) (os_w s')
    \<and> (\<forall>x q. oj_deleting j \<longrightarrow> r = Inr x \<longrightarrow> jobs (os_w s') (storeKey j) = Some q \<longrightarrow> letGo (oj_status q)))"
proof (cases "oc_job (oe_c E) (os_w s) ns n")
  case (Inl e)
  then show ?thesis using assms(1) by (auto simp: ReconcileJob_def)
next
  case (Inr q)
  from get_job [OF Inr] assms(2) have q: "q = j" "oj_ns j = ns" "oj_name j = n" by auto
  have st: "jobs (os_w s) (storeKey j) = Some j" using assms(2) q by (simp add: storeKey_def)
  show ?thesis
  proof (cases "listTargets E j (os_w s)")
    case (Inl e)
    then show ?thesis using assms(1) Inr q by (auto simp: ReconcileJob_def split: sum.splits bool.splits)
  next
    case l: (Inr cs)
    note dist = listTargets_idx [OF l]
    have tr: "tracked b j cs (oj_status j) (os_w s)" using st by (simp add: tracked_def wrote_def)
    have bd: "bounds b j cs" using b [OF l] by (auto simp: bounds_def)
    consider "s' = s" | "oj_deleting j" "deleteJob E j cs s = (r, s')" | "\<not> oj_deleting j" "liveJob E j cs s = (r, s')"
      using assms(1) Inr q l by (auto simp: ReconcileJob_def split: sum.splits bool.splits if_splits)
    then show ?thesis
    proof cases
      case 2
      have "length cs \<le> b" using b [OF l] 2(1) by auto
      from deleteJob_effect [OF 2(2) tr this] show ?thesis using l q by blast
    next
      case 3
      from liveJob_effect [OF 3(2) dist bd st] show ?thesis using l q 3(1) by blast
    qed simp
  qed
qed

text \<open>What the listed candidates say about the job.\<close>

lemma target_candidate:
  assumes "listTargets E j w = Inr cs"
  shows "map ca_podName cs = map tg_name (oj_targets j)
    \<and> (\<forall>c \<in> set cs. op_name (ca_status c) = ca_podName c \<and> caProg c = progOf j (ca_podName c))"
proof -
  have "listFrom E j w 0 (oj_targets j) = Inr cs" using assms by (simp add: listTargets_def)
  note lf = listFrom_candidates [OF this]
  have "op_name (ca_status c) = ca_podName c \<and> caProg c = progOf j (ca_podName c)" if "c \<in> set cs" for c
    using lf that MapOpsStatusByPod_name [of j "ca_podName c"]
    by (cases "mget (MapOpsStatusByPod j) (ca_podName c)") (auto simp: progOf_def)
  with lf show ?thesis by blast
qed

lemma reconcile_final:
  assumes "ReconcileJob E ns n s = (r, s')" and "jobs (os_w s) (ns @ ''/'' @ n) = Some j"
    and "jobs (os_w s') (ns @ ''/'' @ n) = Some j'" and "distinct (map tg_name (oj_targets j))"
    and "t \<in> tg_name ` set (oj_targets j)" and "progOf j t = OpFailed \<or> progOf j t = OpSucceeded"
  shows "progOf j' t = progOf j t"
proof (cases "jobs (os_w s') = jobs (os_w s)")
  case True
  then show ?thesis using assms(2,3) by simp
next
  case False
  let ?b = "length (oj_targets j)"
  have "length cs \<le> ?b" if "listTargets E j (os_w s) = Inr cs" for cs
    using target_candidate [OF that] by (metis length_map order_refl)
  then obtain cs where l: "listTargets E j (os_w s) = Inr cs" "oj_ns j = ns" "oj_name j = n"
    and tr: "tracked ?b j cs (oj_status j) (os_w s')"
    using reconcile_effect [OF assms(1,2), of ?b] False by blast
  note tc = target_candidate [OF l(1)]
  have names: "ca_podName ` set cs = tg_name ` set (oj_targets j)" "distinct (map ca_podName cs)"
    using tc assms(4) by (metis list.set_map, simp)
  obtain c where c: "c \<in> set cs" "ca_podName c = t" using assms(5) unfolding names(1) [symmetric] by blast
  have "wrote ?b cs (oj_status j) (oj_status j')" using tr assms(3) l(2,3) by (simp add: tracked_def storeKey_def)
  then consider "oj_status j' = oj_status j" | ds where "covers cs ds" "js_details (oj_status j') = map ca_status ds"
    by (auto simp: wrote_def)
  then show ?thesis
  proof cases
    case 1
    then show ?thesis by (simp add: progOf_def MapOpsStatusByPod_def)
  next
    case 2
    from covers_target [OF 2 names(2) _ c(1)] tc obtain d where "evolves c d" "progOf j' t = caProg d" using c(2) by blast
    then show ?thesis using tc c assms(6) by (auto simp: evolves_def progDefs)
  qed
qed

lemma reconcile_targets:
  assumes "ReconcileJob E ns n s = (r, s')" and "jobs (os_w s) (ns @ ''/'' @ n) = Some j"
    and "jobs (os_w s') (ns @ ''/'' @ n) = Some j'"
  shows "oj_targets j' = oj_targets j"
proof -
  let ?b = "length (oj_targets j)"
  have "length cs \<le> ?b" if "listTargets E j (os_w s) = Inr cs" for cs
    using target_candidate [OF that] by (metis length_map order_refl)
  with reconcile_effect [OF assms(1,2), of ?b] assms(2,3) show ?thesis by (auto simp: tracked_def storeKey_def)
qed

lemma reconcile_missing:
  assumes "ReconcileJob E ns n s = (r, s')" and "jobs (os_w s) (ns @ ''/'' @ n) = None"
  shows "s' = s"
  using assms get_job [of "os_w s" ns n] by (auto simp: ReconcileJob_def split: sum.splits)

lemma reconcile_partition:
  assumes "ReconcileJob E ns n s = (r, s')" and "jobs (os_w s) (ns @ ''/'' @ n) = Some j"
    and "jobs (os_w s') (ns @ ''/'' @ n) = Some j'" and "distinct (map tg_name (oj_targets j))" and "\<not> oj_deleting j"
    and "oj_partition j = Some m"
    and "\<forall>st \<in> set (js_details (oj_status j)). op_start st \<noteq> None \<longrightarrow> op_prog st \<noteq> OpUnset \<and> op_prog st \<noteq> OpPending"
  shows "int (length (filter (hasStarted j') (oj_targets j))) \<le> max m (int (length (filter (hasStarted j) (oj_targets j))))"
proof (cases "jobs (os_w s') = jobs (os_w s)")
  case True
  then show ?thesis using assms(2,3) by simp
next
  case False
  let ?S = "\<lambda>q. length (filter (hasStarted q) (oj_targets j))"
  let ?b = "nat (max m (int (?S j)))"
  have cnt: "started cs = ?S j \<and> startInv cs" if l: "listTargets E j (os_w s) = Inr cs" for cs
  proof
    note tc = target_candidate [OF l]
    have "started cs = length (filter (\<lambda>t. startedName j t) (map ca_podName cs))"
      unfolding started_def filter_map length_map o_def
      by (rule arg_cong [where f = length], rule filter_cong) (use tc in \<open>auto simp: startedName_def progDefs\<close>)
    also have "\<dots> = length (filter (\<lambda>t. startedName j t) (map tg_name (oj_targets j)))" using tc by simp
    also have "\<dots> = ?S j" by (simp add: filter_map o_def hasStarted_def [abs_def])
    finally show "started cs = ?S j" .
    have "listFrom E j (os_w s) 0 (oj_targets j) = Inr cs" using l by (simp add: listTargets_def)
    note lf = listFrom_candidates [OF this]
    have "\<not> IsCandidateOpsPending c" if c: "c \<in> set cs" "op_start (ca_status c) \<noteq> None" for c
    proof -
      from lf c obtain st where st: "mget (MapOpsStatusByPod j) (ca_podName c) = Some st" "ca_status c = st"
        by (cases "mget (MapOpsStatusByPod j) (ca_podName c)") auto
      then have "st \<in> set (js_details (oj_status j))" using MapOpsStatusByPod_mem by blast
      then show ?thesis using assms(7) c(2) st(2) by (auto simp: progDefs)
    qed
    then show "startInv cs" by (auto simp: startInv_def)
  qed
  have "bounds ?b j cs" if "listTargets E j (os_w s) = Inr cs" for cs
    using cnt [OF that] assms(6) by (auto simp: bounds_def)
  then obtain cs where l: "listTargets E j (os_w s) = Inr cs" "oj_ns j = ns" "oj_name j = n"
    and tr: "tracked ?b j cs (oj_status j) (os_w s')"
    using reconcile_effect [OF assms(1,2), of ?b] False assms(5) by blast
  note tc = target_candidate [OF l(1)]
  have names: "distinct (map ca_podName cs)" "mset (map ca_podName cs) = mset (map tg_name (oj_targets j))"
    using tc assms(4) by simp_all
  have "wrote ?b cs (oj_status j) (oj_status j')" using tr assms(3) l(2,3) by (simp add: tracked_def storeKey_def)
  then consider "oj_status j' = oj_status j" | ds where "covers cs ds" "started ds \<le> ?b" "js_details (oj_status j') = map ca_status ds"
    by (auto simp: wrote_def)
  then show ?thesis
  proof cases
    case 1
    then have "hasStarted j' = hasStarted j" by (auto simp: hasStarted_def startedName_def progOf_def MapOpsStatusByPod_def)
    then show ?thesis by simp
  next
    case 2
    have ds: "\<forall>d \<in> set ds. op_name (ca_status d) = ca_podName d" "distinct (map ca_podName ds)"
      "mset (map ca_podName ds) = mset (map tg_name (oj_targets j))"
      using 2(1) tc names unfolding covers_def evolves_def by (metis, metis mset_eq_imp_distinct_iff, metis)
    have pg: "\<And>d. d \<in> set ds \<Longrightarrow> progOf j' (ca_podName d) = caProg d" using progOf_details [OF 2(3) ds(1,2)] .
    have "?S j' = length (filter (\<lambda>t. startedName j' t) (map tg_name (oj_targets j)))"
      by (simp add: filter_map o_def hasStarted_def [abs_def])
    also have "\<dots> = length (filter (\<lambda>t. startedName j' t) (map ca_podName ds))"
      using ds(3) by (metis mset_filter size_mset)
    also have "\<dots> = started ds"
      unfolding started_def filter_map length_map o_def
      by (rule arg_cong [where f = length], rule filter_cong) (auto simp: startedName_def pg progDefs)
    finally show ?thesis using 2(2) by simp
  qed
qed

lemma reconcile_deleted:
  assumes "ReconcileJob E ns n s = (Inr x, s')" and "jobs (os_w s) (ns @ ''/'' @ n) = Some j" and "oj_deleting j"
    and "jobs (os_w s') (ns @ ''/'' @ n) = Some j'" and "jobs (os_w s') \<noteq> jobs (os_w s)"
  shows "letGo (oj_status j')"
proof -
  let ?b = "length (oj_targets j)"
  have "length cs \<le> ?b" if "listTargets E j (os_w s) = Inr cs" for cs
    using target_candidate [OF that] by (metis length_map order_refl)
  with reconcile_effect [OF assms(1,2), of ?b] assms(3-5) show ?thesis by (fastforce simp: storeKey_def)
qed

lemma operated_permitted:
  assumes "eachTarget (oe_sched E) (filterOne E enable j) cs \<lparr>ob_s = s, ob_allowed = [], ob_err = None\<rparr> = (cs', b)"
    and "d \<in> set (ob_allowed b)"
  shows "\<exists>c \<in> set cs. ca_podName d = ca_podName c \<and> permitted enable j c"
proof -
  have "filterInv enable j cs (os_w s) \<lparr>ob_s = s, ob_allowed = [], ob_err = None\<rparr>" by (simp add: filterInv_def)
  then have "list_all2 evolves cs cs' \<and> filterInv enable j cs (os_w s) b"
    by (rule eachTarget_rel [where I = "filterInv enable j cs (os_w s)" and R = evolves, OF order _ filterOne_step assms(1)])
  then obtain c where "c \<in> set cs" "evolves c d" "permitted enable j c" using assms(2) unfolding filterInv_def by blast
  then show ?thesis unfolding evolves_def by metis
qed

end

text \<open>The progress of a target never leaves a final state: whatever a reconciliation of its job does (operate, time out, release
  for deletion), a target that has failed or succeeded has the same progress in the stored job afterwards.\<close>

theorem finished_target_is_final:
  assumes "job_server E objs jobs" and "ReconcileJob E ns n s = (r, s')" and "jobs (os_w s) (ns @ ''/'' @ n) = Some j"
    and "jobs (os_w s') (ns @ ''/'' @ n) = Some j'" and "distinct (map tg_name (oj_targets j))"
    and "t \<in> tg_name ` set (oj_targets j)" and "progOf j t = OpFailed \<or> progOf j t = OpSucceeded"
  shows "progOf j' t = progOf j t"
  by (rule job_server.reconcile_final [OF assms])

text \<open>C21: A reconciliation never starts more targets than the partition allows: afterwards the number of targets that have started
  is at most the partition, or what it was before.\<close>

theorem partition_bounds_started:
  assumes "job_server E objs jobs" and "ReconcileJob E ns n s = (r, s')" and "jobs (os_w s) (ns @ ''/'' @ n) = Some j"
    and "jobs (os_w s') (ns @ ''/'' @ n) = Some j'" and "distinct (map tg_name (oj_targets j))" and "\<not> oj_deleting j"
    and "oj_partition j = Some m"
    and "\<forall>st \<in> set (js_details (oj_status j)). op_start st \<noteq> None \<longrightarrow> op_prog st \<noteq> OpUnset \<and> op_prog st \<noteq> OpPending"
  shows "int (length (filter (hasStarted j') (oj_targets j))) \<le> max m (int (length (filter (hasStarted j) (oj_targets j))))"
  by (rule job_server.reconcile_partition [OF assms])



end
