(* ===== verification/OperationJobStatus.thy ===== *)
theory OperationJobStatus
  imports OpsReplace
begin

text \<open>The status of an OperationJob, its deadlines, the id of its lifecycle and the replacing of pods.\<close>

subsection \<open>The calculated status\<close>

lemma countProg_pos: "0 < countProg x ds \<longleftrightarrow> (\<exists>d \<in> set ds. op_prog d = x)"
  by (auto simp: countProg_def filter_empty_conv)

lemma countProg_two: "x \<noteq> y \<Longrightarrow> countProg x ds + countProg y ds = int (length (filter (\<lambda>d. op_prog d = x \<or> op_prog d = y) ds))"
  by (induction ds) (auto simp: countProg_def)

lemma length_filter_all: "length (filter P xs) = length xs \<longleftrightarrow> (\<forall>x \<in> set xs. P x)"
proof (induction xs)
  case (Cons x xs)
  have "length (filter P xs) \<noteq> Suc (length xs)" using length_filter_le [of P xs] by linarith
  then show ?case using Cons by auto
qed simp

lemma countProg_finished:
  "countProg OpSucceeded ds + countProg OpFailed ds = int (length ds) \<longleftrightarrow> (\<forall>d \<in> set ds. op_prog d = OpFailed \<or> op_prog d = OpSucceeded)"
proof -
  let ?P = "\<lambda>d. op_prog d = OpSucceeded \<or> op_prog d = OpFailed"
  have "countProg OpSucceeded ds + countProg OpFailed ds = int (length (filter ?P ds))" by (simp add: countProg_two)
  then have "countProg OpSucceeded ds + countProg OpFailed ds = int (length ds) \<longleftrightarrow> length (filter ?P ds) = length ds" by simp
  also have "\<dots> \<longleftrightarrow> (\<forall>d \<in> set ds. ?P d)" by (rule length_filter_all)
  finally show ?thesis by auto
qed

lemma endCandidate_prog [simp]: "caProg (endCandidate now c) = caProg c"
  by (simp add: endCandidate_def)

text \<open>The status that is calculated counts the targets; unless the job had finished before, it says that the job succeeded exactly
  when all targets have, failed exactly when all are finished and one failed, and then it has an end time.\<close>

theorem job_status_calculated:
  assumes "calculateStatus E j cs = (st, cs')" and "\<not> IsJobFinished (oj_status j)"
  shows "js_total st = int (length cs) \<and> js_succeeded st + js_failed st \<le> js_total st
    \<and> (js_prog st = OpSucceeded \<longleftrightarrow> (\<forall>c \<in> set cs. caProg c = OpSucceeded))
    \<and> (js_prog st = OpFailed \<longleftrightarrow> (\<forall>c \<in> set cs. IsCandidateOpsFinished c) \<and> (\<exists>c \<in> set cs. caProg c = OpFailed))
    \<and> (IsJobFinished st \<longrightarrow> js_end st \<noteq> None)"
proof -
  let ?cs = "map (endCandidate (oe_now E)) cs"
  let ?ds = "map ca_status ?cs"
  let ?s = "countProg OpSucceeded ?ds" and ?f = "countProg OpFailed ?ds" and ?n = "int (length cs)"
  have fields: "js_total st = ?n" "js_succeeded st = ?s" "js_failed st = ?f"
    using assms(1) by (auto simp: calculateStatus_def Let_def)
  have "?s + ?f \<le> int (length ?ds)" by (simp add: countProg_two)
  then have le: "?s + ?f \<le> ?n" by simp
  have fin: "?s + ?f = ?n \<longleftrightarrow> (\<forall>c \<in> set cs. IsCandidateOpsFinished c)"
    using countProg_finished [of ?ds] by (auto simp: IsCandidateOpsFinished_def)
  have fl: "0 < ?f \<longleftrightarrow> (\<exists>c \<in> set cs. caProg c = OpFailed)" using countProg_pos [of OpFailed ?ds] by auto
  have pr: "js_prog st = (if ?s + ?f = ?n then (if 0 < ?f then OpFailed else OpSucceeded)
      else if countProg OpPending ?ds = ?n then OpPending else OpProcessing)
    \<and> (?s + ?f = ?n \<longrightarrow> js_end st \<noteq> None)"
    using assms by (auto simp: calculateStatus_def Let_def IsJobFinished_def)
  have "js_prog st = OpSucceeded \<longleftrightarrow> ?s + ?f = ?n \<and> \<not> 0 < ?f" using pr by auto
  also have "\<dots> \<longleftrightarrow> (\<forall>c \<in> set cs. caProg c = OpSucceeded)"
    unfolding fin fl by (auto simp: IsCandidateOpsFinished_def)
  finally have succ: "js_prog st = OpSucceeded \<longleftrightarrow> (\<forall>c \<in> set cs. caProg c = OpSucceeded)" .
  have "js_prog st = OpFailed \<longleftrightarrow> ?s + ?f = ?n \<and> 0 < ?f" using pr by auto
  then have "js_prog st = OpFailed \<longleftrightarrow> (\<forall>c \<in> set cs. IsCandidateOpsFinished c) \<and> (\<exists>c \<in> set cs. caProg c = OpFailed)"
    unfolding fin fl .
  moreover have "IsJobFinished st \<longrightarrow> js_end st \<noteq> None" using pr by (auto simp: IsJobFinished_def split: if_splits)
  ultimately show ?thesis using fields le succ by simp
qed

subsection \<open>Deadlines\<close>

lemma deadlineLoop_left:
  "(\<exists>left. fst (deadlineLoop now d cs) = Some left) \<longleftrightarrow>
     (\<exists>c \<in> set cs. \<exists>t. op_start (ca_status c) = Some t \<and> now - t < d * 1000000000)"
  by (induction cs) (auto split: option.splits prod.splits)

text \<open>While one started target is within the active deadline the job is not deleted, however long ago it has finished and
  whatever its time to live.\<close>

theorem deadline_hides_ttl:
  assumes "oj_deadline j = Some d" and "c \<in> set cs" and "op_start (ca_status c) = Some t" and "oe_now E - t < d * 1000000000"
  shows "\<exists>left cs'. ensureActiveDeadlineAndTTL E j cs s = ((False, Some left, None), cs', s)"
proof -
  obtain left cs' where "deadlineLoop (oe_now E) d cs = (Some left, cs')"
    using deadlineLoop_left [of "oe_now E" d cs] assms(2-4) by (metis prod.collapse)
  then show ?thesis by (simp add: ensureActiveDeadlineAndTTL_def assms(1))
qed

subsection \<open>Conflicts\<close>

lemma statusTry_stale:
  assumes "retried (statusTry C st) (old, w) r" and "oc_updateStatus C (old\<lparr>oj_status := st\<rparr>) w = (Inl Conflict, w)"
  shows "fst r = Some Conflict"
proof -
  have "fst x = Some Conflict"
    if "retried (statusTry C st) s x" "oc_updateStatus C ((fst s)\<lparr>oj_status := st\<rparr>) (snd s) = (Inl Conflict, snd s)" for s x
    using that by (induction rule: retried.induct) (auto simp: statusTry_def Let_def)
  from this [OF assms(1)] assms(2) show ?thesis by simp
qed

text \<open>If the job that the status update has read is stale, every retry sends the same stale object again: the update fails with a
  conflict however often it is retried.\<close>

theorem status_conflict_never_resolves:
  assumes "oc_job (oe_c E) (os_w s) (oj_ns j) (oj_name j) = Inr old" and "oj_status old \<noteq> oj_status j"
    and "oc_updateStatus (oe_c E) (old\<lparr>oj_status := oj_status j\<rparr>) (os_w s) = (Inl Conflict, os_w s)"
    and "\<forall>f x. retried f x (oc_retry (oe_c E) f x)"
  shows "fst (updateStatus E j s) = Some Conflict"
proof -
  obtain r o1 w1 where r: "oc_retry (oe_c E) (statusTry (oe_c E) (oj_status j)) (old, os_w s) = (r, o1, w1)" by (rule prod_cases3)
  have "retried (statusTry (oe_c E) (oj_status j)) (old, os_w s) (r, o1, w1)" using assms(4) r by metis
  from statusTry_stale [OF this assms(3)] have "r = Some Conflict" by simp
  then show ?thesis using assms(1,2) r by (simp add: updateStatus_def Let_def)
qed

subsection \<open>The id of a lifecycle\<close>

lemma hexStr_length: "n < 16 ^ k \<Longrightarrow> 0 < k \<Longrightarrow> length (hexStr n) \<le> k"
proof (induction n arbitrary: k rule: hexStr.induct)
  case (1 n)
  show ?case
  proof (cases "n < 16")
    case False
    then have k: "1 < k" using 1(2) by (cases "k = 1") (use 1(3) in auto)
    then have "n div 16 < 16 ^ (k - 1)" using 1(2) by (cases k) (auto simp: less_mult_imp_div_less mult.commute)
    from 1(1) [OF False this] k show ?thesis using False by (subst hexStr.simps) simp
  qed (use 1(3) in \<open>subst hexStr.simps, simp\<close>)
qed

text \<open>The id of a lifecycle fits into a label name: it is the name of the job, or a hash of at most ten characters when the name is
  longer than 63.\<close>

theorem lifecycle_id_fits:
  "length (GenerateLifecycleID v) \<le> 63
   \<and> (if length v \<le> 63 then GenerateLifecycleID v = v else length (GenerateLifecycleID v) \<le> 10)"
proof -
  have "unat (fnv32a v 2166136261) < 2 ^ 32" using unsigned_less [of "fnv32a v 2166136261"] by simp
  then have "length (hexStr (unat (fnv32a v 2166136261))) \<le> 8" by (intro hexStr_length) simp_all
  then show ?thesis by (auto simp: GenerateLifecycleID_def)
qed

subsection \<open>Replacing a pod\<close>

text \<open>The action that replaces pods succeeds exactly when the origin pod is gone and the new pod that was recorded for it is
  available for service; it fails exactly when the origin pod is gone and no new pod was recorded.\<close>

theorem replace_outcome:
  "(fst (fst (ReplaceGetOpsProgress V c j w)) = ActionSucceeded \<longleftrightarrow> ca_pod c = None
      \<and> (\<exists>n q. mget (op_extra (ca_status c)) (rp_newPodKey V) = Some n \<and> cl_get (rp_cl V) w (oj_ns j) n = Inr q
           \<and> mhas (p_labels q) (svcAvailL (rp_api V))))
   \<and> (fst (fst (ReplaceGetOpsProgress V c j w)) = ActionFailed \<longleftrightarrow> ca_pod c = None
      \<and> mget (op_extra (ca_status c)) (rp_newPodKey V) = None)"
proof (cases "ca_pod c")
  case None
  then show ?thesis
    by (auto simp: ReplaceGetOpsProgress_def progressWithoutOrigin_def Let_def split: option.splits sum.splits)
next
  case (Some p)
  have "fst (fst (progressOfOrigin V c p j w)) = ActionProcessing"
    by (auto simp: progressOfOrigin_def Let_def split: option.splits sum.splits prod.splits)
  then show ?thesis using Some by (simp add: ReplaceGetOpsProgress_def)
qed

lemma mdel_mput: "\<not> mhas m k \<Longrightarrow> mdel k (mput k v m) = m"
  by (induction m) (auto simp: AList.delete_eq mhas_def filter_id_conv dest!: map_of_SomeD)

text \<open>Releasing a pod undoes what triggering its replacement wrote: label and finalizer are as before.\<close>

theorem release_undoes_trigger:
  assumes "p_labels p \<noteq> []" and "\<not> mhas (p_labels p) (replIndL (rp_api V))" and "\<not> ContainsFinalizer p OperationJobReplacePodFinalizer"
    and "\<And>f fs. f \<notin> set fs \<Longrightarrow> rp_removeF V f (rp_addF V f fs) = fs"
  shows "rbind (triggerReplace V p) (cancelReplace V) = Inr p"
  using assms by (simp add: triggerReplace_def cancelReplace_def mdel_mput ContainsFinalizer_def)

end
