(* ===== verification/OperationJobServer.thy ===== *)
theory OperationJobServer
  imports OperationJobProps OperationJobStatus
begin

text \<open>
  The replace action keeps the contract of an action, on any server whose pod updates leave the jobs alone
  (\<open>replace_server\<close>), and a server in memory, pods and jobs by key, keeps the contract of the controller.
\<close>

lemma keeps_through [simp]:
  "keepsStatus c (d\<lparr>ca_pod := po\<rparr>) = keepsStatus c d" "keepsStatus c (setExtra m d) = keepsStatus c d"
  "keepsStatus c (SetOpsStatusError r msg d) = keepsStatus c d"
  by (simp_all add: keepsStatus_def setExtra_def SetOpsStatusError_def)

locale replace_server =
  fixes V :: "'w rpenv" and jobs :: "'w \<Rightarrow> string \<Rightarrow> ojob option"
  assumes update_frame: "cl_update (rp_cl V) p w = (x, w') \<Longrightarrow> jobs w' = jobs w"
    and retry_runs: "retried f w (cl_retry (rp_cl V) f w)"
    and retryP_runs: "retried fP sP (rp_retryP V fP sP)"
    and order: "schedules (rp_sched V)"
begin

lemma UpdatePodWithRetry_frame: "UpdatePodWithRetry (rp_cl V) p f w = (e, w') \<Longrightarrow> jobs w' = jobs w"
proof -
  have step: "jobs (snd (updateTry (rp_cl V) (p_ns p) (p_name p) f w1)) = jobs w1" for w1
    by (auto simp: updateTry_def dest: update_frame split: sum.splits prod.splits)
  have "jobs (snd x) = jobs w" if "retried (updateTry (rp_cl V) (p_ns p) (p_name p) f) w x" for x
    by (rule retried_inv [where P = "\<lambda>w1. jobs w1 = jobs w", OF that]) (simp_all add: step)
  from this [OF retry_runs] show "UpdatePodWithRetry (rp_cl V) p f w = (e, w') \<Longrightarrow> jobs w' = jobs w"
    by (simp add: UpdatePodWithRetry_def)
qed

lemma podRemoveFinalizer_frame: "podRemoveFinalizer V p w = (e, p', w') \<Longrightarrow> jobs w' = jobs w"
proof -
  let ?f = "finalizerTry (cl_update (rp_cl V)) (\<lambda>w p. cl_get (rp_cl V) w (p_ns p) (p_name p))
    (\<lambda>p. p\<lparr>p_finalizers := rp_removeF V OperationJobReplacePodFinalizer (p_finalizers p)\<rparr>)"
  have step: "jobs (snd (snd (?f s))) = jobs (snd s)" for s
    by (auto simp: finalizerTry_def Let_def dest: update_frame split: sum.splits prod.splits)
  have "jobs (snd (snd x)) = jobs w" if "retried ?f (p, w) x" for x
    by (rule retried_inv [where P = "\<lambda>s. jobs (snd s) = jobs w", OF that]) (simp_all add: step)
  from this [OF retryP_runs] show "podRemoveFinalizer V p w = (e, p', w') \<Longrightarrow> jobs w' = jobs w"
    by (simp add: podRemoveFinalizer_def RemoveFinalizer_def)
qed

lemma replaceOne_step: "jobs (snd st) = W \<Longrightarrow> replaceOne V c st = (e, c', st') \<Longrightarrow> keepsStatus c c' \<and> jobs (snd st') = W"
  by (auto simp: replaceOne_def stored_def Let_def dest: UpdatePodWithRetry_frame
      split: option.splits if_splits prod.splits)

lemma releaseReplaced_step: "jobs (snd st) = W \<Longrightarrow> releaseReplaced V c st = (e, c', st') \<Longrightarrow> keepsStatus c c' \<and> jobs (snd st') = W"
  by (auto simp: releaseReplaced_def stored_def Let_def dest: UpdatePodWithRetry_frame split: option.splits if_splits prod.splits)

lemma progress_step: "ReplaceGetOpsProgress V c j w = (r, c', w') \<Longrightarrow> keepsStatus c c' \<and> jobs w' = jobs w"
  by (auto simp: ReplaceGetOpsProgress_def progressOfOrigin_def progressWithoutOrigin_def Let_def
      dest: podRemoveFinalizer_frame split: option.splits sum.splits if_splits prod.splits)

lemma each_step:
  assumes "\<And>c st e c' st'. jobs (snd st) = jobs w \<Longrightarrow> step c st = (e, c', st') \<Longrightarrow> keepsStatus c c' \<and> jobs (snd st') = jobs w"
    and "eachTarget (rp_sched V) step cs (m0, w) = (cs', m, w')"
  shows "list_all2 keepsStatus cs cs' \<and> jobs w' = jobs w"
proof -
  have "list_all2 keepsStatus cs cs' \<and> jobs (snd (m, w')) = jobs w"
    by (rule eachTarget_rel [where I = "\<lambda>st. jobs (snd st) = jobs w", OF order _ _ assms(2)]) (use assms(1) in auto)
  then show ?thesis by simp
qed

end

sublocale replace_server \<subseteq> replace: action_handler "PodReplaceHandler V" jobs
proof
  fix cs cs' j w m w'
  assume "oh_operate (PodReplaceHandler V) cs j w = (m, cs', w')"
  then have "eachTarget (rp_sched V) (replaceOne V) cs ([], w) = (cs', m, w')"
    by (auto simp: PodReplaceHandler_def ReplaceOperateTargets_def split: prod.splits)
  then show "list_all2 keepsStatus cs cs' \<and> jobs w' = jobs w" by (rule each_step [rotated]) (erule (1) replaceOne_step)
next
  fix cs cs' j w m w'
  assume "oh_release (PodReplaceHandler V) cs j w = (m, cs', w')"
  then have "eachTarget (rp_sched V) (releaseReplaced V) cs ([], w) = (cs', m, w')"
    by (auto simp: PodReplaceHandler_def ReplaceReleaseTargets_def split: prod.splits)
  then show "list_all2 keepsStatus cs cs' \<and> jobs w' = jobs w" by (rule each_step [rotated]) (erule (1) releaseReplaced_step)
qed (simp add: PodReplaceHandler_def progress_step)

subsection \<open>A server in memory\<close>

type_synonym oworld = "pod gomap \<times> ojob gomap"

definition memo_put :: "ojob \<Rightarrow> oworld \<Rightarrow> (gerr + ojob) \<times> oworld" where
  "memo_put j w =
     (case mget (snd w) (storeKey j) of
        None \<Rightarrow> (Inl NotFound, w)
      | Some q \<Rightarrow>
          if oj_rv j = oj_rv q
          then (let j' = j\<lparr>oj_rv := oj_rv j @ ''1''\<rparr> in (Inr j', (fst w, mput (storeKey j) j' (snd w))))
          else (Inl Conflict, w))"

definition memo_pods :: "oworld client" where
  "memo_pods =
     \<lparr>cl_get = (\<lambda>w. cl_get mem_client (fst w)),
      cl_update = (\<lambda>p w. map_prod id (\<lambda>ps. (ps, snd w)) (mem_update p (fst w))),
      cl_status = (\<lambda>p w. map_prod id (\<lambda>ps. (ps, snd w)) (mem_update p (fst w))),
      cl_svc = (\<lambda>w ns n. Inl NotFound), cl_retry = mem_retry 4\<rparr>"

definition addTo :: "string \<Rightarrow> string list \<Rightarrow> string list" where
  "addTo f fs = (if f \<in> set fs then fs else fs @ [f])"

definition removeFrom :: "string \<Rightarrow> string list \<Rightarrow> string list" where
  "removeFrom f fs = filter (\<lambda>x. x \<noteq> f) fs"

definition memo_client :: "oworld oclient" where
  "memo_client =
     \<lparr>oc_cl = memo_pods,
      oc_job = (\<lambda>w ns n. case mget (snd w) (ns @ ''/'' @ n) of
          None \<Rightarrow> Inl NotFound
        | Some j \<Rightarrow> if oj_ns j = ns \<and> oj_name j = n then Inr j else Inl NotFound),
      oc_update = memo_put, oc_updateStatus = memo_put,
      oc_delete = (\<lambda>j w. (None, (fst w, mdel (storeKey j) (snd w)))),
      oc_retry = mem_retry 4, oc_protect = ''protect'', oc_addF = addTo, oc_removeF = removeFrom\<rparr>"

definition memo_replace :: "api \<Rightarrow> oworld rpenv" where
  "memo_replace A =
     \<lparr>rp_api = A, rp_cl = memo_pods,
      rp_list = (\<lambda>w ns k v. Inr (filter (\<lambda>p. p_ns p = ns \<and> mget (p_labels p) k = Some v) (map snd (fst w)))),
      rp_sched = id, rp_newPodKey = ''ReplacedNewPod'', rp_podNotFound = ''PodNotFound'', rp_action = ''Replace'',
      rp_addF = addTo, rp_removeF = removeFrom, rp_retryP = mem_retry 4\<rparr>"

text \<open>Besides replacing, the registry has an action with a lifecycle that is done at once.\<close>

definition restartHandler :: "'w ohandler" where
  "restartHandler =
     \<lparr>oh_operate = (\<lambda>cs j w. (map (\<lambda>c. (ca_podName c, None)) cs, cs, w)),
      oh_progress = (\<lambda>c j w. ((ActionSucceeded, None), c, w)),
      oh_release = (\<lambda>cs j w. (map (\<lambda>c. (ca_podName c, None)) cs, cs, w))\<rparr>"

definition memo_registry :: "api \<Rightarrow> oworld oregistry" where
  "memo_registry A =
     RegisterAction ''Restart'' restartHandler True
       (RegisterOperationJobActions (memo_replace A) \<lparr>ActionRegistry = [], EnablePodOpsLifecycleRegistry = []\<rparr>)"

definition memo_env :: "api \<Rightarrow> int \<Rightarrow> oworld oenv" where
  "memo_env A now =
     \<lparr>oe_api = A, oe_c = memo_client, oe_reg = memo_registry A, oe_sched = id, oe_now = now, oe_stamp = ''stamp'',
      oe_podNotFound = ''PodNotFound''\<rparr>"

lemma memo_put_ok:
  assumes "memo_put j w = (Inr j', w')"
  shows "(\<exists>rv. j' = j\<lparr>oj_rv := rv\<rparr>) \<and> mget (snd w') = (mget (snd w))(storeKey j \<mapsto> j') \<and> fst w' = fst w"
  using assms by (auto simp: memo_put_def Let_def fun_eq_iff split: option.splits if_splits)

lemma memo_put_err: "memo_put j w = (Inl e, w') \<Longrightarrow> w' = w"
  by (auto simp: memo_put_def Let_def split: option.splits if_splits)

lemma memo_get: "oc_job memo_client w ns n = Inr j \<Longrightarrow> mget (snd w) (ns @ ''/'' @ n) = Some j \<and> oj_ns j = ns \<and> oj_name j = n"
  by (auto simp: memo_client_def split: option.splits if_splits)

lemma memo_pod_server: "api_server memo_pods (\<lambda>w. mget (fst w))"
proof
  show "cl_get memo_pods w ns n = Inr p \<Longrightarrow> mget (fst w) (ns @ ''/'' @ n) = Some p \<and> p_ns p = ns \<and> p_name p = n"
    for w ns n p using mem.get_current [of "fst w" ns n p] by (simp add: memo_pods_def)
  show "retried f w (cl_retry memo_pods f w)" for f w by (simp add: memo_pods_def mem_retry_retried)
qed (auto simp: memo_pods_def map_prod_def split: prod.splits dest: mem_update_ok mem_update_err)

lemma memo_job_server: "object_server memo_put (jobGet memo_client) (mem_retry 4) (\<lambda>w. mget (snd w)) storeKey
    (\<lambda>rv j. j\<lparr>oj_rv := rv\<rparr>)"
  by unfold_locales
    (auto simp: mem_retry_retried jobGet_def storeKey_def dest: memo_put_ok memo_put_err memo_get)

interpretation memo_rep: replace_server "memo_replace A" "\<lambda>w. mget (snd w)"
  by unfold_locales
    (auto simp: memo_replace_def memo_pods_def map_prod_def mem_retry_retried schedules_def split: prod.splits)

lemma restart_handler: "action_handler restartHandler jobs"
  by unfold_locales (auto simp: restartHandler_def list_all2_refl)

interpretation memo: job_server "memo_env A now" "\<lambda>w. mget (fst w)" "\<lambda>w. mget (snd w)"
proof -
  have 1: "api_server (oc_cl (oe_c (memo_env A now))) (\<lambda>w. mget (fst w))"
    using memo_pod_server by (simp add: memo_env_def memo_client_def)
  have 2: "object_server (oc_update (oe_c (memo_env A now))) (jobGet (oe_c (memo_env A now))) (oc_retry (oe_c (memo_env A now)))
      (\<lambda>w. mget (snd w)) storeKey (\<lambda>rv j. j\<lparr>oj_rv := rv\<rparr>)"
    using memo_job_server by (simp add: memo_env_def memo_client_def)
  have 3: "action_handler h (\<lambda>w. mget (snd w))" if "mget (ActionRegistry (oe_reg (memo_env A now))) a = Some h" for a h
    using that memo_rep.replace.action_handler_axioms restart_handler
    by (auto simp: memo_env_def memo_registry_def RegisterAction_def RegisterOperationJobActions_def split: if_splits)
  show "job_server (memo_env A now) (\<lambda>w. mget (fst w)) (\<lambda>w. mget (snd w))"
  proof (intro job_server.intro job_server_axioms.intro)
    show "api_server (oc_cl (oe_c (memo_env A now))) (\<lambda>w. mget (fst w))" by (rule 1)
    show "object_server (oc_update (oe_c (memo_env A now))) (jobGet (oe_c (memo_env A now))) (oc_retry (oe_c (memo_env A now)))
      (\<lambda>w. mget (snd w)) storeKey (\<lambda>rv j. j\<lparr>oj_rv := rv\<rparr>)" by (rule 2)
    show "\<And>a h. mget (ActionRegistry (oe_reg (memo_env A now))) a = Some h \<Longrightarrow> action_handler h (\<lambda>w. mget (snd w))" by (rule 3)
  qed (auto simp: memo_env_def memo_client_def memo_pods_def map_prod_def schedules_def
      split: prod.splits option.splits if_splits dest: memo_put_ok memo_put_err)
qed

end
