(* ===== verification/Admission.thy ===== *)
theory Admission
  imports Prelude
begin

text \<open>
  Admission requests and how \<^verbatim>\<open>pkg/webhook/server/generic\<close> hands them to the handler of their kind
  (\<^verbatim>\<open>generic_mutating_handler.go\<close>, \<^verbatim>\<open>generic_validating_handler.go\<close>), and the wrapper of plugins,
  \<^verbatim>\<open>pkg/webhook/admission/plugins.go\<close>.  A decoder is a parameter: a request carries what it returns.
  The patch of a response is the object that it leads to.  \<open>Invalid\<close> and \<open>Rejected\<close> are the responses \<open>Errored\<close> and
  \<open>Denied\<close> for the aggregate of a list of errors, whose text the library of Kubernetes puts together.
\<close>

datatype admop = AdmCreate | AdmUpdate | AdmDelete | AdmConnect

text \<open>An error of a check: the path of the field, and the message without the values it quotes.\<close>

type_synonym fielderr = "string \<times> string"

datatype 'a response = Allowed | Patched 'a | Errored int string | Denied string | NoPatch string
  | Invalid int "fielderr list" | Rejected "fielderr list"

subsection \<open>Dispatching by kind\<close>

record request =
  rq_kind :: string
  rq_sub :: string
  rq_dryRun :: "bool option"
  rq_op :: admop

definition typeKey :: "request \<Rightarrow> string" where
  "typeKey r = (if rq_sub r \<noteq> [] then rq_kind r @ ''/'' @ rq_sub r else rq_kind r)"

definition genericMutating :: "(request \<Rightarrow> 'a response) gomap \<Rightarrow> request \<Rightarrow> 'a response" where
  "genericMutating handlers r =
     (if rq_dryRun r = Some True then Allowed
      else (case mget handlers (typeKey r) of
              Some h \<Rightarrow> h r
            | None \<Rightarrow> NoPatch ''NoMutating''))"

definition genericValidating :: "(request \<Rightarrow> 'a response) gomap \<Rightarrow> request \<Rightarrow> 'a response" where
  "genericValidating handlers r =
     (case mget handlers (typeKey r) of
        Some h \<Rightarrow> h r
      | None \<Rightarrow> Allowed)"

text \<open>The kinds that have handlers.\<close>

definition mutatingKinds :: "string list" where
  "mutatingKinds = [''Pod'', ''Pod/status'', ''PodTransitionRule'', ''PodDecoration'', ''CollaSet'', ''PersistentVolumeClaim'',
     ''OperationJob'', ''ResourceContext'']"

definition validatingKinds :: "string list" where
  "validatingKinds = [''Pod'', ''PodTransitionRule'', ''PodDecoration'', ''CollaSet'', ''PersistentVolumeClaim'',
     ''OperationJob'', ''ResourceContext'']"

subsection \<open>Plugins\<close>

text \<open>The functions of a plugin can be nil.  They work on an object and return an error and the object as they leave it.\<close>

record 'a plugin =
  pl_name :: string
  pl_validation :: "('a \<Rightarrow> gerr option \<times> 'a) option"
  pl_mutation :: "('a \<Rightarrow> gerr option \<times> 'a) option"

definition DefaultOnPlugins :: "string list" where
  "DefaultOnPlugins = [''SidecarInject'']"

definition pluginValidate :: "'a plugin \<Rightarrow> 'a \<Rightarrow> gerr option" where
  "pluginValidate P ob =
     (if pl_name P \<notin> set DefaultOnPlugins then None
      else (case pl_validation P of
              None \<Rightarrow> Some (Err ''plugin does not implement Validation'')
            | Some f \<Rightarrow>
                (case f ob of (e, ob') \<Rightarrow>
                   if e \<noteq> None \<or> ob' \<noteq> ob then Some (Err ''plugin validate failed'') else None)))"

definition pluginAdmit :: "'a plugin \<Rightarrow> 'a \<Rightarrow> gerr option \<times> 'a" where
  "pluginAdmit P ob =
     (if pl_name P \<notin> set DefaultOnPlugins then (None, ob)
      else (case pl_mutation P of
              None \<Rightarrow> (Some (Err ''plugin does not implement Mutation''), ob)
            | Some f \<Rightarrow>
                (case f ob of (e, ob') \<Rightarrow> (if e \<noteq> None then Some (Err ''plugin admit failed'') else None, ob'))))"

end
