(* ===== verification/OperationJobWebhook.thy ===== *)
theory OperationJobWebhook
  imports OperationJobProps Admission
begin

text \<open>
  \<^verbatim>\<open>pkg/webhook/server/generic/operationjob\<close>: the defaults and the checks of an OperationJob, and the life of a job
  between its reconciliations and the updates that the webhook admits.

  The decoder is a parameter: the request carries what it returns.  An error list is the list of the paths and
  messages.  On creation the old job is the empty object.
\<close>

definition defaultTTL :: int where
  "defaultTTL = 30 * 60"

definition defaultActiveDeadline :: int where
  "defaultActiveDeadline = 3 * 60 * 60"

definition SetDefaultSpec :: "ojob \<Rightarrow> ojob" where
  "SetDefaultSpec j =
     (let j1 = (if oj_deadline j = None then j\<lparr>oj_deadline := Some defaultActiveDeadline\<rparr> else j)
      in if oj_ttl j1 = None then j1\<lparr>oj_ttl := Some defaultTTL\<rparr> else j1)"

definition jobMutatingHandle :: "admop \<Rightarrow> gerr + ojob \<Rightarrow> ojob response" where
  "jobMutatingHandle opn dec =
     (if opn \<noteq> AdmUpdate \<and> opn \<noteq> AdmCreate then Allowed
      else (case dec of Inl e \<Rightarrow> Errored 400 (errText e) | Inr j \<Rightarrow> Patched (SetDefaultSpec j)))"

subsection \<open>Validation\<close>

definition emptyJob :: ojob where
  "emptyJob =
     \<lparr>oj_ns = [], oj_name = [], oj_rv = [], oj_generation = 0, oj_deleting = False, oj_finalizers = [], oj_action = [],
      oj_partition = None, oj_targets = [], oj_deadline = None, oj_ttl = None, oj_delay = None,
      oj_status = \<lparr>js_start = None, js_end = None, js_prog = OpUnset, js_observed = 0, js_total = 0, js_succeeded = 0,
        js_failed = 0, js_details = []\<rparr>\<rparr>"

definition validateOpsType :: "ojob \<Rightarrow> ojob \<Rightarrow> fielderr list" where
  "validateOpsType j old =
     (if oj_action j = [] then [(''spec.action'', ''spec.action should not be empty'')] else [])
     @ (if oj_action old \<noteq> [] \<and> oj_action old \<noteq> oj_action j then [(''spec.action'', ''spec.action is immutable'')] else [])"

fun containerErrs :: "sset \<Rightarrow> string list \<Rightarrow> fielderr list" where
  "containerErrs cntSets [] = []"
| "containerErrs cntSets (c # cs) =
     (if c \<in> set cntSets then [(''spec.targets.containerName'', ''container exists multiple times'')] else [])
     @ containerErrs (sinsert c cntSets) cs"

fun targetErrs :: "sset \<Rightarrow> optarget list \<Rightarrow> fielderr list" where
  "targetErrs podSets [] = []"
| "targetErrs podSets (t # ts) =
     containerErrs [] (tg_containers t)
     @ (if tg_name t \<in> set podSets then [(''spec.targets.podName'', ''pod exists multiple times'')] else [])
     @ targetErrs (sinsert (tg_name t) podSets) ts"

definition validateOpsTarget :: "ojob \<Rightarrow> ojob \<Rightarrow> fielderr list" where
  "validateOpsTarget j old =
     (if oj_targets j = [] then [(''spec.targets'', ''target can not be empty'')]
      else targetErrs [] (oj_targets j)
           @ (if oj_targets old \<noteq> [] \<and> oj_targets j \<noteq> oj_targets old
              then [(''spec.targets'', ''spec.targets filed is immutable'')] else []))"

definition deref0 :: "int option \<Rightarrow> int" where
  "deref0 x = (case x of None \<Rightarrow> 0 | Some n \<Rightarrow> n)"

definition validatePartition :: "ojob \<Rightarrow> ojob \<Rightarrow> fielderr list" where
  "validatePartition j old =
     (if deref0 (oj_partition j) < 0 then [(''spec'', ''should not be negative'')]
      else if deref0 (oj_partition old) > deref0 (oj_partition j) then [(''spec'', ''should not be decreased'')] else [])"

definition validateTTLAndActiveDeadline :: "ojob \<Rightarrow> fielderr list" where
  "validateTTLAndActiveDeadline j =
     (case oj_deadline j of Some d \<Rightarrow> if d \<le> 0 then [(''spec.activeDeadlineSeconds'', ''should be larger than 0'')] else [] | None \<Rightarrow> [])
     @ (case oj_ttl j of Some t \<Rightarrow> if t \<le> 0 then [(''spec.TTLSecondsAfterFinished'', ''should be larger than 0'')] else [] | None \<Rightarrow> [])"

definition validateJob :: "ojob \<Rightarrow> ojob \<Rightarrow> fielderr list" where
  "validateJob j old =
     validateOpsType j old @ validatePartition j old @ validateTTLAndActiveDeadline j @ validateOpsTarget j old"

definition jobValidatingHandle :: "admop \<Rightarrow> gerr + ojob \<Rightarrow> gerr + ojob \<Rightarrow> ojob response" where
  "jobValidatingHandle opn decOld dec =
     (if opn = AdmDelete then Allowed
      else (case (if opn = AdmUpdate then decOld else Inr emptyJob) of
              Inl e \<Rightarrow> Errored 400 (errText e)
            | Inr old \<Rightarrow>
                (case dec of
                   Inl e \<Rightarrow> Errored 400 (errText e)
                 | Inr j \<Rightarrow> if validateJob j old \<noteq> [] then Invalid 400 (validateJob j old) else Allowed)))"

subsection \<open>What the checks establish\<close>

lemma containerErrs_iff: "containerErrs s cs = [] \<longleftrightarrow> distinct cs \<and> set cs \<inter> set s = {}"
  by (induction s cs rule: containerErrs.induct) auto

lemma targetErrs_iff: "targetErrs s ts = [] \<longleftrightarrow>
    distinct (map tg_name ts) \<and> tg_name ` set ts \<inter> set s = {} \<and> (\<forall>t \<in> set ts. distinct (tg_containers t))"
  by (induction s ts rule: targetErrs.induct) (auto simp: containerErrs_iff)

definition saneJob :: "ojob \<Rightarrow> bool" where
  "saneJob j \<longleftrightarrow> oj_action j \<noteq> [] \<and> oj_targets j \<noteq> [] \<and> distinct (map tg_name (oj_targets j))
     \<and> (\<forall>t \<in> set (oj_targets j). distinct (tg_containers t)) \<and> 0 \<le> deref0 (oj_partition j)
     \<and> (\<forall>d. oj_deadline j = Some d \<longrightarrow> 0 < d) \<and> (\<forall>d. oj_ttl j = Some d \<longrightarrow> 0 < d)"

lemma validateJob_iff:
  "validateJob j old = [] \<longleftrightarrow> saneJob j \<and> (oj_action old = [] \<or> oj_action j = oj_action old)
     \<and> (oj_targets old = [] \<or> oj_targets j = oj_targets old) \<and> deref0 (oj_partition old) \<le> deref0 (oj_partition j)"
  by (auto simp: validateJob_def validateOpsType_def validatePartition_def validateTTLAndActiveDeadline_def validateOpsTarget_def
      saneJob_def targetErrs_iff split: option.splits if_splits)

text \<open>C32: A job that the webhook admits has distinct targets, and the partition can be cut off its candidates without a panic; an
  admitted update changes neither action nor targets and does not lower the partition.\<close>

theorem admitted_job_is_sane:
  assumes "jobValidatingHandle opn decOld (Inr j) = Allowed" and "opn \<noteq> AdmDelete" and "decOld = Inr old" and "saneJob old"
  shows "distinct (map tg_name (oj_targets j)) \<and> oj_targets j \<noteq> []
    \<and> (\<exists>ordered n. DecideCandidateByPartition j cs = Inr (ordered, n) \<and> n \<le> length cs)
    \<and> (opn = AdmUpdate \<longrightarrow> oj_action j = oj_action old \<and> oj_targets j = oj_targets old
         \<and> deref0 (oj_partition old) \<le> deref0 (oj_partition j))"
proof -
  have v: "validateJob j (if opn = AdmUpdate then old else emptyJob) = []"
    using assms(1-3) by (auto simp: jobValidatingHandle_def split: if_splits)
  have "\<exists>ordered n. DecideCandidateByPartition j cs = Inr (ordered, n) \<and> n \<le> length cs"
    using v by (auto simp: validateJob_iff saneJob_def deref0_def DecideCandidateByPartition_def split: option.splits)
  then show ?thesis using v assms(4) by (auto simp: validateJob_iff saneJob_def)
qed

subsection \<open>The life of a job\<close>

text \<open>One step of the world as far as the job under the key \<open>ns/n\<close> goes: a reconciliation, an admitted update of its
  specification, its disappearance, or anything that leaves it alone.\<close>

inductive jobStep :: "('w \<Rightarrow> string \<Rightarrow> pod option) \<Rightarrow> ('w \<Rightarrow> string \<Rightarrow> ojob option) \<Rightarrow> string \<Rightarrow> string \<Rightarrow> 'w ostate \<Rightarrow> 'w ostate \<Rightarrow> bool"
  for objs jobs ns n where
  reconcile: "job_server E objs jobs \<Longrightarrow> ReconcileJob E ns n s = (r, s') \<Longrightarrow> jobStep objs jobs ns n s s'"
| edit: "jobs (os_w s) (ns @ ''/'' @ n) = Some j \<Longrightarrow> jobs (os_w s') (ns @ ''/'' @ n) = Some j' \<Longrightarrow>
    jobValidatingHandle AdmUpdate (Inr j) (Inr j') = Allowed \<Longrightarrow> oj_status j' = oj_status j \<Longrightarrow> jobStep objs jobs ns n s s'"
| gone: "jobs (os_w s') (ns @ ''/'' @ n) = None \<Longrightarrow> jobStep objs jobs ns n s s'"
| other: "jobs (os_w s') (ns @ ''/'' @ n) = jobs (os_w s) (ns @ ''/'' @ n) \<Longrightarrow> jobStep objs jobs ns n s s'"

definition jobLife :: "('w \<Rightarrow> string \<Rightarrow> pod option) \<Rightarrow> ('w \<Rightarrow> string \<Rightarrow> ojob option) \<Rightarrow> string \<Rightarrow> string \<Rightarrow> 'w ostate \<Rightarrow> 'w ostate \<Rightarrow> bool" where
  "jobLife objs jobs ns n = (jobStep objs jobs ns n)\<^sup>*\<^sup>*"

definition holdsFinal :: "('w \<Rightarrow> string \<Rightarrow> ojob option) \<Rightarrow> string \<Rightarrow> optarget list \<Rightarrow> string \<Rightarrow> oprogress \<Rightarrow> 'w ostate \<Rightarrow> bool" where
  "holdsFinal jobs k ts t x s \<longleftrightarrow> (\<forall>j. jobs (os_w s) k = Some j \<longrightarrow> oj_targets j = ts \<and> progOf j t = x)"

lemma jobStep_final:
  assumes "jobStep objs jobs ns n s s'" and "holdsFinal jobs (ns @ ''/'' @ n) ts t x s"
    and "distinct (map tg_name ts)" and "t \<in> tg_name ` set ts" and "x = OpFailed \<or> x = OpSucceeded"
  shows "holdsFinal jobs (ns @ ''/'' @ n) ts t x s'"
  using assms(1)
proof cases
  case (reconcile E r)
  show ?thesis
  proof (cases "jobs (os_w s) (ns @ ''/'' @ n)")
    case None
    then show ?thesis using job_server.reconcile_missing [OF reconcile] by (simp add: holdsFinal_def)
  next
    case (Some j)
    then have j: "oj_targets j = ts" "progOf j t = x" using assms(2) by (auto simp: holdsFinal_def)
    have "oj_targets j' = ts \<and> progOf j' t = x" if "jobs (os_w s') (ns @ ''/'' @ n) = Some j'" for j'
      using job_server.reconcile_targets [OF reconcile(1,2) Some that]
        job_server.reconcile_final [OF reconcile(1,2) Some that] j assms(3-5) by auto
    then show ?thesis by (simp add: holdsFinal_def)
  qed
next
  case (edit j j')
  then have "validateJob j' j = []" by (auto simp: jobValidatingHandle_def split: if_splits)
  moreover have "oj_targets j = ts" "progOf j t = x" using assms(2) edit(1) by (auto simp: holdsFinal_def)
  ultimately have "oj_targets j' = ts" "progOf j' t = x"
    using edit(4) assms(4) by (auto simp: validateJob_iff progOf_def MapOpsStatusByPod_def)
  then show ?thesis using edit(2) by (simp add: holdsFinal_def)
qed (use assms(2) in \<open>auto simp: holdsFinal_def\<close>)

text \<open>C2: Over the whole life of a job (any sequence of reconciliations, admitted updates and changes of everything else) a target
  that has once failed or succeeded keeps its progress as long as the job exists.\<close>

theorem final_progress_forever:
  assumes "jobLife objs jobs ns n s s'" and "jobs (os_w s) (ns @ ''/'' @ n) = Some j" and "saneJob j"
    and "t \<in> tg_name ` set (oj_targets j)" and "progOf j t = OpFailed \<or> progOf j t = OpSucceeded"
    and "jobs (os_w s') (ns @ ''/'' @ n) = Some j'"
  shows "oj_targets j' = oj_targets j \<and> progOf j' t = progOf j t"
proof -
  have "(jobStep objs jobs ns n)\<^sup>*\<^sup>* s s'" using assms(1) by (simp add: jobLife_def)
  then have "holdsFinal jobs (ns @ ''/'' @ n) (oj_targets j) t (progOf j t) s'"
  proof (induction rule: rtranclp_induct)
    case base
    show ?case using assms(2) by (simp add: holdsFinal_def)
  next
    case (step s1 s2)
    show ?case by (rule jobStep_final [OF step(2,3)]) (use assms(3-5) in \<open>auto simp: saneJob_def\<close>)
  qed
  then show ?thesis using assms(6) by (simp add: holdsFinal_def)
qed

end
