(* ===== verification/OperationJobExamples.thy ===== *)
theory OperationJobExamples
  imports OperationJobServer OperationJobWebhook WebhookExamples
begin

text \<open>Runs of the controller of OperationJobs on the server in memory: two pods to replace, one at a time.\<close>

definition exstat :: "string \<Rightarrow> oprogress \<Rightarrow> int option \<Rightarrow> opstatus" where
  "exstat n x t = \<lparr>op_name = n, op_prog = x, op_start = t, op_end = None, op_err = None, op_extra = []\<rparr>"

definition exjob :: "oprogress \<Rightarrow> opstatus list \<Rightarrow> ojob" where
  "exjob x ds =
     \<lparr>oj_ns = ''ns'', oj_name = ''job'', oj_rv = ''1'', oj_generation = 1, oj_deleting = False, oj_finalizers = [],
      oj_action = ''Replace'', oj_partition = Some 1,
      oj_targets = [\<lparr>tg_name = ''a'', tg_containers = []\<rparr>, \<lparr>tg_name = ''b'', tg_containers = []\<rparr>],
      oj_deadline = Some 100, oj_ttl = Some 10, oj_delay = None,
      oj_status = \<lparr>js_start = None, js_end = None, js_prog = x, js_observed = 1, js_total = 0, js_succeeded = 0, js_failed = 0,
        js_details = ds\<rparr>\<rparr>"

definition exstart :: "ojob \<Rightarrow> oworld ostate" where
  "exstart j = \<lparr>os_w = (map (\<lambda>n. (''ns/'' @ n, (expod [(''app'', ''x'')])\<lparr>p_name := n\<rparr>)) [''a'', ''b''], [(''ns/job'', j)]), os_exp = []\<rparr>"

abbreviation "exenvj \<equiv> memo_env api0 5"

definition exjrun :: "ojob \<Rightarrow> (gerr + rresult) \<times> oworld ostate" where
  "exjrun j = ReconcileJob exenvj ''ns'' ''job'' (exstart j)"

definition exjob' :: "ojob \<Rightarrow> ojob" where
  "exjob' j = the (mget (snd (os_w (snd (exjrun j)))) ''ns/job'')"

abbreviation "exfresh \<equiv> exjob OpUnset []"
abbreviation "exhalf \<equiv> exjob OpProcessing [exstat ''a'' OpSucceeded (Some 1), exstat ''b'' OpPending None]"
abbreviation "exgone \<equiv> exhalf\<lparr>oj_deleting := True, oj_finalizers := [''protect'']\<rparr>"

lemma exjrun_eq: "ReconcileJob exenvj ''ns'' ''job'' (exstart j) = (fst (exjrun j), snd (exjrun j))"
  by (simp add: exjrun_def)

lemma exstart_job: "mget (snd (os_w (exstart j))) (''ns'' @ ''/'' @ ''job'') = Some j"
  by (simp add: exstart_def)

lemma finished_target_is_final_witness: "progOf (exjob' exhalf) ''a'' = OpSucceeded"
proof -
  have 1: "mget (snd (os_w (snd (exjrun exhalf)))) (''ns'' @ ''/'' @ ''job'') = Some (exjob' exhalf)" by code_simp
  have 2: "progOf exhalf ''a'' = OpSucceeded" by code_simp
  have 3: "distinct (map tg_name (oj_targets exhalf))" "''a'' \<in> tg_name ` set (oj_targets exhalf)" by code_simp+
  from finished_target_is_final [OF memo.job_server_axioms, OF exjrun_eq exstart_job 1 3 disjI2 [OF 2]] 2
  show ?thesis by simp
qed

lemma partition_bounds_started_witness:
  "length (filter (hasStarted (exjob' exfresh)) (oj_targets exfresh)) = 1
   \<and> int (length (filter (hasStarted (exjob' exfresh)) (oj_targets exfresh))) \<le> 1"
proof -
  have 1: "mget (snd (os_w (snd (exjrun exfresh)))) (''ns'' @ ''/'' @ ''job'') = Some (exjob' exfresh)" by code_simp
  have 2: "length (filter (hasStarted (exjob' exfresh)) (oj_targets exfresh)) = 1" by code_simp
  have 3: "distinct (map tg_name (oj_targets exfresh))" by code_simp
  have 4: "\<not> oj_deleting exfresh" "oj_partition exfresh = Some 1" by (simp_all add: exjob_def)
  have 5: "\<forall>st \<in> set (js_details (oj_status exfresh)). op_start st \<noteq> None \<longrightarrow> op_prog st \<noteq> OpUnset \<and> op_prog st \<noteq> OpPending"
    by (simp add: exjob_def)
  have 6: "length (filter (hasStarted exfresh) (oj_targets exfresh)) = 0" by code_simp
  from partition_bounds_started [OF memo.job_server_axioms, OF exjrun_eq exstart_job 1 3 4 5] 2 6
  show ?thesis by simp
qed


definition excand :: "string \<Rightarrow> string gomap \<Rightarrow> opstatus \<Rightarrow> candidate" where
  "excand n ls st = \<lparr>ca_idx = 0, ca_pod = Some ((expod ls)\<lparr>p_name := n\<rparr>), ca_podName = n, ca_containers = [], ca_status = st\<rparr>"

abbreviation "exallowed \<equiv> excand ''a'' [(key api0 POperating ''job'', ''1''), (key api0 POperationType ''job'', ''Restart''),
  (key api0 POperate ''job'', ''1'')] (exstat ''a'' OpPending None)"
abbreviation "exwaiting \<equiv> excand ''b'' [(key api0 POperating ''job'', ''1''), (key api0 POperationType ''job'', ''Restart'')]
  (exstat ''b'' OpPending None)"



lemma job_status_calculated_witness:
  "js_prog (fst (calculateStatus exenvj exfresh [excand ''a'' [] (exstat ''a'' OpSucceeded None)])) = OpSucceeded"
proof -
  let ?cs = "[excand ''a'' [] (exstat ''a'' OpSucceeded None)]"
  have 1: "calculateStatus exenvj exfresh ?cs = (fst (calculateStatus exenvj exfresh ?cs), snd (calculateStatus exenvj exfresh ?cs))" by simp
  have 2: "\<not> IsJobFinished (oj_status exfresh)" by code_simp
  from job_status_calculated [OF 1 2] show ?thesis by (simp add: excand_def exstat_def)
qed

lemma deadline_hides_ttl_witness:
  "\<exists>left cs'. ensureActiveDeadlineAndTTL (memo_env api0 50000000000)
      (exhalf\<lparr>oj_status := (oj_status exhalf)\<lparr>js_prog := OpSucceeded, js_end := Some 2\<rparr>\<rparr>)
      [excand ''a'' [] (exstat ''a'' OpSucceeded (Some 1))] (exstart exhalf) = ((False, Some left, None), cs', exstart exhalf)"
  by (rule deadline_hides_ttl [of _ 100 "excand ''a'' [] (exstat ''a'' OpSucceeded (Some 1))" _ 1])
    (simp_all add: exjob_def excand_def exstat_def memo_env_def)

text \<open>A client whose cache lags behind the server.\<close>

definition exlag :: "oworld oenv" where
  "exlag = exenvj\<lparr>oe_c := memo_client\<lparr>oc_job := \<lambda>w ns n. Inr (exfresh\<lparr>oj_rv := ''0''\<rparr>)\<rparr>\<rparr>"

lemma status_conflict_never_resolves_witness: "fst (updateStatus exlag exhalf (exstart exfresh)) = Some Conflict"
proof (rule status_conflict_never_resolves)
  show "oc_job (oe_c exlag) (os_w (exstart exfresh)) (oj_ns exhalf) (oj_name exhalf) = Inr (exfresh\<lparr>oj_rv := ''0''\<rparr>)"
    by (simp add: exlag_def)
  show "oj_status (exfresh\<lparr>oj_rv := ''0''\<rparr>) \<noteq> oj_status exhalf" by (simp add: exjob_def)
  show "oc_updateStatus (oe_c exlag) (exfresh\<lparr>oj_rv := ''0'', oj_status := oj_status exhalf\<rparr>) (os_w (exstart exfresh))
    = (Inl Conflict, os_w (exstart exfresh))"
    by (simp add: exlag_def memo_client_def memo_put_def storeKey_def exjob_def exstart_def)
  show "\<forall>f x. retried f x (oc_retry (oe_c exlag) f x)" by (simp add: exlag_def memo_client_def mem_retry_retried)
qed

lemma release_undoes_trigger_witness:
  "rbind (triggerReplace (memo_replace api0) (expod [(''app'', ''x'')])) (cancelReplace (memo_replace api0)) = Inr (expod [(''app'', ''x'')])"
  by (rule release_undoes_trigger)
    (auto simp: expod_def api0_def memo_replace_def addTo_def removeFrom_def ContainsFinalizer_def OperationJobReplacePodFinalizer_def filter_id_conv)

lemma admitted_job_is_sane_witness:
  "distinct (map tg_name (oj_targets (exhalf\<lparr>oj_partition := Some 2\<rparr>)))
   \<and> (\<exists>ordered n. DecideCandidateByPartition (exhalf\<lparr>oj_partition := Some 2\<rparr>) [exallowed] = Inr (ordered, n) \<and> n \<le> length [exallowed])"
proof -
  have 1: "jobValidatingHandle AdmUpdate (Inr exhalf) (Inr (exhalf\<lparr>oj_partition := Some 2\<rparr>)) = Allowed" by code_simp
  have 2: "saneJob exhalf" by (simp add: saneJob_def exjob_def deref0_def)
  from admitted_job_is_sane [OF 1 _ refl 2] show ?thesis by blast
qed

lemma final_progress_forever_witness:
  "oj_targets (exjob' exhalf) = oj_targets exhalf \<and> progOf (exjob' exhalf) ''a'' = OpSucceeded"
proof -
  have life: "jobLife (\<lambda>w. mget (fst w)) (\<lambda>w. mget (snd w)) ''ns'' ''job'' (exstart exhalf) (snd (exjrun exhalf))"
    unfolding jobLife_def
    by (rule r_into_rtranclp) (rule jobStep.reconcile [OF memo.job_server_axioms exjrun_eq])
  have 1: "mget (snd (os_w (snd (exjrun exhalf)))) (''ns'' @ ''/'' @ ''job'') = Some (exjob' exhalf)" by code_simp
  have 2: "saneJob exhalf" by (simp add: saneJob_def exjob_def deref0_def)
  have 3: "progOf exhalf ''a'' = OpSucceeded" by code_simp
  have 4: "''a'' \<in> tg_name ` set (oj_targets exhalf)" by code_simp
  from final_progress_forever [OF life exstart_job 2 4 disjI2 [OF 3] 1] 3 show ?thesis by simp
qed

end
