(* ===== verification/SortOrder.thy ===== *)
theory SortOrder
  imports Prelude "HOL-Library.Multiset"
begin

text \<open>
  \<open>sort.Sort\<close> of Go's standard library, and the comparison functions handed to it.

  Go documents that \<open>Less\<close> must describe a strict weak order and that the result is then sorted;
  which of two elements that are not ordered comes first is left open.  A sorting routine is
  therefore a parameter of the model, constrained by \<open>sort_ok\<close> only.  The comparison functions of
  the code test one criterion after the other, so they are compared with a lexicographic order
  (\<open>lexBy\<close>) of criteria.
\<close>

subsection \<open>Strict weak orders\<close>

definition strict_weak_on :: "'a set \<Rightarrow> ('a \<Rightarrow> 'a \<Rightarrow> bool) \<Rightarrow> bool" where
  "strict_weak_on S lt \<longleftrightarrow>
     (\<forall>a \<in> S. \<not> lt a a) \<and> (\<forall>a \<in> S. \<forall>b \<in> S. \<forall>c \<in> S. lt a b \<longrightarrow> lt b c \<longrightarrow> lt a c)
     \<and> (\<forall>a \<in> S. \<forall>b \<in> S. \<forall>c \<in> S. \<not> lt a b \<longrightarrow> \<not> lt b c \<longrightarrow> \<not> lt a c)"

abbreviation strict_weak :: "('a \<Rightarrow> 'a \<Rightarrow> bool) \<Rightarrow> bool" where
  "strict_weak \<equiv> strict_weak_on UNIV"

lemma strict_weakI:
  assumes "\<And>a. \<not> lt a a" and "\<And>a b c. lt a b \<Longrightarrow> lt b c \<Longrightarrow> lt a c"
    and "\<And>a b c. \<not> lt a b \<Longrightarrow> \<not> lt b c \<Longrightarrow> \<not> lt a c"
  shows "strict_weak lt"
  using assms unfolding strict_weak_on_def by blast

lemma strict_weak_mono: "strict_weak_on S lt \<Longrightarrow> T \<subseteq> S \<Longrightarrow> strict_weak_on T lt"
  unfolding strict_weak_on_def by blast

lemma strict_weak_onD:
  assumes "strict_weak_on S lt"
  shows strict_weak_on_trans: "lt a b \<Longrightarrow> lt b c \<Longrightarrow> a \<in> S \<Longrightarrow> b \<in> S \<Longrightarrow> c \<in> S \<Longrightarrow> lt a c"
    and strict_weak_on_neg: "\<not> lt a b \<Longrightarrow> \<not> lt b c \<Longrightarrow> a \<in> S \<Longrightarrow> b \<in> S \<Longrightarrow> c \<in> S \<Longrightarrow> \<not> lt a c"
    and strict_weak_on_asym: "lt a b \<Longrightarrow> a \<in> S \<Longrightarrow> b \<in> S \<Longrightarrow> \<not> lt b a"
  using assms unfolding strict_weak_on_def by blast+

lemma strict_weakD:
  assumes "strict_weak lt"
  shows strict_weak_irrefl: "\<not> lt a a"
    and strict_weak_trans: "lt a b \<Longrightarrow> lt b c \<Longrightarrow> lt a c"
    and strict_weak_neg: "\<not> lt a b \<Longrightarrow> \<not> lt b c \<Longrightarrow> \<not> lt a c"
    and strict_weak_asym: "lt a b \<Longrightarrow> \<not> lt b a"
  using assms unfolding strict_weak_on_def by blast+

lemma strict_weak_cong:
  assumes "strict_weak r" and "\<And>a b. a \<in> S \<Longrightarrow> b \<in> S \<Longrightarrow> lt a b = r a b"
  shows "strict_weak_on S lt"
proof -
  from assms(1) have "strict_weak_on S r" by (rule strict_weak_mono) simp
  note r = strict_weak_on_trans [OF this] strict_weak_on_neg [OF this]
  show ?thesis unfolding strict_weak_on_def
  proof (intro conjI ballI impI)
    show "\<not> lt a a" if "a \<in> S" for a using strict_weak_irrefl [OF assms(1)] that by (simp add: assms(2))
    show "lt a c" if "a \<in> S" "b \<in> S" "c \<in> S" "lt a b" "lt b c" for a b c
      using r(1) [of a b c] that by (simp add: assms(2))
    show "\<not> lt a c" if "a \<in> S" "b \<in> S" "c \<in> S" "\<not> lt a b" "\<not> lt b c" for a b c
      using r(2) [of a b c] that by (simp add: assms(2))
  qed
qed

text \<open>A key in a linear order, read upwards or downwards.\<close>

lemma strict_weak_key: "strict_weak (\<lambda>a b. f a < (f b :: 'k::linorder))"
  by (rule strict_weakI) auto

lemma strict_weak_key_down: "strict_weak (\<lambda>a b. f b < (f a :: 'k::linorder))"
  by (rule strict_weakI) auto

lemma strict_weak_flag: "strict_weak (\<lambda>a b. f a \<and> \<not> f b)"
  by (rule strict_weakI) auto

lemma strict_weak_noflag: "strict_weak (\<lambda>a b. \<not> f a \<and> f b)"
  by (rule strict_weakI) auto

subsection \<open>One criterion after the other\<close>

fun lexBy :: "('a \<Rightarrow> 'a \<Rightarrow> bool) list \<Rightarrow> 'a \<Rightarrow> 'a \<Rightarrow> bool" where
  "lexBy [] a b = False"
| "lexBy (c # cs) a b = (if c a b then True else if c b a then False else lexBy cs a b)"

lemma strict_weak_lexBy: "list_all strict_weak cs \<Longrightarrow> strict_weak (lexBy cs)"
proof (induction cs)
  case Nil
  show ?case by (rule strict_weakI) auto
next
  case (Cons c cs)
  then have c: "strict_weak c" and l: "strict_weak (lexBy cs)" by auto
  show ?case
  proof (rule strict_weakI)
    fix x y z
    show "\<not> lexBy (c # cs) x x"
      using strict_weak_irrefl [OF l] strict_weak_irrefl [OF c] by auto
    have right: "c x z" if "c x y" "\<not> c z y" for x y z
      using that strict_weak_neg [OF c, of x z y] by blast
    have left: "c x z" if "\<not> c y x" "c y z" for x y z
      using that strict_weak_neg [OF c, of y x z] by blast
    note neg = strict_weak_neg [OF c] and asym = strict_weak_asym [OF c]
    show "lexBy (c # cs) x z" if xy: "lexBy (c # cs) x y" and yz: "lexBy (c # cs) y z"
    proof -
      from xy have x: "c x y \<or> \<not> c y x \<and> lexBy cs x y" by (auto split: if_splits)
      from yz have y: "c y z \<or> \<not> c z y \<and> lexBy cs y z" by (auto split: if_splits)
      show ?thesis
      proof (cases "c x y \<or> c y z")
        case True
        with x y have "c x z" using right left asym by blast
        then show ?thesis by simp
      next
        case False
        with x y have "\<not> c x z" "\<not> c z x" "lexBy cs x y" "lexBy cs y z" using neg by blast+
        then show ?thesis using strict_weak_trans [OF l] by auto
      qed
    qed
    show "\<not> lexBy (c # cs) x z" if xy: "\<not> lexBy (c # cs) x y" and yz: "\<not> lexBy (c # cs) y z"
    proof -
      from xy have x: "\<not> c x y" "c y x \<or> \<not> lexBy cs x y" by (auto split: if_splits)
      from yz have y: "\<not> c y z" "c z y \<or> \<not> lexBy cs y z" by (auto split: if_splits)
      from neg [OF x(1) y(1)] have n: "\<not> c x z" .
      show ?thesis
      proof (cases "c y x \<or> c z y")
        case True
        with x y have "c z x" using right left asym by blast
        with n show ?thesis by simp
      next
        case False
        with x y have "\<not> lexBy cs x z" using strict_weak_neg [OF l] by blast
        with n show ?thesis by simp
      qed
    qed
  qed
qed

text \<open>The order decides every pair that its last criterion decides.\<close>

lemma lexBy_total:
  assumes "c \<in> set cs" and "c a b \<or> c b a" and "list_all strict_weak cs"
  shows "lexBy cs a b \<or> lexBy cs b a"
  using assms
proof (induction cs)
  case (Cons d ds)
  then have d: "strict_weak d" by simp
  show ?case
    using Cons strict_weak_asym [OF d, of a b] by (auto split: if_splits)
qed simp

subsection \<open>Sorting\<close>

type_synonym 'a sorter = "('a \<Rightarrow> 'a \<Rightarrow> bool) \<Rightarrow> 'a list \<Rightarrow> 'a list"

definition sort_ok :: "'a sorter \<Rightarrow> bool" where
  "sort_ok s \<longleftrightarrow> (\<forall>lt xs. mset (s lt xs) = mset xs
     \<and> (strict_weak_on (set xs) lt \<longrightarrow> sorted_wrt (\<lambda>a b. \<not> lt b a) (s lt xs)))"

lemma sort_okD:
  assumes "sort_ok s"
  shows sort_mset: "mset (s lt xs) = mset xs" and sort_set: "set (s lt xs) = set xs"
    and sort_length: "length (s lt xs) = length xs"
    and sort_sorted: "strict_weak_on (set xs) lt \<Longrightarrow> sorted_wrt (\<lambda>a b. \<not> lt b a) (s lt xs)"
  using assms unfolding sort_ok_def
  by (auto dest: mset_eq_setD) (metis size_mset)

text \<open>Without ties there is one sorted order, so the result depends neither on the routine nor on the order of
  its input.\<close>

lemma sorted_unique:
  assumes "mset xs = mset ys"
    and "sorted_wrt (\<lambda>a b. \<not> lt b a) xs" and "sorted_wrt (\<lambda>a b. \<not> lt b a) ys"
    and "\<And>a b. a \<in> set xs \<Longrightarrow> b \<in> set xs \<Longrightarrow> a \<noteq> b \<Longrightarrow> lt a b \<or> lt b a"
  shows "xs = ys"
  using assms
proof (induction xs arbitrary: ys)
  case (Cons x xs)
  then obtain y zs where ys: "ys = y # zs" by (cases ys) auto
  have "x = y"
  proof (rule ccontr)
    assume ne: "x \<noteq> y"
    from Cons.prems(1) have s: "set (x # xs) = set ys" by (rule mset_eq_setD)
    with ys ne have "y \<in> set xs" "x \<in> set zs" by auto
    with Cons.prems(2,3) ys have "\<not> lt y x" "\<not> lt x y" by auto
    with Cons.prems(4) [of x y] ne \<open>y \<in> set xs\<close> show False by auto
  qed
  with Cons.prems ys have "xs = zs" by (intro Cons.IH) auto
  with \<open>x = y\<close> ys show ?case by simp
qed simp

lemma sort_unique:
  assumes "sort_ok s" and "sort_ok t" and "strict_weak_on (set xs) lt" and "mset xs = mset ys"
    and "\<And>a b. a \<in> set xs \<Longrightarrow> b \<in> set xs \<Longrightarrow> a \<noteq> b \<Longrightarrow> lt a b \<or> lt b a"
  shows "s lt xs = t lt ys"
proof (rule sorted_unique)
  have e: "set xs = set ys" using assms(4) by (rule mset_eq_setD)
  show "mset (s lt xs) = mset (t lt ys)" using assms(4) by (simp add: sort_mset [OF assms(1)] sort_mset [OF assms(2)])
  show "sorted_wrt (\<lambda>a b. \<not> lt b a) (s lt xs)" "sorted_wrt (\<lambda>a b. \<not> lt b a) (t lt ys)"
    using assms(3) e by (auto intro: sort_sorted [OF assms(1)] sort_sorted [OF assms(2)])
  show "\<And>a b. a \<in> set (s lt xs) \<Longrightarrow> b \<in> set (s lt xs) \<Longrightarrow> a \<noteq> b \<Longrightarrow> lt a b \<or> lt b a"
    using assms(5) by (auto simp: sort_set [OF assms(1)])
qed

text \<open>Insertion sort, to evaluate examples.\<close>

fun insertBy :: "('a \<Rightarrow> 'a \<Rightarrow> bool) \<Rightarrow> 'a \<Rightarrow> 'a list \<Rightarrow> 'a list" where
  "insertBy lt x [] = [x]"
| "insertBy lt x (y # ys) = (if lt y x then y # insertBy lt x ys else x # y # ys)"

fun insertionSort :: "'a sorter" where
  "insertionSort lt [] = []"
| "insertionSort lt (x # xs) = insertBy lt x (insertionSort lt xs)"

lemma mset_insertBy [simp]: "mset (insertBy lt x ys) = add_mset x (mset ys)"
  by (induction lt x ys rule: insertBy.induct) auto

lemma set_insertBy [simp]: "set (insertBy lt x ys) = insert x (set ys)"
  by (induction lt x ys rule: insertBy.induct) auto

lemma sorted_insertBy:
  assumes "strict_weak_on (insert x (set ys)) lt" and "sorted_wrt (\<lambda>a b. \<not> lt b a) ys"
  shows "sorted_wrt (\<lambda>a b. \<not> lt b a) (insertBy lt x ys)"
  using assms
proof (induction ys)
  case (Cons y ys)
  from Cons.prems(1) have w: "strict_weak_on (insert x (set ys)) lt" by (rule strict_weak_mono) auto
  show ?case
  proof (cases "lt y x")
    case True
    then have "\<not> lt x y" by (rule strict_weak_on_asym [OF Cons.prems(1)]) simp_all
    with Cons.IH [OF w] Cons.prems(2) True show ?thesis by auto
  next
    case False
    have "\<not> lt z x" if "z \<in> set ys" for z
    proof (rule strict_weak_on_neg [OF Cons.prems(1) _ False])
      show "\<not> lt z y" using Cons.prems(2) that by simp
    qed (use that in simp_all)
    with False Cons.prems(2) show ?thesis by auto
  qed
qed simp

lemma set_insertionSort [simp]: "set (insertionSort lt xs) = set xs"
  by (induction xs) auto

lemma insertionSort_ok: "sort_ok insertionSort"
proof -
  have "mset (insertionSort lt xs) = mset xs" for lt :: "'a \<Rightarrow> 'a \<Rightarrow> bool" and xs
    by (induction xs) auto
  moreover have "strict_weak_on (set xs) lt \<Longrightarrow> sorted_wrt (\<lambda>a b. \<not> lt b a) (insertionSort lt xs)"
    for lt :: "'a \<Rightarrow> 'a \<Rightarrow> bool" and xs
  proof (induction xs)
    case (Cons x xs)
    from Cons.prems have w: "strict_weak_on (set xs) lt" by (rule strict_weak_mono) auto
    show ?case using sorted_insertBy [OF _ Cons.IH [OF w], of x] Cons.prems by simp
  qed simp
  ultimately show ?thesis by (simp add: sort_ok_def)
qed

end
