(* ===== verification/Decoration.thy ===== *)
theory Decoration
  imports CollaSets SortOrder
begin

text \<open>
  PodDecorations and what the code writes about them on a pod:
  \<^verbatim>\<open>utils/poddecoration/anno/anno.go\<close>, \<^verbatim>\<open>utils/poddecoration/sort.go\<close> and
  \<^verbatim>\<open>utils/selector.go\<close> (below \<^verbatim>\<open>pkg/controllers\<close>), and the resource context of a CollaSet.

  The parser of label selectors, the JSON form of the annotation, the patch in the data of a
  ControllerRevision and the names of labels and annotations come from other packages: they are
  the fields of the record \<open>dapi\<close>.  A decoder returns the error together with what was decoded
  before it, as \<open>json.Unmarshal\<close> does.  A selector stands for its text; \<open>None\<close> is a nil pointer.
\<close>

subsection \<open>Objects\<close>

text \<open>The policies are string constants of kube-api; the empty string is a value of its own.\<close>

datatype metaPolicy = RetainMetadata | OverwriteMetadata | MergePatchJsonMetadata | NoMetaPolicy | OtherMetaPolicy

datatype targetPolicy = InjectByName | InjectAllContainers | InjectFirstContainer | InjectLastContainer
  | NoTargetPolicy | OtherTargetPolicy

datatype injectPolicy = BeforePrimaryContainer | AfterPrimaryContainer | NoInjectPolicy | OtherInjectPolicy

record metaPatch =
  mp_policy :: metaPolicy
  mp_labels :: "string gomap"
  mp_annos :: "string gomap"

record primaryPatch =
  pp_policy :: targetPolicy
  pp_name :: "string option"
  pp_image :: "string option"
  pp_env :: "(string \<times> string) list"
  pp_mounts :: "(string \<times> string) list"

record containerPatch =
  cp_policy :: injectPolicy
  cp_container :: container

text \<open>An affinity: the required terms on nodes (\<open>None\<close>: a nil pointer on the way to them) and the rest.\<close>

record affinity =
  af_required :: "string list option"
  af_rest :: string

record affinityPatch =
  fa_override :: "nat option"
  fa_terms :: "string list"

record template =
  te_meta :: "metaPatch list"
  te_init :: "container list"
  te_primary :: "primaryPatch list"
  te_containers :: "containerPatch list"
  te_volumes :: "(string \<times> vsource) list"
  te_affinity :: "affinityPatch option"
  te_tolerations :: "(string \<times> string) list"

record rolling =
  ru_selector :: "string option"
  ru_partition :: "int option"

record podDetail =
  po_name :: string
  po_rev :: string
  po_escaped :: bool

record workDetail =
  wd_cls :: string
  wd_replicas :: int
  wd_pods :: "podDetail list"

record pdstatus =
  ds_observed :: int
  ds_current :: string
  ds_updated :: string
  ds_matched :: int
  ds_updatedPods :: int
  ds_ready :: int
  ds_available :: int
  ds_injected :: int
  ds_collision :: int
  ds_details :: "workDetail list"

record pdeco =
  dc_ns :: string
  dc_name :: string
  dc_uid :: string
  dc_api :: string
  dc_kind :: string
  dc_rv :: string
  dc_generation :: int
  dc_deleting :: bool
  dc_finalizers :: "string list"
  dc_selector :: "string option"
  dc_weight :: "int option"
  dc_rolling :: "rolling option"
  dc_noDetail :: bool
  dc_template :: template
  dc_status :: pdstatus

record ctxDetail =
  cd_id :: int
  cd_data :: "string gomap"

record rctx =
  rx_ns :: string
  rx_name :: string
  rx_contexts :: "ctxDetail list"

text \<open>A ControllerRevision; the field \<open>Controller\<close> of an owner reference is a pointer.\<close>

record revOwner =
  ro_kind :: string
  ro_api :: string
  ro_name :: string
  ro_uid :: string
  ro_ctrl :: "bool option"

record crevision =
  cr_ns :: string
  cr_name :: string
  cr_owners :: "revOwner list"
  cr_data :: string

record decinfo =
  di_name :: string
  di_rev :: string

record dapi =
  da_sel :: "string \<Rightarrow> gerr + (string gomap \<Rightarrow> bool)"
  da_revAnno :: string
  da_labelP :: string
  da_hashL :: string
  da_dec :: "string \<Rightarrow> gerr option \<times> decinfo list"
  da_enc :: "decinfo list \<Rightarrow> string"
  da_patch :: "string \<Rightarrow> gerr + pdeco"

subsection \<open>Selectors\<close>

text \<open>\<open>LabelSelectorAsSelector\<close> of a nil pointer selects nothing.  The code drops its error and calls a method
  of the nil selector that comes with it.\<close>

definition matchesParsed :: "dapi \<Rightarrow> string option \<Rightarrow> string gomap \<Rightarrow> gerr + bool" where
  "matchesParsed D sel ls =
     (case sel of
        None \<Rightarrow> Inr False
      | Some s \<Rightarrow> (case da_sel D s of Inl _ \<Rightarrow> Inl (Panic ''nil selector'') | Inr f \<Rightarrow> Inr (f ls)))"

definition Selected :: "dapi \<Rightarrow> string option \<Rightarrow> string gomap \<Rightarrow> gerr + bool" where
  "Selected D sel ls = (if sel = None then Inr True else matchesParsed D sel ls)"

subsection \<open>Revisions on a pod\<close>

fun GetRevision :: "decinfo list \<Rightarrow> string \<Rightarrow> string option" where
  "GetRevision [] n = None"
| "GetRevision (i # is) n = (if di_name i = n then Some (di_rev i) else GetRevision is n)"

definition GetDecorationRevisionInfo :: "dapi \<Rightarrow> pod \<Rightarrow> decinfo list" where
  "GetDecorationRevisionInfo D p =
     (case mget (p_annos p) (da_revAnno D) of None \<Rightarrow> [] | Some v \<Rightarrow> snd (da_dec D v))"

definition CurrentRevision :: "dapi \<Rightarrow> pod \<Rightarrow> string \<Rightarrow> string option" where
  "CurrentRevision D p n = mget (p_labels p) (da_labelP D @ n)"

definition UnmarshallFromString :: "dapi \<Rightarrow> string \<Rightarrow> gerr + decinfo list" where
  "UnmarshallFromString D v = (case da_dec D v of (Some e, _) \<Rightarrow> Inl e | (None, is) \<Rightarrow> Inr is)"

text \<open>A set of decorations is keyed by revision.\<close>

definition decorationInfos :: "pdeco gomap \<Rightarrow> decinfo list" where
  "decorationInfos pds = map (\<lambda>(rv, pd). \<lparr>di_name = dc_name pd, di_rev = rv\<rparr>) pds"

definition GetDecorationInfoString :: "dapi \<Rightarrow> pdeco gomap \<Rightarrow> string" where
  "GetDecorationInfoString D pds = da_enc D (decorationInfos pds)"

definition SetDecorationInfo :: "dapi \<Rightarrow> pdeco gomap \<Rightarrow> pod \<Rightarrow> pod" where
  "SetDecorationInfo D pds p =
     p\<lparr>p_annos := mput (da_revAnno D) (GetDecorationInfoString D pds) (p_annos p),
       p_labels := mputs (map (\<lambda>(rv, pd). (da_labelP D @ dc_name pd, rv)) pds) (p_labels p)\<rparr>"

subsection \<open>The decoration of a revision\<close>

text \<open>The first controlling PodDecoration among the owners; an owner without the pointer panics.\<close>

fun copyMeta :: "revOwner list \<Rightarrow> pdeco \<Rightarrow> gerr + pdeco" where
  "copyMeta [] pd = Inr pd"
| "copyMeta (ow # ows) pd =
     (case ro_ctrl ow of
        None \<Rightarrow> Inl (Panic ''nil pointer'')
      | Some c \<Rightarrow>
          if c \<and> ro_kind ow = ''PodDecoration'' then Inr (pd\<lparr>dc_api := ro_api ow, dc_uid := ro_uid ow\<rparr>)
          else copyMeta ows pd)"

definition ApplyPatch :: "dapi \<Rightarrow> crevision \<Rightarrow> gerr + pdeco" where
  "ApplyPatch D r = rbind (da_patch D (cr_data r)) (copyMeta (cr_owners r))"

fun nameByOwner :: "revOwner list \<Rightarrow> pdeco \<Rightarrow> pdeco" where
  "nameByOwner [] pd = pd"
| "nameByOwner (ow # ows) pd =
     (if ro_ctrl ow = Some True then pd\<lparr>dc_name := ro_name ow\<rparr>
      else nameByOwner ows (pd\<lparr>dc_name := ro_name ow\<rparr>))"

fun revisionErr :: "gerr \<Rightarrow> gerr" where
  "revisionErr (Panic m) = Panic m"
| "revisionErr e = Err ''fail to get ResourceDecoration from revision''"

definition GetPodDecorationFromRevision :: "dapi \<Rightarrow> crevision \<Rightarrow> gerr + pdeco" where
  "GetPodDecorationFromRevision D r =
     (case ApplyPatch D r of
        Inl e \<Rightarrow> Inl (revisionErr e)
      | Inr pd \<Rightarrow> Inr (nameByOwner (cr_owners r) (pd\<lparr>dc_ns := cr_ns r\<rparr>)))"

subsection \<open>The order of decorations\<close>

definition lessPD :: "pdeco \<Rightarrow> pdeco \<Rightarrow> bool" where
  "lessPD a b =
     (case dc_weight a of
        None \<Rightarrow> True
      | Some x \<Rightarrow>
          (case dc_weight b of
             None \<Rightarrow> False
           | Some y \<Rightarrow> if x = y then dc_name a < dc_name b else x < y))"

text \<open>With a weight everywhere it is the order by weight, then name.\<close>

lemma lessPD_weighted:
  assumes "dc_weight a \<noteq> None" and "dc_weight b \<noteq> None"
  shows "lessPD a b = lexBy [\<lambda>a b. the (dc_weight a) < the (dc_weight b), \<lambda>a b. dc_name a < dc_name b] a b"
  using assms by (auto simp: lessPD_def)

lemma lessPD_strict_weak: "\<forall>a \<in> S. dc_weight a \<noteq> None \<Longrightarrow> strict_weak_on S lessPD"
proof (rule strict_weak_cong)
  show "strict_weak (lexBy [\<lambda>a b. the (dc_weight a) < the (dc_weight b), \<lambda>a b. dc_name a < dc_name b])"
    by (rule strict_weak_lexBy) (simp add: strict_weak_key)
qed (rule lessPD_weighted; blast)

lemma lessPD_reflexive: "dc_weight a = None \<Longrightarrow> lessPD a a"
  by (simp add: lessPD_def)

text \<open>What \<open>SetDecorationInfo\<close> writes is what the getters read.\<close>

lemma mget_labels_mputs:
  "distinct (map (dc_name \<circ> snd) pds) \<Longrightarrow> (rv, pd) \<in> set pds
   \<Longrightarrow> mget (mputs (map (\<lambda>(rv, pd). (l @ dc_name pd, rv)) pds) m) (l @ dc_name pd) = Some rv"
proof (induction pds arbitrary: m)
  case (Cons x xs)
  obtain r q where x: "x = (r, q)" by (cases x)
  show ?case
  proof (cases "(rv, pd) \<in> set xs")
    case True
    with Cons show ?thesis by (simp add: x)
  next
    case False
    with Cons.prems have e: "r = rv" "q = pd" by (auto simp: x)
    with Cons.prems have "l @ dc_name pd \<notin> fst ` set (map (\<lambda>(rv, pd). (l @ dc_name pd, rv)) xs)"
      by (auto simp: x image_def split: prod.splits)
    then show ?thesis by (simp add: x e mget_mputs_notin)
  qed
qed simp

lemma GetRevision_infos:
  "distinct (map (dc_name \<circ> snd) pds) \<Longrightarrow> (rv, pd) \<in> set pds
   \<Longrightarrow> GetRevision (decorationInfos pds) (dc_name pd) = Some rv"
proof (induction pds)
  case (Cons x xs)
  then show ?case by (cases x) (auto simp: decorationInfos_def, force)
qed simp

end
