(* ===== verification/PodStrategy.thy ===== *)
theory PodStrategy
  imports Decoration
begin

text \<open>
  The strategy manager of PodDecorations, \<^verbatim>\<open>pkg/controllers/utils/poddecoration/strategy\<close>
  (\<^verbatim>\<open>manager.go\<close>, \<^verbatim>\<open>types.go\<close>, \<^verbatim>\<open>utils.go\<close>).

  It keeps, per namespace and name, a \<open>podDecorationManager\<close>: the decoration as last seen, the pods it
  takes effect on, and the pods that keep the old revision because of the partition.
  \<open>UpdateSelectedPods\<close> recomputes them and \<open>EffectivePodRevisions\<close> answers from them.  Every method
  holds a lock, so a method is one step here.  A call of \<open>UpdateSelectedPods\<close> reads the API server at
  one moment; the start-up loop reads it at another moment in each round.  A listener is the list of the
  events it has been sent.
\<close>

subsection \<open>Pods as the strategy sees them\<close>

record podStat =
  pt_deleted :: bool
  pt_clsUpdated :: bool
  pt_ready :: bool
  pt_sa :: bool
  pt_node :: string
  pt_phase :: string
  pt_readyTime :: int
  pt_restarts :: int
  pt_created :: int

record podInfo =
  pi_name :: string
  pi_ns :: string
  pi_labels :: "string gomap"
  pi_cls :: string
  pi_ctx :: string
  pi_id :: string
  pi_rev :: string
  pi_state :: podStat

definition InstanceKey :: "podInfo \<Rightarrow> string" where
  "InstanceKey i = pi_ctx i @ ''/'' @ pi_id i"

text \<open>The zero time is 0.\<close>

definition afterOrZero :: "int \<Rightarrow> int \<Rightarrow> bool" where
  "afterOrZero t1 t2 = (if t1 = 0 \<or> t2 = 0 then t1 = 0 else t1 > t2)"

text \<open>The ranks of the phases; the Go map yields 0 for any other phase.\<close>

definition phaseRank :: "string \<Rightarrow> int" where
  "phaseRank ph = (if ph = ''Unknown'' then 1 else if ph = ''Running'' then 2 else 0)"

definition Compare :: "podInfo \<Rightarrow> podInfo \<Rightarrow> bool" where
  "Compare l r =
     (let s = pi_state l; t = pi_state r in
      if pt_clsUpdated s \<noteq> pt_clsUpdated t then pt_clsUpdated s
      else if pi_rev l \<noteq> pi_rev r then pi_rev l > pi_rev r
      else if pt_sa s \<noteq> pt_sa t then pt_sa t
      else if pt_node s \<noteq> pt_node t \<and> (pt_node s = [] \<or> pt_node t = []) then pt_node s = []
      else if phaseRank (pt_phase s) \<noteq> phaseRank (pt_phase t) then phaseRank (pt_phase s) < phaseRank (pt_phase t)
      else if pt_ready s \<noteq> pt_ready t then \<not> pt_ready s
      else if pt_ready s \<and> pt_ready t \<and> pt_readyTime s \<noteq> pt_readyTime t
      then afterOrZero (pt_readyTime s) (pt_readyTime t)
      else if pt_restarts s \<noteq> pt_restarts t then pt_restarts s > pt_restarts t
      else if pt_created s \<noteq> pt_created t then afterOrZero (pt_created s) (pt_created t)
      else pi_id l < pi_id r)"

definition podLess :: "string \<Rightarrow> podInfo \<Rightarrow> podInfo \<Rightarrow> bool" where
  "podLess rv i j =
     (if (pi_rev i = rv) \<noteq> (pi_rev j = rv) then pi_rev i = rv else Compare i j)"

fun readyTimeIn :: "cond list \<Rightarrow> int" where
  "readyTimeIn [] = 0"
| "readyTimeIn (c # cs) = (if c_type c = ''Ready'' \<and> c_status c = CTrue then c_time c else readyTimeIn cs)"

definition podReadyTime :: "pod \<Rightarrow> int" where
  "podReadyTime p = (if IsPodReady p then readyTimeIn (p_conds p) else 0)"

fun maxRestarts :: "cstat list \<Rightarrow> int \<Rightarrow> int" where
  "maxRestarts [] m = m"
| "maxRestarts (c # cs) m = maxRestarts cs (if s_restarts c > m then s_restarts c else m)"

definition maxContainerRestarts :: "pod \<Rightarrow> int" where
  "maxContainerRestarts p = maxRestarts (p_cstats p) 0"

definition setPodState :: "api \<Rightarrow> pod \<Rightarrow> podStat" where
  "setPodState A p =
     \<lparr>pt_deleted = False, pt_clsUpdated = False, pt_ready = IsPodReady p, pt_sa = IsPodServiceAvailable A p,
      pt_node = p_node p, pt_phase = p_phase p, pt_readyTime = podReadyTime p,
      pt_restarts = maxContainerRestarts p, pt_created = p_created p\<rparr>"

subsection \<open>Resource contexts\<close>

definition getContextName :: "collaset \<Rightarrow> string" where
  "getContextName c = (if co_context c \<noteq> [] then co_context c else co_name c)"

definition getAllocatedId :: "rctx \<Rightarrow> sset" where
  "getAllocatedId x = sinserts (map (itoa \<circ> cd_id) (rx_contexts x)) []"

fun revisionsOf :: "dapi \<Rightarrow> string \<Rightarrow> ctxDetail list \<Rightarrow> string gomap \<Rightarrow> string gomap" where
  "revisionsOf D n [] m = m"
| "revisionsOf D n (d # ds) m =
     revisionsOf D n ds
       (case mget (cd_data d) ''PodDecorationRevisions'' of
          None \<Rightarrow> m
        | Some v \<Rightarrow>
            (case UnmarshallFromString D v of
               Inl _ \<Rightarrow> m
             | Inr is \<Rightarrow> (case GetRevision is n of None \<Rightarrow> m | Some r \<Rightarrow> mput (itoa (cd_id d)) r m)))"

definition getUpdatedPodDecorationRevision :: "dapi \<Rightarrow> rctx \<Rightarrow> string \<Rightarrow> string gomap" where
  "getUpdatedPodDecorationRevision D x n = revisionsOf D n (rx_contexts x) []"

subsection \<open>The cached reads of one update\<close>

record 'w sclient =
  sc_cls :: "'w \<Rightarrow> string \<Rightarrow> string \<Rightarrow> gerr + collaset"
  sc_ctx :: "'w \<Rightarrow> string \<Rightarrow> string \<Rightarrow> gerr + rctx"
  sc_pods :: "'w \<Rightarrow> string \<Rightarrow> (string gomap \<Rightarrow> bool) option \<Rightarrow> gerr + pod list"
  sc_list :: "'w \<Rightarrow> gerr + pdeco list"
  sc_get :: "'w \<Rightarrow> string \<Rightarrow> string \<Rightarrow> gerr + pdeco"

record related =
  rl_cls :: collaset
  rl_ctx :: rctx
  rl_ids :: sset
  rl_revs :: "string gomap"

record getter =
  gt_pods :: "related gomap"
  gt_cls :: "related gomap"

definition newGetter :: getter where
  "newGetter = \<lparr>gt_pods = [], gt_cls = []\<rparr>"

definition GetResourceContext :: "'w sclient \<Rightarrow> 'w \<Rightarrow> collaset \<Rightarrow> gerr + rctx" where
  "GetResourceContext C w c = sc_ctx C w (co_ns c) (getContextName c)"

definition getResources :: "dapi \<Rightarrow> 'w sclient \<Rightarrow> 'w \<Rightarrow> string \<Rightarrow> string \<Rightarrow> string \<Rightarrow> gerr + related" where
  "getResources D C w ns cls n =
     (case sc_cls C w ns cls of
        Inl e \<Rightarrow> Inl e
      | Inr c \<Rightarrow>
          (case GetResourceContext C w c of
             Inl e \<Rightarrow> Inl e
           | Inr x \<Rightarrow> Inr \<lparr>rl_cls = c, rl_ctx = x, rl_ids = getAllocatedId x,
               rl_revs = getUpdatedPodDecorationRevision D x n\<rparr>))"

definition relatedPod :: "dapi \<Rightarrow> 'w sclient \<Rightarrow> 'w \<Rightarrow> pod \<Rightarrow> string \<Rightarrow> getter \<Rightarrow> (gerr + related) \<times> getter" where
  "relatedPod D C w p n g =
     (case mget (gt_pods g) (p_name p) of
        Some r \<Rightarrow> (Inr r, g)
      | None \<Rightarrow>
          (case GetControllerOf p of
             None \<Rightarrow> (Inl (Err ''pod was not controlled by collaset''), g)
           | Some ow \<Rightarrow>
               if o_kind ow \<noteq> ''CollaSet'' then (Inl (Err ''pod was not controlled by collaset''), g)
               else (case mget (gt_cls g) (o_name ow) of
                       Some r \<Rightarrow> (Inr r, g\<lparr>gt_pods := mput (p_name p) r (gt_pods g)\<rparr>)
                     | None \<Rightarrow>
                         (case getResources D C w (p_ns p) (o_name ow) n of
                            Inl e \<Rightarrow> (Inl e, g)
                          | Inr r \<Rightarrow> (Inr r, \<lparr>gt_pods = mput (p_name p) r (gt_pods g),
                                             gt_cls = mput (o_name ow) r (gt_cls g)\<rparr>)))))"

definition relatePodInfo :: "dapi \<Rightarrow> 'w sclient \<Rightarrow> 'w \<Rightarrow> podInfo \<Rightarrow> string \<Rightarrow> getter \<Rightarrow> (gerr + related) \<times> getter" where
  "relatePodInfo D C w i n g =
     (case mget (gt_cls g) (pi_cls i) of
        Some r \<Rightarrow> (Inr r, g)
      | None \<Rightarrow>
          (case getResources D C w (pi_ns i) (pi_cls i) n of
             Inl e \<Rightarrow> (Inl e, g)
           | Inr r \<Rightarrow> (Inr r, \<lparr>gt_pods = mput (pi_name i) r (gt_pods g), gt_cls = mput (pi_cls i) r (gt_cls g)\<rparr>)))"

definition buildPodInfo :: "api \<Rightarrow> dapi \<Rightarrow> 'w sclient \<Rightarrow> 'w \<Rightarrow> pod \<Rightarrow> pdeco \<Rightarrow> getter \<Rightarrow> (gerr + podInfo) \<times> getter" where
  "buildPodInfo A D C w p pd g =
     (case relatedPod D C w p (dc_name pd) g of
        (Inl e, g1) \<Rightarrow> (Inl e, g1)
      | (Inr r, g1) \<Rightarrow>
          (let i = mgetd (p_labels p) (instIdL A)
           in (Inr \<lparr>pi_name = p_name p, pi_ns = p_ns p, pi_labels = p_labels p, pi_cls = co_name (rl_cls r),
                  pi_ctx = rx_name (rl_ctx r), pi_id = i,
                  pi_rev = (case mget (rl_revs r) i of
                              Some rv \<Rightarrow> rv
                            | None \<Rightarrow> mgetd (p_labels p) (da_labelP D @ dc_name pd)),
                  pi_state = (setPodState A p)\<lparr>pt_clsUpdated :=
                    co_updated (rl_cls r) = mgetd (p_labels p) (da_hashL D)\<rparr>\<rparr>, g1)))"

subsection \<open>The manager of one decoration\<close>

record pdmgr =
  mg_name :: string
  mg_ns :: string
  mg_pods :: "podInfo gomap"
  mg_cls :: sset
  mg_old :: sset
  mg_latest :: "pdeco option"

definition newMgr :: "pdeco \<Rightarrow> pdmgr" where
  "newMgr pd = \<lparr>mg_name = dc_name pd, mg_ns = dc_ns pd, mg_pods = [], mg_cls = [], mg_old = [], mg_latest = None\<rparr>"

definition IsActive :: "pod \<Rightarrow> bool" where
  "IsActive p \<longleftrightarrow>
     (case GetControllerOf p of None \<Rightarrow> False | Some ow \<Rightarrow> o_kind ow = ''CollaSet'' \<and> \<not> p_deleting p)"

record uacc =
  ua_cls :: sset
  ua_pods :: "podInfo gomap"
  ua_exist :: sset
  ua_get :: getter

fun activeLoop :: "api \<Rightarrow> dapi \<Rightarrow> 'w sclient \<Rightarrow> 'w \<Rightarrow> pdeco \<Rightarrow> pod list \<Rightarrow> uacc \<Rightarrow> gerr + uacc" where
  "activeLoop A D C w pd [] a = Inr a"
| "activeLoop A D C w pd (p # ps) a =
     (if \<not> IsActive p then activeLoop A D C w pd ps a
      else (case buildPodInfo A D C w p pd (ua_get a) of
              (Inl e, _) \<Rightarrow> Inl e
            | (Inr i, g) \<Rightarrow> activeLoop A D C w pd ps
                \<lparr>ua_cls = sinsert (pi_cls i) (ua_cls a), ua_pods = mput (p_name p) i (ua_pods a),
                 ua_exist = sinsert (InstanceKey i) (ua_exist a), ua_get = g\<rparr>))"

definition markDeleted :: "podInfo \<Rightarrow> podInfo" where
  "markDeleted i = i\<lparr>pi_state := (pi_state i)\<lparr>pt_deleted := True\<rparr>\<rparr>"

text \<open>
  The loop over the pods known before.  A pod is marked as deleted in the shared object, so the
  marks are returned for the case that the loop ends with an error and the old map stays.
\<close>

fun oldLoop :: "dapi \<Rightarrow> 'w sclient \<Rightarrow> 'w \<Rightarrow> pdeco \<Rightarrow> (string \<times> podInfo) list \<Rightarrow> uacc \<times> string list
    \<Rightarrow> gerr option \<times> uacc \<times> string list" where
  "oldLoop D C w pd [] (a, marks) = (None, a, marks)"
| "oldLoop D C w pd ((n, i) # is) (a, marks) =
     (let a1 = a\<lparr>ua_cls := sinsert (pi_cls i) (ua_cls a)\<rparr> in
      if InstanceKey i \<in> set (ua_exist a) then oldLoop D C w pd is (a1, marks)
      else (case Selected D (dc_selector pd) (pi_labels i) of
              Inl e \<Rightarrow> (Some e, a1, marks)
            | Inr False \<Rightarrow> oldLoop D C w pd is (a1, marks)
            | Inr True \<Rightarrow>
                if mhas (ua_pods a) n then oldLoop D C w pd is (a1, marks)
                else (case relatePodInfo D C w i (dc_name pd) (ua_get a) of
                        (Inl NotFound, g) \<Rightarrow> oldLoop D C w pd is (a1\<lparr>ua_get := g\<rparr>, marks)
                      | (Inl e, g) \<Rightarrow> (Some e, a1\<lparr>ua_get := g\<rparr>, marks)
                      | (Inr r, g) \<Rightarrow>
                          if pi_id i \<in> set (rl_ids r)
                          then oldLoop D C w pd is
                                 (a1\<lparr>ua_get := g, ua_pods := mput n (markDeleted i) (ua_pods a)\<rparr>, n # marks)
                          else oldLoop D C w pd is (a1\<lparr>ua_get := g\<rparr>, marks))))"

definition markAll :: "string list \<Rightarrow> podInfo gomap \<Rightarrow> podInfo gomap" where
  "markAll marks m = map (\<lambda>(n, i). (n, if n \<in> set marks then markDeleted i else i)) m"

definition updatePartitionPods :: "podInfo sorter \<Rightarrow> podInfo gomap \<Rightarrow> string \<Rightarrow> int \<Rightarrow> sset" where
  "updatePartitionPods srt pods rv n =
     (let infos = srt (podLess rv) (map snd pods);
          idx = int (length infos) - n
      in sinserts (map pi_name (drop (nat (if idx < 0 then 0 else idx)) infos)) [])"

definition partitionOf :: "pdeco \<Rightarrow> int option" where
  "partitionOf pd = (case dc_rolling pd of None \<Rightarrow> None | Some ru \<Rightarrow> ru_partition ru)"

definition updateSelectedPods :: "podInfo sorter \<Rightarrow> api \<Rightarrow> dapi \<Rightarrow> 'w sclient \<Rightarrow> 'w \<Rightarrow> pdeco \<Rightarrow> pod list \<Rightarrow> pdmgr
    \<Rightarrow> gerr option \<times> pdmgr" where
  "updateSelectedPods srt A D C w pd pods m =
     (let m1 = m\<lparr>mg_latest := Some pd\<rparr> in
      case activeLoop A D C w pd pods \<lparr>ua_cls = [], ua_pods = [], ua_exist = [], ua_get = newGetter\<rparr> of
        Inl e \<Rightarrow> (Some e, m1)
      | Inr a \<Rightarrow>
          (case oldLoop D C w pd (mg_pods m) (a, []) of
             (Some e, _, marks) \<Rightarrow> (Some e, m1\<lparr>mg_pods := markAll marks (mg_pods m)\<rparr>)
           | (None, a1, _) \<Rightarrow>
               (let m2 = m1\<lparr>mg_cls := ua_cls a1, mg_pods := ua_pods a1\<rparr>
                in (None, case partitionOf pd of
                      None \<Rightarrow> m2
                    | Some n \<Rightarrow> m2\<lparr>mg_old := updatePartitionPods srt (ua_pods a1) (ds_updated (dc_status pd)) n\<rparr>))))"

text \<open>\<open>match\<close> never asks whether its selector is nil.\<close>

definition matches :: "dapi \<Rightarrow> string option \<Rightarrow> string gomap \<Rightarrow> gerr + bool" where
  "matches D sel ls = matchesParsed D sel ls"

definition bySelector :: "dapi \<Rightarrow> pdeco \<Rightarrow> rolling \<Rightarrow> sset \<Rightarrow> pod \<Rightarrow> gerr + string \<times> bool" where
  "bySelector D pd ru old p =
     (let updated = ds_updated (dc_status pd); current = ds_current (dc_status pd) in
      if ru_selector ru \<noteq> None
      then rbind (matches D (ru_selector ru) (p_labels p)) (\<lambda>b. Inr (if b then (updated, True) else (current, False)))
      else if ru_partition ru \<noteq> None
      then Inr (if p_name p \<in> set old then (current, False) else (updated, True))
      else Inr (updated, True))"

definition getSuitableRevision :: "dapi \<Rightarrow> pdmgr \<Rightarrow> pod \<Rightarrow> gerr + (string \<times> bool) option" where
  "getSuitableRevision D m p =
     (case mg_latest m of
        None \<Rightarrow> Inl (Panic ''nil pointer'')
      | Some pd \<Rightarrow>
          rbind (matches D (dc_selector pd) (p_labels p)) (\<lambda>b.
            if \<not> b then Inr None
            else (case dc_rolling pd of
                    None \<Rightarrow> Inr (Some (ds_updated (dc_status pd), True))
                  | Some ru \<Rightarrow> rbind (bySelector D pd ru (mg_old m) p) (\<lambda>x. Inr (Some x)))))"

subsection \<open>The strategy manager\<close>

type_synonym gevent = "string \<times> string"

record stmgr =
  sm_mgrs :: "pdmgr gomap gomap"
  sm_synced :: bool
  sm_chans :: "gevent list list"

definition newStrategy :: stmgr where
  "newStrategy = \<lparr>sm_mgrs = [], sm_synced = False, sm_chans = []\<rparr>"

definition RegisterGenericEventChannel :: "stmgr \<Rightarrow> stmgr" where
  "RegisterGenericEventChannel s = s\<lparr>sm_chans := sm_chans s @ [[]]\<rparr>"

definition Synced :: "stmgr \<Rightarrow> stmgr" where
  "Synced s = s\<lparr>sm_synced := True\<rparr>"

definition broadcast :: "pdmgr \<Rightarrow> gevent list \<Rightarrow> gevent list" where
  "broadcast m ch = ch @ map (\<lambda>n. (mg_ns m, n)) (mg_cls m)"

definition nsMgrs :: "stmgr \<Rightarrow> string \<Rightarrow> pdmgr gomap" where
  "nsMgrs s ns = (case mget (sm_mgrs s) ns of None \<Rightarrow> [] | Some m \<Rightarrow> m)"

definition setMgr :: "string \<Rightarrow> string \<Rightarrow> pdmgr \<Rightarrow> stmgr \<Rightarrow> stmgr" where
  "setMgr ns n m s = s\<lparr>sm_mgrs := mput ns (mput n m (nsMgrs s ns)) (sm_mgrs s)\<rparr>"

definition podDecorationMgr :: "pdeco \<Rightarrow> stmgr \<Rightarrow> pdmgr" where
  "podDecorationMgr pd s = (case mget (nsMgrs s (dc_ns pd)) (dc_name pd) of Some m \<Rightarrow> m | None \<Rightarrow> newMgr pd)"

definition UpdateSelectedPods :: "podInfo sorter \<Rightarrow> api \<Rightarrow> dapi \<Rightarrow> 'w sclient \<Rightarrow> 'w \<Rightarrow> pdeco \<Rightarrow> pod list \<Rightarrow> stmgr
    \<Rightarrow> gerr option \<times> stmgr" where
  "UpdateSelectedPods srt A D C w pd pods s =
     (case updateSelectedPods srt A D C w pd pods (podDecorationMgr pd s) of
        (Some e, m) \<Rightarrow> (Some e, setMgr (dc_ns pd) (dc_name pd) m s)
      | (None, m) \<Rightarrow> (None, (setMgr (dc_ns pd) (dc_name pd) m s)\<lparr>sm_chans := map (broadcast m) (sm_chans s)\<rparr>))"

definition DeletePodDecoration :: "pdeco \<Rightarrow> stmgr \<Rightarrow> stmgr" where
  "DeletePodDecoration pd s =
     (case mget (nsMgrs s (dc_ns pd)) (dc_name pd) of
        None \<Rightarrow> s
      | Some m \<Rightarrow> s\<lparr>sm_mgrs := mput (dc_ns pd) (mdel (dc_name pd) (nsMgrs s (dc_ns pd))) (sm_mgrs s),
                    sm_chans := map (broadcast m) (sm_chans s)\<rparr>)"

definition LatestPodDecorations :: "stmgr \<Rightarrow> string \<Rightarrow> pdeco option list" where
  "LatestPodDecorations s ns = map (\<lambda>(n, m). mg_latest m) (nsMgrs s ns)"

fun effectiveLoop :: "dapi \<Rightarrow> pod \<Rightarrow> (string \<times> pdmgr) list \<Rightarrow> string gomap \<times> string gomap
    \<Rightarrow> gerr + string gomap \<times> string gomap" where
  "effectiveLoop D p [] acc = Inr acc"
| "effectiveLoop D p ((n, m) # ms) (upd, stab) =
     (case getSuitableRevision D m p of
        Inl e \<Rightarrow> Inl e
      | Inr None \<Rightarrow> effectiveLoop D p ms (upd, stab)
      | Inr (Some (rv, isUpdated)) \<Rightarrow>
          effectiveLoop D p ms
            (if rv = [] then (upd, stab) else if isUpdated then (mput n rv upd, stab) else (upd, mput n rv stab)))"

definition EffectivePodRevisions :: "dapi \<Rightarrow> stmgr \<Rightarrow> pod \<Rightarrow> gerr + string gomap \<times> string gomap" where
  "EffectivePodRevisions D s p = effectiveLoop D p (nsMgrs s (p_ns p)) ([], [])"

subsection \<open>Filling the managers at the start\<close>

type_synonym nsname = "string \<times> string"

definition qAdd :: "nsname \<Rightarrow> nsname list \<Rightarrow> nsname list" where
  "qAdd x q = (if x \<in> set q then q else q @ [x])"

text \<open>The object that a failed \<open>Get\<close> leaves behind.\<close>

definition noDeco :: pdeco where
  "noDeco = \<lparr>dc_ns = [], dc_name = [], dc_uid = [], dc_api = [], dc_kind = [], dc_rv = [], dc_generation = 0,
     dc_deleting = False, dc_finalizers = [], dc_selector = None, dc_weight = None, dc_rolling = None,
     dc_noDetail = False,
     dc_template = \<lparr>te_meta = [], te_init = [], te_primary = [], te_containers = [], te_volumes = [],
       te_affinity = None, te_tolerations = []\<rparr>,
     dc_status = \<lparr>ds_observed = 0, ds_current = [], ds_updated = [], ds_matched = 0, ds_updatedPods = 0,
       ds_ready = 0, ds_available = 0, ds_injected = 0, ds_collision = 0, ds_details = []\<rparr>\<rparr>"

definition listSelector :: "dapi \<Rightarrow> string option \<Rightarrow> (string gomap \<Rightarrow> bool) option" where
  "listSelector D sel =
     (case sel of None \<Rightarrow> Some (\<lambda>_. True) | Some s \<Rightarrow> (case da_sel D s of Inl _ \<Rightarrow> None | Inr f \<Rightarrow> Some f))"

text \<open>
  One round with the decoration that was read: what is put back into the queue, and an error (or panic) that
  ends the loop; an error of the update is only logged.  A failed \<open>Get\<close> other than not found goes on with the empty object.
\<close>

definition syncRound :: "podInfo sorter \<Rightarrow> api \<Rightarrow> dapi \<Rightarrow> 'w sclient \<Rightarrow> 'w \<Rightarrow> nsname \<Rightarrow> nsname list \<Rightarrow> stmgr
    \<Rightarrow> gerr option \<times> nsname list \<times> stmgr" where
  "syncRound srt A D C w x q s =
     (case sc_get C w (fst x) (snd x) of
        Inl NotFound \<Rightarrow> (None, q, s)
      | r \<Rightarrow>
          (let q1 = (case r of Inl _ \<Rightarrow> qAdd x q | Inr _ \<Rightarrow> q);
               pd = (case r of Inl _ \<Rightarrow> noDeco | Inr pd \<Rightarrow> pd)
           in if dc_generation pd \<noteq> ds_observed (dc_status pd) then (None, qAdd x q1, s)
              else (case sc_pods C w (dc_ns pd) (listSelector D (dc_selector pd)) of
                      Inl e \<Rightarrow> (Some e, q1, s)
                    | Inr pods \<Rightarrow>
                        (case UpdateSelectedPods srt A D C w pd pods s of
                           (Some (Panic m), s1) \<Rightarrow> (Some (Panic m), q1, s1)
                         | (_, s1) \<Rightarrow> (None, q1, s1)))))"

text \<open>
  The loop: round \<open>k\<close> finds the server as \<open>W k\<close>, and the context is cancelled when \<open>stop k\<close>.  It need not
  end: \<open>None\<close> is a loop that runs for ever.
\<close>

partial_function (option) syncLoop :: "(stmgr \<Rightarrow> nat \<Rightarrow> nsname \<Rightarrow> nsname list \<Rightarrow> gerr option \<times> nsname list \<times> stmgr)
    \<Rightarrow> (nat \<Rightarrow> bool) \<Rightarrow> nat \<Rightarrow> nsname list \<Rightarrow> stmgr \<Rightarrow> (gerr option \<times> stmgr) option" where
  "syncLoop rnd stop k q s =
     (if stop k then Some (None, s)
      else (case q of
              [] \<Rightarrow> Some (None, s)
            | x # q1 \<Rightarrow>
                (case rnd s k x q1 of
                   (Some e, _, s1) \<Rightarrow> Some (Some e, s1)
                 | (None, q2, s1) \<Rightarrow> syncLoop rnd stop (Suc k) q2 s1)))"

fun addAll :: "nsname list \<Rightarrow> nsname list \<Rightarrow> nsname list" where
  "addAll [] q = q"
| "addAll (x # xs) q = addAll xs (qAdd x q)"

definition syncAllPodDecorations :: "podInfo sorter \<Rightarrow> api \<Rightarrow> dapi \<Rightarrow> 'w sclient \<Rightarrow> (nat \<Rightarrow> 'w) \<Rightarrow> (nat \<Rightarrow> bool) \<Rightarrow> stmgr
    \<Rightarrow> (gerr option \<times> stmgr) option" where
  "syncAllPodDecorations srt A D C W stop s =
     (case sc_list C (W 0) of
        Inl e \<Rightarrow> Some (Some e, s)
      | Inr pds \<Rightarrow>
          syncLoop (\<lambda>s k. \<lambda>x q. syncRound srt A D C (W (Suc k)) x q s) stop 0
            (addAll (map (\<lambda>pd. (dc_ns pd, dc_name pd)) (filter (\<lambda>pd. \<not> dc_deleting pd) pds)) []) s)"

definition start :: "podInfo sorter \<Rightarrow> api \<Rightarrow> dapi \<Rightarrow> 'w sclient \<Rightarrow> (nat \<Rightarrow> 'w) \<Rightarrow> (nat \<Rightarrow> bool) \<Rightarrow> stmgr
    \<Rightarrow> (gerr option \<times> stmgr) option" where
  "start srt A D C W stop s =
     (if sm_synced s then Some (None, s)
      else (case syncAllPodDecorations srt A D C W stop s of
              None \<Rightarrow> None
            | Some (Some e, s1) \<Rightarrow> Some (Some e, s1)
            | Some (None, s1) \<Rightarrow> Some (None, Synced s1)))"

end
