(* ===== verification/DecorationController.thy ===== *)
theory DecorationController
  imports PodStrategy Expectations Finalizers
begin

text \<open>
  The controller of PodDecorations, \<^verbatim>\<open>pkg/controllers/poddecoration/poddecoration_controller.go\<close>.

  A reconciliation counts on which pods the decoration has been injected in which revision, moves
  the current revision to the updated one when all of them carry it, writes the status and hands the
  selected pods to the strategy manager.  The API client and the history manager of kube-utils, which
  finds the updated revision of a decoration, are parameters; \<open>dk_range\<close> is the order in which Go
  visits a set.  The controller's state is the cluster, its expectations on the status, and the
  strategy manager it shares with the other controllers.
\<close>

subsection \<open>Environment and state\<close>

record 'w dclient =
  dk_get :: "'w \<Rightarrow> string \<Rightarrow> string \<Rightarrow> gerr + pdeco"
  dk_update :: "pdeco \<Rightarrow> 'w \<Rightarrow> (gerr + pdeco) \<times> 'w"
  dk_status :: "pdeco \<Rightarrow> 'w \<Rightarrow> (gerr + pdeco) \<times> 'w"
  dk_retry :: "(pdeco \<times> 'w \<Rightarrow> gerr option \<times> pdeco \<times> 'w) \<Rightarrow> pdeco \<times> 'w \<Rightarrow> gerr option \<times> pdeco \<times> 'w"
  dk_pods :: "'w \<Rightarrow> string \<Rightarrow> (string gomap \<Rightarrow> bool) option \<Rightarrow> gerr + pod list"
  dk_revisions :: "pdeco \<Rightarrow> 'w \<Rightarrow> (gerr + string \<times> int) \<times> 'w"
  dk_read :: "'w sclient"
  dk_protect :: string
  dk_range :: "string list \<Rightarrow> string list"
  dk_sort :: "pod sorter"
  dk_sortInfo :: "podInfo sorter"

record 'w dstate =
  dt_w :: 'w
  dt_exp :: rvstore
  dt_sm :: stmgr

definition pdKey :: "pdeco \<Rightarrow> string" where
  "pdKey pd = (if dc_ns pd = [] then dc_name pd else dc_ns pd @ ''/'' @ dc_name pd)"

subsection \<open>Finalizer\<close>

definition putDeco :: "'w dclient \<Rightarrow> pdeco \<Rightarrow> 'w \<Rightarrow> gerr option \<times> pdeco \<times> 'w" where
  "putDeco C pd w = (case dk_update C pd w of (Inl e, w1) \<Rightarrow> (Some e, pd, w1) | (Inr pd1, w1) \<Rightarrow> (None, pd1, w1))"

definition protectPD :: "'w dclient \<Rightarrow> pdeco \<Rightarrow> 'w \<Rightarrow> gerr option \<times> pdeco \<times> 'w" where
  "protectPD C pd w =
     (if dk_protect C \<in> set (dc_finalizers pd) then (None, pd, w)
      else putDeco C (pd\<lparr>dc_finalizers := dc_finalizers pd @ [dk_protect C]\<rparr>) w)"

definition clearProtection :: "'w dclient \<Rightarrow> pdeco \<Rightarrow> 'w \<Rightarrow> gerr option \<times> pdeco \<times> 'w" where
  "clearProtection C pd w =
     (if dk_protect C \<notin> set (dc_finalizers pd) then (None, pd, w)
      else putDeco C (pd\<lparr>dc_finalizers := filter (\<lambda>f. f \<noteq> dk_protect C) (dc_finalizers pd)\<rparr>) w)"

definition shouldEscape :: "dapi \<Rightarrow> 'w dclient \<Rightarrow> pdeco \<Rightarrow> 'w \<Rightarrow> bool" where
  "shouldEscape D C pd w =
     (case dk_pods C w (dc_ns pd) (Some (\<lambda>ls. mhas ls (da_labelP D @ dc_name pd))) of
        Inl _ \<Rightarrow> False
      | Inr pods \<Rightarrow> pods = [])"

subsection \<open>The status\<close>

definition IsPodInactive :: "pod \<Rightarrow> bool" where
  "IsPodInactive p \<longleftrightarrow> p_phase p = ''Succeeded'' \<or> p_phase p = ''Failed''"

fun groupPods :: "pod list \<Rightarrow> pod list gomap \<times> sset \<Rightarrow> pod list gomap \<times> sset" where
  "groupPods [] acc = acc"
| "groupPods (p # ps) (m, cs) =
     groupPods ps
       (case GetControllerOf p of
          None \<Rightarrow> (m, cs)
        | Some ow \<Rightarrow>
            if o_kind ow = ''CollaSet''
            then (mput (o_name ow) ((case mget m (o_name ow) of None \<Rightarrow> [] | Some xs \<Rightarrow> xs) @ [p]) m, sinsert (o_name ow) cs)
            else (m, cs))"

definition filterOutPodAndCollaSet :: "pod sorter \<Rightarrow> pod list \<Rightarrow> pod list gomap \<times> sset" where
  "filterOutPodAndCollaSet srt pods =
     (case groupPods pods ([], []) of
        (m, cs) \<Rightarrow> (map (\<lambda>(k, ps). (k, srt (\<lambda>a b. p_name a < p_name b) ps)) m, cs))"

definition podCounts :: "api \<Rightarrow> dapi \<Rightarrow> string \<Rightarrow> pod \<Rightarrow> pdstatus \<Rightarrow> pdstatus" where
  "podCounts A D n p st =
     (case CurrentRevision D p n of
        None \<Rightarrow> st
      | Some r \<Rightarrow>
          (let st1 = st\<lparr>ds_injected := ds_injected st + 1\<rparr> in
           if r \<noteq> ds_updated st then st1
           else (let st2 = st1\<lparr>ds_updatedPods := ds_updatedPods st1 + 1\<rparr>;
                     st3 = (if IsPodReady p then st2\<lparr>ds_ready := ds_ready st2 + 1\<rparr> else st2)
                 in if IsPodServiceAvailable A p then st3\<lparr>ds_available := ds_available st3 + 1\<rparr> else st3)))"

definition podDetailOf :: "dapi \<Rightarrow> string \<Rightarrow> pod \<Rightarrow> podDetail" where
  "podDetailOf D n p =
     (case CurrentRevision D p n of
        None \<Rightarrow> \<lparr>po_name = p_name p, po_rev = [], po_escaped = True\<rparr>
      | Some r \<Rightarrow> \<lparr>po_name = p_name p, po_rev = r, po_escaped = False\<rparr>)"

fun setLoop :: "api \<Rightarrow> dapi \<Rightarrow> pdeco \<Rightarrow> pod list gomap \<Rightarrow> string list \<Rightarrow> workDetail list \<times> pdstatus
    \<Rightarrow> workDetail list \<times> pdstatus" where
  "setLoop A D pd m [] acc = acc"
| "setLoop A D pd m (c # cs) (ds, st) =
     (let pods = (case mget m c of None \<Rightarrow> [] | Some ps \<Rightarrow> ps);
          st1 = fold (podCounts A D (dc_name pd)) pods (st\<lparr>ds_matched := ds_matched st + int (length pods)\<rparr>)
      in setLoop A D pd m cs
           (ds @ [\<lparr>wd_cls = c, wd_replicas = int (length pods),
                   wd_pods = if dc_noDetail pd then [] else map (podDetailOf D (dc_name pd)) pods\<rparr>], st1))"

fun allCollaSetsSatisfyReplicas :: "'w dclient \<Rightarrow> 'w \<Rightarrow> string \<Rightarrow> string list \<Rightarrow> gerr + bool" where
  "allCollaSetsSatisfyReplicas C w ns [] = Inr True"
| "allCollaSetsSatisfyReplicas C w ns (n # ns') =
     (case sc_cls (dk_read C) w ns n of
        Inl NotFound \<Rightarrow> allCollaSetsSatisfyReplicas C w ns ns'
      | Inl _ \<Rightarrow> Inr False
      | Inr c \<Rightarrow>
          (case co_replicas c of
             None \<Rightarrow> Inl (Panic ''nil pointer'')
           | Some r \<Rightarrow> if co_curReplicas c \<noteq> r then Inr False else allCollaSetsSatisfyReplicas C w ns ns'))"

definition calculateDecoStatus :: "api \<Rightarrow> dapi \<Rightarrow> 'w dclient \<Rightarrow> 'w \<Rightarrow> pdeco \<Rightarrow> pdstatus \<Rightarrow> pod list gomap \<Rightarrow> sset
    \<Rightarrow> gerr + pdstatus" where
  "calculateDecoStatus A D C w pd st m cs =
     (case setLoop A D pd m (dk_range C cs)
             ([], st\<lparr>ds_matched := 0, ds_updatedPods := 0, ds_ready := 0, ds_available := 0, ds_injected := 0\<rparr>) of
        (details, st1) \<Rightarrow>
          rbind (if ds_current st1 \<noteq> ds_updated st1 \<and> ds_updatedPods st1 = ds_matched st1
                 then allCollaSetsSatisfyReplicas C w (dc_ns pd) (dk_range C cs) else Inr False)
            (\<lambda>b. Inr ((if b then st1\<lparr>ds_current := ds_updated st1\<rparr> else st1)\<lparr>ds_details := details\<rparr>)))"

definition getDeco :: "'w dclient \<Rightarrow> 'w \<Rightarrow> pdeco \<Rightarrow> gerr + pdeco" where
  "getDeco C w pd = dk_get C w (dc_ns pd) (dc_name pd)"

text \<open>The retried write has the shape of the helper for finalizers: set the status, write, and read again on failure.\<close>

definition updateDecoStatus :: "'w dclient \<Rightarrow> int \<Rightarrow> pdeco \<Rightarrow> pdstatus \<Rightarrow> 'w dstate \<Rightarrow> gerr option \<times> pdeco \<times> 'w dstate" where
  "updateDecoStatus C now pd st s =
     (if dc_status pd = st then (None, pd, s)
      else (let e1 = rvExpectUpdate (pdKey pd) (dc_rv pd) now (dt_exp s) in
            case dk_retry C (finalizerTry (dk_status C) (getDeco C) (\<lambda>q. q\<lparr>dc_status := st\<rparr>)) (pd, dt_w s) of
              (None, pd1, w1) \<Rightarrow> (None, pd1, s\<lparr>dt_w := w1, dt_exp := e1\<rparr>)
            | (Some e, pd1, w1) \<Rightarrow> (Some e, pd1, s\<lparr>dt_w := w1, dt_exp := rvDeleteExpectations (pdKey pd1) e1\<rparr>)))"

subsection \<open>Reconcile\<close>

definition selectedPods :: "dapi \<Rightarrow> 'w dclient \<Rightarrow> 'w \<Rightarrow> pdeco \<Rightarrow> gerr + pod list" where
  "selectedPods D C w pd =
     (case dk_pods C w (dc_ns pd)
             (case dc_selector pd of None \<Rightarrow> None | Some x \<Rightarrow> (case da_sel D x of Inl _ \<Rightarrow> None | Inr f \<Rightarrow> Some f)) of
        Inl e \<Rightarrow> Inl e
      | Inr pods \<Rightarrow> Inr (filter (\<lambda>p. \<not> (IsPodInactive p \<or> p_deleting p)) pods))"

definition deleteDeco :: "dapi \<Rightarrow> 'w dclient \<Rightarrow> pdeco \<Rightarrow> 'w dstate \<Rightarrow> (gerr + rresult) \<times> 'w dstate" where
  "deleteDeco D C pd s =
     (let s1 = s\<lparr>dt_sm := DeletePodDecoration pd (dt_sm s), dt_exp := rvDeleteExpectations (pdKey pd) (dt_exp s)\<rparr> in
      if \<not> shouldEscape D C pd (dt_w s) then (Inr \<lparr>rr_requeue = False, rr_after = Some 5000000000\<rparr>, s1)
      else (case clearProtection C pd (dt_w s) of
              (Some e, _, w1) \<Rightarrow> (Inl e, s1\<lparr>dt_w := w1\<rparr>)
            | (None, _, w1) \<Rightarrow> (Inr noResult, s1\<lparr>dt_w := w1\<rparr>)))"

definition liveDeco :: "api \<Rightarrow> dapi \<Rightarrow> 'w dclient \<Rightarrow> int \<Rightarrow> pdeco \<Rightarrow> 'w dstate \<Rightarrow> (gerr + rresult) \<times> 'w dstate" where
  "liveDeco A D C now pd0 s =
     (case protectPD C pd0 (dt_w s) of
        (Some e, _, w1) \<Rightarrow> (Inl e, s\<lparr>dt_w := w1\<rparr>)
      | (None, pd, w1) \<Rightarrow>
          (case dk_revisions C pd w1 of
             (Inl e, w2) \<Rightarrow> (Inl e, s\<lparr>dt_w := w2\<rparr>)
           | (Inr (updatedRev, collision), w2) \<Rightarrow>
               (case selectedPods D C w2 pd of
                  Inl e \<Rightarrow> (Inl e, s\<lparr>dt_w := w2\<rparr>)
                | Inr pods \<Rightarrow>
                    (case filterOutPodAndCollaSet (dk_sort C) pods of
                       (m, cs) \<Rightarrow>
                         (case calculateDecoStatus A D C w2 pd
                                 \<lparr>ds_observed = dc_generation pd, ds_current = ds_current (dc_status pd), ds_updated = updatedRev,
                                  ds_matched = 0, ds_updatedPods = 0, ds_ready = 0, ds_available = 0, ds_injected = 0,
                                  ds_collision = collision, ds_details = []\<rparr> m cs of
                            Inl e \<Rightarrow> (Inl e, s\<lparr>dt_w := w2\<rparr>)
                          | Inr st \<Rightarrow>
                              (case updateDecoStatus C now pd st (s\<lparr>dt_w := w2\<rparr>) of
                                 (Some e, _, s1) \<Rightarrow> (Inl e, s1)
                               | (None, pd1, s1) \<Rightarrow>
                                   (case UpdateSelectedPods (dk_sortInfo C) A D (dk_read C) (dt_w s1) pd1 pods (dt_sm s1) of
                                      (Some e, sm) \<Rightarrow> (Inl e, s1\<lparr>dt_sm := sm\<rparr>)
                                    | (None, sm) \<Rightarrow> (Inr noResult, s1\<lparr>dt_sm := sm\<rparr>))))))))"

definition ReconcileDeco :: "api \<Rightarrow> dapi \<Rightarrow> 'w dclient \<Rightarrow> int \<Rightarrow> string \<Rightarrow> string \<Rightarrow> 'w dstate
    \<Rightarrow> (gerr + rresult) \<times> 'w dstate" where
  "ReconcileDeco A D C now ns n s =
     (case dk_get C (dt_w s) ns n of
        Inl NotFound \<Rightarrow> (Inr noResult, s)
      | Inl e \<Rightarrow> (Inl e, s)
      | Inr pd \<Rightarrow>
          (case rvSatisfiedExpectations (pdKey pd) (dc_rv pd) now (dt_exp s) of
             Inl e \<Rightarrow> (Inl e, s)
           | Inr False \<Rightarrow> (Inr \<lparr>rr_requeue = True, rr_after = None\<rparr>, s)
           | Inr True \<Rightarrow> if dc_deleting pd then deleteDeco D C pd s else liveDeco A D C now pd s))"

subsection \<open>Events\<close>

fun podRequests :: "dapi \<Rightarrow> pod \<Rightarrow> pdeco list \<Rightarrow> gerr + nsname list" where
  "podRequests D p [] = Inr []"
| "podRequests D p (pd # pds) =
     rbind (matchesParsed D (dc_selector pd) (p_labels p)) (\<lambda>b.
       rbind (podRequests D p pds) (\<lambda>rs. Inr (if b then (p_ns p, dc_name pd) # rs else rs)))"

definition mapPodEvent :: "dapi \<Rightarrow> pod \<Rightarrow> gerr + pdeco list \<Rightarrow> gerr + nsname list" where
  "mapPodEvent D p listed = (case listed of Inl _ \<Rightarrow> Inr [] | Inr pds \<Rightarrow> podRequests D p pds)"

end
