(* ===== verification/DecorationProps.thy ===== *)
theory DecorationProps
  imports DecorationController
begin

text \<open>
  Properties of the controller of PodDecorations: how the counts of the status relate, when the current
  revision moves, and that a deleted decoration keeps its finalizer while it is injected somewhere.
  They rest on the locale \<open>deco_server\<close>, what the controller relies on of the API server.
\<close>

subsection \<open>Counting\<close>

abbreviation injectedIn :: "dapi \<Rightarrow> string \<Rightarrow> pod \<Rightarrow> bool" where
  "injectedIn D n p \<equiv> CurrentRevision D p n \<noteq> None"

abbreviation updatedIn :: "dapi \<Rightarrow> string \<Rightarrow> string \<Rightarrow> pod \<Rightarrow> bool" where
  "updatedIn D n r p \<equiv> CurrentRevision D p n = Some r"

definition addCounts :: "api \<Rightarrow> dapi \<Rightarrow> string \<Rightarrow> pod list \<Rightarrow> pdstatus \<Rightarrow> pdstatus" where
  "addCounts A D n ps st =
     (let r = ds_updated st; cnt = (\<lambda>P. int (length (filter P ps))) in
      st\<lparr>ds_updatedPods := ds_updatedPods st + cnt (updatedIn D n r),
         ds_ready := ds_ready st + cnt (\<lambda>p. updatedIn D n r p \<and> IsPodReady p),
         ds_available := ds_available st + cnt (\<lambda>p. updatedIn D n r p \<and> IsPodServiceAvailable A p),
         ds_injected := ds_injected st + cnt (injectedIn D n)\<rparr>)"

lemma podCounts_one: "podCounts A D n p st = addCounts A D n [p] st"
  by (cases "CurrentRevision D p n") (auto simp: podCounts_def addCounts_def Let_def)

lemma addCounts_append: "addCounts A D n (ps @ qs) st = addCounts A D n qs (addCounts A D n ps st)"
  by (simp add: addCounts_def Let_def)

lemma fold_podCounts: "fold (podCounts A D n) ps st = addCounts A D n ps st"
proof (induction ps arbitrary: st)
  case (Cons p ps)
  have "fold (podCounts A D n) (p # ps) st = addCounts A D n ps (podCounts A D n p st)" by (simp add: Cons.IH)
  also have "\<dots> = addCounts A D n (p # ps) st" using addCounts_append [of A D n "[p]" ps st] by (simp add: podCounts_one)
  finally show ?case .
qed (simp add: addCounts_def)

definition podsIn :: "pod list gomap \<Rightarrow> string \<Rightarrow> pod list" where
  "podsIn m c = (case mget m c of None \<Rightarrow> [] | Some ps \<Rightarrow> ps)"

lemma setLoop_status:
  "snd (setLoop A D pd m cs (ds, st)) =
     addCounts A D (dc_name pd) (concat (map (podsIn m) cs))
       (st\<lparr>ds_matched := ds_matched st + int (length (concat (map (podsIn m) cs)))\<rparr>)"
proof (induction cs arbitrary: ds st)
  case (Cons c cs)
  show ?case
    by (simp add: Let_def fold_podCounts Cons.IH addCounts_append flip: podsIn_def)
      (simp add: addCounts_def Let_def)
qed (simp add: addCounts_def)

lemma length_filter_le_imp: "(\<And>x. P x \<Longrightarrow> Q x) \<Longrightarrow> length (filter P xs) \<le> length (filter Q xs)"
  by (induction xs) auto

text \<open>The counts of a status that the controller calculates are nested: ready and available pods are among the
  updated ones, these among the injected ones, and these among the matched ones, which are the pods of the CollaSets
  it looks at.\<close>

theorem status_counts_nested:
  assumes "calculateDecoStatus A D C w pd st m cs = Inr st'"
  shows "0 \<le> ds_ready st' \<and> 0 \<le> ds_available st' \<and> ds_ready st' \<le> ds_updatedPods st' \<and> ds_available st' \<le> ds_updatedPods st'
    \<and> ds_updatedPods st' \<le> ds_injected st' \<and> ds_injected st' \<le> ds_matched st'
    \<and> ds_matched st' = int (length (concat (map (podsIn m) (dk_range C cs))))"
proof -
  let ?ps = "concat (map (podsIn m) (dk_range C cs))"
  let ?st0 = "st\<lparr>ds_matched := 0, ds_updatedPods := 0, ds_ready := 0, ds_available := 0, ds_injected := 0\<rparr>"
  obtain ds st1 where l: "setLoop A D pd m (dk_range C cs) ([], ?st0) = (ds, st1)" by fastforce
  with setLoop_status [of A D pd m "dk_range C cs" "[]" ?st0]
  have st1: "st1 = addCounts A D (dc_name pd) ?ps (?st0\<lparr>ds_matched := int (length ?ps)\<rparr>)" by simp
  from assms l obtain b where st': "st' = (if b then st1\<lparr>ds_current := ds_updated st1\<rparr> else st1)\<lparr>ds_details := ds\<rparr>"
    by (auto simp: calculateDecoStatus_def rbind_Inr_iff)
  have "0 \<le> ds_ready st1 \<and> 0 \<le> ds_available st1 \<and> ds_ready st1 \<le> ds_updatedPods st1 \<and> ds_available st1 \<le> ds_updatedPods st1
    \<and> ds_updatedPods st1 \<le> ds_injected st1 \<and> ds_injected st1 \<le> ds_matched st1 \<and> ds_matched st1 = int (length ?ps)"
    by (auto simp: st1 addCounts_def Let_def intro!: length_filter_le_imp)
  then show ?thesis by (simp add: st')
qed

subsection \<open>When the current revision moves\<close>

lemma length_filter_eq: "length (filter P xs) = length xs \<Longrightarrow> list_all P xs"
  by (metis length_filter_less linorder_neq_iff list_all_iff)

lemma calculateDecoStatus_moved:
  assumes "calculateDecoStatus A D C w pd st m cs = Inr st'" and "ds_current st' \<noteq> ds_current st"
  shows "ds_current st' = ds_updated st'
    \<and> (\<forall>c \<in> set (dk_range C cs). \<forall>p \<in> set (podsIn m c). updatedIn D (dc_name pd) (ds_updated st') p)
    \<and> allCollaSetsSatisfyReplicas C w (dc_ns pd) (dk_range C cs) = Inr True"
proof -
  let ?ps = "concat (map (podsIn m) (dk_range C cs))"
  let ?st0 = "st\<lparr>ds_matched := 0, ds_updatedPods := 0, ds_ready := 0, ds_available := 0, ds_injected := 0\<rparr>"
  obtain ds st1 where l: "setLoop A D pd m (dk_range C cs) ([], ?st0) = (ds, st1)" by fastforce
  with setLoop_status [of A D pd m "dk_range C cs" "[]" ?st0]
  have st1: "st1 = addCounts A D (dc_name pd) ?ps (?st0\<lparr>ds_matched := int (length ?ps)\<rparr>)" by simp
  have cur: "ds_current st1 = ds_current st" "ds_updated st1 = ds_updated st" by (simp_all add: st1 addCounts_def Let_def)
  from assms l cur have n: "ds_updatedPods st1 = ds_matched st1" and r: "allCollaSetsSatisfyReplicas C w (dc_ns pd) (dk_range C cs) = Inr True"
    and e: "st' = st1\<lparr>ds_current := ds_updated st1, ds_details := ds\<rparr>"
    by (auto simp: calculateDecoStatus_def rbind_Inr_iff split: if_splits)
  from n have "length (filter (updatedIn D (dc_name pd) (ds_updated st)) ?ps) = length ?ps"
    by (simp add: st1 addCounts_def Let_def)
  from length_filter_eq [OF this] have "\<forall>p \<in> set ?ps. updatedIn D (dc_name pd) (ds_updated st) p" by (simp add: list_all_iff)
  with r e cur show ?thesis by auto
qed

text \<open>The CollaSets that still exist have all their replicas.\<close>

lemma allCollaSets_True:
  "allCollaSetsSatisfyReplicas C w ns cs = Inr True \<Longrightarrow> c \<in> set cs \<Longrightarrow> sc_cls (dk_read C) w ns c = Inr x
   \<Longrightarrow> co_replicas x = Some (co_curReplicas x)"
  by (induction cs) (auto split: sum.splits option.splits if_splits gerr.splits)

lemma groupPods_mem:
  "groupPods ps (m, cs) = (m', cs') \<Longrightarrow> (\<forall>c. set (podsIn m c) \<noteq> {} \<longrightarrow> c \<in> set cs)
   \<Longrightarrow> (p \<in> set ps \<and> (\<exists>ow. GetControllerOf p = Some ow \<and> o_kind ow = ''CollaSet'' \<and> o_name ow = c)) \<or> p \<in> set (podsIn m c)
   \<Longrightarrow> c \<in> set cs' \<and> p \<in> set (podsIn m' c)"
proof (induction ps arbitrary: m cs)
  case Nil
  then have "p \<in> set (podsIn m c)" "m' = m" "cs' = cs" by simp_all
  with Nil(2) show ?case by force
next
  case (Cons q ps)
  show ?case
  proof (cases "GetControllerOf q")
    case None
    with Cons.prems Cons.IH [of m cs] show ?thesis by auto
  next
    case (Some ow)
    show ?thesis
    proof (cases "o_kind ow = ''CollaSet''")
      case False
      with Some Cons.prems Cons.IH [of m cs] show ?thesis by auto
    next
      case True
      let ?m = "mput (o_name ow) (podsIn m (o_name ow) @ [q]) m" and ?cs = "sinsert (o_name ow) cs"
      have g: "groupPods ps (?m, ?cs) = (m', cs')" using Cons.prems(1) Some True by (simp add: podsIn_def)
      have "podsIn ?m d = podsIn m d @ (if d = o_name ow then [q] else [])" for d by (auto simp: podsIn_def)
      then show ?thesis using Cons.prems(2,3) Some by (intro Cons.IH [OF g]) auto
    qed
  qed
qed

lemma filterOut_mem:
  assumes "sort_ok srt" and "filterOutPodAndCollaSet srt pods = (m, cs)"
    and "p \<in> set pods" and "GetControllerOf p = Some ow" and "o_kind ow = ''CollaSet''"
  shows "o_name ow \<in> set cs \<and> p \<in> set (podsIn m (o_name ow))"
proof -
  obtain m1 cs1 where g: "groupPods pods ([], []) = (m1, cs1)" by fastforce
  with assms have m: "m = map (\<lambda>(k, ps). (k, srt (\<lambda>a b. p_name a < p_name b) ps)) m1" "cs = cs1"
    by (simp_all add: filterOutPodAndCollaSet_def)
  have "set (podsIn m c) = set (podsIn m1 c)" for c
    using sort_set [OF assms(1)] by (simp add: m podsIn_def map_of_map [where f = "srt _"] split: option.split)
  with groupPods_mem [OF g, of p "o_name ow"] assms m show ?thesis by (auto simp: podsIn_def)
qed

subsection \<open>The server\<close>

definition takesPod :: "dapi \<Rightarrow> pdeco \<Rightarrow> pod \<Rightarrow> bool" where
  "takesPod D pd p \<longleftrightarrow> p_ns p = dc_ns pd \<and> \<not> IsPodInactive p \<and> \<not> p_deleting p
     \<and> (case dc_selector pd of None \<Rightarrow> True | Some x \<Rightarrow> (case da_sel D x of Inl _ \<Rightarrow> True | Inr f \<Rightarrow> f (p_labels p)))"

locale deco_server =
  upd: object_server "dk_update C" "getDeco C" "dk_retry C" decos pdKey "\<lambda>rv q. q\<lparr>dc_rv := rv\<rparr>" +
  stat: object_server "dk_status C" "getDeco C" "dk_retry C" decos pdKey "\<lambda>rv q. q\<lparr>dc_rv := rv\<rparr>"
  for C :: "'w dclient" and decos :: "'w \<Rightarrow> string \<Rightarrow> pdeco option" and pods :: "'w \<Rightarrow> pod set" +
  assumes get_deco: "dk_get C w ns n = Inr pd \<Longrightarrow> decos w (pdKey pd) = Some pd \<and> dc_ns pd = ns \<and> dc_name pd = n"
    and list_pods: "dk_pods C w ns f = Inr ps \<Longrightarrow>
      set ps = {p \<in> pods w. p_ns p = ns \<and> (case f of None \<Rightarrow> True | Some g \<Rightarrow> g (p_labels p))}"
    and revisions_frame: "dk_revisions C pd w = (xr, w') \<Longrightarrow> decos w' = decos w \<and> pods w' = pods w"
    and update_pods: "dk_update C pd w = (x, w') \<Longrightarrow> pods w' = pods w"
    and range_set: "set (dk_range C xs) = set xs"
    and sorts: "sort_ok (dk_sort C)" "sort_ok (dk_sortInfo C)"
begin

lemma selected:
  assumes "selectedPods D C w pd = Inr ps"
  shows "set ps = {p \<in> pods w. takesPod D pd p}"
proof -
  let ?f = "case dc_selector pd of None \<Rightarrow> None | Some x \<Rightarrow> (case da_sel D x of Inl _ \<Rightarrow> None | Inr f \<Rightarrow> Some f)"
  have f: "(case ?f of None \<Rightarrow> True | Some g \<Rightarrow> g ls)
      = (case dc_selector pd of None \<Rightarrow> True | Some x \<Rightarrow> (case da_sel D x of Inl _ \<Rightarrow> True | Inr f \<Rightarrow> f ls))" for ls
    by (simp split: option.split sum.split)
  obtain qs where q: "dk_pods C w (dc_ns pd) ?f = Inr qs" "ps = filter (\<lambda>p. \<not> (IsPodInactive p \<or> p_deleting p)) qs"
    using assms by (cases "dk_pods C w (dc_ns pd) ?f") (auto simp: selectedPods_def)
  from list_pods [OF q(1)] show ?thesis unfolding f by (auto simp: q(2) takesPod_def)
qed

lemma putDeco_effect:
  assumes "putDeco C pd w = (e, pd', w')"
  shows "pods w' = pods w \<and> (decos w' = decos w \<and> pd' = pd
    \<or> (\<exists>rv. pd' = pd\<lparr>dc_rv := rv\<rparr>) \<and> decos w' = (decos w)(pdKey pd \<mapsto> pd'))"
proof -
  obtain x w1 where u: "dk_update C pd w = (x, w1)" by fastforce
  from update_pods [OF u] have p: "pods w1 = pods w" .
  show ?thesis
  proof (cases x)
    case (Inl e0)
    with upd.put_err [OF u [unfolded Inl]] u p assms show ?thesis by (auto simp: putDeco_def)
  next
    case (Inr q)
    with upd.put_ok [OF u [unfolded Inr]] u p assms show ?thesis by (auto simp: putDeco_def)
  qed
qed

lemma reconcile_deleted:
  assumes "ReconcileDeco A D C now ns n s = (res, s')" and "decos (dt_w s) k = Some pd" and "dc_deleting pd"
    and "decos (dt_w s') k \<noteq> Some pd" and "k = pdKey pd" and "dc_ns pd = ns" and "dc_name pd = n"
  shows "\<forall>p \<in> pods (dt_w s'). p_ns p = ns \<longrightarrow> CurrentRevision D p n = None"
proof -
  obtain pd0 where g: "dk_get C (dt_w s) ns n = Inr pd0" using assms(1,2,4)
    by (auto simp: ReconcileDeco_def split: sum.splits gerr.splits)
  with get_deco [OF g] assms(2,5-7) have pd0: "pd0 = pd" by (auto simp: pdKey_def split: if_splits)
  have r: "deleteDeco D C pd s = (res, s')" using assms(1-4) g pd0
    by (auto simp: ReconcileDeco_def split: sum.splits bool.splits)
  then have esc: "shouldEscape D C pd (dt_w s)" using assms(2,4)
    by (auto simp: deleteDeco_def Let_def split: if_splits)
  obtain e q w1 where c: "clearProtection C pd (dt_w s) = (e, q, w1)" by (rule prod_cases3)
  from r esc c have w1: "dt_w s' = w1" by (cases e) (auto simp: deleteDeco_def Let_def)
  have "pods w1 = pods (dt_w s)"
    using c putDeco_effect by (auto simp: clearProtection_def split: if_splits)
  moreover have "\<forall>p \<in> pods (dt_w s). p_ns p = ns \<longrightarrow> CurrentRevision D p n = None"
    using esc assms(6,7) by (auto simp: shouldEscape_def CurrentRevision_def mhas_None dest!: list_pods split: sum.splits)
  ultimately show ?thesis by (simp add: w1)
qed

lemma updateDecoStatus_effect:
  assumes "updateDecoStatus C now pd st s = (e, pd', s')"
  shows "pdKey pd' = pdKey pd \<and> (decos (dt_w s') = decos (dt_w s)
    \<or> dc_status pd' = st \<and> decos (dt_w s') = (decos (dt_w s))(pdKey pd \<mapsto> pd'))"
proof (cases "dc_status pd = st")
  case False
  obtain e' q w1 where x: "dk_retry C (finalizerTry (dk_status C) (getDeco C) (\<lambda>q. q\<lparr>dc_status := st\<rparr>)) (pd, dt_w s) = (e', q, w1)"
    by (rule prod_cases3)
  have key: "pdKey (q\<lparr>dc_status := st\<rparr>) = pdKey q" for q by (simp add: pdKey_def)
  from stat.finalizer_effect [of "\<lambda>q. q\<lparr>dc_status := st\<rparr>", OF key x] False x assms show ?thesis
    by (cases e') (auto simp: updateDecoStatus_def Let_def)
qed (use assms in \<open>auto simp: updateDecoStatus_def\<close>)

lemma reconcile_moved:
  assumes "ReconcileDeco A D C now ns n s = (res, s')" and "decos (dt_w s) k = Some pd" and "decos (dt_w s') k = Some pd'"
    and "ds_current (dc_status pd') \<noteq> ds_current (dc_status pd)" and "k = pdKey pd" and "dc_ns pd = ns" and "dc_name pd = n"
  shows "\<exists>w. ds_current (dc_status pd') = ds_updated (dc_status pd') \<and> pods w = pods (dt_w s)
    \<and> (\<forall>p \<in> pods w. \<forall>ow. takesPod D pd p \<and> GetControllerOf p = Some ow \<and> o_kind ow = ''CollaSet''
         \<longrightarrow> CurrentRevision D p n = Some (ds_current (dc_status pd'))
           \<and> (\<forall>x. sc_cls (dk_read C) w ns (o_name ow) = Inr x \<longrightarrow> co_replicas x = Some (co_curReplicas x)))"
proof -
  have ne: "decos (dt_w s') k \<noteq> decos (dt_w s) k" using assms(2-4) by auto
  then obtain pd0 where g: "dk_get C (dt_w s) ns n = Inr pd0" using assms(1)
    by (auto simp: ReconcileDeco_def split: sum.splits gerr.splits)
  with get_deco [OF g] assms(2,5-7) have pd0: "pd0 = pd" by (auto simp: pdKey_def split: if_splits)
  have live: "(if dc_deleting pd then deleteDeco D C pd s else liveDeco A D C now pd s) = (res, s')" using assms(1) g ne
    by (auto simp: ReconcileDeco_def pd0 split: sum.splits bool.splits)
  have nd: "\<not> dc_deleting pd"
  proof
    assume "dc_deleting pd"
    with live have d: "deleteDeco D C pd s = (res, s')" by simp
    obtain e q w1 where c: "clearProtection C pd (dt_w s) = (e, q, w1)" by (rule prod_cases3)
    have "decos w1 k = decos (dt_w s) k \<or> (\<exists>q. decos w1 k = Some q \<and> dc_status q = dc_status pd)"
      using c assms(5) by (auto simp: clearProtection_def pdKey_def split: if_splits dest!: putDeco_effect)
    with c d assms(2-4) show False by (auto simp: deleteDeco_def Let_def split: if_splits option.splits)
  qed
  with live have l: "liveDeco A D C now pd s = (res, s')" by simp
  obtain e1 pd1 w1 where p: "protectPD C pd (dt_w s) = (e1, pd1, w1)" by (rule prod_cases3)
  have w1: "pods w1 = pods (dt_w s)" "\<exists>q. decos w1 k = Some q \<and> dc_status q = dc_status pd"
    "pdKey pd1 = k" "dc_status pd1 = dc_status pd" "takesPod D pd1 = takesPod D pd" "dc_name pd1 = n" "dc_ns pd1 = ns"
    using p assms(2,5-7) by (auto simp: protectPD_def pdKey_def takesPod_def fun_eq_iff split: if_splits dest!: putDeco_effect)
  have e1: "e1 = None" using l p w1 assms(3,4) by (cases e1) (auto simp: liveDeco_def)
  obtain xr w2 where r: "dk_revisions C pd1 w1 = (xr, w2)" by fastforce
  from revisions_frame [OF r] have w2: "decos w2 = decos w1" "pods w2 = pods w1" by auto
  have "\<not> is_err xr" using l p e1 r w1 w2 assms(3,4) by (cases xr) (auto simp: liveDeco_def)
  then obtain u col where xr: "xr = Inr (u, col)" by (cases xr) auto
  have "\<not> is_err (selectedPods D C w2 pd1)" using l p e1 r w1 w2 xr assms(3,4)
    by (cases "selectedPods D C w2 pd1") (auto simp: liveDeco_def)
  then obtain ps where ps: "selectedPods D C w2 pd1 = Inr ps" by (cases "selectedPods D C w2 pd1") auto
  obtain m cs where f: "filterOutPodAndCollaSet (dk_sort C) ps = (m, cs)" by fastforce
  let ?st = "\<lparr>ds_observed = dc_generation pd1, ds_current = ds_current (dc_status pd1), ds_updated = u,
     ds_matched = 0, ds_updatedPods = 0, ds_ready = 0, ds_available = 0, ds_injected = 0, ds_collision = col, ds_details = []\<rparr>"
  have "\<not> is_err (calculateDecoStatus A D C w2 pd1 ?st m cs)" using l p e1 r w1 w2 xr ps f assms(3,4)
    by (cases "calculateDecoStatus A D C w2 pd1 ?st m cs") (auto simp: liveDeco_def)
  then obtain st where st: "calculateDecoStatus A D C w2 pd1 ?st m cs = Inr st"
    by (cases "calculateDecoStatus A D C w2 pd1 ?st m cs") auto
  obtain e2 pd2 s2 where us: "updateDecoStatus C now pd1 st (s\<lparr>dt_w := w2\<rparr>) = (e2, pd2, s2)" by (rule prod_cases3)
  have s2: "dt_w s' = dt_w s2" using l p e1 r xr ps f st us
    by (cases e2) (auto simp: liveDeco_def split: prod.splits option.splits)
  from updateDecoStatus_effect [OF us] w1(2,3) w2 s2 assms(3,4)
  have pd': "dc_status pd' = st" by auto
  have moved: "ds_current st \<noteq> ds_current ?st" using assms(4) pd' w1(4) by simp
  note c = calculateDecoStatus_moved [OF st moved]
  show ?thesis
  proof (intro exI [of _ w2] conjI ballI allI impI)
    show "ds_current (dc_status pd') = ds_updated (dc_status pd')" using c pd' by simp
    show "pods w2 = pods (dt_w s)" using w1 w2 by simp
    fix q ow assume q: "q \<in> pods w2" "takesPod D pd q \<and> GetControllerOf q = Some ow \<and> o_kind ow = ''CollaSet''"
    then have "q \<in> set ps" using selected [OF ps] w1(5) by auto
    from filterOut_mem [OF sorts(1) f this] q have mem: "o_name ow \<in> set (dk_range C cs)" "q \<in> set (podsIn m (o_name ow))"
      by (auto simp: range_set)
    with c pd' w1(6) show "CurrentRevision D q n = Some (ds_current (dc_status pd'))" by auto
    fix x assume "sc_cls (dk_read C) w2 ns (o_name ow) = Inr x"
    with c mem w1(7) show "co_replicas x = Some (co_curReplicas x)" by (auto intro: allCollaSets_True)
  qed
qed

end

subsection \<open>What a reconciliation guarantees\<close>

text \<open>C20: A reconciliation of a deleted decoration leaves it as it is, finalizer included, unless no pod of its namespace
  carries the label of the decoration.\<close>

theorem decoration_waits_for_escape:
  assumes "deco_server C decos pods" and "ReconcileDeco A D C now (dc_ns pd) (dc_name pd) s = (res, s')"
    and "decos (dt_w s) (pdKey pd) = Some pd" and "dc_deleting pd" and "decos (dt_w s') (pdKey pd) \<noteq> Some pd"
  shows "\<forall>p \<in> pods (dt_w s'). p_ns p = dc_ns pd \<longrightarrow> CurrentRevision D p (dc_name pd) = None"
  by (rule deco_server.reconcile_deleted [OF assms(1-5) refl refl refl])

text \<open>C19: A reconciliation changes the current revision of a decoration only to the updated one, and only when every live pod
  that the decoration selects and a CollaSet controls carries that revision, and the CollaSets of these pods that
  still exist have the replicas they ask for.\<close>

theorem current_revision_moves_when_done:
  assumes "deco_server C decos pods" and "ReconcileDeco A D C now (dc_ns pd) (dc_name pd) s = (res, s')"
    and "decos (dt_w s) (pdKey pd) = Some pd" and "decos (dt_w s') (pdKey pd) = Some pd'"
    and "ds_current (dc_status pd') \<noteq> ds_current (dc_status pd)"
  shows "\<exists>w. ds_current (dc_status pd') = ds_updated (dc_status pd') \<and> pods w = pods (dt_w s)
    \<and> (\<forall>p \<in> pods w. \<forall>ow. takesPod D pd p \<and> GetControllerOf p = Some ow \<and> o_kind ow = ''CollaSet''
         \<longrightarrow> CurrentRevision D p (dc_name pd) = Some (ds_current (dc_status pd'))
           \<and> (\<forall>x. sc_cls (dk_read C) w (dc_ns pd) (o_name ow) = Inr x \<longrightarrow> co_replicas x = Some (co_curReplicas x)))"
  by (rule deco_server.reconcile_moved [OF assms refl refl refl])

end
