(* ===== verification/DecorationPatch.thy ===== *)
theory DecorationPatch
  imports Decoration OpsCore
begin

text \<open>
  How the templates of decorations change a pod: \<^verbatim>\<open>utils/poddecoration/patch.go\<close> and
  \<^verbatim>\<open>utils/poddecoration/patch/*.go\<close> below \<^verbatim>\<open>pkg/controllers\<close>.

  The override of a template's affinity is a pointer that the pod then shares, and later patches
  write through it; the affinity objects live in a store, a list indexed by address.  Slices are
  values.  The JSON merge patch (\<open>pe_merge\<close>) and the order in which Go visits a map (\<open>pe_order\<close>, on
  its keys) are parameters.
\<close>

record patchEnv =
  pe_merge :: "string \<Rightarrow> string \<Rightarrow> gerr + string"
  pe_order :: "string list \<Rightarrow> string list"
  pe_sort :: "pdeco sorter"

subsection \<open>Metadata\<close>

fun retainLoop :: "string gomap \<Rightarrow> string gomap \<Rightarrow> string gomap" where
  "retainLoop [] m = m"
| "retainLoop ((k, v) # kvs) m = retainLoop kvs (if mhas m k then m else mput k v m)"

definition retainPatchMetadata :: "metaPatch \<Rightarrow> pod \<Rightarrow> pod" where
  "retainPatchMetadata t p =
     p\<lparr>p_annos := retainLoop (mp_annos t) (p_annos p), p_labels := retainLoop (mp_labels t) (p_labels p)\<rparr>"

definition overwritePatchMetadata :: "metaPatch \<Rightarrow> pod \<Rightarrow> pod" where
  "overwritePatchMetadata t p =
     p\<lparr>p_annos := mputs (mp_annos t) (p_annos p), p_labels := mputs (mp_labels t) (p_labels p)\<rparr>"

fun mergeLoop :: "(string \<Rightarrow> string \<Rightarrow> gerr + string) \<Rightarrow> string gomap \<Rightarrow> string gomap \<Rightarrow> gerr option \<times> string gomap" where
  "mergeLoop f [] m = (None, m)"
| "mergeLoop f ((k, v) # kvs) m =
     (if mgetd m k = [] then mergeLoop f kvs (mput k v m)
      else (case f (mgetd m k) v of
              Inl e \<Rightarrow> (Some e, m)
            | Inr v' \<Rightarrow> mergeLoop f kvs (mput k v' m)))"

definition mergePatchJsonMetadata :: "patchEnv \<Rightarrow> metaPatch \<Rightarrow> pod \<Rightarrow> gerr option \<times> pod" where
  "mergePatchJsonMetadata E t p =
     (case mergeLoop (pe_merge E) (mp_annos t) (p_annos p) of (e, m) \<Rightarrow> (e, p\<lparr>p_annos := m\<rparr>))"

fun PatchMetadata :: "patchEnv \<Rightarrow> metaPatch list \<Rightarrow> pod \<Rightarrow> gerr option \<times> pod" where
  "PatchMetadata E [] p = (None, p)"
| "PatchMetadata E (t # ts) p =
     (case mp_policy t of
        RetainMetadata \<Rightarrow> PatchMetadata E ts (retainPatchMetadata t p)
      | NoMetaPolicy \<Rightarrow> PatchMetadata E ts (retainPatchMetadata t p)
      | OverwriteMetadata \<Rightarrow> PatchMetadata E ts (overwritePatchMetadata t p)
      | MergePatchJsonMetadata \<Rightarrow>
          (case mergePatchJsonMetadata E t p of
             (Some e, p1) \<Rightarrow> (Some e, p1)
           | (None, p1) \<Rightarrow> PatchMetadata E ts p1)
      | OtherMetaPolicy \<Rightarrow> PatchMetadata E ts p)"

subsection \<open>Containers\<close>

fun initLoop :: "container list \<Rightarrow> sset \<Rightarrow> container list \<Rightarrow> container list" where
  "initLoop [] ex cs = cs"
| "initLoop (c # new) ex cs =
     (if k_name c \<in> set ex then initLoop new ex cs else initLoop new (sinsert (k_name c) ex) (cs @ [c]))"

definition AddInitContainers :: "container list \<Rightarrow> pod \<Rightarrow> pod" where
  "AddInitContainers new p =
     p\<lparr>p_initContainers := initLoop new (sinserts (map k_name (p_initContainers p)) []) (p_initContainers p)\<rparr>"

text \<open>The merges by name of variables and of mounts: the last index of a name in the original, which the
  elements added later do not change.\<close>

fun lastIndex :: "(string \<times> 'b) list \<Rightarrow> nat \<Rightarrow> nat gomap \<Rightarrow> nat gomap" where
  "lastIndex [] i m = m"
| "lastIndex ((n, x) # xs) i m = lastIndex xs (Suc i) (mput n i m)"

fun overwriteLoop :: "nat gomap \<Rightarrow> (string \<times> 'b) list \<Rightarrow> (string \<times> 'b) list \<Rightarrow> (string \<times> 'b) list" where
  "overwriteLoop m [] xs = xs"
| "overwriteLoop m ((n, x) # add) xs =
     (case mget m n of
        Some i \<Rightarrow> overwriteLoop m add (xs[i := (n, x)])
      | None \<Rightarrow> overwriteLoop m add (xs @ [(n, x)]))"

definition MergeEnvByOverwrite :: "(string \<times> string) list \<Rightarrow> (string \<times> string) list \<Rightarrow> (string \<times> string) list" where
  "MergeEnvByOverwrite original add = overwriteLoop (lastIndex original 0 []) add original"

definition MergeVolumeMountByOverwrite :: "(string \<times> string) list \<Rightarrow> (string \<times> string) list \<Rightarrow> (string \<times> string) list" where
  "MergeVolumeMountByOverwrite original add = overwriteLoop (lastIndex original 0 []) add original"

definition patchContainer :: "primaryPatch \<Rightarrow> container \<Rightarrow> container" where
  "patchContainer t c =
     (let c1 = (case pp_image t of None \<Rightarrow> c | Some i \<Rightarrow> if i \<noteq> k_image c then c\<lparr>k_image := i\<rparr> else c);
          c2 = (if pp_env t \<noteq> [] then c1\<lparr>k_env := MergeEnvByOverwrite (k_env c1) (pp_env t)\<rparr> else c1)
      in if pp_mounts t \<noteq> [] then c2\<lparr>k_mounts := MergeVolumeMountByOverwrite (k_mounts c2) (pp_mounts t)\<rparr> else c2)"

fun patchNamed :: "primaryPatch \<Rightarrow> container list \<Rightarrow> container list" where
  "patchNamed t [] = []"
| "patchNamed t (c # cs) = (if pp_name t = Some (k_name c) then patchContainer t c # cs else c # patchNamed t cs)"

definition primaryStep :: "primaryPatch \<Rightarrow> container list \<Rightarrow> gerr + container list" where
  "primaryStep t cs =
     (case pp_policy t of
        InjectByName \<Rightarrow> Inr (patchNamed t cs)
      | NoTargetPolicy \<Rightarrow> Inr (patchNamed t cs)
      | InjectAllContainers \<Rightarrow> Inr (map (patchContainer t) cs)
      | InjectFirstContainer \<Rightarrow>
          if cs = [] then Inl (Panic ''index out of range'') else Inr (cs[0 := patchContainer t (cs ! 0)])
      | InjectLastContainer \<Rightarrow>
          if cs = [] then Inl (Panic ''index out of range'')
          else Inr (cs[length cs - 1 := patchContainer t (cs ! (length cs - 1))])
      | OtherTargetPolicy \<Rightarrow> Inr cs)"

fun PrimaryContainerPatch :: "primaryPatch list \<Rightarrow> container list \<Rightarrow> gerr + container list" where
  "PrimaryContainerPatch [] cs = Inr cs"
| "PrimaryContainerPatch (t # ts) cs = rbind (primaryStep t cs) (PrimaryContainerPatch ts)"

definition ContainersPatch :: "containerPatch list \<Rightarrow> container list \<Rightarrow> container list" where
  "ContainersPatch ts cs =
     map cp_container (filter (\<lambda>t. cp_policy t = BeforePrimaryContainer) ts) @ cs
     @ map cp_container (filter (\<lambda>t. cp_policy t = AfterPrimaryContainer \<or> cp_policy t = NoInjectPolicy) ts)"

subsection \<open>Volumes, tolerations and affinity\<close>

fun byName :: "(string \<times> 'b) list \<Rightarrow> (string \<times> 'b) gomap \<Rightarrow> (string \<times> 'b) gomap" where
  "byName [] m = m"
| "byName ((n, x) # xs) m = byName xs (mput n (n, x) m)"

text \<open>The first element of the original with a name takes the last addition of that name.\<close>

fun replaceLoop :: "(string \<times> 'b) list \<Rightarrow> (string \<times> 'b) gomap \<Rightarrow> (string \<times> 'b) list \<times> (string \<times> 'b) gomap" where
  "replaceLoop [] m = ([], m)"
| "replaceLoop ((n, x) # xs) m =
     (case mget m n of
        None \<Rightarrow> (case replaceLoop xs m of (ys, m') \<Rightarrow> ((n, x) # ys, m'))
      | Some y \<Rightarrow> (case replaceLoop xs (mdel n m) of (ys, m') \<Rightarrow> (y # ys, m')))"

definition MergeWithOverwriteVolumes :: "(string \<times> vsource) list \<Rightarrow> (string \<times> vsource) list \<Rightarrow> (string \<times> vsource) list" where
  "MergeWithOverwriteVolumes original add =
     (case replaceLoop original (byName add []) of
        (xs, m) \<Rightarrow> xs @ concat (map (\<lambda>(n, _). case mget m n of None \<Rightarrow> [] | Some y \<Rightarrow> [y]) add))"

definition MergeWithOverwriteTolerations :: "(string list \<Rightarrow> string list) \<Rightarrow> (string \<times> string) list \<Rightarrow> (string \<times> string) list
    \<Rightarrow> (string \<times> string) list" where
  "MergeWithOverwriteTolerations ord original add =
     (case replaceLoop original (byName add []) of
        (xs, m) \<Rightarrow> xs @ map (\<lambda>n. the (mget m n)) (ord (map fst m)))"

definition PatchAffinity :: "affinityPatch \<Rightarrow> pod \<times> affinity list \<Rightarrow> pod \<times> affinity list" where
  "PatchAffinity a s =
     (let (p, h) = s;
          p1 = (if fa_override a \<noteq> None then p\<lparr>p_affinity := fa_override a\<rparr> else p)
      in if fa_terms a = [] then (p1, h)
         else (case p_affinity p1 of
                 None \<Rightarrow> (p1\<lparr>p_affinity := Some (length h)\<rparr>, h @ [\<lparr>af_required = Some (fa_terms a), af_rest = []\<rparr>])
               | Some k \<Rightarrow>
                   (p1, h[k := (h ! k)\<lparr>af_required :=
                      Some ((case af_required (h ! k) of None \<Rightarrow> [] | Some ts \<Rightarrow> ts) @ fa_terms a)\<rparr>])))"

subsection \<open>All of a decoration, all decorations\<close>

text \<open>An error of the metadata is returned after the other parts have been patched; a panic ends the call.\<close>

definition PatchPodDecoration :: "patchEnv \<Rightarrow> template \<Rightarrow> pod \<times> affinity list \<Rightarrow> gerr + gerr option \<times> pod \<times> affinity list" where
  "PatchPodDecoration E t s =
     (let (p, h) = s;
          (e, p1) = PatchMetadata E (te_meta t) p;
          p2 = AddInitContainers (te_init t) p1
      in rbind (PrimaryContainerPatch (te_primary t) (p_containers p2)) (\<lambda>cs.
           let p3 = p2\<lparr>p_containers := ContainersPatch (te_containers t) cs,
                       p_volumes := if te_volumes t = [] then p_volumes p2 else MergeWithOverwriteVolumes (p_volumes p2) (te_volumes t)\<rparr>;
               (p4, h4) = (case te_affinity t of None \<Rightarrow> (p3, h) | Some a \<Rightarrow> PatchAffinity a (p3, h))
           in Inr (e, p4\<lparr>p_tolerations := if te_tolerations t = [] then p_tolerations p4
                           else MergeWithOverwriteTolerations (pe_order E) (p_tolerations p4) (te_tolerations t)\<rparr>, h4)))"

definition joinErrs :: "gerr option \<Rightarrow> gerr option \<Rightarrow> gerr option" where
  "joinErrs a b =
     (case (a, b) of
        (None, None) \<Rightarrow> None
      | (Some x, None) \<Rightarrow> Some (Err (errText x))
      | (None, Some y) \<Rightarrow> Some (Err (errText y))
      | (Some x, Some y) \<Rightarrow> Some (Err (errText x @ [CHR 0x0A] @ errText y)))"

fun patchEach :: "patchEnv \<Rightarrow> pdeco list \<Rightarrow> gerr option \<times> pod \<times> affinity list \<Rightarrow> gerr + gerr option \<times> pod \<times> affinity list" where
  "patchEach E [] acc = Inr acc"
| "patchEach E (pd # pds) (e, s) =
     rbind (PatchPodDecoration E (dc_template pd) s) (\<lambda>(e1, s1).
       patchEach E pds (if e1 = None then e else joinErrs e e1, s1))"

definition addPodDecorationOwnerRef :: "pdeco list \<Rightarrow> pod \<Rightarrow> pod" where
  "addPodDecorationOwnerRef pds p =
     p\<lparr>p_owners := p_owners p @ map (\<lambda>pd. \<lparr>o_kind = dc_kind pd, o_api = dc_api pd, o_name = dc_name pd,
        o_uid = dc_uid pd, o_ctrl = False\<rparr>) pds\<rparr>"

definition PatchListOfDecorations :: "patchEnv \<Rightarrow> dapi \<Rightarrow> pdeco gomap \<Rightarrow> pod \<times> affinity list
    \<Rightarrow> gerr + gerr option \<times> pod \<times> affinity list" where
  "PatchListOfDecorations E D pds s =
     (let sorted = pe_sort E lessPD (map snd pds) in
      rbind (patchEach E sorted (None, s)) (\<lambda>(e, p, h).
        Inr (e, addPodDecorationOwnerRef sorted (SetDecorationInfo D pds p), h)))"

end
