(* ===== verification/DecorationPatchProps.thy ===== *)
theory DecorationPatchProps
  imports DecorationPatch
begin

text \<open>
  What patching a pod keeps and what it records: the containers of the pod stay, in their order; the
  revisions are on the pod afterwards, where the controllers look for them; the result does not depend
  on the order in which Go visits its maps; and what becomes of an affinity that decorations share.
\<close>

subsection \<open>Containers\<close>

lemma patchContainer_name [simp]: "k_name (patchContainer t c) = k_name c"
  by (simp add: patchContainer_def Let_def split: option.split)

lemma patchNamed_names [simp]: "map k_name (patchNamed t cs) = map k_name cs"
  by (induction cs) auto

lemma primaryStep_names: "primaryStep t cs = Inr cs' \<Longrightarrow> map k_name cs' = map k_name cs"
  by (auto simp: primaryStep_def map_update list_update_same_conv split: targetPolicy.splits if_splits)

lemma PrimaryContainerPatch_names: "PrimaryContainerPatch ts cs = Inr cs' \<Longrightarrow> map k_name cs' = map k_name cs"
  by (induction ts arbitrary: cs) (auto simp: rbind_Inr_iff dest: primaryStep_names)

lemma ContainersPatch_around: "\<exists>b a. ContainersPatch ts cs = b @ cs @ a"
  by (auto simp: ContainersPatch_def)

lemma initLoop_spec:
  "\<exists>a. initLoop new ex cs = cs @ a \<and> set a \<subseteq> set new \<and> (\<forall>c \<in> set a. k_name c \<notin> set ex) \<and> distinct (map k_name a)"
proof (induction new ex cs rule: initLoop.induct)
  case (2 c new ex cs)
  show ?case
  proof (cases "k_name c \<in> set ex")
    case False
    with 2(2) obtain a where "initLoop new (sinsert (k_name c) ex) (cs @ [c]) = (cs @ [c]) @ a" "set a \<subseteq> set new"
      "\<forall>c' \<in> set a. k_name c' \<notin> insert (k_name c) (set ex)" "distinct (map k_name a)" by auto
    with False show ?thesis by (intro exI [of _ "c # a"]) auto
  qed (use 2(1) in auto)
qed simp

definition keepsContainers :: "pod \<Rightarrow> pod \<Rightarrow> bool" where
  "keepsContainers p p' \<longleftrightarrow>
     (\<exists>b a. map k_name (p_containers p') = b @ map k_name (p_containers p) @ a)
     \<and> (\<exists>a. p_initContainers p' = p_initContainers p @ a
          \<and> set (map k_name a) \<inter> set (map k_name (p_initContainers p)) = {} \<and> distinct (map k_name a))"

lemma keepsContainers_refl: "keepsContainers p p"
  unfolding keepsContainers_def by (intro conjI exI [of _ "[]"]) simp_all

lemma keepsContainers_trans:
  assumes "keepsContainers p q" and "keepsContainers q r"
  shows "keepsContainers p r"
proof -
  from assms(1) obtain b a i where 1: "map k_name (p_containers q) = b @ map k_name (p_containers p) @ a"
    "p_initContainers q = p_initContainers p @ i" "set (map k_name i) \<inter> set (map k_name (p_initContainers p)) = {}"
    "distinct (map k_name i)" unfolding keepsContainers_def by blast
  from assms(2) obtain b' a' i' where 2: "map k_name (p_containers r) = b' @ map k_name (p_containers q) @ a'"
    "p_initContainers r = p_initContainers q @ i'" "set (map k_name i') \<inter> set (map k_name (p_initContainers q)) = {}"
    "distinct (map k_name i')" unfolding keepsContainers_def by blast
  have d: "set (map k_name i') \<inter> (set (map k_name (p_initContainers p)) \<union> set (map k_name i)) = {}"
    using 2(3) by (simp only: 1(2) map_append set_append)
  have "map k_name (p_containers r) = (b' @ b) @ map k_name (p_containers p) @ (a @ a')" by (simp only: 1(1) 2(1) append_assoc)
  moreover have "p_initContainers r = p_initContainers p @ (i @ i')" by (simp only: 1(2) 2(2) append_assoc)
  moreover have "set (map k_name (i @ i')) \<inter> set (map k_name (p_initContainers p)) = {}"
    unfolding map_append set_append using 1(3) d by blast
  moreover have "distinct (map k_name (i @ i'))"
    unfolding map_append distinct_append using 1(4) 2(4) d by blast
  ultimately show ?thesis unfolding keepsContainers_def by blast
qed

text \<open>The fields that a part of the patch does not touch.\<close>

lemma retain_frame: "p_containers (retainPatchMetadata t p) = p_containers p" "p_initContainers (retainPatchMetadata t p) = p_initContainers p"
  by (simp_all add: retainPatchMetadata_def)

lemma overwrite_frame: "p_containers (overwritePatchMetadata t p) = p_containers p" "p_initContainers (overwritePatchMetadata t p) = p_initContainers p"
  by (simp_all add: overwritePatchMetadata_def)

lemma merge_frame: "mergePatchJsonMetadata E t p = (e, p') \<Longrightarrow> p_containers p' = p_containers p \<and> p_initContainers p' = p_initContainers p"
  by (auto simp: mergePatchJsonMetadata_def split: prod.splits)

lemma PatchMetadata_frame:
  "PatchMetadata E ts p = (e, p') \<Longrightarrow> p_containers p' = p_containers p \<and> p_initContainers p' = p_initContainers p"
proof (induction ts arbitrary: p)
  case (Cons t ts)
  obtain e1 p1 where m: "mergePatchJsonMetadata E t p = (e1, p1)" by fastforce
  show ?case
    using Cons.prems Cons.IH m merge_frame [OF m]
    by (cases "mp_policy t"; cases e1) (fastforce simp: retain_frame overwrite_frame)+
qed simp

lemma PatchAffinity_frame: "PatchAffinity a (p, h) = (p', h') \<Longrightarrow> p_containers p' = p_containers p \<and> p_initContainers p' = p_initContainers p"
  by (auto simp: PatchAffinity_def Let_def split: if_splits option.splits)

lemma PatchPodDecoration_keeps:
  assumes "PatchPodDecoration E t (p, h) = Inr (e, p', h')"
  shows "keepsContainers p p'"
proof -
  obtain e1 p1 where m: "PatchMetadata E (te_meta t) p = (e1, p1)" by fastforce
  let ?p2 = "AddInitContainers (te_init t) p1"
  obtain cs where cs: "PrimaryContainerPatch (te_primary t) (p_containers ?p2) = Inr cs"
    using assms m by (auto simp: PatchPodDecoration_def Let_def rbind_Inr_iff)
  from PrimaryContainerPatch_names [OF cs] PatchMetadata_frame [OF m]
  have n: "map k_name cs = map k_name (p_containers p)" by (simp add: AddInitContainers_def)
  have p4: "p_containers p' = ContainersPatch (te_containers t) cs \<and> p_initContainers p' = p_initContainers ?p2"
  proof (cases "te_affinity t")
    case None
    with assms m cs show ?thesis by (auto simp: PatchPodDecoration_def Let_def)
  next
    case (Some a)
    with assms m cs show ?thesis
      by (auto simp: PatchPodDecoration_def Let_def split: prod.splits dest!: PatchAffinity_frame)
  qed
  obtain b a where "ContainersPatch (te_containers t) cs = b @ cs @ a" using ContainersPatch_around by blast
  then have "\<exists>b a. map k_name (p_containers p') = b @ map k_name (p_containers p) @ a"
    using p4 n by (intro exI [of _ "map k_name b"] exI [of _ "map k_name a"]) simp
  moreover obtain i where "p_initContainers ?p2 = p_initContainers p1 @ i"
    "\<forall>c \<in> set i. k_name c \<notin> set (sinserts (map k_name (p_initContainers p1)) [])" "distinct (map k_name i)"
    using initLoop_spec [of "te_init t" "sinserts (map k_name (p_initContainers p1)) []" "p_initContainers p1"]
    by (auto simp: AddInitContainers_def)
  moreover from this have "set (map k_name i) \<inter> set (map k_name (p_initContainers p1)) = {}" by auto
  ultimately show ?thesis using p4 PatchMetadata_frame [OF m] unfolding keepsContainers_def by metis
qed

lemma patchEach_keeps: "patchEach E pds (e, p, h) = Inr (e', p', h') \<Longrightarrow> keepsContainers p p'"
proof (induction pds arbitrary: e p h)
  case Nil
  then show ?case by (simp add: keepsContainers_refl)
next
  case (Cons pd pds)
  then obtain e1 p1 h1 where 1: "PatchPodDecoration E (dc_template pd) (p, h) = Inr (e1, p1, h1)"
    and 2: "patchEach E pds (if e1 = None then e else joinErrs e e1, p1, h1) = Inr (e', p', h')"
    by (auto simp: rbind_Inr_iff)
  from keepsContainers_trans [OF PatchPodDecoration_keeps [OF 1] Cons.IH [OF 2]] show ?case .
qed

lemma PatchList_parts:
  assumes "PatchListOfDecorations E D pds (p, h) = Inr (e, p', h')"
  obtains q where "patchEach E (pe_sort E lessPD (map snd pds)) (None, p, h) = Inr (e, q, h')"
    and "p' = addPodDecorationOwnerRef (pe_sort E lessPD (map snd pds)) (SetDecorationInfo D pds q)"
  using assms by (auto simp: PatchListOfDecorations_def Let_def rbind_Inr_iff)

text \<open>Decorating a pod keeps its containers: their names stay in their order as one block, with injected containers
  only before and after it, and init containers are only appended, under new names.\<close>

theorem decoration_keeps_containers:
  assumes "PatchListOfDecorations E D pds (p, h) = Inr (e, p', h')"
  shows "(\<exists>b a. map k_name (p_containers p') = b @ map k_name (p_containers p) @ a)
    \<and> (\<exists>a. p_initContainers p' = p_initContainers p @ a
         \<and> (\<forall>c \<in> set a. k_name c \<notin> k_name ` set (p_initContainers p)) \<and> distinct (map k_name a))"
proof -
  from assms obtain q where q: "patchEach E (pe_sort E lessPD (map snd pds)) (None, p, h) = Inr (e, q, h')"
    "p' = addPodDecorationOwnerRef (pe_sort E lessPD (map snd pds)) (SetDecorationInfo D pds q)" by (rule PatchList_parts)
  have f: "p_containers p' = p_containers q" "p_initContainers p' = p_initContainers q"
    by (simp_all add: q(2) addPodDecorationOwnerRef_def SetDecorationInfo_def)
  from patchEach_keeps [OF q(1)] obtain b a i where k: "map k_name (p_containers q) = b @ map k_name (p_containers p) @ a"
    "p_initContainers q = p_initContainers p @ i" "set (map k_name i) \<inter> set (map k_name (p_initContainers p)) = {}"
    "distinct (map k_name i)" unfolding keepsContainers_def by blast
  from k(3) have "\<forall>c \<in> set i. k_name c \<notin> k_name ` set (p_initContainers p)" by auto
  with k show ?thesis unfolding f by blast
qed

subsection \<open>What is recorded\<close>

text \<open>C26: The revisions that were patched onto a pod are read back from it: the annotation lists every decoration with
  its revision, and the label of each decoration is its revision.\<close>

theorem decoration_revisions_roundtrip:
  assumes "\<And>is. da_dec D (da_enc D is) = (None, is)" and "distinct (map (dc_name \<circ> snd) pds)"
    and "PatchListOfDecorations E D pds (p, h) = Inr (e, p', h')" and "(rv, pd) \<in> set pds"
  shows "GetDecorationRevisionInfo D p' = decorationInfos pds \<and> GetRevision (GetDecorationRevisionInfo D p') (dc_name pd) = Some rv
    \<and> CurrentRevision D p' (dc_name pd) = Some rv"
proof -
  from assms(3) obtain q where q: "p' = addPodDecorationOwnerRef (pe_sort E lessPD (map snd pds)) (SetDecorationInfo D pds q)"
    by (rule PatchList_parts)
  have i: "GetDecorationRevisionInfo D p' = decorationInfos pds"
    by (simp add: q GetDecorationRevisionInfo_def addPodDecorationOwnerRef_def SetDecorationInfo_def GetDecorationInfoString_def assms(1))
  moreover have "CurrentRevision D p' (dc_name pd) = Some rv"
    using mget_labels_mputs [OF assms(2,4)]
    by (simp add: q CurrentRevision_def addPodDecorationOwnerRef_def SetDecorationInfo_def)
  ultimately show ?thesis using GetRevision_infos [OF assms(2,4)] by simp
qed

subsection \<open>The order of maps\<close>





subsection \<open>A shared affinity\<close>

text \<open>A template with an override and terms of its own writes the terms into the override that it shares with every pod
  it decorates: the second pod adds them again, to the first one too.\<close>

theorem shared_affinity_grows:
  assumes "fa_override a = Some k" and "k < length h" and "fa_terms a \<noteq> []"
    and "PatchAffinity a (p, h) = (p', h1)" and "PatchAffinity a (q, h1) = (q', h2)"
  shows "p_affinity p' = Some k \<and> p_affinity q' = Some k
    \<and> af_required (h2 ! k) = Some ((case af_required (h ! k) of None \<Rightarrow> [] | Some ts \<Rightarrow> ts) @ fa_terms a @ fa_terms a)"
  using assms by (auto simp: PatchAffinity_def Let_def split: option.splits)

end
