(* ===== verification/PodStrategyProps.thy ===== *)
theory PodStrategyProps
  imports PodStrategy
begin

text \<open>
  Properties of the strategy manager: the comparison of pods is a lexicographic order, the pods
  that keep the old revision are the last ones of it and as many as the partition says, whatever
  the order in which Go visits its maps; what a failed update leaves behind; and when the
  synchronisation at the start ends.
\<close>

subsection \<open>The order of pods\<close>

definition timeLess :: "int \<Rightarrow> int \<Rightarrow> bool" where
  "timeLess t1 t2 \<longleftrightarrow> t1 \<noteq> t2 \<and> afterOrZero t1 t2"

definition readyKey :: "podInfo \<Rightarrow> int" where
  "readyKey i = (if pt_ready (pi_state i) then pt_readyTime (pi_state i) else 0)"

text \<open>The criteria of \<open>Compare\<close> in their order, as its comments list them.\<close>

definition criteria :: "(podInfo \<Rightarrow> podInfo \<Rightarrow> bool) list" where
  "criteria =
     [\<lambda>l r. pt_clsUpdated (pi_state l) \<and> \<not> pt_clsUpdated (pi_state r),
      \<lambda>l r. pi_rev r < pi_rev l,
      \<lambda>l r. \<not> pt_sa (pi_state l) \<and> pt_sa (pi_state r),
      \<lambda>l r. pt_node (pi_state l) = [] \<and> pt_node (pi_state r) \<noteq> [],
      \<lambda>l r. phaseRank (pt_phase (pi_state l)) < phaseRank (pt_phase (pi_state r)),
      \<lambda>l r. \<not> pt_ready (pi_state l) \<and> pt_ready (pi_state r),
      \<lambda>l r. timeLess (readyKey l) (readyKey r),
      \<lambda>l r. pt_restarts (pi_state r) < pt_restarts (pi_state l),
      \<lambda>l r. timeLess (pt_created (pi_state l)) (pt_created (pi_state r)),
      \<lambda>l r. pi_id l < pi_id r]"

lemma strict_weak_time: "strict_weak (\<lambda>a b. timeLess (f a) (f b))"
  by (rule strict_weakI) (auto simp: timeLess_def afterOrZero_def split: if_splits)

lemma criteria_strict_weak: "list_all strict_weak criteria"
  by (simp add: criteria_def strict_weak_key strict_weak_key_down strict_weak_flag strict_weak_noflag strict_weak_time)

lemma time_step:
  "(if x \<noteq> y then afterOrZero x y else b) = (if timeLess x y then True else if timeLess y x then False else b)"
  by (auto simp: timeLess_def afterOrZero_def)

lemma ready_step:
  "pt_ready (pi_state l) = pt_ready (pi_state r) \<Longrightarrow>
   (if pt_ready (pi_state l) \<and> pt_ready (pi_state r) \<and> pt_readyTime (pi_state l) \<noteq> pt_readyTime (pi_state r)
    then afterOrZero (pt_readyTime (pi_state l)) (pt_readyTime (pi_state r)) else b)
   = (if timeLess (readyKey l) (readyKey r) then True else if timeLess (readyKey r) (readyKey l) then False else b)"
  by (auto simp: timeLess_def afterOrZero_def readyKey_def)

lemma flag_step: "(if a \<noteq> b then a else c) = (if a \<and> \<not> b then True else if b \<and> \<not> a then False else c)"
  by auto

lemma flag_step_down: "(if a \<noteq> b then b else c) = (if \<not> a \<and> b then True else if \<not> b \<and> a then False else c)"
  by auto

lemma key_step: "(if x \<noteq> y then x < y else c) = (if x < y then True else if y < x then False else c)"
  for x y :: "'k::linorder"
  by auto

lemma key_step_down: "(if x \<noteq> y then x > y else c) = (if y < x then True else if x < y then False else c)"
  for x y :: "'k::linorder"
  by auto

lemma node_step:
  "(if x \<noteq> y \<and> (x = [] \<or> y = []) then x = [] else c)
   = (if x = [] \<and> y \<noteq> [] then True else if y = [] \<and> x \<noteq> [] then False else c)"
  by auto

lemma ready_chain:
  "(if a \<noteq> b then \<not> a else c) = (if \<not> a \<and> b then True else if \<not> b \<and> a then False else c)"
  by auto

lemma Compare_lexBy: "Compare l r = lexBy criteria l r"
proof -
  have "Compare l r = (let s = pi_state l; t = pi_state r in
      if pt_clsUpdated s \<noteq> pt_clsUpdated t then pt_clsUpdated s
      else if pi_rev l \<noteq> pi_rev r then pi_rev l > pi_rev r
      else if pt_sa s \<noteq> pt_sa t then pt_sa t
      else if pt_node s \<noteq> pt_node t \<and> (pt_node s = [] \<or> pt_node t = []) then pt_node s = []
      else if phaseRank (pt_phase s) \<noteq> phaseRank (pt_phase t) then phaseRank (pt_phase s) < phaseRank (pt_phase t)
      else if pt_ready s \<noteq> pt_ready t then \<not> pt_ready s
      else if timeLess (readyKey l) (readyKey r) then True
      else if timeLess (readyKey r) (readyKey l) then False
      else if pt_restarts s \<noteq> pt_restarts t then pt_restarts s > pt_restarts t
      else if pt_created s \<noteq> pt_created t then afterOrZero (pt_created s) (pt_created t)
      else pi_id l < pi_id r)"
    unfolding Compare_def Let_def
    by (intro if_cong refl ready_step) simp
  also have "\<dots> = lexBy criteria l r"
    unfolding criteria_def lexBy.simps Let_def
    by (subst flag_step, subst key_step_down, subst flag_step_down, subst node_step, subst key_step,
        subst ready_chain, subst key_step_down, subst time_step) auto
  finally show ?thesis .
qed

lemma podLess_lexBy: "podLess rv l r = lexBy ((\<lambda>l r. pi_rev l = rv \<and> \<not> pi_rev r = rv) # criteria) l r"
  by (simp add: podLess_def Compare_lexBy)

lemma podLess_strict_weak: "strict_weak (podLess rv)"
proof -
  have "podLess rv = lexBy ((\<lambda>l r. pi_rev l = rv \<and> \<not> pi_rev r = rv) # criteria)"
    by (intro ext) (rule podLess_lexBy)
  then show ?thesis
    using strict_weak_lexBy [of "(\<lambda>l r. pi_rev l = rv \<and> \<not> pi_rev r = rv) # criteria"] criteria_strict_weak
    by (simp add: strict_weak_flag del: lexBy.simps)
qed

text \<open>Pods with different instance ids are ordered.\<close>

lemma podLess_total: "pi_id l \<noteq> pi_id r \<Longrightarrow> podLess rv l r \<or> podLess rv r l"
  unfolding podLess_lexBy
  by (rule lexBy_total [where c = "\<lambda>l r. pi_id l < pi_id r"])
    (use criteria_strict_weak in \<open>auto simp: criteria_def strict_weak_flag\<close>)

subsection \<open>The managers\<close>

text \<open>The entries of a manager are filed under the names of their pods.\<close>

definition podsOk :: "podInfo gomap \<Rightarrow> bool" where
  "podsOk m \<longleftrightarrow> mwf m \<and> list_all (\<lambda>(n, i). pi_name i = n) m"

definition mgrsOk :: "stmgr \<Rightarrow> bool" where
  "mgrsOk s \<longleftrightarrow> list_all (\<lambda>(ns, ms). mwf ms \<and> list_all (\<lambda>(n, m). podsOk (mg_pods m)) ms) (sm_mgrs s)"

lemma set_mput: "x \<in> set (mput k v m) \<Longrightarrow> x = (k, v) \<or> x \<in> set m"
  by (induction m) (auto split: if_splits)

lemma set_mdel: "x \<in> set (mdel k m) \<Longrightarrow> x \<in> set m"
  by (auto simp: AList.delete_eq)

lemma podsOk_mput: "podsOk m \<Longrightarrow> pi_name i = n \<Longrightarrow> podsOk (mput n i m)"
  by (auto simp: podsOk_def list_all_iff dest!: set_mput)

lemma buildPodInfo_name: "buildPodInfo A D C w p pd g = (Inr i, g') \<Longrightarrow> pi_name i = p_name p"
  by (auto simp: buildPodInfo_def Let_def split: prod.splits sum.splits)

lemma activeLoop_ok: "activeLoop A D C w pd ps a = Inr a' \<Longrightarrow> podsOk (ua_pods a) \<Longrightarrow> podsOk (ua_pods a')"
  by (induction A D C w pd ps a rule: activeLoop.induct)
    (auto split: if_splits sum.splits prod.splits intro!: podsOk_mput dest!: buildPodInfo_name)

lemma oldLoop_ok:
  "oldLoop D C w pd is (a, marks) = (e, a', marks') \<Longrightarrow> list_all (\<lambda>(n, i). pi_name i = n) is
   \<Longrightarrow> podsOk (ua_pods a) \<Longrightarrow> podsOk (ua_pods a')"
proof (induction "is" arbitrary: a marks)
  case (Cons x xs)
  obtain n i where x: "x = (n, i)" by (cases x)
  from Cons.prems(2) have i: "pi_name (markDeleted i) = n" and xs: "list_all (\<lambda>(n, i). pi_name i = n) xs"
    by (auto simp: x markDeleted_def)
  show ?case
    using Cons.prems(1) Cons.IH [OF _ xs] Cons.prems(3) podsOk_mput [OF _ i]
    by (auto simp: x Let_def split: if_splits sum.splits bool.splits prod.splits gerr.splits)
qed simp

lemma podsOk_markAll: "podsOk m \<Longrightarrow> podsOk (markAll marks m)"
proof -
  assume a: "podsOk m"
  have "map fst (markAll marks m) = map fst m" by (simp add: markAll_def split_def comp_def)
  with a have "mwf (markAll marks m)" by (simp add: podsOk_def mwf_def)
  moreover from a have "list_all (\<lambda>(n, i). pi_name i = n) (markAll marks m)"
    by (auto simp: podsOk_def list_all_iff markAll_def markDeleted_def)
  ultimately show ?thesis by (simp add: podsOk_def)
qed

lemma updateSelectedPods_ok:
  assumes "podsOk (mg_pods m)"
  shows "podsOk (mg_pods (snd (updateSelectedPods srt A D C w pd pods m)))"
proof (cases "activeLoop A D C w pd pods \<lparr>ua_cls = [], ua_pods = [], ua_exist = [], ua_get = newGetter\<rparr>")
  case (Inl e)
  with assms show ?thesis by (simp add: updateSelectedPods_def)
next
  case (Inr a)
  have a: "podsOk (ua_pods a)" by (rule activeLoop_ok [OF Inr]) (simp add: podsOk_def)
  obtain e a1 marks where o: "oldLoop D C w pd (mg_pods m) (a, []) = (e, a1, marks)" by (rule prod_cases3)
  have "list_all (\<lambda>(n, i). pi_name i = n) (mg_pods m)" using assms by (simp add: podsOk_def)
  from oldLoop_ok [OF o this a] have "podsOk (ua_pods a1)" .
  with Inr o assms show ?thesis
    by (simp add: updateSelectedPods_def podsOk_markAll Let_def split: option.splits)
qed

lemma podsOk_new: "podsOk (mg_pods (newMgr pd))"
  by (simp add: newMgr_def podsOk_def)

lemma nsMgrs_ok:
  assumes "mgrsOk s"
  shows "mwf (nsMgrs s ns) \<and> list_all (\<lambda>(n, m). podsOk (mg_pods m)) (nsMgrs s ns)"
proof (cases "mget (sm_mgrs s) ns")
  case (Some ms)
  with assms mget_mem [OF Some] show ?thesis by (auto simp: mgrsOk_def list_all_iff nsMgrs_def)
qed (simp add: nsMgrs_def)

lemma podDecorationMgr_ok: "mgrsOk s \<Longrightarrow> podsOk (mg_pods (podDecorationMgr pd s))"
  using nsMgrs_ok [of s "dc_ns pd"]
  by (auto simp: podDecorationMgr_def podsOk_new list_all_iff dest!: mget_mem split: option.splits)

lemma mgrsOk_put:
  "mgrsOk s \<Longrightarrow> mwf ms \<Longrightarrow> list_all (\<lambda>(n, m). podsOk (mg_pods m)) ms
   \<Longrightarrow> mgrsOk (s\<lparr>sm_mgrs := mput ns ms (sm_mgrs s)\<rparr>)"
  by (auto simp: mgrsOk_def list_all_iff dest!: set_mput)

lemma setMgr_ok: "mgrsOk s \<Longrightarrow> podsOk (mg_pods m) \<Longrightarrow> mgrsOk (setMgr ns n m s)"
  using nsMgrs_ok [of s ns] unfolding setMgr_def
  by (intro mgrsOk_put) (auto simp: list_all_iff dest!: set_mput)

lemma mgrsOk_chans [simp]: "mgrsOk (s\<lparr>sm_chans := c\<rparr>) = mgrsOk s" "mgrsOk (s\<lparr>sm_synced := b\<rparr>) = mgrsOk s"
  by (simp_all add: mgrsOk_def)

lemma UpdateSelectedPods_ok: "mgrsOk s \<Longrightarrow> mgrsOk (snd (UpdateSelectedPods srt A D C w pd pods s))"
proof -
  assume a: "mgrsOk s"
  obtain e m where u: "updateSelectedPods srt A D C w pd pods (podDecorationMgr pd s) = (e, m)" by fastforce
  with updateSelectedPods_ok [OF podDecorationMgr_ok [OF a], of srt A D C w pd pods pd] have "podsOk (mg_pods m)" by simp
  with u a show ?thesis by (cases e) (simp_all add: UpdateSelectedPods_def setMgr_ok)
qed

lemma DeletePodDecoration_ok: "mgrsOk s \<Longrightarrow> mgrsOk (DeletePodDecoration pd s)"
proof -
  assume a: "mgrsOk s"
  have "mgrsOk (s\<lparr>sm_mgrs := mput (dc_ns pd) (mdel (dc_name pd) (nsMgrs s (dc_ns pd))) (sm_mgrs s)\<rparr>)"
    using nsMgrs_ok [OF a, of "dc_ns pd"]
    by (intro mgrsOk_put a) (auto simp: list_all_iff dest!: set_mdel)
  then have "mgrsOk (s\<lparr>sm_mgrs := mput (dc_ns pd) (mdel (dc_name pd) (nsMgrs s (dc_ns pd))) (sm_mgrs s), sm_chans := c\<rparr>)" for c
    by (simp add: mgrsOk_def)
  with a show ?thesis by (simp add: DeletePodDecoration_def split: option.splits)
qed

text \<open>The states that the methods of the manager lead to, in any order.\<close>

inductive strategyState :: "podInfo sorter \<Rightarrow> api \<Rightarrow> dapi \<Rightarrow> 'w sclient \<Rightarrow> stmgr \<Rightarrow> bool" for srt A D C where
  st_new: "strategyState srt A D C newStrategy"
| st_register: "strategyState srt A D C s \<Longrightarrow> strategyState srt A D C (RegisterGenericEventChannel s)"
| st_synced: "strategyState srt A D C s \<Longrightarrow> strategyState srt A D C (Synced s)"
| st_update: "strategyState srt A D C s \<Longrightarrow> UpdateSelectedPods srt A D C w pd pods s = (e, s') \<Longrightarrow> strategyState srt A D C s'"
| st_delete: "strategyState srt A D C s \<Longrightarrow> strategyState srt A D C (DeletePodDecoration pd s)"

lemma strategyState_ok: "strategyState srt A D C s \<Longrightarrow> mgrsOk s"
proof (induction rule: strategyState.induct)
  case (st_update s w pd pods e s')
  with UpdateSelectedPods_ok [of s srt A D C w pd pods] show ?case by simp
qed (simp_all add: newStrategy_def mgrsOk_def RegisterGenericEventChannel_def Synced_def
    DeletePodDecoration_ok [unfolded mgrsOk_def])

subsection \<open>The partition\<close>

lemma names_of_infos: "podsOk m \<Longrightarrow> map pi_name (map snd m) = map fst m"
  by (induction m) (auto simp: podsOk_def mwf_def)

lemma distinct_sinserts: "distinct xs \<Longrightarrow> sinserts xs [] = xs"
proof -
  have "distinct (xs @ s) \<Longrightarrow> sinserts xs s = s @ xs" for s
    by (induction xs s rule: sinserts.induct) (auto simp: sinsert_def)
  from this [of "[]"] show "distinct xs \<Longrightarrow> sinserts xs [] = xs" by simp
qed

lemma distinct_perm_map: "mset xs = mset ys \<Longrightarrow> distinct (map f ys) \<Longrightarrow> distinct (map f xs)"
  by (metis mset_eq_imp_distinct_iff mset_map)

lemma partition_kept:
  fixes rv :: string and n :: int
  assumes "sort_ok srt" and "podsOk m"
  defines "kept \<equiv> set (updatePartitionPods srt m rv n)"
  shows "card kept = min (nat n) (length m)"
    and "i \<in> snd ` set m \<Longrightarrow> j \<in> snd ` set m \<Longrightarrow> pi_name i \<in> kept \<Longrightarrow> pi_name j \<notin> kept \<Longrightarrow> \<not> podLess rv i j"
proof -
  let ?xs = "srt (podLess rv) (map snd m)"
  let ?k = "nat (if int (length ?xs) - n < 0 then 0 else int (length ?xs) - n)"
  have ms: "mset ?xs = mset (map snd m)" and len: "length ?xs = length m"
    by (simp_all add: sort_mset [OF assms(1)] sort_length [OF assms(1)])
  have "distinct (map pi_name (map snd m))" using assms(2) by (simp only: names_of_infos) (simp add: podsOk_def mwf_def)
  from distinct_perm_map [OF ms this] have d: "distinct (map pi_name ?xs)" .
  then have dd: "distinct (map pi_name (drop ?k ?xs))" by (metis distinct_drop drop_map)
  have kept: "kept = pi_name ` set (drop ?k ?xs)"
    by (simp add: kept_def updatePartitionPods_def Let_def distinct_sinserts)
  have "card kept = length (drop ?k ?xs)"
    unfolding kept using dd by (metis distinct_card length_map list.set_map)
  also have "\<dots> = min (nat n) (length m)" by (simp add: len) linarith
  finally show "card kept = min (nat n) (length m)" .
  assume i: "i \<in> snd ` set m" and j: "j \<in> snd ` set m" and ik: "pi_name i \<in> kept" and jk: "pi_name j \<notin> kept"
  have srt: "sorted_wrt (\<lambda>a b. \<not> podLess rv b a) (take ?k ?xs @ drop ?k ?xs)"
    using sort_sorted [OF assms(1) strict_weak_mono [OF podLess_strict_weak]] by simp
  have set: "set ?xs = snd ` set m" by (simp add: sort_set [OF assms(1)])
  have "j \<in> set (take ?k ?xs)"
    using j jk by (metis Un_iff append_take_drop_id imageI kept set set_append)
  moreover have "i \<in> set (drop ?k ?xs)"
  proof -
    from ik obtain i' where "i' \<in> set (drop ?k ?xs)" "pi_name i' = pi_name i" by (auto simp: kept)
    moreover have "inj_on pi_name (set ?xs)" using d by (simp add: distinct_map)
    ultimately show ?thesis using i set by (metis in_set_dropD inj_onD)
  qed
  ultimately show "\<not> podLess rv i j" using srt by (simp add: sorted_wrt_append del: append_take_drop_id)
qed

subsection \<open>The answers\<close>

definition chosen :: "dapi \<Rightarrow> pod \<Rightarrow> bool \<Rightarrow> pdmgr \<Rightarrow> string option" where
  "chosen D p b m =
     (case getSuitableRevision D m p of
        Inr (Some (rv, upd)) \<Rightarrow> if rv \<noteq> [] \<and> upd = b then Some rv else None
      | _ \<Rightarrow> None)"

definition answered :: "dapi \<Rightarrow> pod \<Rightarrow> bool \<Rightarrow> pdmgr gomap \<Rightarrow> string \<Rightarrow> string option" where
  "answered D p b ms n = (case mget ms n of None \<Rightarrow> None | Some m \<Rightarrow> chosen D p b m)"

definition orElse :: "'a option \<Rightarrow> 'a option \<Rightarrow> 'a option" where
  "orElse x y = (case x of None \<Rightarrow> y | Some v \<Rightarrow> Some v)"

lemma effectiveLoop_spec:
  "effectiveLoop D p ms (upd, stab) = Inr (upd', stab') \<Longrightarrow> mwf ms
   \<Longrightarrow> mget upd' n = orElse (answered D p True ms n) (mget upd n)
     \<and> mget stab' n = orElse (answered D p False ms n) (mget stab n)"
proof (induction ms arbitrary: upd stab)
  case Nil
  then show ?case by (simp add: answered_def orElse_def)
next
  case (Cons x xs)
  obtain k m where x: "x = (k, m)" by (cases x)
  from Cons.prems(2) have wf: "mwf xs" and k: "mget xs k = None"
    by (auto simp: x mwf_def map_of_eq_None_iff)
  from Cons.prems(1) obtain r where r: "getSuitableRevision D m p = Inr r"
    by (auto simp: x split: sum.splits)
  show ?case
  proof (cases r)
    case None
    with Cons.prems(1) r have "effectiveLoop D p xs (upd, stab) = Inr (upd', stab')" by (simp add: x)
    from Cons.IH [OF this wf] show ?thesis using k r None by (auto simp: x answered_def chosen_def orElse_def)
  next
    case (Some y)
    obtain rv b where y: "y = (rv, b)" by (cases y)
    let ?acc = "if rv = [] then (upd, stab) else if b then (mput k rv upd, stab) else (upd, mput k rv stab)"
    obtain u t where acc: "?acc = (u, t)" by (cases ?acc)
    with Cons.prems(1) r Some y have "effectiveLoop D p xs (u, t) = Inr (upd', stab')" by (simp add: x)
    from Cons.IH [OF this wf] show ?thesis using k r Some y acc
      by (auto simp: x answered_def chosen_def orElse_def split: if_splits option.splits)
  qed
qed

lemma EffectivePodRevisions_spec:
  assumes "EffectivePodRevisions D s p = Inr (upd, stab)" and "mgrsOk s"
  shows "mget upd n = answered D p True (nsMgrs s (p_ns p)) n"
    and "mget stab n = answered D p False (nsMgrs s (p_ns p)) n"
  using effectiveLoop_spec [OF assms(1) [unfolded EffectivePodRevisions_def], of n] nsMgrs_ok [OF assms(2)]
  by (auto simp: orElse_def split: option.splits)

lemma nsMgrs_setMgr [simp]: "mget (nsMgrs (setMgr ns n m s) ns) n = Some m"
  by (simp add: setMgr_def nsMgrs_def)

lemma nsMgrs_chans [simp]: "nsMgrs (s\<lparr>sm_chans := c\<rparr>) ns = nsMgrs s ns"
  by (simp add: nsMgrs_def)

lemma podDecorationMgr_upd [simp]: "podDecorationMgr pd (setMgr (dc_ns pd) (dc_name pd) m s) = m"
  "podDecorationMgr pd (s\<lparr>sm_chans := c\<rparr>) = podDecorationMgr pd s"
  by (simp_all add: podDecorationMgr_def)

lemma UpdateSelectedPods_mgr:
  assumes "UpdateSelectedPods srt A D C w pd pods s = (e, s')"
  obtains m where "updateSelectedPods srt A D C w pd pods (podDecorationMgr pd s) = (e, m)"
    and "mget (nsMgrs s' (dc_ns pd)) (dc_name pd) = Some m" and "podDecorationMgr pd s' = m"
proof -
  obtain e' m where u: "updateSelectedPods srt A D C w pd pods (podDecorationMgr pd s) = (e', m)" by fastforce
  with assms that show ?thesis
    by (cases e') (auto simp: UpdateSelectedPods_def)
qed

lemma updateSelectedPods_partition:
  assumes "updateSelectedPods srt A D C w pd pods m = (None, m')" and "partitionOf pd = Some n"
  shows "mg_old m' = updatePartitionPods srt (mg_pods m') (ds_updated (dc_status pd)) n"
proof -
  obtain a where a: "activeLoop A D C w pd pods \<lparr>ua_cls = [], ua_pods = [], ua_exist = [], ua_get = newGetter\<rparr> = Inr a"
    using assms(1) by (auto simp: updateSelectedPods_def Let_def split: sum.splits)
  obtain e a1 marks where o: "oldLoop D C w pd (mg_pods m) (a, []) = (e, a1, marks)" by (rule prod_cases3)
  with a assms show ?thesis by (cases e) (auto simp: updateSelectedPods_def Let_def)
qed

lemma updateSelectedPods_latest: "mg_latest (snd (updateSelectedPods srt A D C w pd pods m)) = Some pd"
  by (auto simp: updateSelectedPods_def Let_def split: sum.splits prod.splits option.splits)

lemma chosen_partition:
  assumes "mg_latest m = Some pd" and "matches D (dc_selector pd) (p_labels p) = Inr True"
    and "dc_rolling pd = Some ru" and "ru_selector ru = None" and "ru_partition ru = Some n"
    and "ds_current (dc_status pd) \<noteq> []" and "ds_updated (dc_status pd) \<noteq> []"
  shows "chosen D p True m = (if p_name p \<in> set (mg_old m) then None else Some (ds_updated (dc_status pd)))"
    and "chosen D p False m = (if p_name p \<in> set (mg_old m) then Some (ds_current (dc_status pd)) else None)"
  using assms by (simp_all add: chosen_def getSuitableRevision_def bySelector_def)

text \<open>C14: After a successful update of a decoration with a partition of n, exactly n of the pods it takes effect
  on (all of them, if there are fewer) are kept back; none of them comes before a pod that is not kept back; and a pod
  that the decoration selects is answered the current revision if it is kept back, the updated one otherwise.\<close>

theorem partition_keeps_last:
  assumes "sort_ok srt" and "strategyState srt A D C s"
    and "UpdateSelectedPods srt A D C w pd pods s = (None, s')"
    and "dc_rolling pd = Some ru" and "ru_selector ru = None" and "ru_partition ru = Some n"
    and "ds_current (dc_status pd) \<noteq> []" and "ds_updated (dc_status pd) \<noteq> []"
  shows "\<exists>kept infos. infos = snd ` set (mg_pods (podDecorationMgr pd s'))
    \<and> card kept = min (nat n) (card infos)
    \<and> (\<forall>i \<in> infos. \<forall>j \<in> infos. pi_name i \<in> kept \<and> pi_name j \<notin> kept \<longrightarrow> \<not> podLess (ds_updated (dc_status pd)) i j)
    \<and> (\<forall>p upd stab. p_ns p = dc_ns pd \<and> matches D (dc_selector pd) (p_labels p) = Inr True
         \<and> EffectivePodRevisions D s' p = Inr (upd, stab)
         \<longrightarrow> mget upd (dc_name pd) = (if p_name p \<in> kept then None else Some (ds_updated (dc_status pd)))
           \<and> mget stab (dc_name pd) = (if p_name p \<in> kept then Some (ds_current (dc_status pd)) else None))"
proof -
  from assms(3) obtain m where u: "updateSelectedPods srt A D C w pd pods (podDecorationMgr pd s) = (None, m)"
    and m: "mget (nsMgrs s' (dc_ns pd)) (dc_name pd) = Some m" "podDecorationMgr pd s' = m"
    by (rule UpdateSelectedPods_mgr)
  have s: "mgrsOk s" using assms(2) by (rule strategyState_ok)
  then have s': "mgrsOk s'" using UpdateSelectedPods_ok [of s srt A D C w pd pods] assms(3) by simp
  have ok: "podsOk (mg_pods m)" using podDecorationMgr_ok [OF s', of pd] m by simp
  have l: "mg_latest m = Some pd" using updateSelectedPods_latest [of srt A D C w pd pods "podDecorationMgr pd s"] u by simp
  have old: "mg_old m = updatePartitionPods srt (mg_pods m) (ds_updated (dc_status pd)) n"
    by (rule updateSelectedPods_partition [OF u]) (simp add: partitionOf_def assms)
  note kept = partition_kept [OF assms(1) ok, where rv = "ds_updated (dc_status pd)" and n = n, folded old]
  have len: "card (snd ` set (mg_pods m)) = length (mg_pods m)"
  proof -
    have "distinct (map pi_name (map snd (mg_pods m)))" using ok by (simp only: names_of_infos) (simp add: podsOk_def mwf_def)
    then have "distinct (map snd (mg_pods m))" by (rule distinct_map [THEN iffD1, THEN conjunct1])
    then show ?thesis by (metis distinct_card length_map list.set_map)
  qed
  show ?thesis
    using m kept chosen_partition [OF l _ assms(4-8)] EffectivePodRevisions_spec [OF _ s']
    by (intro exI [of _ "set (mg_old m)"] exI [of _ "snd ` set (mg_pods m)"])
      (auto simp: len answered_def)
qed

text \<open>The pods that are kept back depend neither on the order in which Go visits its map nor on the sorting routine, as
  long as no two pods have the same instance id.\<close>

theorem partition_order_free:
  assumes "sort_ok srt" and "sort_ok srt'" and "mset m = mset m'"
    and "inj_on (pi_id \<circ> snd) (set m)"
  shows "updatePartitionPods srt m rv n = updatePartitionPods srt' m' rv n"
proof -
  have "srt (podLess rv) (map snd m) = srt' (podLess rv) (map snd m')"
  proof (rule sort_unique [OF assms(1,2)])
    show "strict_weak_on (set (map snd m)) (podLess rv)"
      by (rule strict_weak_mono [OF podLess_strict_weak]) simp
    show "mset (map snd m) = mset (map snd m')" using assms(3) by simp
    show "podLess rv a b \<or> podLess rv b a" if "a \<in> set (map snd m)" "b \<in> set (map snd m)" "a \<noteq> b" for a b
      using that assms(4) by (intro podLess_total) (auto simp: inj_on_def)
  qed
  then show ?thesis by (simp add: updatePartitionPods_def)
qed

text \<open>C36: If the first update of a decoration fails, its partition is ignored: every pod it selects is answered the
  updated revision.\<close>

theorem failed_update_ignores_partition:
  assumes "strategyState srt A D C s" and "mget (nsMgrs s (dc_ns pd)) (dc_name pd) = None"
    and "UpdateSelectedPods srt A D C w pd pods s = (Some e, s')"
    and "dc_rolling pd = Some ru" and "ru_selector ru = None" and "ru_partition ru = Some n"
    and "ds_current (dc_status pd) \<noteq> []" and "ds_updated (dc_status pd) \<noteq> []"
    and "p_ns p = dc_ns pd" and "matches D (dc_selector pd) (p_labels p) = Inr True"
    and "EffectivePodRevisions D s' p = Inr (upd, stab)"
  shows "mget upd (dc_name pd) = Some (ds_updated (dc_status pd)) \<and> mget stab (dc_name pd) = None"
proof -
  from assms(3) obtain m where u: "updateSelectedPods srt A D C w pd pods (podDecorationMgr pd s) = (Some e, m)"
    and m: "mget (nsMgrs s' (dc_ns pd)) (dc_name pd) = Some m" "podDecorationMgr pd s' = m"
    by (rule UpdateSelectedPods_mgr)
  have s: "mgrsOk s" using assms(1) by (rule strategyState_ok)
  then have s': "mgrsOk s'" using UpdateSelectedPods_ok [of s srt A D C w pd pods] assms(3) by simp
  have l: "mg_latest m = Some pd" using updateSelectedPods_latest [of srt A D C w pd pods "podDecorationMgr pd s"] u by simp
  have n: "podDecorationMgr pd s = newMgr pd" by (simp add: podDecorationMgr_def assms(2))
  have "mg_old m = []" using u [unfolded n]
    by (auto simp: updateSelectedPods_def Let_def newMgr_def split: sum.splits prod.splits option.splits)
  then show ?thesis
    using m chosen_partition [OF l assms(10,4-8)] EffectivePodRevisions_spec [OF assms(11) s'] assms(9)
    by (simp add: answered_def)
qed

subsection \<open>The synchronisation at the start\<close>

lemma syncLoop_quiet:
  assumes "\<And>s k x q. k \<ge> K \<Longrightarrow> fst (rnd s k x q) = None \<Longrightarrow> fst (snd (rnd s k x q)) = q"
  shows "k \<ge> K \<Longrightarrow> \<exists>r. syncLoop rnd stop k q s = Some r"
proof (induction q arbitrary: k s)
  case Nil
  show ?case by (simp add: syncLoop.simps)
next
  case (Cons x q)
  obtain e q2 s1 where r: "rnd s k x q = (e, q2, s1)" by (rule prod_cases3)
  show ?case
  proof (cases e)
    case None
    with assms [OF Cons.prems, of s x q] r have "q2 = q" by simp
    with Cons.IH [of "Suc k" s1] Cons.prems r None show ?thesis by (subst syncLoop.simps) simp
  next
    case (Some y)
    with r show ?thesis by (subst syncLoop.simps) simp
  qed
qed

lemma syncLoop_ends:
  assumes "\<And>s k x q. k \<ge> K \<Longrightarrow> fst (rnd s k x q) = None \<Longrightarrow> fst (snd (rnd s k x q)) = q"
  shows "\<exists>r. syncLoop rnd stop k q s = Some r"
proof (induction "K - k" arbitrary: k q s)
  case 0
  then show ?case by (intro syncLoop_quiet [OF assms]) auto
next
  case (Suc d)
  show ?case
  proof (cases q)
    case Nil
    then show ?thesis by (simp add: syncLoop.simps)
  next
    case (Cons x q1)
    obtain e q2 s1 where r: "rnd s k x q1 = (e, q2, s1)" by (rule prod_cases3)
    from Suc(2) have "d = K - Suc k" by simp
    from Suc(1) [OF this, of q2 s1] r show ?thesis by (subst syncLoop.simps) (simp add: Cons split: option.split)
  qed
qed

text \<open>C27: The synchronisation at the start returns, if from some round on every decoration that it reads is gone or
  has been observed in its current generation.\<close>

theorem sync_ends:
  assumes "\<forall>k \<ge> K. \<forall>ns n. sc_get C (W (Suc k)) ns n = Inl NotFound
    \<or> (\<exists>pd. sc_get C (W (Suc k)) ns n = Inr pd \<and> dc_generation pd = ds_observed (dc_status pd))"
  shows "\<exists>r. syncAllPodDecorations srt A D C W stop s = Some r"
proof (cases "sc_list C (W 0)")
  case (Inr pds)
  let ?rnd = "\<lambda>s k. \<lambda>x q. syncRound srt A D C (W (Suc k)) x q s"
  have "fst (snd (?rnd s k x q)) = q" if "k \<ge> K" and "fst (?rnd s k x q) = None" for s k x q
    using assms [rule_format, OF that(1), of "fst x" "snd x"] that(2)
    by (auto simp: syncRound_def Let_def split: sum.splits if_splits prod.splits option.splits gerr.splits)
  from syncLoop_ends [where rnd = ?rnd and K = K, OF this] Inr show ?thesis by (simp add: syncAllPodDecorations_def)
qed (simp add: syncAllPodDecorations_def)

text \<open>It waits for a decoration that is never observed: with such an element in the queue no call returns.\<close>

lemma syncLoop_waits:
  assumes "\<And>s k x q. y \<in> set (x # q) \<Longrightarrow> fst (rnd s k x q) = None \<and> y \<in> set (fst (snd (rnd s k x q)))"
    and "\<And>k. \<not> stop k"
  shows "y \<in> set q \<Longrightarrow> syncLoop rnd stop k q s = None"
proof (rule ccontr)
  assume y: "y \<in> set q" and "syncLoop rnd stop k q s \<noteq> None"
  then obtain r where r: "syncLoop rnd stop k q s = Some r" by auto
  have "rnd = rnd \<longrightarrow> stop = stop \<longrightarrow> y \<notin> set q"
  proof (rule syncLoop.raw_induct [where P = "\<lambda>rnd' stop' k q s r. rnd' = rnd \<longrightarrow> stop' = stop \<longrightarrow> y \<notin> set q",
        OF _ r])
    fix loop rnd' stop' k q s r
    assume IH: "\<And>rnd' stop' k q s r. loop rnd' stop' k q s = Some r \<Longrightarrow> rnd' = rnd \<longrightarrow> stop' = stop \<longrightarrow> y \<notin> set q"
      and eq: "(if stop' k then Some (None, s)
        else (case q of
              [] \<Rightarrow> Some (None, s)
            | x # q1 \<Rightarrow>
                (case rnd' s k x q1 of
                   (Some e, _, s1) \<Rightarrow> Some (Some e, s1)
                 | (None, q2, s1) \<Rightarrow> loop rnd' stop' (Suc k) q2 s1))) = Some r"
    show "rnd' = rnd \<longrightarrow> stop' = stop \<longrightarrow> y \<notin> set q"
    proof (intro impI notI)
      assume e: "rnd' = rnd" "stop' = stop"
      assume "y \<in> set q"
      then obtain x q1 where q: "q = x # q1" by (cases q) auto
      obtain z q2 s1 where z: "rnd s k x q1 = (z, q2, s1)" by (rule prod_cases3)
      with assms(1) [of x q1 s k] \<open>y \<in> set q\<close> q have "z = None" "y \<in> set q2" by auto
      with eq e q z assms(2) have "loop rnd stop (Suc k) q2 s1 = Some r" by simp
      with IH \<open>y \<in> set q2\<close> show False by blast
    qed
  qed
  with y show False by simp
qed

lemma qAdd_mem: "y \<in> set (qAdd x q) \<longleftrightarrow> y = x \<or> y \<in> set q"
  by (auto simp: qAdd_def)

lemma addAll_mem: "y \<in> set (addAll xs q) \<longleftrightarrow> y \<in> set xs \<or> y \<in> set q"
  by (induction xs q rule: addAll.induct) (auto simp: qAdd_mem)

lemma syncRound_keeps: "y \<in> set q \<Longrightarrow> fst (syncRound srt A D C w x q s) = None
    \<Longrightarrow> y \<in> set (fst (snd (syncRound srt A D C w x q s)))"
  by (auto simp: syncRound_def Let_def qAdd_mem split: sum.splits if_splits prod.splits option.splits gerr.splits)

text \<open>It does not return while a listed decoration is not observed in its current generation, however often it is
  read, as long as no call fails and it is not cancelled.\<close>

theorem sync_waits_for_observation:
  assumes "sc_list C (W 0) = Inr pds" and "pd \<in> set pds" and "\<not> dc_deleting pd"
    and "\<forall>k. \<exists>q. sc_get C (W (Suc k)) (dc_ns pd) (dc_name pd) = Inr q \<and> dc_generation q \<noteq> ds_observed (dc_status q)"
    and "\<forall>k x q s. fst (syncRound srt A D C (W (Suc k)) x q s) = None" and "\<forall>k. \<not> stop k"
  shows "syncAllPodDecorations srt A D C W stop s = None"
proof -
  let ?y = "(dc_ns pd, dc_name pd)" and ?rnd = "\<lambda>s k. \<lambda>x q. syncRound srt A D C (W (Suc k)) x q s"
  have "fst (?rnd s k x q) = None \<and> ?y \<in> set (fst (snd (?rnd s k x q)))" if "?y \<in> set (x # q)" for s k x q
  proof (cases "x = ?y")
    case True
    from assms(4) obtain p where "sc_get C (W (Suc k)) (dc_ns pd) (dc_name pd) = Inr p"
      "dc_generation p \<noteq> ds_observed (dc_status p)" by blast
    with True show ?thesis by (simp add: syncRound_def qAdd_mem)
  next
    case False
    have n: "fst (syncRound srt A D C (W (Suc k)) x q s) = None" using assms(5) by blast
    from False that have "?y \<in> set q" by auto
    from syncRound_keeps [OF this n] n show ?thesis by simp
  qed
  from syncLoop_waits [where rnd = ?rnd and stop = stop, OF this] assms(6)
  have "?y \<in> set q \<Longrightarrow> syncLoop ?rnd stop 0 q s = None" for q by blast
  moreover have "?y \<in> set (addAll (map (\<lambda>pd. (dc_ns pd, dc_name pd)) (filter (\<lambda>pd. \<not> dc_deleting pd) pds)) [])"
    using assms(2,3) by (auto simp: addAll_mem)
  ultimately show ?thesis by (simp add: syncAllPodDecorations_def assms(1))
qed

end
