(* ===== verification/DecorationGetter.thy ===== *)
theory DecorationGetter
  imports DecorationPatch PodStrategyProps
begin

text \<open>
  Which decorations a pod has and should have: \<^verbatim>\<open>utils/poddecoration/getter.go\<close> and the adapter
  through which the controller of CollaSets asks, \<^verbatim>\<open>collaset/decoration_adapter.go\<close> (below
  \<^verbatim>\<open>pkg/controllers\<close>).

  A getter is made for one question.  It starts with the decorations the strategy manager knows and
  reads ControllerRevisions for the other revisions; \<open>get\<close> is that read.  The JSON text of the
  revisions is what the generic controller stores and compares.
\<close>

subsection \<open>The getter\<close>

record pgetter =
  pg_ns :: string
  pg_latest :: "pdeco option list"
  pg_names :: sset
  pg_revs :: "pdeco gomap"

fun latestLoop :: "pdeco option list \<Rightarrow> pgetter \<Rightarrow> gerr + pgetter" where
  "latestLoop [] g = Inr g"
| "latestLoop (None # pds) g = Inl (Panic ''nil pointer'')"
| "latestLoop (Some pd # pds) g =
     latestLoop pds
       (g\<lparr>pg_names := sinsert (dc_name pd) (pg_names g),
          pg_revs := if ds_updated (dc_status pd) \<noteq> [] then mput (ds_updated (dc_status pd)) pd (pg_revs g) else pg_revs g\<rparr>)"

definition NewPodDecorationGetter :: "stmgr \<Rightarrow> string \<Rightarrow> gerr + pgetter" where
  "NewPodDecorationGetter s ns =
     (let pds = LatestPodDecorations s ns
      in latestLoop pds \<lparr>pg_ns = ns, pg_latest = pds, pg_names = [], pg_revs = []\<rparr>)"

type_synonym revread = "string \<Rightarrow> string \<Rightarrow> gerr + crevision"

definition getByRevision :: "dapi \<Rightarrow> revread \<Rightarrow> string \<Rightarrow> pgetter \<Rightarrow> (gerr + pdeco option) \<times> pgetter" where
  "getByRevision D get rv g =
     (case mget (pg_revs g) rv of
        Some pd \<Rightarrow> (Inr (Some pd), g)
      | None \<Rightarrow>
          (case get (pg_ns g) rv of
             Inl NotFound \<Rightarrow> (Inr None, g)
           | Inl e \<Rightarrow> (Inl (Err ''fail to get PodDecoration ControllerRevision''), g)
           | Inr r \<Rightarrow>
               (case GetPodDecorationFromRevision D r of
                  Inl e \<Rightarrow> (Inl e, g)
                | Inr pd \<Rightarrow> (Inr (Some pd), g\<lparr>pg_revs := mput rv pd (pg_revs g)\<rparr>))))"

fun revisionLoop :: "dapi \<Rightarrow> revread \<Rightarrow> string list \<Rightarrow> pdeco gomap \<times> gerr option \<times> pgetter
    \<Rightarrow> gerr + pdeco gomap \<times> gerr option \<times> pgetter" where
  "revisionLoop D get [] acc = Inr acc"
| "revisionLoop D get (rv # rvs) (res, err, g) =
     (case getByRevision D get rv g of
        (Inl (Panic m), _) \<Rightarrow> Inl (Panic m)
      | (Inl e, g1) \<Rightarrow> revisionLoop D get rvs (res, joinErrs err (Some e), g1)
      | (Inr None, g1) \<Rightarrow> revisionLoop D get rvs (res, err, g1)
      | (Inr (Some pd), g1) \<Rightarrow> revisionLoop D get rvs (mput rv pd res, err, g1))"

definition GetByRevisions :: "dapi \<Rightarrow> revread \<Rightarrow> string list \<Rightarrow> pgetter \<Rightarrow> gerr + pdeco gomap \<times> gerr option \<times> pgetter" where
  "GetByRevisions D get rvs g = revisionLoop D get rvs ([], None, g)"

definition GetOnPod :: "dapi \<Rightarrow> revread \<Rightarrow> pod \<Rightarrow> pgetter \<Rightarrow> gerr + pdeco gomap \<times> gerr option \<times> pgetter" where
  "GetOnPod D get p g = GetByRevisions D get (map di_rev (GetDecorationRevisionInfo D p)) g"

fun oldRevMap :: "decinfo list \<Rightarrow> string gomap \<Rightarrow> string gomap" where
  "oldRevMap [] m = m"
| "oldRevMap (i # is) m = oldRevMap is (mput (di_name i) (di_rev i) m)"

fun updatedLoop :: "(string \<times> string) list \<Rightarrow> sset \<times> string gomap \<Rightarrow> sset \<times> string gomap" where
  "updatedLoop [] acc = acc"
| "updatedLoop ((n, rv) # kvs) (upd, old) = updatedLoop kvs (sinsert rv upd, mdel n old)"

fun stableLoop :: "(string \<times> string) list \<Rightarrow> sset \<times> string gomap \<Rightarrow> sset \<times> string gomap" where
  "stableLoop [] acc = acc"
| "stableLoop ((n, rv) # kvs) (stab, st) =
     stableLoop kvs (if mhas st n then (sinsert rv stab, mdel n st) else (stab, st))"

definition getEffectiveRevisions :: "dapi \<Rightarrow> stmgr \<Rightarrow> pod \<Rightarrow> string gomap \<Rightarrow> gerr + sset \<times> sset" where
  "getEffectiveRevisions D s p old =
     rbind (EffectivePodRevisions D s p) (\<lambda>(upd, st).
       let (u, old1) = updatedLoop upd ([], old);
           (t, st1) = stableLoop old1 ([], st)
       in Inr (u, sinserts (map snd st1) t))"

definition GetEffective :: "dapi \<Rightarrow> revread \<Rightarrow> stmgr \<Rightarrow> pod \<Rightarrow> pgetter \<Rightarrow> gerr + pdeco gomap \<times> gerr option \<times> pgetter" where
  "GetEffective D get s p g =
     rbind (getEffectiveRevisions D s p (oldRevMap (GetDecorationRevisionInfo D p) [])) (\<lambda>(upd, stab).
       GetByRevisions D get (slist upd @ slist stab) g)"

subsection \<open>The adapter of the CollaSet controller\<close>

definition GetDecorationPatcherByRevisions :: "dapi \<Rightarrow> revread \<Rightarrow> stmgr \<Rightarrow> pod \<Rightarrow> string \<Rightarrow> gerr + pdeco gomap" where
  "GetDecorationPatcherByRevisions D get s p text =
     rbind (UnmarshallFromString D text) (\<lambda>infos.
       rbind (NewPodDecorationGetter s (p_ns p)) (\<lambda>g.
         rbind (GetByRevisions D get (map di_rev infos) g) (\<lambda>(pds, err, _).
           case err of None \<Rightarrow> Inr pds | Some e \<Rightarrow> Inl e)))"

definition GetTargetCurrentDecorationRevisions :: "dapi \<Rightarrow> revread \<Rightarrow> stmgr \<Rightarrow> pod \<Rightarrow> gerr + string \<times> gerr option" where
  "GetTargetCurrentDecorationRevisions D get s p =
     rbind (NewPodDecorationGetter s (p_ns p)) (\<lambda>g.
       rbind (GetOnPod D get p g) (\<lambda>(pds, err, _). Inr (GetDecorationInfoString D pds, err)))"

definition GetTargetUpdatedDecorationRevisions :: "dapi \<Rightarrow> revread \<Rightarrow> stmgr \<Rightarrow> pod \<Rightarrow> gerr + string \<times> gerr option" where
  "GetTargetUpdatedDecorationRevisions D get s p =
     rbind (NewPodDecorationGetter s (p_ns p)) (\<lambda>g.
       rbind (GetEffective D get s p g) (\<lambda>(pds, err, _). Inr (GetDecorationInfoString D pds, err)))"

definition IsTargetDecorationChanged :: "dapi \<Rightarrow> string \<Rightarrow> string \<Rightarrow> gerr + bool" where
  "IsTargetDecorationChanged D current updated =
     rbind (UnmarshallFromString D current) (\<lambda>cur.
       rbind (UnmarshallFromString D updated) (\<lambda>upd.
         Inr (if length cur \<noteq> length upd then True
              else list_ex (\<lambda>i. di_rev i \<notin> set (sinserts (map di_rev cur) [])) upd)))"

subsection \<open>The effective revisions\<close>

lemma updatedLoop_spec:
  "updatedLoop kvs (upd, old) = (upd', old') \<Longrightarrow> set upd' = snd ` set kvs \<union> set upd
   \<and> (\<forall>n. mget old' n = (if n \<in> fst ` set kvs then None else mget old n)) \<and> (mwf old \<longrightarrow> mwf old')"
  by (induction kvs "(upd, old)" arbitrary: upd old rule: updatedLoop.induct) auto

lemma stableLoop_spec:
  "stableLoop kvs (stab, st) = (stab', st') \<Longrightarrow> mwf kvs \<Longrightarrow>
   set stab' = {r. \<exists>n. (n, r) \<in> set kvs \<and> mhas st n} \<union> set stab
   \<and> (\<forall>n. mget st' n = (if mhas kvs n then None else mget st n)) \<and> (mwf st \<longrightarrow> mwf st')"
proof (induction kvs "(stab, st)" arbitrary: stab st rule: stableLoop.induct)
  case (2 n rv kvs stab st)
  obtain s1 t1 where a: "(if mhas st n then (sinsert rv stab, mdel n st) else (stab, st)) = (s1, t1)" by fastforce
  from 2(3) have wf: "mwf kvs" and n: "n \<notin> fst ` set kvs" by (auto simp: mwf_def)
  from 2(1) [OF a _ wf] 2(2) a
  have IH: "set stab' = {r. \<exists>n. (n, r) \<in> set kvs \<and> mhas t1 n} \<union> set s1"
    "\<forall>n. mget st' n = (if mhas kvs n then None else mget t1 n)" "mwf t1 \<longrightarrow> mwf st'" by auto
  have "(n', r) \<in> set kvs \<Longrightarrow> mhas t1 n' = mhas st n'" for n' r using a n by (auto split: if_splits simp: rev_image_eqI)
  then have "{r. \<exists>n. (n, r) \<in> set kvs \<and> mhas t1 n} = {r. \<exists>n. (n, r) \<in> set kvs \<and> mhas st n}" by blast
  with IH(1) have sets: "set stab' = {r. \<exists>n. (n, r) \<in> set kvs \<and> mhas st n} \<union> set s1" by simp
  show ?case
  proof (cases "mhas st n")
    case True
    then have "s1 = sinsert rv stab" "t1 = mdel n st" using a by auto
    with True sets IH(2,3) show ?thesis by auto
  next
    case False
    then have "s1 = stab" "t1 = st" using a by auto
    moreover have "mget st n = None" using False by (simp add: mhas_def)
    ultimately show ?thesis using False sets IH(2,3) by auto
  qed
qed simp

lemma answered_exclusive: "answered D p True ms n = Some r \<Longrightarrow> answered D p False ms n = None"
  by (auto simp: answered_def chosen_def split: option.splits sum.splits if_splits)

lemma map_values: "mwf m \<Longrightarrow> snd ` set m = {v. \<exists>k. mget m k = Some v}"
  by (force simp: mwf_in_iff [symmetric])

lemma effectiveLoop_wf: "effectiveLoop D p ms (u, t) = Inr (u', t') \<Longrightarrow> mwf u \<Longrightarrow> mwf t \<Longrightarrow> mwf u' \<and> mwf t'"
  by (induction ms arbitrary: u t) (auto split: sum.splits option.splits if_splits)

lemma case_old: "(\<exists>n c. f n = Some c \<and> r = (case g n of None \<Rightarrow> c | Some x \<Rightarrow> x))
    \<longleftrightarrow> (\<exists>n c. f n = Some c \<and> g n = Some r) \<or> (\<exists>n. f n = Some r \<and> g n = None)" (is "?l \<longleftrightarrow> ?r")
proof
  assume ?l
  then obtain n c where "f n = Some c" "r = (case g n of None \<Rightarrow> c | Some x \<Rightarrow> x)" by blast
  then show ?r by (cases "g n") auto
next
  assume ?r
  then obtain n c where "f n = Some c" "r = (case g n of None \<Rightarrow> c | Some x \<Rightarrow> x)" by fastforce
  then show ?l by blast
qed

lemma getEffectiveRevisions_spec:
  assumes "getEffectiveRevisions D s p old = Inr (upd, stab)" and "mgrsOk s" and "mwf old"
  defines "ms \<equiv> nsMgrs s (p_ns p)"
  shows "set upd = {r. \<exists>n. answered D p True ms n = Some r}"
    and "set stab = {r. \<exists>n c. answered D p False ms n = Some c \<and> r = (case mget old n of None \<Rightarrow> c | Some x \<Rightarrow> x)}"
proof -
  obtain u t where e: "EffectivePodRevisions D s p = Inr (u, t)"
    using assms(1) by (auto simp: getEffectiveRevisions_def rbind_Inr_iff)
  note ans = EffectivePodRevisions_spec [OF e assms(2), folded ms_def]
  have wf: "mwf u" "mwf t" using effectiveLoop_wf [OF e [unfolded EffectivePodRevisions_def]] by auto
  obtain up old1 where l1: "updatedLoop u ([], old) = (up, old1)" by fastforce
  obtain st t1 where l2: "stableLoop old1 ([], t) = (st, t1)" by fastforce
  from assms(1) e l1 l2 have r: "upd = up" "stab = sinserts (map snd t1) st"
    by (auto simp: getEffectiveRevisions_def)
  note s1 = updatedLoop_spec [OF l1]
  have wo: "mwf old1" using s1 assms(3) by simp
  note s2 = stableLoop_spec [OF l2 wo]
  have u: "n \<in> fst ` set u \<longleftrightarrow> answered D p True ms n \<noteq> None" for n by (metis ans(1) map_of_eq_None_iff)
  show "set upd = {r. \<exists>n. answered D p True ms n = Some r}"
    using s1 map_values [OF wf(1)] by (simp add: r ans)
  have old: "mget t n = Some c \<Longrightarrow> mget old1 n = mget old n" for n c
    using s1 u [of n] answered_exclusive [of D p ms n] by (auto simp: ans)
  have "set st = {r. \<exists>n c. mget t n = Some c \<and> mget old n = Some r}"
    using s2 old by (auto simp: mwf_in_iff [OF wo] mhas_def) metis+
  moreover have "snd ` set t1 = {r. \<exists>n. mget t n = Some r \<and> mget old n = None}"
    using s2 old wf(2) by (auto simp: map_values mhas_def split: if_splits)
  ultimately show "set stab = {r. \<exists>n c. answered D p False ms n = Some c \<and> r = (case mget old n of None \<Rightarrow> c | Some x \<Rightarrow> x)}"
    by (auto simp: r ans case_old)
qed

lemma oldRevMap_wf: "mwf m \<Longrightarrow> mwf (oldRevMap is m)"
  by (induction "is" m rule: oldRevMap.induct) auto

text \<open>C15: The effective revisions of a pod refine the answers of the strategy manager: the updated ones are those it
  answers as updated; for a decoration that it answers as not updated the revision that the pod carries is kept, and the
  current one is taken if the pod carries none; revisions of other decorations are dropped.\<close>

theorem effective_revisions_refine:
  assumes "strategyState srt A D C s"
    and "getEffectiveRevisions D s p (oldRevMap (GetDecorationRevisionInfo D p) []) = Inr (upd, stab)"
  shows "set upd = {r. \<exists>n. answered D p True (nsMgrs s (p_ns p)) n = Some r}
    \<and> set stab = {r. \<exists>n c. answered D p False (nsMgrs s (p_ns p)) n = Some c
        \<and> r = (case mget (oldRevMap (GetDecorationRevisionInfo D p) []) n of None \<Rightarrow> c | Some x \<Rightarrow> x)}"
  using getEffectiveRevisions_spec [OF assms(2) strategyState_ok [OF assms(1)] oldRevMap_wf] by simp

subsection \<open>When a decoration has changed\<close>

lemma list_ex_subset: "list_ex (\<lambda>i. f i \<notin> S) xs \<longleftrightarrow> \<not> f ` set xs \<subseteq> S"
  by (auto simp: list_ex_iff)

text \<open>The generic controller is told that the decorations of a pod have changed exactly when the sets of revisions
  differ, in whatever order the two texts list them.\<close>

theorem decoration_changed_iff:
  assumes "\<And>is. da_dec D (da_enc D is) = (None, is)" and "mwf cur" and "mwf upd"
  shows "IsTargetDecorationChanged D (GetDecorationInfoString D cur) (GetDecorationInfoString D upd)
    = Inr (fst ` set cur \<noteq> fst ` set upd)"
proof -
  have revs: "map di_rev (decorationInfos m) = map fst m" for m :: "pdeco gomap"
    by (simp add: decorationInfos_def split_def)
  have len: "length (decorationInfos m) = length m" for m :: "pdeco gomap" by (simp add: decorationInfos_def)
  have sub: "list_ex (\<lambda>i. di_rev i \<notin> fst ` set cur) (decorationInfos upd) \<longleftrightarrow> \<not> fst ` set upd \<subseteq> fst ` set cur"
    by (simp add: list_ex_subset) (metis list.set_map revs)
  have card: "card (fst ` set m) = length m" if "mwf m" for m :: "pdeco gomap"
    using that unfolding mwf_def by (metis distinct_card length_map list.set_map)
  have "IsTargetDecorationChanged D (GetDecorationInfoString D cur) (GetDecorationInfoString D upd)
    = Inr (if length cur \<noteq> length upd then True else \<not> fst ` set upd \<subseteq> fst ` set cur)"
    by (simp add: IsTargetDecorationChanged_def UnmarshallFromString_def GetDecorationInfoString_def assms(1) revs len sub)
  also have "\<dots> = Inr (fst ` set cur \<noteq> fst ` set upd)"
  proof -
    define R S where "R = fst ` set cur" and "S = fst ` set upd"
    then have "finite R" "card R = length cur" "card S = length upd" using card assms(2,3) by auto
    then have "(if length cur \<noteq> length upd then True else \<not> S \<subseteq> R) \<longleftrightarrow> R \<noteq> S"
      using card_subset_eq [of R S] by auto
    then show ?thesis by (simp only: R_def S_def)
  qed
  finally show ?thesis .
qed

end
