(* ===== verification/DecorationServer.thy ===== *)
theory DecorationServer
  imports DecorationProps DecorationPatchProps DecorationGetter
begin

text \<open>
  Instances of the parameters of the decoration theories: a text form of the revisions with a
  decoder that inverts it, and a server in memory that keeps the contract \<open>deco_server\<close>, with
  optimistic locking on the version of a decoration.
\<close>

subsection \<open>A codec\<close>

fun encStr :: "string \<Rightarrow> string" where
  "encStr [] = [CHR ''.'']"
| "encStr (c # cs) = CHR ''_'' # c # encStr cs"

fun decStr :: "string \<Rightarrow> string \<times> string" where
  "decStr (a # c # cs) = (if a = CHR ''.'' then ([], c # cs) else (case decStr cs of (s, r) \<Rightarrow> (c # s, r)))"
| "decStr s = ([], [])"

fun encInfos :: "decinfo list \<Rightarrow> string" where
  "encInfos [] = ''.''"
| "encInfos (i # is) = CHR ''_'' # encStr (di_name i) @ encStr (di_rev i) @ encInfos is"

fun decInfos :: "nat \<Rightarrow> string \<Rightarrow> decinfo list" where
  "decInfos (Suc n) (a # cs) =
     (if a = CHR ''.'' then []
      else (case decStr cs of
              (m, cs1) \<Rightarrow> (case decStr cs1 of (r, cs2) \<Rightarrow> \<lparr>di_name = m, di_rev = r\<rparr> # decInfos n cs2)))"
| "decInfos _ _ = []"

lemma decStr_encStr: "r \<noteq> [] \<Longrightarrow> decStr (encStr s @ r) = (s, r)"
proof (induction s)
  case Nil
  then show ?case by (cases r) simp_all
qed simp

lemma encInfos_nonempty: "encInfos is \<noteq> []"
  by (cases "is") simp_all

lemma encStr_nonempty: "encStr s \<noteq> []"
  by (cases s) simp_all

lemma decInfos_encInfos: "length is < n \<Longrightarrow> decInfos n (encInfos is) = is"
proof (induction "is" arbitrary: n)
  case Nil
  then show ?case by (cases n) simp_all
next
  case (Cons i "is")
  then obtain m where n: "n = Suc m" "length is < m" by (cases n) auto
  show ?case using Cons.IH [OF n(2)] by (simp add: n(1) decStr_encStr encInfos_nonempty encStr_nonempty)
qed

lemma length_encInfos: "length is < length (encInfos is)"
  by (induction "is") auto

subsection \<open>A server in memory\<close>

type_synonym dworld = "pdeco gomap \<times> pod list"

definition memd_put :: "pdeco \<Rightarrow> dworld \<Rightarrow> (gerr + pdeco) \<times> dworld" where
  "memd_put pd w =
     (case mget (fst w) (pdKey pd) of
        None \<Rightarrow> (Inl NotFound, w)
      | Some q \<Rightarrow>
          if dc_rv pd = dc_rv q
          then (let pd' = pd\<lparr>dc_rv := dc_rv pd @ ''1''\<rparr> in (Inr pd', (mput (pdKey pd) pd' (fst w), snd w)))
          else (Inl Conflict, w))"

definition memd_get :: "dworld \<Rightarrow> string \<Rightarrow> string \<Rightarrow> gerr + pdeco" where
  "memd_get w ns n =
     (case mget (fst w) (if ns = [] then n else ns @ ''/'' @ n) of
        None \<Rightarrow> Inl NotFound
      | Some q \<Rightarrow> if dc_ns q = ns \<and> dc_name q = n then Inr q else Inl NotFound)"

definition memd_pods :: "dworld \<Rightarrow> string \<Rightarrow> (string gomap \<Rightarrow> bool) option \<Rightarrow> gerr + pod list" where
  "memd_pods w ns f = Inr (filter (\<lambda>p. p_ns p = ns \<and> (case f of None \<Rightarrow> True | Some g \<Rightarrow> g (p_labels p))) (snd w))"

definition memd_client :: "(string \<Rightarrow> gerr + collaset) \<Rightarrow> (string \<Rightarrow> gerr + rctx) \<Rightarrow> dworld dclient" where
  "memd_client cls ctx =
     \<lparr>dk_get = memd_get, dk_update = memd_put, dk_status = memd_put, dk_retry = mem_retry 4, dk_pods = memd_pods,
      dk_revisions = (\<lambda>pd w. (Inr (dc_name pd @ ''-'' @ map (\<lambda>_. CHR ''v'') (te_containers (dc_template pd)), 0), w)),
      dk_read = \<lparr>sc_cls = (\<lambda>w ns n. cls n), sc_ctx = (\<lambda>w ns n. ctx n), sc_pods = memd_pods,
        sc_list = (\<lambda>w. Inr (map snd (fst w))), sc_get = memd_get\<rparr>,
      dk_protect = ''protect'', dk_range = id, dk_sort = insertionSort, dk_sortInfo = insertionSort\<rparr>"

lemma memd_put_ok:
  assumes "memd_put pd w = (Inr pd', w')"
  shows "(\<exists>rv. pd' = pd\<lparr>dc_rv := rv\<rparr>) \<and> mget (fst w') = (mget (fst w))(pdKey pd \<mapsto> pd') \<and> snd w' = snd w"
  using assms by (auto simp: memd_put_def Let_def fun_eq_iff split: option.splits if_splits)

lemma memd_put_err: "memd_put pd w = (Inl e, w') \<Longrightarrow> w' = w"
  by (auto simp: memd_put_def Let_def split: option.splits if_splits)

lemma memd_put_pods: "memd_put pd w = (x, w') \<Longrightarrow> snd w' = snd w"
  by (auto simp: memd_put_def Let_def split: option.splits if_splits)

lemma memd_get_ok: "memd_get w ns n = Inr pd \<Longrightarrow> mget (fst w) (pdKey pd) = Some pd \<and> dc_ns pd = ns \<and> dc_name pd = n"
  by (auto simp: memd_get_def pdKey_def split: option.splits if_splits)

lemma memd_server: "object_server memd_put (\<lambda>w pd. memd_get w (dc_ns pd) (dc_name pd)) (mem_retry 4) (\<lambda>w. mget (fst w)) pdKey
    (\<lambda>rv q. q\<lparr>dc_rv := rv\<rparr>)"
proof
  show "memd_get w (dc_ns ob) (dc_name ob) = Inr ob' \<Longrightarrow> mget (fst w) (pdKey ob) = Some ob' \<and> pdKey ob' = pdKey ob" for w ob ob'
    using memd_get_ok [of w "dc_ns ob" "dc_name ob" ob'] by (auto simp: pdKey_def split: if_splits)
qed (auto simp: mem_retry_retried pdKey_def dest: memd_put_ok memd_put_err)

interpretation memd: deco_server "memd_client cls ctx" "\<lambda>w. mget (fst w)" "\<lambda>w. set (snd w)" for cls ctx
proof -
  have g: "getDeco (memd_client cls ctx) = (\<lambda>w pd. memd_get w (dc_ns pd) (dc_name pd))"
    by (simp add: getDeco_def memd_client_def fun_eq_iff)
  have s: "object_server (dk_update (memd_client cls ctx)) (getDeco (memd_client cls ctx)) (dk_retry (memd_client cls ctx))
    (\<lambda>w. mget (fst w)) pdKey (\<lambda>rv q. q\<lparr>dc_rv := rv\<rparr>)"
    using memd_server unfolding g by (simp add: memd_client_def)
  have t: "object_server (dk_status (memd_client cls ctx)) (getDeco (memd_client cls ctx)) (dk_retry (memd_client cls ctx))
    (\<lambda>w. mget (fst w)) pdKey (\<lambda>rv q. q\<lparr>dc_rv := rv\<rparr>)"
    using memd_server unfolding g by (simp add: memd_client_def)
  show "deco_server (memd_client cls ctx) (\<lambda>w. mget (fst w)) (\<lambda>w. set (snd w))"
  proof (intro deco_server.intro deco_server_axioms.intro s t)
    show "dk_get (memd_client cls ctx) w ns n = Inr pd \<Longrightarrow> mget (fst w) (pdKey pd) = Some pd \<and> dc_ns pd = ns \<and> dc_name pd = n" for w ns n pd
      by (simp add: memd_client_def memd_get_ok)
    show "dk_pods (memd_client cls ctx) w ns f = Inr ps \<Longrightarrow>
      set ps = {p \<in> set (snd w). p_ns p = ns \<and> (case f of None \<Rightarrow> True | Some g \<Rightarrow> g (p_labels p))}" for w ns f ps
      by (auto simp: memd_client_def memd_pods_def)
    show "dk_update (memd_client cls ctx) pd w = (x, w') \<Longrightarrow> set (snd w') = set (snd w)" for pd w x w'
      by (simp add: memd_client_def memd_put_pods)
  qed (simp_all add: memd_client_def insertionSort_ok)
qed

end
