(* ===== verification/DecorationExamples.thy ===== *)
theory DecorationExamples
  imports DecorationServer WebhookExamples
begin

text \<open>
  Runs of the strategy manager, the controller of decorations, the patches and the getter on
  concrete decorations and pods, where the hypotheses of their properties hold.
\<close>

subsection \<open>Decorations and pods\<close>

definition exD :: dapi where
  "exD = \<lparr>da_sel = (\<lambda>s. Inr (\<lambda>ls. mget ls ''app'' = Some s)), da_revAnno = ''rev'', da_labelP = ''pd/'', da_hashL = ''hash'',
     da_dec = (\<lambda>s. (None, decInfos (length s) s)), da_enc = encInfos, da_patch = (\<lambda>s. Inr noDeco)\<rparr>"

lemma exD_codec: "da_dec exD (da_enc exD is) = (None, is)"
  by (simp add: exD_def decInfos_encInfos length_encInfos)

definition exDeco :: pdeco where
  "exDeco = noDeco\<lparr>dc_ns := ''ns'', dc_name := ''d'', dc_rv := ''1'', dc_generation := 1, dc_selector := Some ''a'',
     dc_finalizers := [''protect''], dc_rolling := Some \<lparr>ru_selector = None, ru_partition = Some 1\<rparr>, dc_weight := Some 2,
     dc_status := (dc_status noDeco)\<lparr>ds_observed := 1, ds_current := ''d-0'', ds_updated := ''d-''\<rparr>\<rparr>"

definition exPodD :: "string \<Rightarrow> string \<Rightarrow> string gomap \<Rightarrow> pod" where
  "exPodD n i ls = (expod ([(''app'', ''a''), (''podops/instance-id'', i)] @ ls))\<lparr>p_name := n,
     p_owners := [\<lparr>o_kind = ''CollaSet'', o_api = ''v1'', o_name = ''cs'', o_uid = ''u'', o_ctrl = True\<rparr>]\<rparr>"

definition exCls :: "string \<Rightarrow> gerr + collaset" where
  "exCls n = (if n = ''cs'' then Inr (noCollaSet\<lparr>co_ns := ''ns'', co_name := ''cs'', co_replicas := Some 2,
     co_curReplicas := 2, co_updated := ''h''\<rparr>) else Inl NotFound)"

definition exCtx :: "string \<Rightarrow> gerr + rctx" where
  "exCtx n = Inr \<lparr>rx_ns = ''ns'', rx_name = n, rx_contexts = [\<lparr>cd_id = 0, cd_data = []\<rparr>, \<lparr>cd_id = 1, cd_data = []\<rparr>]\<rparr>"

abbreviation exC :: "dworld dclient" where
  "exC \<equiv> memd_client exCls exCtx"

definition exPods :: "pod list" where
  "exPods = [exPodD ''p0'' ''0'' [], exPodD ''p1'' ''1'' []]"

definition exUpd :: "gerr option \<times> stmgr" where
  "exUpd = UpdateSelectedPods insertionSort api0 exD (dk_read exC) ([], []) exDeco exPods newStrategy"

lemma exUpd_run: "UpdateSelectedPods insertionSort api0 exD (dk_read exC) ([], []) exDeco exPods newStrategy = (None, snd exUpd)"
proof -
  have "fst exUpd = None" by code_simp
  then show ?thesis by (metis exUpd_def prod.collapse)
qed

lemma exUpd_state: "strategyState insertionSort api0 exD (dk_read exC) (snd exUpd)"
  by (rule st_update [OF st_new exUpd_run])

lemma exDeco_facts: "dc_rolling exDeco = Some \<lparr>ru_selector = None, ru_partition = Some 1\<rparr>"
  "ds_current (dc_status exDeco) \<noteq> []" "ds_updated (dc_status exDeco) \<noteq> []"
  "dc_ns exDeco = ''ns''" "dc_name exDeco = ''d''" "dc_selector exDeco = Some ''a''"
  by (simp_all add: exDeco_def noDeco_def)

subsection \<open>The strategy manager\<close>

lemma partition_keeps_last_witness:
  "fst exUpd = None \<and> (\<exists>kept. card kept = min 1 (card (snd ` set (mg_pods (podDecorationMgr exDeco (snd exUpd)))))
    \<and> (\<exists>rv. mget (fst (the (Some (case EffectivePodRevisions exD (snd exUpd) (exPodD ''p0'' ''0'' []) of Inr x \<Rightarrow> x | Inl _ \<Rightarrow> ([], []))))) ''d''
        = (if ''p0'' \<in> kept then None else Some rv)))"
proof -
  have run: "fst exUpd = None" by code_simp
  let ?p = "exPodD ''p0'' ''0'' []"
  obtain upd stab where e: "EffectivePodRevisions exD (snd exUpd) ?p = Inr (upd, stab)"
  proof -
    have "\<not> is_err (EffectivePodRevisions exD (snd exUpd) ?p)" by code_simp
    with that show ?thesis by (cases "EffectivePodRevisions exD (snd exUpd) ?p") auto
  qed
  have p: "p_ns ?p = dc_ns exDeco" "matches exD (dc_selector exDeco) (p_labels ?p) = Inr True" "p_name ?p = ''p0''"
    by (simp_all add: exPodD_def expod_def exDeco_facts matches_def matchesParsed_def exD_def)
  from partition_keeps_last [OF insertionSort_ok st_new exUpd_run exDeco_facts(1) _ _ exDeco_facts(2,3), of 1] obtain kept where
    "card kept = min (nat 1) (card (snd ` set (mg_pods (podDecorationMgr exDeco (snd exUpd)))))"
    "\<forall>p upd stab. p_ns p = dc_ns exDeco \<and> matches exD (dc_selector exDeco) (p_labels p) = Inr True
         \<and> EffectivePodRevisions exD (snd exUpd) p = Inr (upd, stab)
         \<longrightarrow> mget upd (dc_name exDeco) = (if p_name p \<in> kept then None else Some (ds_updated (dc_status exDeco)))
           \<and> mget stab (dc_name exDeco) = (if p_name p \<in> kept then Some (ds_current (dc_status exDeco)) else None)" by auto
  with run e p show ?thesis by (intro conjI exI [of _ kept]) (auto simp: exDeco_facts)
qed

definition exInfos :: "podInfo gomap" where
  "exInfos = mg_pods (podDecorationMgr exDeco (snd exUpd))"

lemma partition_order_free_witness:
  "updatePartitionPods insertionSort exInfos ''d-'' 1 = updatePartitionPods insertionSort (rev exInfos) ''d-'' 1 \<and> length exInfos = 2"
proof -
  have ids: "map (pi_id \<circ> snd) exInfos = [''0'', ''1'']" by code_simp
  then have "distinct (map (pi_id \<circ> snd) exInfos)" by (simp only: ids) simp
  then have "inj_on (pi_id \<circ> snd) (set exInfos)" by (simp add: distinct_map)
  moreover have "length exInfos = 2" using ids by (metis length_map length_Cons list.size(3) numeral_2_eq_2)
  ultimately show ?thesis using partition_order_free [OF insertionSort_ok insertionSort_ok, of exInfos "rev exInfos" "''d-''" 1] by simp
qed

definition exDown :: "dworld sclient" where
  "exDown = dk_read (memd_client (\<lambda>n. Inl (Err ''down'')) exCtx)"

definition exFail :: "gerr option \<times> stmgr" where
  "exFail = UpdateSelectedPods insertionSort api0 exD exDown ([], []) exDeco exPods newStrategy"

lemma failed_update_ignores_partition_witness:
  "EffectivePodRevisions exD (snd exFail) (exPodD ''p0'' ''0'' []) = Inr ([(''d'', ''d-'')], [])
   \<and> mget [(''d'', ''d-'')] ''d'' = Some ''d-''"
proof -
  have "fst exFail = Some (Err ''down'')" by code_simp
  then have run: "UpdateSelectedPods insertionSort api0 exD exDown ([], []) exDeco exPods newStrategy = (Some (Err ''down''), snd exFail)"
    by (metis exFail_def prod.collapse)
  have e: "EffectivePodRevisions exD (snd exFail) (exPodD ''p0'' ''0'' []) = Inr ([(''d'', ''d-'')], [])" by code_simp
  have n: "mget (nsMgrs newStrategy (dc_ns exDeco)) (dc_name exDeco) = None" by (simp add: newStrategy_def nsMgrs_def)
  have p: "p_ns (exPodD ''p0'' ''0'' []) = dc_ns exDeco" "matches exD (dc_selector exDeco) (p_labels (exPodD ''p0'' ''0'' [])) = Inr True"
    by (simp_all add: exPodD_def expod_def exDeco_facts matches_def matchesParsed_def exD_def)
  show ?thesis
    using failed_update_ignores_partition [OF st_new n run exDeco_facts(1) _ _ exDeco_facts(2,3) p e, of 1] e
    by simp
qed

definition exWorld :: "pdeco \<Rightarrow> nat \<Rightarrow> dworld" where
  "exWorld pd k = ([(''ns/d'', pd)], exPods)"

definition exStale :: pdeco where
  "exStale = exDeco\<lparr>dc_generation := 2\<rparr>"

lemma exWorld_get: "dc_ns pd = ''ns'' \<Longrightarrow> dc_name pd = ''d'' \<Longrightarrow>
  sc_get (dk_read exC) (exWorld pd k) ns n = (if ns = ''ns'' \<and> n = ''d'' then Inr pd else Inl NotFound)"
  by (auto simp: memd_client_def memd_get_def exWorld_def)

lemma sync_ends_witness:
  "\<exists>r. syncAllPodDecorations insertionSort api0 exD (dk_read exC) (exWorld exDeco) (\<lambda>k. False) newStrategy = Some r"
proof (rule sync_ends [where K = 0])
  have o: "dc_generation exDeco = ds_observed (dc_status exDeco)" by (simp add: exDeco_def)
  show "\<forall>k \<ge> 0. \<forall>ns n. sc_get (dk_read exC) (exWorld exDeco (Suc k)) ns n = Inl NotFound
    \<or> (\<exists>pd. sc_get (dk_read exC) (exWorld exDeco (Suc k)) ns n = Inr pd \<and> dc_generation pd = ds_observed (dc_status pd))"
    using o by (simp add: exWorld_get [OF exDeco_facts(4,5)])
qed

lemma sync_waits_for_observation_witness:
  "syncAllPodDecorations insertionSort api0 exD (dk_read exC) (exWorld exStale) (\<lambda>k. False) newStrategy = None"
proof -
  have nn: "dc_ns exStale = ''ns''" "dc_name exStale = ''d''" by (simp_all add: exStale_def exDeco_facts)
  have l: "sc_list (dk_read exC) (exWorld exStale 0) = Inr [exStale]" by (simp add: memd_client_def exWorld_def)
  have st: "\<not> dc_deleting exStale" "dc_generation exStale \<noteq> ds_observed (dc_status exStale)"
    by (simp_all add: exStale_def exDeco_def noDeco_def)
  have r: "\<forall>k x q s. fst (syncRound insertionSort api0 exD (dk_read exC) (exWorld exStale (Suc k)) x q s) = None"
    using st(2) by (auto simp: syncRound_def exWorld_get [OF nn] split: sum.split)
  show ?thesis
    by (rule sync_waits_for_observation [OF l _ st(1) _ r]) (use st(2) in \<open>simp_all add: exWorld_get [OF nn] nn\<close>)
qed

subsection \<open>The controller\<close>

definition exStatus :: pdstatus where
  "exStatus = dc_status exDeco"

definition exGroups :: "pod list gomap" where
  "exGroups = [(''cs'', [exPodD ''p0'' ''0'' [(''pd/d'', ''d-'')], exPodD ''p1'' ''1'' []])]"

definition exCounted :: "gerr + pdstatus" where
  "exCounted = calculateDecoStatus api0 exD exC ([], []) exDeco exStatus exGroups [''cs'']"

lemma status_counts_nested_witness:
  "\<exists>st. exCounted = Inr st \<and> ds_updatedPods st \<le> ds_injected st \<and> ds_injected st \<le> ds_matched st \<and> ds_matched st = 2"
proof -
  have "\<not> is_err exCounted" by code_simp
  then obtain st where c: "exCounted = Inr st" by (metis is_err.simps(1) sum.exhaust)
  have "length (concat (map (podsIn exGroups) (dk_range exC [''cs'']))) = 2" by code_simp
  with status_counts_nested [OF c [unfolded exCounted_def]] c show ?thesis by (intro exI [of _ st]) simp
qed

definition exDone :: dworld where
  "exDone = ([(''ns/d'', exDeco)], [exPodD ''p0'' ''0'' [(''pd/d'', ''d-'')], exPodD ''p1'' ''1'' [(''pd/d'', ''d-'')]])"

definition exState :: "dworld \<Rightarrow> dworld dstate" where
  "exState w = \<lparr>dt_w = w, dt_exp = [], dt_sm = newStrategy\<rparr>"

definition exMove :: "(gerr + rresult) \<times> dworld dstate" where
  "exMove = ReconcileDeco api0 exD exC 0 ''ns'' ''d'' (exState exDone)"

lemma pdKey_ex: "pdKey exDeco = ''ns/d''"
  by (simp add: pdKey_def exDeco_facts)

lemma current_revision_moves_when_done_witness:
  "\<exists>pd. mget (fst (dt_w (snd exMove))) ''ns/d'' = Some pd \<and> ds_current (dc_status pd) = ds_updated (dc_status pd)
    \<and> ds_current (dc_status pd) \<noteq> ds_current (dc_status exDeco)"
proof -
  let ?m = "mget (fst (dt_w (snd exMove))) ''ns/d''"
  have "?m \<noteq> None" by code_simp
  then obtain pd where pd: "?m = Some pd" by auto
  have "ds_current (dc_status (the ?m)) = ''d-''" by code_simp
  then have ne: "ds_current (dc_status pd) \<noteq> ds_current (dc_status exDeco)" using pd by (simp add: exDeco_def)
  have run: "ReconcileDeco api0 exD exC 0 (dc_ns exDeco) (dc_name exDeco) (exState exDone) = (fst exMove, snd exMove)"
    by (simp add: exMove_def exDeco_facts)
  have before: "mget (fst (dt_w (exState exDone))) (pdKey exDeco) = Some exDeco"
    by (simp add: exState_def exDone_def pdKey_ex)
  from current_revision_moves_when_done [OF memd.deco_server_axioms run before _ ne] pd ne show ?thesis by (auto simp: pdKey_ex)
qed

definition exGone :: pdeco where
  "exGone = exDeco\<lparr>dc_deleting := True\<rparr>"

definition exEscape :: "(gerr + rresult) \<times> dworld dstate" where
  "exEscape = ReconcileDeco api0 exD exC 0 ''ns'' ''d'' (exState ([(''ns/d'', exGone)], exPods))"

lemma decoration_waits_for_escape_witness:
  "dc_finalizers (the (mget (fst (dt_w (snd exEscape))) ''ns/d'')) = []
   \<and> CurrentRevision exD (exPodD ''p0'' ''0'' []) ''d'' = None"
proof -
  let ?m = "mget (fst (dt_w (snd exEscape))) ''ns/d''"
  have f: "dc_finalizers (the ?m) = []" by code_simp
  have nn: "dc_ns exGone = ''ns''" "dc_name exGone = ''d''" "pdKey exGone = ''ns/d''" "dc_deleting exGone"
    "dc_finalizers exGone = [''protect'']" by (simp_all add: exGone_def exDeco_facts pdKey_def) (simp add: exDeco_def)
  have run: "ReconcileDeco api0 exD exC 0 (dc_ns exGone) (dc_name exGone) (exState ([(''ns/d'', exGone)], exPods)) = (fst exEscape, snd exEscape)"
    by (simp add: exEscape_def nn)
  have before: "mget (fst (dt_w (exState ([(''ns/d'', exGone)], exPods)))) (pdKey exGone) = Some exGone"
    by (simp add: exState_def nn)
  have ne: "mget (fst (dt_w (snd exEscape))) (pdKey exGone) \<noteq> Some exGone"
  proof
    assume "mget (fst (dt_w (snd exEscape))) (pdKey exGone) = Some exGone"
    with f show False by (simp add: nn)
  qed
  have pods: "snd (dt_w (snd exEscape)) = exPods" by code_simp
  from decoration_waits_for_escape [OF memd.deco_server_axioms run before nn(4) ne]
  have "p_ns (exPodD ''p0'' ''0'' []) = ''ns'' \<Longrightarrow> CurrentRevision exD (exPodD ''p0'' ''0'' []) ''d'' = None"
    by (auto simp: pods exPods_def nn)
  with f show ?thesis by (simp add: exPodD_def expod_def)
qed

subsection \<open>Patches\<close>

definition exTemplate :: template where
  "exTemplate = \<lparr>te_meta = [\<lparr>mp_policy = RetainMetadata, mp_labels = [(''team'', ''x'')], mp_annos = []\<rparr>],
     te_init = [\<lparr>k_name = ''init'', k_image = ''i'', k_env = [], k_mounts = [], k_rest = []\<rparr>],
     te_primary = [\<lparr>pp_policy = InjectFirstContainer, pp_name = None, pp_image = Some ''v2'', pp_env = [(''A'', ''1'')], pp_mounts = []\<rparr>],
     te_containers = [\<lparr>cp_policy = AfterPrimaryContainer,
       cp_container = \<lparr>k_name = ''sidecar'', k_image = ''s'', k_env = [], k_mounts = [], k_rest = []\<rparr>\<rparr>],
     te_volumes = [(''v'', OtherSource ''empty'')],
     te_affinity = Some \<lparr>fa_override = Some 0, fa_terms = [''zone'']\<rparr>, te_tolerations = [(''t'', ''exists'')]\<rparr>"

definition exHeavy :: pdeco where
  "exHeavy = exDeco\<lparr>dc_name := ''e'', dc_weight := Some 3, dc_template := exTemplate\<rparr>"

definition exSet :: "pdeco gomap" where
  "exSet = [(''e-1'', exHeavy), (''d-1'', exDeco)]"

definition exEnv :: patchEnv where
  "exEnv = \<lparr>pe_merge = (\<lambda>a b. Inr b), pe_order = id, pe_sort = insertionSort\<rparr>"

definition exMain :: pod where
  "exMain = (exPodD ''p0'' ''0'' [])\<lparr>p_containers := [\<lparr>k_name = ''main'', k_image = ''v1'', k_env = [], k_mounts = [], k_rest = []\<rparr>]\<rparr>"

definition exHeap :: "affinity list" where
  "exHeap = [\<lparr>af_required = None, af_rest = []\<rparr>]"

definition exPatched :: "gerr + gerr option \<times> pod \<times> affinity list" where
  "exPatched = PatchListOfDecorations exEnv exD exSet (exMain, exHeap)"

lemma exPatched_run: "\<exists>q h. PatchListOfDecorations exEnv exD exSet (exMain, exHeap) = Inr (None, q, h)"
proof -
  have "\<not> is_err exPatched" by code_simp
  then obtain x where x: "exPatched = Inr x" by (metis is_err.simps(1) sum.exhaust)
  have "fst (case exPatched of Inr x \<Rightarrow> x | Inl _ \<Rightarrow> (Some NotFound, exMain, [])) = None" by code_simp
  with x show ?thesis by (metis exPatched_def old.sum.simps(6) prod.collapse)
qed

lemma decoration_keeps_containers_witness:
  "\<exists>q h b a. PatchListOfDecorations exEnv exD exSet (exMain, exHeap) = Inr (None, q, h)
     \<and> map k_name (p_containers q) = b @ [''main''] @ a"
proof -
  obtain q h where r: "PatchListOfDecorations exEnv exD exSet (exMain, exHeap) = Inr (None, q, h)" using exPatched_run by blast
  have "map k_name (p_containers exMain) = [''main'']" by code_simp
  with decoration_keeps_containers [OF r] r show ?thesis by auto
qed

lemma exSet_names: "distinct (map (dc_name \<circ> snd) exSet)" "(''e-1'', exHeavy) \<in> set exSet" "dc_name exHeavy = ''e''"
  by (simp_all add: exSet_def exHeavy_def exDeco_facts)

lemma decoration_revisions_roundtrip_witness:
  "\<exists>q h. PatchListOfDecorations exEnv exD exSet (exMain, exHeap) = Inr (None, q, h)
     \<and> GetDecorationRevisionInfo exD q = decorationInfos exSet \<and> CurrentRevision exD q ''e'' = Some ''e-1''"
proof -
  obtain q h where r: "PatchListOfDecorations exEnv exD exSet (exMain, exHeap) = Inr (None, q, h)" using exPatched_run by blast
  from decoration_revisions_roundtrip [OF exD_codec exSet_names(1) r exSet_names(2)] r show ?thesis by (auto simp: exSet_names)
qed


lemma shared_affinity_grows_witness:
  "\<exists>q h. PatchAffinity \<lparr>fa_override = Some 0, fa_terms = [''zone'']\<rparr> (exMain, snd (PatchAffinity \<lparr>fa_override = Some 0, fa_terms = [''zone'']\<rparr> (exMain, exHeap)))
     = (q, h) \<and> af_required (h ! 0) = Some [''zone'', ''zone'']"
proof -
  let ?a = "\<lparr>fa_override = Some 0, fa_terms = [''zone'']\<rparr>"
  obtain p1 h1 where 1: "PatchAffinity ?a (exMain, exHeap) = (p1, h1)" by fastforce
  obtain p2 h2 where 2: "PatchAffinity ?a (exMain, h1) = (p2, h2)" by fastforce
  from shared_affinity_grows [OF _ _ _ 1 2, of 0] 1 2 show ?thesis by (simp add: exHeap_def)
qed

subsection \<open>The getter\<close>

definition exCarry :: pod where
  "exCarry = (exPodD ''p1'' ''1'' [])\<lparr>p_annos := [(''rev'', encInfos [\<lparr>di_name = ''d'', di_rev = ''d-9''\<rparr>])]\<rparr>"

definition exEff :: "gerr + sset \<times> sset" where
  "exEff = getEffectiveRevisions exD (snd exUpd) exCarry (oldRevMap (GetDecorationRevisionInfo exD exCarry) [])"

lemma effective_revisions_refine_witness:
  "exEff = Inr ([], [''d-9'']) \<and> (\<exists>n c. answered exD exCarry False (nsMgrs (snd exUpd) (p_ns exCarry)) n = Some c)"
proof -
  have e: "exEff = Inr ([], [''d-9''])" by code_simp
  let ?X = "{r. \<exists>n c. answered exD exCarry False (nsMgrs (snd exUpd) (p_ns exCarry)) n = Some c
    \<and> r = (case mget (oldRevMap (GetDecorationRevisionInfo exD exCarry) []) n of None \<Rightarrow> c | Some x \<Rightarrow> x)}"
  have "set [''d-9''] = ?X"
    by (rule conjunct2 [OF effective_revisions_refine [OF exUpd_state e [unfolded exEff_def]]])
  then have "''d-9'' \<in> ?X" by (rule subst) simp
  with e show ?thesis by blast
qed

lemma decoration_changed_iff_witness:
  "IsTargetDecorationChanged exD (GetDecorationInfoString exD exSet) (GetDecorationInfoString exD (rev exSet)) = Inr False"
proof -
  have "mwf exSet" "mwf (rev exSet)" by (simp_all add: exSet_def mwf_def)
  from decoration_changed_iff [OF exD_codec this] show ?thesis by simp
qed

end
