(* ===== verification/CollaSetWebhook.thy ===== *)
theory CollaSetWebhook
  imports CollaSets Admission Decoration
begin

text \<open>
  The webhooks of CollaSets, of claims and of resource contexts (\<^verbatim>\<open>collaset\<close>, \<^verbatim>\<open>persistentvolumeclaim\<close> and
  \<^verbatim>\<open>resourcecontext\<close> below \<^verbatim>\<open>pkg/webhook/server/generic\<close>), the defaults of
  \<^verbatim>\<open>apis/apps/v1alpha1/defaults.go\<close>, and how a CollaSet is presented to the generic controller of the
  package kube-xset, \<^verbatim>\<open>pkg/controllers/collaset/collaset_controller.go\<close>.

  The template of a pod is its labels and a text.  Kubernetes' own defaults, conversion and checks of
  a template and of a selector are parameters (\<open>cwenv\<close>).
\<close>

record cwenv =
  cw_defaults :: "string \<Rightarrow> string"
  cw_convert :: "string gomap \<Rightarrow> string \<Rightarrow> gerr + string \<times> (string \<times> vsource) list"
  cw_podErrs :: "string gomap \<Rightarrow> string \<Rightarrow> (string \<times> vsource) list \<Rightarrow> fielderr list"
  cw_selErrs :: "lselector \<Rightarrow> fielderr list"
  cw_parse :: "lselector option \<Rightarrow> gerr + (string gomap \<Rightarrow> bool)"

subsection \<open>Defaults\<close>

definition SetDefaultCollaSetUpdateStrategy :: "collaset \<Rightarrow> collaset" where
  "SetDefaultCollaSetUpdateStrategy c =
     (let c1 = (if co_updPolicy c = NoUpdatePolicy then c\<lparr>co_updPolicy := InPlaceIfPossiblePolicy\<rparr> else c);
          r = (case co_rolling c1 of None \<Rightarrow> \<lparr>up_byLabel = False, up_byPartition = None\<rparr> | Some r \<Rightarrow> r)
      in c1\<lparr>co_rolling := Some (if up_byPartition r = None \<and> \<not> up_byLabel r then r\<lparr>up_byPartition := Some None\<rparr> else r)\<rparr>)"

definition SetDefaultCollaSetNamingStrategy :: "collaset \<Rightarrow> collaset" where
  "SetDefaultCollaSetNamingStrategy c =
     (if co_naming c = Some NoSuffixPolicy then c\<lparr>co_naming := Some RandomSuffix\<rparr> else c)"

definition SetDefaultPodSpec :: "cwenv \<Rightarrow> collaset \<Rightarrow> collaset" where
  "SetDefaultPodSpec E c = c\<lparr>co_template := cw_defaults E (co_template c)\<rparr>"

definition SetDefaultCollaSet :: "cwenv \<Rightarrow> collaset \<Rightarrow> collaset" where
  "SetDefaultCollaSet E c = SetDefaultCollaSetNamingStrategy (SetDefaultCollaSetUpdateStrategy (SetDefaultPodSpec E c))"

definition clsMutatingHandle :: "admop \<Rightarrow> gerr + collaset \<Rightarrow> collaset response" where
  "clsMutatingHandle opn dec =
     (if opn \<noteq> AdmUpdate \<and> opn \<noteq> AdmCreate then Allowed
      else (case dec of
              Inl e \<Rightarrow> Errored 400 (errText e)
            | Inr c \<Rightarrow> Patched (SetDefaultCollaSetNamingStrategy (SetDefaultCollaSetUpdateStrategy c))))"

subsection \<open>Validation\<close>

definition negative :: "int option \<Rightarrow> bool" where
  "negative x \<longleftrightarrow> (case x of None \<Rightarrow> False | Some n \<Rightarrow> n < 0)"

definition overlap :: "string list \<Rightarrow> string list \<Rightarrow> bool" where
  "overlap xs ys \<longleftrightarrow> list_ex (\<lambda>x. x \<in> set ys) xs"

definition validateReplicas :: "collaset \<Rightarrow> fielderr list" where
  "validateReplicas c = (if negative (co_replicas c) then [(''spec.replicas'', ''replicas should not be smaller than 0'')] else [])"

definition validatePodTemplateSpec :: "cwenv \<Rightarrow> collaset \<Rightarrow> fielderr list" where
  "validatePodTemplateSpec E c =
     (case cw_convert E (co_tmplLabels c) (co_template c) of
        Inl e \<Rightarrow> [(''spec.template'', ''fail to convert to core PodTemplateSpec'')]
      | Inr (t, vols) \<Rightarrow> cw_podErrs E (co_tmplLabels c) t (vols @ map (\<lambda>v. (v_name v, Claim (v_name v))) (co_vcts c)))"

definition validateSelector :: "cwenv \<Rightarrow> collaset \<Rightarrow> fielderr list" where
  "validateSelector E c =
     (case co_selector c of
        None \<Rightarrow> [(''spec.selector'', ''selector is required'')]
      | Some sel \<Rightarrow>
          if cw_selErrs E sel \<noteq> [] then cw_selErrs E sel
          else if co_tmplLabels c = [] then [(''spec.template.metadata.labels'', ''labels is required'')]
          else (case cw_parse E (co_selector c) of
                  Inl e \<Rightarrow> [(''spec.selector'', ''selector is malformed'')]
                | Inr f \<Rightarrow> if \<not> f (co_tmplLabels c)
                    then [(''spec.template.metadata.labels'', ''selector does not match labels in pod template'')] else []))"

definition validateScaleStrategyPodList :: "collaset \<Rightarrow> fielderr list" where
  "validateScaleStrategyPodList c =
     (if overlap (co_toExclude c) (co_toInclude c)
      then [(''spec.scaleStrategy.podToExclude[podToInclude]'', ''should not have intersection'')] else [])
     @ (if overlap (co_toDelete c) (co_toInclude c)
        then [(''spec.scaleStrategy.podToDelete[podToInclude]'', ''should not have intersection'')] else [])
     @ (if overlap (co_toDelete c) (co_toExclude c)
        then [(''spec.scaleStrategy.podToDelete[podToExclude]'', ''should not have intersection'')] else [])"

definition validateScaleStrategy :: "collaset \<Rightarrow> collaset option \<Rightarrow> fielderr list" where
  "validateScaleStrategy c old =
     (if negative (co_scaleDelay c)
      then [(''spec.scaleStrategy.operationDelaySeconds'', ''operationDelaySeconds should not be smaller than 0'')] else [])
     @ (case old of
          None \<Rightarrow> []
        | Some o0 \<Rightarrow> if co_context o0 \<noteq> co_context c
            then [(''spec.scaleStrategy.context'', ''scaleStrategy.context is not allowed to be changed'')] else [])
     @ (case co_naming c of
          None \<Rightarrow> []
        | Some n \<Rightarrow>
            (if n \<noteq> PersistentSequence \<and> n \<noteq> RandomSuffix
             then [(''spec.namingStrategy.podNamingSuffixPolicy'', ''Unsupported value'')] else [])
            @ (if n = PersistentSequence \<and> (co_toExclude c \<noteq> [] \<or> co_toInclude c \<noteq> [])
               then [(''spec.scaleStrategy.podToExclude[podToInclude]'', ''is not allowed when podNamingPolicy is PodNamingPolicyPersistentSequence'')]
               else []))
     @ validateScaleStrategyPodList c"

definition validateUpdateStrategy :: "collaset \<Rightarrow> fielderr list" where
  "validateUpdateStrategy c =
     (if co_updPolicy c \<in> {RecreatePolicy, InPlaceOnlyPolicy, InPlaceIfPossiblePolicy, ReplacePolicy} then []
      else [(''spec.updateStrategy.podUpdatePolicy'', ''Unsupported value'')])
     @ (case co_rolling c of
          None \<Rightarrow> []
        | Some r \<Rightarrow>
            (case up_byPartition r of
               None \<Rightarrow> []
             | Some n \<Rightarrow> if negative n
                 then [(''spec.updateStrategy.rollingUpdate.byPartition.partition'', ''partition should not be smaller than 0'')] else []))
     @ (if negative (co_updDelay c)
        then [(''spec.updateStrategy.operationDelaySeconds'', ''operationDelaySeconds should not be smaller than 0'')] else [])"

definition validateCls :: "cwenv \<Rightarrow> collaset \<Rightarrow> collaset option \<Rightarrow> fielderr list" where
  "validateCls E c old =
     validateReplicas c @ validatePodTemplateSpec E c @ validateSelector E c @ validateScaleStrategy c old @ validateUpdateStrategy c"

definition clsValidatingHandle :: "cwenv \<Rightarrow> admop \<Rightarrow> gerr + collaset \<Rightarrow> gerr + collaset \<Rightarrow> collaset response" where
  "clsValidatingHandle E opn decOld dec =
     (if opn = AdmDelete then Allowed
      else (case dec of
              Inl e \<Rightarrow> Errored 400 (errText e)
            | Inr c \<Rightarrow>
                (case (if opn = AdmUpdate then map_sum id (Some \<circ> SetDefaultPodSpec E) decOld else Inr None) of
                   Inl e \<Rightarrow> Errored 400 (''failed to unmarshal old object: '' @ errText e)
                 | Inr old \<Rightarrow>
                     (if validateCls E (SetDefaultPodSpec E c) old = [] then Allowed
                      else Invalid 422 (validateCls E (SetDefaultPodSpec E c) old)))))"

subsection \<open>What the generic controller sees\<close>

datatype xpolicy = XRecreate | XReplace | XInPlaceIfPossible | XInPlaceOnly

datatype xsuffix = XPersistentSequence | XRandom

record xsetSpec =
  xs_paused :: bool
  xs_replicas :: "int option"
  xs_selector :: "lselector option"
  xs_history :: int
  xs_policy :: xpolicy
  xs_rolling :: "updRolling option"
  xs_updDelay :: "int option"
  xs_toDelete :: "string list"
  xs_toExclude :: "string list"
  xs_toInclude :: "string list"
  xs_context :: string
  xs_scaleDelay :: "int option"
  xs_naming :: "xsuffix option"

fun xpolicyOf :: "updatePolicy \<Rightarrow> xpolicy" where
  "xpolicyOf RecreatePolicy = XRecreate"
| "xpolicyOf ReplacePolicy = XReplace"
| "xpolicyOf InPlaceIfPossiblePolicy = XInPlaceIfPossible"
| "xpolicyOf InPlaceOnlyPolicy = XInPlaceOnly"
| "xpolicyOf _ = XInPlaceIfPossible"

fun xsuffixOf :: "suffixPolicy \<Rightarrow> xsuffix" where
  "xsuffixOf PersistentSequence = XPersistentSequence"
| "xsuffixOf RandomSuffix = XRandom"
| "xsuffixOf _ = XRandom"

definition GetXSetSpec :: "collaset \<Rightarrow> xsetSpec" where
  "GetXSetSpec c =
     \<lparr>xs_paused = co_paused c, xs_replicas = co_replicas c, xs_selector = co_selector c, xs_history = co_history c,
      xs_policy = xpolicyOf (co_updPolicy c),
      xs_rolling = map_option (\<lambda>r. \<lparr>up_byLabel = up_byLabel r, up_byPartition = up_byPartition r\<rparr>) (co_rolling c),
      xs_updDelay = co_updDelay c, xs_toDelete = co_toDelete c, xs_toExclude = co_toExclude c, xs_toInclude = co_toInclude c,
      xs_context = co_context c, xs_scaleDelay = co_scaleDelay c, xs_naming = map_option xsuffixOf (co_naming c)\<rparr>"

text \<open>A condition of the generic controller has the generation it was observed at besides.\<close>

record xcond =
  xc_type :: string
  xc_status :: string
  xc_generation :: int
  xc_time :: int
  xc_reason :: string
  xc_msg :: string

record xsetStatus =
  xt_replicas :: int
  xt_ready :: int
  xt_updated :: int
  xt_operating :: int
  xt_terminating :: int
  xt_updatedReady :: int
  xt_available :: int
  xt_updatedAvailable :: int
  xt_scheduled :: int
  xt_conds :: "xcond list"
  xt_observed :: int
  xt_current :: string
  xt_updatedRev :: string
  xt_collision :: "int option"

definition convertClsConditionToMetaCondition :: "csCond list \<Rightarrow> xcond list" where
  "convertClsConditionToMetaCondition cs =
     map (\<lambda>c. \<lparr>xc_type = cx_type c, xc_status = cx_status c, xc_generation = 0, xc_time = cx_time c,
        xc_reason = cx_reason c, xc_msg = cx_msg c\<rparr>) cs"

definition convertMetaConditionToClsCondition :: "xcond list \<Rightarrow> csCond list" where
  "convertMetaConditionToClsCondition cs =
     map (\<lambda>c. \<lparr>cx_type = xc_type c, cx_status = xc_status c, cx_time = xc_time c, cx_reason = xc_reason c, cx_msg = xc_msg c\<rparr>) cs"

definition GetXSetStatus :: "collaset \<Rightarrow> xsetStatus" where
  "GetXSetStatus c =
     \<lparr>xt_replicas = co_curReplicas c, xt_ready = co_ready c, xt_updated = co_updatedReplicas c, xt_operating = co_operating c,
      xt_terminating = co_terminating c, xt_updatedReady = co_updatedReady c, xt_available = co_available c,
      xt_updatedAvailable = co_updatedAvailable c, xt_scheduled = co_scheduled c,
      xt_conds = convertClsConditionToMetaCondition (co_conds c), xt_observed = co_observed c, xt_current = co_current c,
      xt_updatedRev = co_updated c, xt_collision = co_collision c\<rparr>"

definition SetXSetStatus :: "collaset \<Rightarrow> xsetStatus \<Rightarrow> collaset" where
  "SetXSetStatus c s =
     c\<lparr>co_curReplicas := xt_replicas s, co_ready := xt_ready s, co_updatedReplicas := xt_updated s, co_operating := xt_operating s,
       co_terminating := xt_terminating s, co_updatedReady := xt_updatedReady s, co_available := xt_available s,
       co_updatedAvailable := xt_updatedAvailable s, co_scheduled := xt_scheduled s,
       co_conds := convertMetaConditionToClsCondition (xt_conds s), co_observed := xt_observed s, co_current := xt_current s,
       co_updated := xt_updatedRev s, co_collision := xt_collision s\<rparr>"

definition UpdateScaleStrategy :: "(collaset \<Rightarrow> 'w \<Rightarrow> (gerr + collaset) \<times> 'w) \<Rightarrow> collaset \<Rightarrow> string list \<Rightarrow> string list \<Rightarrow> string list
    \<Rightarrow> 'w \<Rightarrow> (gerr + collaset) \<times> 'w" where
  "UpdateScaleStrategy update c del exc inc w = update (c\<lparr>co_toDelete := del, co_toExclude := exc, co_toInclude := inc\<rparr>) w"

subsection \<open>Claims and resource contexts\<close>

definition IsPvcMountedOnPod :: "('w \<Rightarrow> string \<Rightarrow> gerr + pod list) \<Rightarrow> 'w \<Rightarrow> pvc \<Rightarrow> gerr + bool" where
  "IsPvcMountedOnPod pods w v =
     (case pods w (v_ns v) of
        Inl e \<Rightarrow> Inl (Err ''fail to list pod'')
      | Inr ps \<Rightarrow> Inr (list_ex (\<lambda>p. list_ex (\<lambda>(n, src). case src of OtherSource _ \<Rightarrow> False | Claim x \<Rightarrow> x \<noteq> [] \<and> v_name v = x)
          (p_volumes p)) ps))"

definition pvcValidatingHandle :: "('w \<Rightarrow> string \<Rightarrow> gerr + pod list) \<Rightarrow> 'w \<Rightarrow> admop \<Rightarrow> gerr + pvc \<times> string \<Rightarrow> pvc response" where
  "pvcValidatingHandle pods w opn decOld =
     (if opn = AdmDelete
      then (case decOld of
              Inl e \<Rightarrow> Errored 400 (''failed to unmarshal old object: '' @ errText e)
            | Inr (v, phase) \<Rightarrow>
                if phase = ''Pending''
                then (case IsPvcMountedOnPod pods w v of
                        Inl e \<Rightarrow> Errored 400 (errText e)
                      | Inr True \<Rightarrow> Denied ''failed to validate, delete pending mounted pvc is not allowed''
                      | Inr False \<Rightarrow> Allowed)
                else Allowed)
      else Allowed)"

definition validateOwner :: "rctx \<Rightarrow> fielderr list" where
  "validateOwner x =
     concat (map (\<lambda>d. case mget (cd_data d) ''Owner'' of
         None \<Rightarrow> []
       | Some ow \<Rightarrow> if ow \<noteq> rx_name x then [(''spec.data'', ''owner name is not match for resource context'')] else []) (rx_contexts x))"

definition ctxValidatingHandle :: "admop \<Rightarrow> gerr + rctx \<Rightarrow> rctx response" where
  "ctxValidatingHandle opn dec =
     (if opn = AdmDelete then Allowed
      else (case dec of
              Inl e \<Rightarrow> Errored 400 (errText e)
            | Inr x \<Rightarrow> (if validateOwner x = [] then Allowed else Invalid 400 (validateOwner x))))"

subsection \<open>What admission guarantees the generic controller\<close>

definition sameName :: "string list \<Rightarrow> string list \<Rightarrow> bool" where
  "sameName xs ys \<longleftrightarrow> set xs \<inter> set ys \<noteq> {}"

lemma overlap_iff: "overlap xs ys \<longleftrightarrow> sameName xs ys"
  by (auto simp: overlap_def sameName_def list_ex_iff)

text \<open>A spec whose numbers are not negative, which asks for one thing of a pod at a time, and which names no pods to include
  or exclude when the names are a sequence.\<close>

definition saneSpec :: "xsetSpec \<Rightarrow> bool" where
  "saneSpec s \<longleftrightarrow>
     (\<forall>n. xs_replicas s = Some n \<or> xs_updDelay s = Some n \<or> xs_scaleDelay s = Some n
        \<or> (\<exists>r. xs_rolling s = Some r \<and> up_byPartition r = Some (Some n)) \<longrightarrow> 0 \<le> n)
     \<and> set (xs_toDelete s) \<inter> set (xs_toExclude s) = {} \<and> set (xs_toDelete s) \<inter> set (xs_toInclude s) = {}
     \<and> set (xs_toExclude s) \<inter> set (xs_toInclude s) = {}
     \<and> (xs_naming s = Some XPersistentSequence \<longrightarrow> xs_toExclude s = [] \<and> xs_toInclude s = [])"

lemma negative_False [simp]: "\<not> negative x \<longleftrightarrow> (\<forall>n. x = Some n \<longrightarrow> 0 \<le> n)"
  by (auto simp: negative_def split: option.splits)

lemma podSpec_fields [simp]:
  "co_replicas (SetDefaultPodSpec E c) = co_replicas c" "co_selector (SetDefaultPodSpec E c) = co_selector c"
  "co_tmplLabels (SetDefaultPodSpec E c) = co_tmplLabels c" "co_context (SetDefaultPodSpec E c) = co_context c"
  "co_naming (SetDefaultPodSpec E c) = co_naming c" "GetXSetSpec (SetDefaultPodSpec E c) = GetXSetSpec c"
  "validateScaleStrategyPodList (SetDefaultPodSpec E c) = validateScaleStrategyPodList c"
  "validateUpdateStrategy (SetDefaultPodSpec E c) = validateUpdateStrategy c"
  by (simp_all add: SetDefaultPodSpec_def GetXSetSpec_def validateScaleStrategyPodList_def validateUpdateStrategy_def)

lemma cls_allowed:
  assumes "clsValidatingHandle E opn decOld (Inr c) = Allowed" and "opn \<noteq> AdmDelete"
  obtains old where "validateCls E (SetDefaultPodSpec E c) old = []"
    and "opn = AdmUpdate \<longrightarrow> (\<exists>c0. decOld = Inr c0 \<and> old = Some (SetDefaultPodSpec E c0))"
  using assms by (auto simp: clsValidatingHandle_def split: if_splits sum.splits; cases decOld; fastforce)

lemma validated_spec:
  assumes "validateCls E c old = []"
  shows "saneSpec (GetXSetSpec c)"
proof -
  note v = assms [unfolded validateCls_def]
  have rep: "\<not> negative (co_replicas c)" using v by (auto simp: validateReplicas_def split: if_splits)
  have sc: "\<not> negative (co_scaleDelay c)" using v by (auto simp: validateScaleStrategy_def split: if_splits)
  have nam: "co_naming c = Some PersistentSequence \<longrightarrow> co_toExclude c = [] \<and> co_toInclude c = []"
    using v by (auto simp: validateScaleStrategy_def split: if_splits)
  have dis: "\<not> sameName (co_toExclude c) (co_toInclude c) \<and> \<not> sameName (co_toDelete c) (co_toInclude c)
      \<and> \<not> sameName (co_toDelete c) (co_toExclude c)"
    using v by (auto simp: validateScaleStrategy_def validateScaleStrategyPodList_def overlap_iff split: if_splits)
  have upd: "\<not> negative (co_updDelay c)" using v by (auto simp: validateUpdateStrategy_def split: if_splits)
  have roll: "\<not> negative n" if "co_rolling c = Some r" "up_byPartition r = Some n" for r n
    using v that by (auto simp: validateUpdateStrategy_def split: if_splits)
  have suffix: "xsuffixOf x = XPersistentSequence \<longleftrightarrow> x = PersistentSequence" for x by (cases x) auto
  show ?thesis
    using rep sc nam dis upd roll by (auto simp: saneSpec_def GetXSetSpec_def sameName_def suffix) 
qed

lemma allowed_cls:
  assumes "clsValidatingHandle E opn decOld (Inr c) = Allowed" and "opn \<noteq> AdmDelete"
  shows "saneSpec (GetXSetSpec c)"
    and "\<exists>sel f. co_selector c = Some sel \<and> cw_parse E (Some sel) = Inr f \<and> f (co_tmplLabels c)"
    and "co_updPolicy c \<notin> {NoUpdatePolicy, OtherUpdatePolicy} \<and> co_naming c \<notin> {Some NoSuffixPolicy, Some OtherSuffixPolicy}"
    and "opn = AdmUpdate \<longrightarrow> (\<exists>c0. decOld = Inr c0 \<and> co_context c0 = co_context c)"
proof -
  obtain old where v: "validateCls E (SetDefaultPodSpec E c) old = []"
    and old: "opn = AdmUpdate \<longrightarrow> (\<exists>c0. decOld = Inr c0 \<and> old = Some (SetDefaultPodSpec E c0))"
    using cls_allowed [OF assms] by blast
  show "saneSpec (GetXSetSpec c)" using validated_spec [OF v] by simp
  show "\<exists>sel f. co_selector c = Some sel \<and> cw_parse E (Some sel) = Inr f \<and> f (co_tmplLabels c)"
    using v by (auto simp: validateCls_def validateSelector_def split: option.splits if_splits sum.splits)
  have "validateUpdateStrategy c = []" "validateScaleStrategy (SetDefaultPodSpec E c) old = []" using v by (auto simp: validateCls_def)
  then show "co_updPolicy c \<notin> {NoUpdatePolicy, OtherUpdatePolicy} \<and> co_naming c \<notin> {Some NoSuffixPolicy, Some OtherSuffixPolicy}"
    by (auto simp: validateUpdateStrategy_def validateScaleStrategy_def split: if_splits)
  show "opn = AdmUpdate \<longrightarrow> (\<exists>c0. decOld = Inr c0 \<and> co_context c0 = co_context c)"
    using old \<open>validateScaleStrategy (SetDefaultPodSpec E c) old = []\<close> by (auto simp: validateScaleStrategy_def split: if_splits)
qed

text \<open>C33: What an admitted CollaSet asks of the generic controller is sane: no number is negative, no pod is named for two
  things, and a sequence of names comes with no pods to include or exclude; its selector parses and selects its own template; its
  update policy is one that the controller knows; and an update keeps the name of the context.\<close>

theorem admitted_collaset_is_sane:
  assumes "clsValidatingHandle E opn decOld (Inr c) = Allowed" and "opn \<noteq> AdmDelete"
  shows "saneSpec (GetXSetSpec c)
    \<and> (\<exists>sel f. co_selector c = Some sel \<and> cw_parse E (Some sel) = Inr f \<and> f (co_tmplLabels c))
    \<and> co_updPolicy c \<notin> {NoUpdatePolicy, OtherUpdatePolicy} \<and> co_naming c \<notin> {Some NoSuffixPolicy, Some OtherSuffixPolicy}
    \<and> (opn = AdmUpdate \<longrightarrow> (\<exists>c0. decOld = Inr c0 \<and> co_context c0 = co_context c))"
  using allowed_cls [OF assms] by blast

lemma csCond_eta [simp]: "\<lparr>cx_type = cx_type x, cx_status = cx_status x, cx_time = cx_time x, cx_reason = cx_reason x, cx_msg = cx_msg x\<rparr> = x"
  by simp

text \<open>The generic controller reads back the status that it stored, except that the generations of the conditions are
  lost, and storing the status that it read changes nothing.\<close>

theorem status_read_back:
  "GetXSetStatus (SetXSetStatus c s) = s\<lparr>xt_conds := map (\<lambda>x. x\<lparr>xc_generation := 0\<rparr>) (xt_conds s)\<rparr>
    \<and> SetXSetStatus c (GetXSetStatus c) = c \<and> GetXSetSpec (SetXSetStatus c s) = GetXSetSpec c"
  by (simp_all add: GetXSetStatus_def SetXSetStatus_def GetXSetSpec_def convertClsConditionToMetaCondition_def
    convertMetaConditionToClsCondition_def o_def csCond_eta cong: map_cong)

end
