(* ===== verification/DecorationWebhook.thy ===== *)
theory DecorationWebhook
  imports DecorationPatchProps Admission
begin

text \<open>
  The webhooks of PodDecorations, \<^verbatim>\<open>pkg/webhook/server/generic/poddecoration\<close>: the defaults and the checks.
  The conversions and checks of Kubernetes are parameters (\<open>dwenv\<close>); \<open>dw_mount\<close> reads the path, the
  sub-path and its expression out of the rest of a volume mount.
\<close>

record dwenv =
  dw_mount :: "string \<Rightarrow> string \<times> string \<times> string"
  dw_volDefaults :: "(string \<times> vsource) list \<Rightarrow> (string \<times> vsource) list"
  dw_annoErrs :: "string gomap \<Rightarrow> fielderr list"
  dw_convContainer :: "container \<Rightarrow> gerr option"
  dw_convVolume :: "string \<times> vsource \<Rightarrow> gerr option"
  dw_volumeErrs :: "(string \<times> vsource) list \<Rightarrow> fielderr list"
  dw_convToleration :: "string \<times> string \<Rightarrow> gerr option"
  dw_tolerationErrs :: "(string \<times> string) list \<Rightarrow> fielderr list"
  dw_convEnv :: "string \<times> string \<Rightarrow> gerr option"
  dw_envErrs :: "(string \<times> string) list \<Rightarrow> fielderr list"

subsection \<open>Defaults\<close>

text \<open>The history limit is not a field of the model.\<close>

definition SetDefaultPodDecoration :: "pdeco \<Rightarrow> pdeco" where
  "SetDefaultPodDecoration pd =
     (let t = dc_template pd;
          w = (case dc_weight pd of None \<Rightarrow> Some 0 | Some x \<Rightarrow> Some x);
          ms = map (\<lambda>m. if mp_policy m = NoMetaPolicy then m\<lparr>mp_policy := RetainMetadata\<rparr> else m) (te_meta t);
          cs = map (\<lambda>c. if cp_policy c = NoInjectPolicy then c\<lparr>cp_policy := BeforePrimaryContainer\<rparr> else c) (te_containers t);
          ps = map (\<lambda>p. if pp_policy p = NoTargetPolicy then p\<lparr>pp_policy := InjectAllContainers\<rparr> else p) (te_primary t)
      in pd\<lparr>dc_weight := w, dc_template := t\<lparr>te_meta := ms, te_containers := cs, te_primary := ps\<rparr>\<rparr>)"

definition decoMutatingHandle :: "admop \<Rightarrow> gerr + pdeco \<Rightarrow> pdeco response" where
  "decoMutatingHandle opn dec =
     (if opn \<noteq> AdmUpdate \<and> opn \<noteq> AdmCreate then Allowed
      else (case dec of Inl e \<Rightarrow> Errored 400 (errText e) | Inr pd \<Rightarrow> Patched (SetDefaultPodDecoration pd)))"

subsection \<open>Validation\<close>

definition validatePathNoBacksteps :: "string \<Rightarrow> fielderr list" where
  "validatePathNoBacksteps p =
     (if list_ex (\<lambda>x. x = ''..'') (splitOn (CHR ''/'') p) then [(''path'', ''must not contain '' @ [CHR 0x27] @ ''..'' @ [CHR 0x27])] else [])"

definition validateLocalDescendingPath :: "string \<Rightarrow> fielderr list" where
  "validateLocalDescendingPath p =
     (if hasPrefix p ''/'' then [(''path'', ''must be a relative path'')] else []) @ validatePathNoBacksteps p"

definition mountErrs :: "dwenv \<Rightarrow> string \<times> string \<Rightarrow> fielderr list" where
  "mountErrs E vm =
     (let (path, sub, expr) = dw_mount E (snd vm)
      in (if fst vm = [] then [(''volumeMounts.name'', ''Required value'')] else [])
         @ (if path = [] then [(''volumeMounts.mountPath'', ''Required value'')] else [])
         @ (if sub \<noteq> [] then validateLocalDescendingPath sub else [])
         @ (if expr \<noteq> []
            then (if sub \<noteq> [] then [(''volumeMounts.subPathExpr'', ''subPathExpr and subPath are mutually exclusive'')] else [])
                 @ validateLocalDescendingPath expr
            else []))"

definition convErrs :: "('a \<Rightarrow> gerr option) \<Rightarrow> 'a list \<Rightarrow> fielderr list" where
  "convErrs conv xs = concat (map (\<lambda>x. case conv x of None \<Rightarrow> [] | Some e \<Rightarrow> [(''Internal error'', errText e)]) xs)"

definition ValidatePrimaryContainer :: "dwenv \<Rightarrow> primaryPatch \<Rightarrow> fielderr list" where
  "ValidatePrimaryContainer E p =
     (if pp_policy p = InjectByName \<and> pp_name p = None
      then [(''name'', ''target name cannot be empty if targetPolicy=ByName'')] else [])
     @ concat (map (mountErrs E) (pp_mounts p))
     @ (if pp_env p \<noteq> [] then convErrs (dw_convEnv E) (pp_env p) @ dw_envErrs E (pp_env p) else [])"

definition ValidatePrimaryContainers :: "dwenv \<Rightarrow> primaryPatch list \<Rightarrow> fielderr list" where
  "ValidatePrimaryContainers E ps = concat (map (ValidatePrimaryContainer E) ps)"

definition ValidatePodDecorationPodTemplateMeta :: "dwenv \<Rightarrow> metaPatch list \<Rightarrow> fielderr list" where
  "ValidatePodDecorationPodTemplateMeta E ms =
     concat (map (\<lambda>m. (if mp_policy m = MergePatchJsonMetadata \<and> mp_labels m \<noteq> []
         then [(''labels'', ''patchPolicy MergePatchJson is only effective for annotations'')] else []) @ dw_annoErrs E (mp_annos m)) ms)"

definition ValidateContainers :: "dwenv \<Rightarrow> container list \<Rightarrow> fielderr list" where
  "ValidateContainers E cs = convErrs (dw_convContainer E) cs"

definition ValidateVolumes :: "dwenv \<Rightarrow> (string \<times> vsource) list \<Rightarrow> fielderr list" where
  "ValidateVolumes E vs = convErrs (dw_convVolume E) vs @ dw_volumeErrs E vs"

definition ValidateTolerations :: "dwenv \<Rightarrow> (string \<times> string) list \<Rightarrow> fielderr list" where
  "ValidateTolerations E ts = convErrs (dw_convToleration E) ts @ dw_tolerationErrs E ts"

text \<open>The defaults of the volumes are set in place before they are checked.\<close>

definition ValidateTemplate :: "dwenv \<Rightarrow> template \<Rightarrow> fielderr list" where
  "ValidateTemplate E t =
     (let vs = dw_volDefaults E (te_volumes t)
      in ValidatePrimaryContainers E (te_primary t) @ ValidatePodDecorationPodTemplateMeta E (te_meta t)
         @ ValidateContainers E (te_init t) @ ValidateVolumes E vs @ ValidateTolerations E (te_tolerations t))"

definition ValidatePodDecoration :: "dwenv \<Rightarrow> pdeco \<Rightarrow> fielderr list" where
  "ValidatePodDecoration E pd = ValidateTemplate E (dc_template pd)"

definition decoValidatingHandle :: "dwenv \<Rightarrow> admop \<Rightarrow> gerr + pdeco \<Rightarrow> pdeco response" where
  "decoValidatingHandle E opn dec =
     (if opn \<noteq> AdmUpdate \<and> opn \<noteq> AdmCreate then Allowed
      else (case dec of
              Inl e \<Rightarrow> Errored 400 (errText e)
            | Inr pd \<Rightarrow> (if ValidatePodDecoration E pd = [] then Allowed else Rejected (ValidatePodDecoration E pd))))"

subsection \<open>What admission guarantees the patches\<close>

lemma splitOn_sep: "splitOn c (a @ c # b) = splitOn c a @ splitOn c b"
proof (induction a)
  case (Cons x a)
  then show ?case by (cases "splitOn c a") auto
qed simp

text \<open>A path goes back if one of its steps is two dots.\<close>

definition goesBack :: "string \<Rightarrow> bool" where
  "goesBack p \<longleftrightarrow> (\<exists>a b. p = a @ ''..'' @ b \<and> (a = [] \<or> last a = CHR ''/'') \<and> (b = [] \<or> hd b = CHR ''/''))"

lemma goesBack_split: "goesBack p \<Longrightarrow> ''..'' \<in> set (splitOn (CHR ''/'') p)"
proof -
  assume "goesBack p"
  then obtain a b where p: "p = a @ ''..'' @ b" and a: "a = [] \<or> last a = CHR ''/''" and b: "b = [] \<or> hd b = CHR ''/''"
    by (auto simp: goesBack_def)
  have tail: "''..'' \<in> set (splitOn (CHR ''/'') (''..'' @ b))"
  proof (cases b)
    case (Cons x b')
    then show ?thesis using b splitOn_append [of "CHR ''/''" "''..''" b'] by simp
  qed simp
  show ?thesis
  proof (cases "a = []")
    case False
    then have "a = butlast a @ [CHR ''/'']" using a by (metis append_butlast_last_id)
    then have "splitOn (CHR ''/'') p = splitOn (CHR ''/'') (butlast a) @ splitOn (CHR ''/'') (''..'' @ b)"
      using p splitOn_sep [of "CHR ''/''" "butlast a" "''..'' @ b"] by (metis append.assoc append_Cons append_Nil)
    then show ?thesis using tail by simp
  qed (use tail p in simp)
qed

lemma descending: "validateLocalDescendingPath p = [] \<Longrightarrow> \<not> hasPrefix p ''/'' \<and> \<not> goesBack p"
  using goesBack_split [of p]
  by (auto simp: validateLocalDescendingPath_def validatePathNoBacksteps_def list_ex_iff split: if_splits)

lemma mount_checked:
  assumes "mountErrs E vm = []" and "dw_mount E (snd vm) = (path, sub, expr)"
  shows "fst vm \<noteq> [] \<and> path \<noteq> [] \<and> (sub = [] \<or> expr = [])
    \<and> (\<forall>s. (s = sub \<or> s = expr) \<longrightarrow> \<not> hasPrefix s ''/'' \<and> \<not> goesBack s)"
proof -
  have empty: "\<not> hasPrefix [] ''/''" "\<not> goesBack []" by (auto simp: hasPrefix_def goesBack_def)
  show ?thesis
    using assms empty descending [of sub] descending [of expr] by (auto simp: mountErrs_def split: if_splits)
qed

lemma allowed_primary:
  assumes "decoValidatingHandle E opn (Inr pd) = Allowed" and "opn \<in> {AdmCreate, AdmUpdate}"
    and "p \<in> set (te_primary (dc_template pd))"
  shows "pp_policy p = InjectByName \<longrightarrow> pp_name p \<noteq> None" and "m \<in> set (pp_mounts p) \<Longrightarrow> mountErrs E m = []"
proof -
  have v: "ValidatePrimaryContainer E p = []"
    using assms by (auto simp: decoValidatingHandle_def ValidatePodDecoration_def ValidateTemplate_def Let_def
      ValidatePrimaryContainers_def split: if_splits)
  show "pp_policy p = InjectByName \<longrightarrow> pp_name p \<noteq> None"
    using v by (auto simp: ValidatePrimaryContainer_def split: if_splits)
  show "m \<in> set (pp_mounts p) \<Longrightarrow> mountErrs E m = []" using v by (auto simp: ValidatePrimaryContainer_def)
qed

text \<open>C35: The mounts that an admitted decoration adds to containers stay inside their volume: each has a name and a path, and
  neither its sub-path nor its expression, of which at most one is set, is absolute or steps back.  A patch by name has a name.\<close>

theorem admitted_mounts_stay_inside:
  assumes "decoValidatingHandle E opn (Inr pd) = Allowed" and "opn \<in> {AdmCreate, AdmUpdate}"
    and "p \<in> set (te_primary (dc_template pd))" and "(n, x) \<in> set (pp_mounts p)" and "dw_mount E x = (path, sub, expr)"
  shows "n \<noteq> [] \<and> path \<noteq> [] \<and> (sub = [] \<or> expr = [])
    \<and> \<not> hasPrefix sub ''/'' \<and> \<not> goesBack sub \<and> \<not> hasPrefix expr ''/'' \<and> \<not> goesBack expr
    \<and> \<not> (pp_policy p = InjectByName \<and> pp_name p = None)"
  using mount_checked [OF allowed_primary(2) [OF assms(1-4)]] allowed_primary(1) [OF assms(1-3)] assms(5) by simp

subsection \<open>What the defaults do to the patches\<close>

lemma defaulted_fields [simp]:
  "te_init (dc_template (SetDefaultPodDecoration pd)) = te_init (dc_template pd)"
  "te_volumes (dc_template (SetDefaultPodDecoration pd)) = te_volumes (dc_template pd)"
  "dc_name (SetDefaultPodDecoration pd) = dc_name pd"
  by (simp_all add: SetDefaultPodDecoration_def Let_def)

lemma defaulted_weight: "dc_weight (SetDefaultPodDecoration pd) \<noteq> None"
  by (simp add: SetDefaultPodDecoration_def Let_def split: option.split)

lemma defaults_stay: "SetDefaultPodDecoration (SetDefaultPodDecoration pd) = SetDefaultPodDecoration pd"
  by (simp add: SetDefaultPodDecoration_def Let_def o_def split: option.split)

lemma defaulted_containers:
  "te_containers (dc_template (SetDefaultPodDecoration pd)) =
     map (\<lambda>c. if cp_policy c = NoInjectPolicy then c\<lparr>cp_policy := BeforePrimaryContainer\<rparr> else c) (te_containers (dc_template pd))"
  by (simp add: SetDefaultPodDecoration_def Let_def)

text \<open>Decorations of different names that have been through the defaults have one order: whatever sorting routine Go
  uses and in whatever order it visits the map, they are patched in the same order, that of their weights and names.\<close>

theorem defaulted_decorations_have_one_order:
  assumes "sort_ok srt" and "sort_ok srt'" and "mset xs = mset ys" and "distinct (map dc_name xs)"
  shows "srt lessPD (map SetDefaultPodDecoration xs) = srt' lessPD (map SetDefaultPodDecoration ys)
    \<and> sorted_wrt (\<lambda>a b. \<not> lessPD b a) (srt lessPD (map SetDefaultPodDecoration xs))"
proof -
  let ?xs = "map SetDefaultPodDecoration xs"
  have w: "dc_weight a \<noteq> None" if "a \<in> set ?xs" for a using that defaulted_weight unfolding set_map by blast
  have sw: "strict_weak_on (set ?xs) lessPD"
    by (rule lessPD_strict_weak) (use w in blast)
  have tot: "lessPD a b \<or> lessPD b a" if ab: "a \<in> set ?xs" "b \<in> set ?xs" "a \<noteq> b" for a b
  proof -
    obtain x y where x: "a = SetDefaultPodDecoration x" "x \<in> set xs" and y: "b = SetDefaultPodDecoration y" "y \<in> set xs"
      using ab(1,2) unfolding set_map by blast
    moreover have "inj_on dc_name (set xs)" using assms(4) by (simp add: distinct_map)
    ultimately have "dc_name x \<noteq> dc_name y" using ab(3) by (auto dest: inj_onD)
    then have "dc_name a \<noteq> dc_name b" by (simp add: x(1) y(1))
    moreover have "dc_weight a \<noteq> None" using ab(1) w by blast
    moreover have "dc_weight b \<noteq> None" using ab(2) w by blast
    ultimately show ?thesis by (auto simp: lessPD_def split: option.splits)
  qed
  have "srt lessPD ?xs = srt' lessPD (map SetDefaultPodDecoration ys)"
    by (rule sort_unique [OF assms(1,2) sw _ tot]) (simp_all add: assms(3))
  moreover have "sorted_wrt (\<lambda>a b. \<not> lessPD b a) (srt lessPD ?xs)" by (rule sort_sorted [OF assms(1) sw])
  ultimately show ?thesis by blast
qed

end
