(* ===== verification/PodWebhook.thy ===== *)
theory PodWebhook
  imports LifecycleWebhook PodDeletion Admission
begin

text \<open>
  The handlers of pods, \<^verbatim>\<open>pkg/webhook/server/generic/pod/pod_mutating_handler.go\<close> and
  \<^verbatim>\<open>pod_validating_handler.go\<close>: they run the webhook of the lifecycle and that of the graceful deletion,
  one after the other.  A panic of a webhook is the panic of the handler.
\<close>

record ('w) pwenv =
  pw_api :: api
  pw_stamp :: "string \<Rightarrow> string"
  pw_enabled :: bool
  pw_graceAnno :: string
  pw_now :: int
  pw_stampNow :: string
  pw_client :: "'w client"

definition oldOf :: "operation \<Rightarrow> gerr + pod \<Rightarrow> gerr + pod option" where
  "oldOf opn decOld = (if opn = OpUpdate \<or> opn = OpDelete then map_sum id Some decOld else Inr None)"

definition podMutatingHandle :: "'w pwenv \<Rightarrow> string \<Rightarrow> operation \<Rightarrow> gerr + pod \<Rightarrow> gerr + pod \<Rightarrow> gerr + pod response" where
  "podMutatingHandle E kind opn decOld dec =
     (if kind \<noteq> ''Pod'' then Inr (NoPatch ''invalid kind'')
      else if opn \<noteq> OpCreate \<and> opn \<noteq> OpUpdate then Inr (NoPatch ''not Create or Update'')
      else (case dec of
              Inl e \<Rightarrow> Inr (Errored 400 (errText e))
            | Inr p \<Rightarrow>
                (case oldOf opn decOld of
                   Inl e \<Rightarrow> Inr (Errored 400 (''fail to unmarshal old object: '' @ errText e))
                 | Inr old \<Rightarrow>
                     (case Mutating (pw_api E) (pw_stamp E) old p opn of
                        Inl (Panic m) \<Rightarrow> Inl (Panic m)
                      | Inl e \<Rightarrow> Inr (Errored 500 (errText e))
                      | Inr p1 \<Rightarrow> Inr (Patched p1)))))"

text \<open>A request to delete carries no new object; the handler hands the empty one on, and the lifecycle webhook admits it without a look.
  Without an old object only a deletion reads it.\<close>

definition podValidatingHandle :: "'w pwenv \<Rightarrow> operation \<Rightarrow> gerr + pod \<Rightarrow> gerr + pod \<Rightarrow> 'w \<Rightarrow> (gerr + pod response) \<times> 'w" where
  "podValidatingHandle E opn decOld dec w =
     (case (if opn = OpDelete then Inr () else map_sum id (\<lambda>_. ()) dec) of
        Inl e \<Rightarrow> (Inr (Errored 400 (''failed to decode old object from request: '' @ errText e)), w)
      | Inr _ \<Rightarrow>
          (case oldOf opn decOld of
             Inl e \<Rightarrow> (Inr (Errored 400 (''failed to unmarshal old object: '' @ errText e)), w)
           | Inr old \<Rightarrow>
               (case (if opn = OpDelete then Inr () else (case dec of Inl e \<Rightarrow> Inl e | Inr p \<Rightarrow> Validating (pw_api E) p opn)) of
                  Inl (Panic m) \<Rightarrow> (Inl (Panic m), w)
                | Inl e \<Rightarrow> (Inr (Denied (''failed to validate PodOpsLifecycleWebhook, '' @ errText e)), w)
                | Inr _ \<Rightarrow>
                    (case old of
                       None \<Rightarrow> (Inr Allowed, w)
                     | Some o1 \<Rightarrow>
                         (case GraceValidating (pw_api E) (pw_enabled E) (pw_graceAnno E) (pw_now E) (pw_stampNow E) (pw_client E) o1
                                 (if opn = OpDelete then DopDelete else DopOther) w of
                            (Some e, w1) \<Rightarrow> (Inr (Denied (''failed to validate GraceDeleteWebhook, '' @ errText e)), w1)
                          | (None, w1) \<Rightarrow> (Inr Allowed, w1))))))"

subsection \<open>Which deletions are admitted\<close>

lemma validating_delete:
  "podValidatingHandle E OpDelete (Inr old) dec w =
     (case GraceValidating (pw_api E) (pw_enabled E) (pw_graceAnno E) (pw_now E) (pw_stampNow E) (pw_client E) old DopDelete w of
        (Some e, w1) \<Rightarrow> (Inr (Denied (''failed to validate GraceDeleteWebhook, '' @ errText e)), w1)
      | (None, w1) \<Rightarrow> (Inr Allowed, w1))"
  by (simp add: podValidatingHandle_def oldOf_def)

text \<open>C30: The handler of pods admits the deletion of a pod under control that has the readiness gate, with the feature switched
  on, exactly when the deletion lifecycle is under way and the webhook of the lifecycle has granted it; then nothing is written.\<close>

theorem pod_deletion_needs_grant:
  assumes "api_server (pw_client E) objs" and "pw_enabled E" and "ControlledByKusionStack (pw_api E) old"
    and "svcReadyGate (pw_api E) \<in> set (p_gates old)"
    and "podValidatingHandle E OpDelete (Inr old) dec w = (r, w')"
  shows "(r = Inr Allowed \<longleftrightarrow> IsDuringOps (pw_api E) (PodDeleteOpsLifecycleAdapter (pw_api E) (pw_stampNow E)) old
      \<and> mhas (p_labels old) (key (pw_api E) POperate ''pod-delete''))
    \<and> (r = Inr Allowed \<longrightarrow> w' = w) \<and> (\<forall>k. k \<noteq> controllerKey old \<longrightarrow> objs w' k = objs w k)"
proof -
  obtain e w1 where g: "GraceValidating (pw_api E) (pw_enabled E) (pw_graceAnno E) (pw_now E) (pw_stampNow E) (pw_client E)
      old DopDelete w = (e, w1)" by fastforce
  have "w' = w1" "r = Inr Allowed \<longleftrightarrow> e = None" using assms(5) g by (auto simp: validating_delete split: option.splits)
  moreover have "\<forall>k. k \<noteq> controllerKey old \<longrightarrow> objs w1 k = objs w k" using grace_delete_decides [OF assms(1) g] by auto
  ultimately show ?thesis using grace_delete_decides [OF assms(1) g] assms(2-4) by blast
qed

end
