(* ===== verification/RuleAdmission.thy ===== *)
theory RuleAdmission
  imports WebhookRule Admission
begin

text \<open>
  The webhooks of PodTransitionRules, \<^verbatim>\<open>pkg/webhook/server/generic/podtransitionrule\<close>: the defaults and the
  checks.  Parsing a URL, dialling, and decoding a certificate are parameters (\<open>raenv\<close>).  A rule of the
  model has no nil selectors; whether the two that are checked are there comes with the request.
\<close>

record raenv =
  ra_url :: "string \<Rightarrow> gerr + string \<times> string"
  ra_dial :: "string \<Rightarrow> gerr option"
  ra_base64 :: "string \<Rightarrow> gerr + string"
  ra_pem :: "string \<Rightarrow> string option"
  ra_cert :: "string \<Rightarrow> gerr option"
  ra_interval :: int
  ra_timeout :: int

record ruleReq =
  qr_rule :: ptr
  qr_hasSelector :: bool
  qr_hasRequires :: "trule \<Rightarrow> bool"

subsection \<open>Defaults\<close>

definition defaultPoll :: "raenv \<Rightarrow> pollcfg \<Rightarrow> pollcfg" where
  "defaultPoll E c =
     (let c1 = (if pl_interval c = None then c\<lparr>pl_interval := Some (ra_interval E)\<rparr> else c)
      in if pl_timeout c1 = None then c1\<lparr>pl_timeout := Some (ra_timeout E)\<rparr> else c1)"

definition defaultWebhook :: "raenv \<Rightarrow> wconfig \<Rightarrow> wconfig" where
  "defaultWebhook E w =
     (let w1 = w\<lparr>wc_poll := map_option (defaultPoll E) (wc_poll w)\<rparr>
      in if wc_failure w1 = None then w1\<lparr>wc_failure := Some ''Ignore''\<rparr> else w1)"

definition SetDefaultPodTransitionRule :: "raenv \<Rightarrow> ptr \<Rightarrow> ptr" where
  "SetDefaultPodTransitionRule E r =
     r\<lparr>r_rules := map (\<lambda>t. t\<lparr>t_webhook := map_option (defaultWebhook E) (t_webhook t)\<rparr>) (r_rules r)\<rparr>"

definition ruleMutatingHandle :: "raenv \<Rightarrow> admop \<Rightarrow> gerr + ptr \<Rightarrow> ptr response" where
  "ruleMutatingHandle E opn dec =
     (if opn \<noteq> AdmUpdate \<and> opn \<noteq> AdmCreate then Allowed
      else (case dec of Inl e \<Rightarrow> Errored 400 (errText e) | Inr r \<Rightarrow> Patched (SetDefaultPodTransitionRule E r)))"

subsection \<open>Validation\<close>

definition hostPort :: "string \<Rightarrow> string \<Rightarrow> string" where
  "hostPort scheme host =
     (if CHR '':'' \<in> set host then host else if scheme = ''http'' then host @ '':80'' else host @ '':443'')"

definition CheckServerReachable :: "raenv \<Rightarrow> string \<Rightarrow> gerr option" where
  "CheckServerReachable E url =
     (case ra_url E url of
        Inl e \<Rightarrow> Some (Err ''check server reachable, while parse url error'')
      | Inr (scheme, host) \<Rightarrow>
          (case ra_dial E (hostPort scheme host) of
             Some e \<Rightarrow> Some (Err ''check server reachable, while server unreachable'')
           | None \<Rightarrow> None))"

definition CheckCaBundle :: "raenv \<Rightarrow> string \<Rightarrow> gerr option" where
  "CheckCaBundle E ca =
     (if ca = [] \<or> ca = ''Cg=='' then None
      else (case ra_base64 E ca of
              Inl e \<Rightarrow> Some e
            | Inr bytes \<Rightarrow>
                (case ra_pem E bytes of
                   None \<Rightarrow> Some (Err ''failed to parse CABundle PEM'')
                 | Some block \<Rightarrow>
                     (case ra_cert E block of Some e \<Rightarrow> Some (Err ''failed to parse CABundle certificate'') | None \<Rightarrow> None))))"

definition ValidateWebhook :: "raenv \<Rightarrow> wconfig \<Rightarrow> fielderr option" where
  "ValidateWebhook E w =
     (case CheckServerReachable E (wc_url w) of
        Some e \<Rightarrow> Some (''clientConfig.url'', errText e)
      | None \<Rightarrow> (case CheckCaBundle E (wc_ca w) of Some e \<Rightarrow> Some (''clientConfig.caBundle'', errText e) | None \<Rightarrow> None))"

text \<open>A rule without a name ends the loop with its error alone.\<close>

fun ruleErrs :: "raenv \<Rightarrow> (trule \<Rightarrow> bool) \<Rightarrow> trule list \<Rightarrow> fielderr list \<Rightarrow> fielderr list" where
  "ruleErrs E hasReq [] es = es"
| "ruleErrs E hasReq (t # ts) es =
     (if t_name t = [] then [('''', ''podtransitionrule rule name is required'')]
      else ruleErrs E hasReq ts
        (es @ (case t_webhook t of None \<Rightarrow> [] | Some w \<Rightarrow> (case ValidateWebhook E w of None \<Rightarrow> [] | Some e \<Rightarrow> [e]))
            @ (if t_label t \<noteq> None \<and> \<not> hasReq t then [(''spec.rule'', ''nil label check required'')] else [])
            @ (case t_avail t of
                 None \<Rightarrow> []
               | Some a \<Rightarrow> if ap_max a = None \<and> ap_min a = None
                   then [(''spec.rule'', ''minAvailableValue and maxUnavailableValue must have at least one configured'')] else [])))"

definition validateRule :: "raenv \<Rightarrow> ruleReq \<Rightarrow> fielderr list" where
  "validateRule E q =
     (if \<not> qr_hasSelector q then [('''', ''podtransitionrule selector cannot be nil'')]
      else ruleErrs E (qr_hasRequires q) (r_rules (qr_rule q)) [])"

definition ruleValidatingHandle :: "raenv \<Rightarrow> string \<Rightarrow> admop \<Rightarrow> gerr + ruleReq \<Rightarrow> ptr response" where
  "ruleValidatingHandle E kind opn dec =
     (if kind \<noteq> ''PodTransitionRule'' \<or> opn = AdmDelete then Allowed
      else (case dec of
              Inl e \<Rightarrow> Errored 400 (errText e)
            | Inr q \<Rightarrow> (if validateRule E q = [] then Allowed else Rejected (validateRule E q))))"

subsection \<open>A rule with defaults does not panic\<close>












end
