(* ===== verification/InPlaceUpdate.thy ===== *)
theory InPlaceUpdate
  imports DecorationGetter DecorationPatch
begin

text \<open>
  The in-place updater of CollaSets, \<^verbatim>\<open>pkg/controllers/collaset/pod_updater.go\<close>: whether a pod can be
  updated without recreating it, what is recorded on it, the update itself, and when it has finished.

  The package kube-xset builds a pod from a revision, recreates one and keeps the expectations, Kubernetes computes and
  applies strategic merge patches, and \<open>encoding/json\<close> writes the state of the containers: they are the fields of
  \<open>upenv\<close>.  The function that \<open>up_new\<close> applies to a new pod decorates it and works on the store of
  affinities, as \<open>DecorationPatch\<close> does.  Maps and slices that are nil or empty are the same value.
\<close>

record contState =
  cn_image :: string
  cn_imageID :: string

text \<open>\<open>PodStatus\<close>; \<open>None\<close> is a nil map.\<close>

type_synonym podLast = "contState gomap option"

record updInfo =
  ui_object :: pod
  ui_id :: string
  ui_curRev :: crevision
  ui_updRev :: crevision
  ui_decCurrent :: string
  ui_decUpdated :: string
  ui_pvcChanged :: bool
  ui_decChanged :: bool
  ui_isUpdated :: bool
  ui_target :: "pod option"
  ui_inPlace :: bool
  ui_onlyMeta :: bool

type_synonym astate = "pod \<times> affinity list"

record ('w, 'd, 'x) upenv =
  up_new :: "collaset \<Rightarrow> crevision \<Rightarrow> string \<Rightarrow> (astate \<Rightarrow> gerr + astate) \<Rightarrow> affinity list \<Rightarrow> gerr + astate"
  up_diff :: "pod \<Rightarrow> pod \<Rightarrow> gerr + 'd"
  up_apply :: "pod \<Rightarrow> 'd \<Rightarrow> gerr + pod"
  up_encode :: "podLast \<Rightarrow> string"
  up_decode :: "string \<Rightarrow> gerr + podLast"
  up_update :: "pod \<Rightarrow> 'w \<Rightarrow> (gerr + pod) \<times> 'w"
  up_recreate :: "updInfo \<Rightarrow> 'w \<Rightarrow> gerr option \<times> 'w"
  up_expectUpdate :: "string \<Rightarrow> string \<Rightarrow> string \<Rightarrow> string \<Rightarrow> 'x \<Rightarrow> gerr option \<times> 'x"
  up_expectDelete :: "string \<Rightarrow> string \<Rightarrow> string \<Rightarrow> 'x \<Rightarrow> gerr option \<times> 'x"

record upsettings =
  us_api :: api
  us_patch :: patchEnv
  us_deco :: dapi
  us_read :: revread

definition wrapErr :: "string \<Rightarrow> gerr \<Rightarrow> gerr" where
  "wrapErr text e = (case e of Panic m \<Rightarrow> Panic m | _ \<Rightarrow> Err (text @ errText e))"

subsection \<open>Building the pods of the two revisions\<close>

definition decorate :: "upsettings \<Rightarrow> stmgr \<Rightarrow> pod \<Rightarrow> string \<Rightarrow> astate \<Rightarrow> gerr + astate" where
  "decorate U s target revs ph =
     rbind (GetDecorationPatcherByRevisions (us_deco U) (us_read U) s target revs) (\<lambda>pds.
       rbind (PatchListOfDecorations (us_patch U) (us_deco U) pds ph) (\<lambda>(e, p, h).
         case e of Some x \<Rightarrow> Inl x | None \<Rightarrow> Inr (p, h)))"

subsection \<open>Comparing them\<close>

text \<open>Pods are equal when their fields are and their affinities have equal contents.\<close>

definition deepEqual :: "affinity list \<Rightarrow> pod \<Rightarrow> pod \<Rightarrow> bool" where
  "deepEqual h p q \<longleftrightarrow> p\<lparr>p_affinity := None\<rparr> = q\<lparr>p_affinity := None\<rparr>
     \<and> map_option (\<lambda>a. h ! a) (p_affinity p) = map_option (\<lambda>a. h ! a) (p_affinity q)"

definition syncMeta :: "pod \<Rightarrow> pod \<Rightarrow> pod" where
  "syncMeta p q =
     p\<lparr>p_ns := p_ns q, p_name := p_name q, p_labels := p_labels q, p_annos := p_annos q, p_finalizers := p_finalizers q,
       p_owners := p_owners q, p_rv := p_rv q, p_deleting := p_deleting q, p_uid := p_uid q, p_created := p_created q\<rparr>"

fun syncImages :: "container list \<Rightarrow> container list \<Rightarrow> bool \<times> sset \<Rightarrow> container list \<times> bool \<times> sset" where
  "syncImages (c # cs) (u # us) (b, names) =
     (if k_image c \<noteq> k_image u
      then (case syncImages cs us (True, sinsert (k_name c) names) of (cs', r) \<Rightarrow> (c\<lparr>k_image := k_image u\<rparr> # cs', r))
      else (case syncImages cs us (b, names) of (cs', r) \<Rightarrow> (c # cs', r)))"
| "syncImages cs us r = (cs, r)"

definition diffPod :: "affinity list \<Rightarrow> pod \<Rightarrow> pod \<Rightarrow> bool \<times> bool \<times> sset" where
  "diffPod h cur upd =
     (if length (p_containers cur) \<noteq> length (p_containers upd) then (False, False, [])
      else (case syncImages (p_containers cur) (p_containers upd) (False, []) of
              (cs, changed, names) \<Rightarrow>
                if \<not> deepEqual h ((syncMeta cur upd)\<lparr>p_containers := cs\<rparr>) upd then (False, False, [])
                else if \<not> changed then (True, True, []) else (True, False, names)))"

definition PatchToPod :: "('w, 'd, 'x) upenv \<Rightarrow> pod \<Rightarrow> pod \<Rightarrow> pod \<Rightarrow> gerr + pod" where
  "PatchToPod E cur upd p = rbind (up_diff E cur upd) (up_apply E p)"

subsection \<open>What is recorded on the pod\<close>

text \<open>The image ids of the containers whose image changes, by name; a later status of the same name wins.\<close>

fun imageIDs :: "sset \<Rightarrow> cstat list \<Rightarrow> string gomap \<Rightarrow> string gomap" where
  "imageIDs names [] m = m"
| "imageIDs names (s # ss) m = imageIDs names ss (if s_name s \<in> set names then mput (s_name s) (s_imageID s) m else m)"

fun containerStates :: "string gomap \<Rightarrow> container list \<Rightarrow> contState gomap \<Rightarrow> contState gomap" where
  "containerStates ids [] m = m"
| "containerStates ids (c # cs) m =
     containerStates ids cs (mput (k_name c) \<lparr>cn_image = k_image c, cn_imageID = mgetd ids (k_name c)\<rparr> m)"

definition podLastOf :: "bool \<Rightarrow> sset \<Rightarrow> pod \<Rightarrow> pod \<Rightarrow> podLast" where
  "podLastOf onlyMeta names p upd =
     (if onlyMeta then None else Some (containerStates (imageIDs names (p_cstats p) []) (p_containers upd) []))"

definition FulfillTargetUpdatedInfo :: "('w, 'd, 'x) upenv \<Rightarrow> upsettings \<Rightarrow> stmgr \<Rightarrow> collaset \<Rightarrow> updInfo \<Rightarrow> affinity list
    \<Rightarrow> gerr option \<times> updInfo \<times> affinity list" where
  "FulfillTargetUpdatedInfo E U s c i h =
     (case up_new E c (ui_curRev i) (ui_id i) (decorate U s (ui_object i) (ui_decCurrent i)) h of
        Inl e \<Rightarrow> (Some (wrapErr ''fail to build Target from current revision: '' e), i, h)
      | Inr (cur, h1) \<Rightarrow>
          (case up_new E c (ui_updRev i) (ui_id i) (decorate U s (ui_object i) (ui_decUpdated i)) h1 of
             Inl e \<Rightarrow> (Some (wrapErr ''fail to build Target from updated revision: '' e), i\<lparr>ui_target := None\<rparr>, h1)
           | Inr (upd, h2) \<Rightarrow>
               if ui_pvcChanged i
               then (None, i\<lparr>ui_target := Some upd, ui_inPlace := False, ui_onlyMeta := False\<rparr>, h2)
               else (case diffPod h2 cur upd of
                       (inPlace, onlyMeta, names) \<Rightarrow>
                         let i1 = i\<lparr>ui_target := Some upd, ui_inPlace := inPlace, ui_onlyMeta := onlyMeta\<rparr> in
                         if \<not> inPlace then (None, i1, h2)
                         else (case PatchToPod E cur upd (ui_object i) of
                                 Inl e \<Rightarrow> (Some e, i1\<lparr>ui_target := None\<rparr>, h2)
                               | Inr p \<Rightarrow>
                                   (None, i1\<lparr>ui_target := Some (p\<lparr>p_annos := mput (lastStatusAnno (us_api U))
                                       (up_encode E (podLastOf onlyMeta names (ui_object i) p)) (p_annos p)\<rparr>)\<rparr>, h2)))))"

subsection \<open>Updating the pod\<close>

definition UpgradeTarget :: "('w, 'd, 'x) upenv \<Rightarrow> collaset \<Rightarrow> updInfo \<Rightarrow> 'w \<times> 'x \<Rightarrow> gerr option \<times> updInfo \<times> 'w \<times> 'x" where
  "UpgradeTarget E c i s =
     (if ui_onlyMeta i \<or> ui_inPlace i
      then (case ui_target i of
              None \<Rightarrow> (Some (Panic ''nil target''), i, s)
            | Some p \<Rightarrow>
                (case up_update E p (fst s) of
                   (Inl e, w1) \<Rightarrow> (Some (wrapErr ''fail to update Target when updating by in-place: '' e), i, (w1, snd s))
                 | (Inr p1, w1) \<Rightarrow>
                     (case up_expectUpdate E (clsKey c) (p_ns p1) (p_name p1) (p_rv p1) (snd s) of
                        (e, x1) \<Rightarrow> (e, i\<lparr>ui_object := p1, ui_target := Some p1\<rparr>, (w1, x1)))))
      else (case up_recreate E i (fst s) of
              (Some e, w1) \<Rightarrow> (Some e, i, (w1, snd s))
            | (None, w1) \<Rightarrow>
                (case up_expectDelete E (clsKey c) (p_ns (ui_object i)) (p_name (ui_object i)) (snd s) of
                   (e, x1) \<Rightarrow> (e, i, (w1, x1)))))"

subsection \<open>When it has finished\<close>

fun finishLoop :: "string gomap \<Rightarrow> string gomap \<Rightarrow> contState gomap \<Rightarrow> bool \<times> string" where
  "finishLoop images ids [] = (True, [])"
| "finishLoop images ids ((n, st) # sts) =
     (if mget images n \<noteq> Some (cn_image st) then finishLoop images ids sts
      else (case mget ids n of
              None \<Rightarrow> finishLoop images ids sts
            | Some x \<Rightarrow> if x = cn_imageID st then (False, ''container has '' @ n @ '' not been updated'') else finishLoop images ids sts))"

definition GetTargetUpdateFinishStatus :: "('w, 'd, 'x) upenv \<Rightarrow> api \<Rightarrow> updInfo \<Rightarrow> bool \<times> string \<times> gerr option" where
  "GetTargetUpdateFinishStatus E A i =
     (let p = ui_object i in
      if \<not> ui_isUpdated i \<or> ui_decChanged i then (False, ''add on not updated'', None)
      else if p_cstats p = [] then (False, ''no container status'', None)
      else if p_containers p = [] then (False, ''no container spec'', None)
      else if length (p_containers p) \<noteq> length (p_cstats p) then (False, ''container status number does not match'', None)
      else if p_annos p = [] then (False, ''no annotations for last container status'', None)
      else (case mget (p_annos p) (lastStatusAnno A) of
              None \<Rightarrow> (False, ''no pod last state annotation'', None)
            | Some v \<Rightarrow>
                (case up_decode E v of
                   Inl e \<Rightarrow> (let msg = ''malformat target last state annotation ['' @ v @ '']: '' @ errText e in (False, msg, Some (Err msg)))
                 | Inr None \<Rightarrow> (True, ''pod updated with only metadata changed'', None)
                 | Inr (Some sts) \<Rightarrow>
                     (case finishLoop (mputs (map (\<lambda>c. (k_name c, k_image c)) (p_containers p)) [])
                             (mputs (map (\<lambda>s. (s_name s, s_imageID s)) (p_cstats p)) []) sts of
                        (b, msg) \<Rightarrow> (b, msg, None)))))"

end
