(* ===== verification/InPlaceUpdateProps.thy ===== *)
theory InPlaceUpdateProps
  imports InPlaceUpdate
begin

text \<open>
  What the in-place updater promises: it updates in place only what Kubernetes can change on a running pod, and what it
  records on the pod lets the finish check compare image ids.
\<close>

subsection \<open>Comparing the pods\<close>

definition changedImages :: "pod \<Rightarrow> pod \<Rightarrow> string set" where
  "changedImages cur upd =
     {k_name c | c u. (c, u) \<in> set (zip (p_containers cur) (p_containers upd)) \<and> k_image c \<noteq> k_image u}"

lemma syncImages_spec:
  assumes "length cs = length us" and "syncImages cs us (b, names) = (cs', b', names')"
  shows "cs' = map2 (\<lambda>c u. c\<lparr>k_image := k_image u\<rparr>) cs us"
    and "b' \<longleftrightarrow> b \<or> (\<exists>(c, u) \<in> set (zip cs us). k_image c \<noteq> k_image u)"
    and "set names' = set names \<union> {k_name c | c u. (c, u) \<in> set (zip cs us) \<and> k_image c \<noteq> k_image u}"
proof -
  have "cs' = map2 (\<lambda>c u. c\<lparr>k_image := k_image u\<rparr>) cs us
      \<and> (b' \<longleftrightarrow> b \<or> (\<exists>(c, u) \<in> set (zip cs us). k_image c \<noteq> k_image u))
      \<and> set names' = set names \<union> {k_name c | c u. (c, u) \<in> set (zip cs us) \<and> k_image c \<noteq> k_image u}"
    using assms
  proof (induction cs us arbitrary: b names cs' b' names' rule: list_induct2)
    case (Cons c cs u us)
    let ?b = "b \<or> k_image c \<noteq> k_image u"
    let ?n = "if k_image c \<noteq> k_image u then sinsert (k_name c) names else names"
    obtain ds b1 n1 where r: "syncImages cs us (?b, ?n) = (ds, b1, n1)" by (metis surj_pair)
    have e: "cs' = c\<lparr>k_image := k_image u\<rparr> # ds" "b' = b1" "names' = n1"
      using Cons.prems r by (auto split: if_splits)
    show ?case using Cons.IH [OF r] unfolding e by auto
  qed simp
  then show "cs' = map2 (\<lambda>c u. c\<lparr>k_image := k_image u\<rparr>) cs us"
    and "b' \<longleftrightarrow> b \<or> (\<exists>(c, u) \<in> set (zip cs us). k_image c \<noteq> k_image u)"
    and "set names' = set names \<union> {k_name c | c u. (c, u) \<in> set (zip cs us) \<and> k_image c \<noteq> k_image u}" by blast+
qed

text \<open>All that a running pod cannot change: everything but the metadata and the images.\<close>

definition fixedPart :: "affinity list \<Rightarrow> pod \<Rightarrow> container list \<times> (string \<times> vsource) list \<times> container list \<times> (string \<times> string) list
    \<times> string list \<times> string \<times> affinity option" where
  "fixedPart h p = (map (\<lambda>c. c\<lparr>k_image := []\<rparr>) (p_containers p), p_volumes p, p_initContainers p, p_tolerations p, p_gates p, p_node p,
     map_option (\<lambda>a. h ! a) (p_affinity p))"

lemma map2_images: "length cs = length us \<Longrightarrow> us = map2 (\<lambda>c u. c\<lparr>k_image := k_image u\<rparr>) cs us \<Longrightarrow>
    map (\<lambda>c. c\<lparr>k_image := []\<rparr>) cs = map (\<lambda>c. c\<lparr>k_image := []\<rparr>) us"
  by (induction cs us rule: list_induct2) (auto, metis container.surjective container.update_convs(2))

lemma diffPod_inPlace:
  assumes "diffPod h cur upd = (True, onlyMeta, names)"
  shows "length (p_containers cur) = length (p_containers upd)" and "fixedPart h cur = fixedPart h upd"
    and "onlyMeta \<longleftrightarrow> (\<forall>(c, u) \<in> set (zip (p_containers cur) (p_containers upd)). k_image c = k_image u)"
    and "\<not> onlyMeta \<Longrightarrow> set names = changedImages cur upd"
proof -
  show len: "length (p_containers cur) = length (p_containers upd)"
    using assms by (auto simp: diffPod_def split: if_splits)
  obtain cs b ns where s: "syncImages (p_containers cur) (p_containers upd) (False, []) = (cs, b, ns)" by (metis surj_pair)
  have d: "deepEqual h ((syncMeta cur upd)\<lparr>p_containers := cs\<rparr>) upd" "onlyMeta = (\<not> b)" "\<not> onlyMeta \<longrightarrow> names = ns"
    using assms len s by (auto simp: diffPod_def split: if_splits)
  note sp = syncImages_spec [OF len s]
  from d(2) sp(2) show "onlyMeta \<longleftrightarrow> (\<forall>(c, u) \<in> set (zip (p_containers cur) (p_containers upd)). k_image c = k_image u)" by auto
  show "set names = changedImages cur upd" if "\<not> onlyMeta" using that d(3) sp(3) by (simp add: changedImages_def)
  have eq: "((syncMeta cur upd)\<lparr>p_containers := cs\<rparr>)\<lparr>p_affinity := None\<rparr> = upd\<lparr>p_affinity := None\<rparr>"
    and aff: "map_option (\<lambda>a. h ! a) (p_affinity cur) = map_option (\<lambda>a. h ! a) (p_affinity upd)"
    using d(1) by (auto simp: deepEqual_def syncMeta_def)
  have f: "f (((syncMeta cur upd)\<lparr>p_containers := cs\<rparr>)\<lparr>p_affinity := None\<rparr>) = f (upd\<lparr>p_affinity := None\<rparr>)" for f :: "pod \<Rightarrow> 'c"
    by (simp only: eq)
  have "cs = p_containers upd" using f [of p_containers] by simp
  then have "map (\<lambda>c. c\<lparr>k_image := []\<rparr>) (p_containers cur) = map (\<lambda>c. c\<lparr>k_image := []\<rparr>) (p_containers upd)"
    using map2_images [OF len] sp(1) by simp
  moreover have "p_volumes cur = p_volumes upd" "p_initContainers cur = p_initContainers upd" "p_tolerations cur = p_tolerations upd"
    "p_gates cur = p_gates upd" "p_node cur = p_node upd"
    using f [of p_volumes] f [of p_initContainers] f [of p_tolerations] f [of p_gates] f [of p_node] by (simp_all add: syncMeta_def)
  ultimately show "fixedPart h cur = fixedPart h upd" using aff by (simp add: fixedPart_def)
qed

lemma same_images: "length cs = length us \<Longrightarrow> (\<forall>(c, u) \<in> set (zip cs us). k_image c = k_image u) \<longleftrightarrow> map k_image cs = map k_image us"
  by (induction cs us rule: list_induct2) auto

subsection \<open>What one run records\<close>

lemma fulfilled:
  assumes "FulfillTargetUpdatedInfo E U s c i h = (None, i', h')"
  obtains cur upd h1 names where
    "up_new E c (ui_curRev i) (ui_id i) (decorate U s (ui_object i) (ui_decCurrent i)) h = Inr (cur, h1)"
    "up_new E c (ui_updRev i) (ui_id i) (decorate U s (ui_object i) (ui_decUpdated i)) h1 = Inr (upd, h')"
    "ui_inPlace i' \<Longrightarrow> \<not> ui_pvcChanged i \<and> diffPod h' cur upd = (True, ui_onlyMeta i', names)"
    "ui_inPlace i' \<Longrightarrow> \<exists>p. PatchToPod E cur upd (ui_object i) = Inr p
        \<and> ui_target i' = Some (p\<lparr>p_annos := mput (lastStatusAnno (us_api U))
             (up_encode E (podLastOf (ui_onlyMeta i') names (ui_object i) p)) (p_annos p)\<rparr>)"
proof -
  obtain cur h1 where 1: "up_new E c (ui_curRev i) (ui_id i) (decorate U s (ui_object i) (ui_decCurrent i)) h = Inr (cur, h1)"
    using assms by (auto simp: FulfillTargetUpdatedInfo_def split: sum.splits)
  obtain upd h2 where 2: "up_new E c (ui_updRev i) (ui_id i) (decorate U s (ui_object i) (ui_decUpdated i)) h1 = Inr (upd, h2)"
    using assms 1 by (auto simp: FulfillTargetUpdatedInfo_def split: sum.splits)
  obtain b m names where d: "diffPod h2 cur upd = (b, m, names)" by (metis surj_pair)
  note run = assms [unfolded FulfillTargetUpdatedInfo_def 1 2 sum.case prod.case Let_def d]
  have "h' = h2" using run by (auto split: if_splits sum.splits)
  moreover have "\<not> ui_pvcChanged i \<and> b \<and> m = ui_onlyMeta i'" if "ui_inPlace i'"
    using run that by (auto split: if_splits sum.splits)
  moreover have "\<exists>p. PatchToPod E cur upd (ui_object i) = Inr p
        \<and> ui_target i' = Some (p\<lparr>p_annos := mput (lastStatusAnno (us_api U))
             (up_encode E (podLastOf (ui_onlyMeta i') names (ui_object i) p)) (p_annos p)\<rparr>)" if "ui_inPlace i'"
    using run that by (auto split: if_splits sum.splits)
  ultimately show thesis using that [OF 1, of upd names] 2 d by metis
qed

text \<open>C4: A pod is updated in place only if the claims' templates are unchanged and the pods built from the two revisions, with
  their decorations, differ in nothing but metadata and the images of containers; the update is called one of metadata only
  exactly when no image differs.\<close>

theorem in_place_changes_images_only:
  assumes "FulfillTargetUpdatedInfo E U s c i h = (None, i', h')" and "ui_inPlace i'"
  shows "\<not> ui_pvcChanged i
    \<and> (\<exists>cur upd h1. up_new E c (ui_curRev i) (ui_id i) (decorate U s (ui_object i) (ui_decCurrent i)) h = Inr (cur, h1)
         \<and> up_new E c (ui_updRev i) (ui_id i) (decorate U s (ui_object i) (ui_decUpdated i)) h1 = Inr (upd, h')
         \<and> fixedPart h' cur = fixedPart h' upd
         \<and> (ui_onlyMeta i' \<longleftrightarrow> map k_image (p_containers cur) = map k_image (p_containers upd)))"
proof -
  obtain cur upd h1 names where
    r: "up_new E c (ui_curRev i) (ui_id i) (decorate U s (ui_object i) (ui_decCurrent i)) h = Inr (cur, h1)"
      "up_new E c (ui_updRev i) (ui_id i) (decorate U s (ui_object i) (ui_decUpdated i)) h1 = Inr (upd, h')"
    and d: "\<not> ui_pvcChanged i \<and> diffPod h' cur upd = (True, ui_onlyMeta i', names)"
    using fulfilled [OF assms(1)] assms(2) by metis
  note sp = diffPod_inPlace [OF conjunct2 [OF d]]
  have "ui_onlyMeta i' \<longleftrightarrow> map k_image (p_containers cur) = map k_image (p_containers upd)"
    unfolding sp(3) by (rule same_images [OF sp(1)])
  then show ?thesis using r d sp(2) by blast
qed

subsection \<open>The finish check\<close>

text \<open>What the code relies on of \<open>encoding/json\<close>; an empty map is omitted.\<close>

definition state_json :: "('w, 'd, 'x) upenv \<Rightarrow> bool" where
  "state_json E \<longleftrightarrow> (\<forall>st. up_decode E (up_encode E st) = Inr (if st = Some [] then None else st))"

definition idOf :: "pod \<Rightarrow> string \<Rightarrow> string option" where
  "idOf p n = map_option s_imageID (find (\<lambda>s. s_name s = n) (p_cstats p))"

lemma mget_names:
  "distinct (map nm xs) \<Longrightarrow> mget (mputs (map (\<lambda>x. (nm x, f x)) xs) []) n = map_option f (find (\<lambda>x. nm x = n) xs)"
proof -
  assume "distinct (map nm xs)"
  then have "mwf (map (\<lambda>x. (nm x, f x)) xs)" by (simp add: mwf_def o_def)
  moreover have "mget (map (\<lambda>x. (nm x, f x)) xs) n = map_option f (find (\<lambda>x. nm x = n) xs)" by (induction xs) auto
  ultimately show ?thesis by (simp add: mget_mputs split: option.split)
qed

lemma imageIDs_mputs: "imageIDs names ss m = mputs (map (\<lambda>s. (s_name s, s_imageID s)) (filter (\<lambda>s. s_name s \<in> set names) ss)) m"
  by (induction ss arbitrary: m) auto

lemma containerStates_mputs:
  "containerStates ids cs m = mputs (map (\<lambda>c. (k_name c, \<lparr>cn_image = k_image c, cn_imageID = mgetd ids (k_name c)\<rparr>)) cs) m"
  by (induction cs arbitrary: m) auto

lemma find_filter: "find (\<lambda>s. s_name s = n) (filter (\<lambda>s. s_name s \<in> N) ss) = (if n \<in> N then find (\<lambda>s. s_name s = n) ss else None)"
  by (induction ss) auto

lemma imageIDs_get:
  assumes "distinct (map s_name (p_cstats p))"
  shows "mgetd (imageIDs names (p_cstats p) []) n = (if n \<in> set names then (case idOf p n of None \<Rightarrow> [] | Some x \<Rightarrow> x) else [])"
proof -
  have "distinct (map s_name (filter (\<lambda>s. s_name s \<in> set names) (p_cstats p)))" using assms by (rule distinct_map_filter)
  then show ?thesis
    by (simp add: mgetd_def imageIDs_mputs mget_names find_filter idOf_def)
qed

lemma finishLoop_iff:
  "fst (finishLoop images ids sts) \<longleftrightarrow>
     (\<forall>(n, st) \<in> set sts. mget images n = Some (cn_image st) \<longrightarrow> mget ids n \<noteq> Some (cn_imageID st))"
proof (induction sts)
  case (Cons x sts)
  then show ?case by (cases x; cases "mget ids (fst x)") auto
qed simp

lemma find_name: "distinct (map nm xs) \<Longrightarrow> x \<in> set xs \<Longrightarrow> find (\<lambda>y. nm y = nm x) xs = Some x"
  by (induction xs) auto

lemma finished_iff:
  assumes js: "state_json E" and dec: "ui_isUpdated j" "\<not> ui_decChanged j" and q: "ui_object j = q"
    and anno: "mget (p_annos q) (lastStatusAnno A) = Some (up_encode E (podLastOf False names p upd))"
    and cs: "p_containers q = p_containers upd" "distinct (map k_name (p_containers q))" "p_containers q \<noteq> []"
    and ss: "length (p_cstats q) = length (p_containers q)" "distinct (map s_name (p_cstats q))" "distinct (map s_name (p_cstats p))"
  shows "fst (GetTargetUpdateFinishStatus E A j) \<longleftrightarrow>
    (\<forall>k \<in> set (p_containers q). \<forall>x. idOf q (k_name k) = Some x \<longrightarrow>
       x \<noteq> (if k_name k \<in> set names then (case idOf p (k_name k) of None \<Rightarrow> [] | Some y \<Rightarrow> y) else []))"
proof -
  define sts where "sts = containerStates (imageIDs names (p_cstats p) []) (p_containers q) []"
  have ne: "sts \<noteq> []"
  proof
    assume "sts = []"
    obtain k where k: "k \<in> set (p_containers q)" using cs(3) by (meson last_in_set)
    have "mget sts (k_name k) \<noteq> None"
      unfolding sts_def containerStates_mputs mget_names [OF cs(2)] find_name [OF cs(2) k] by simp
    then show False by (simp add: \<open>sts = []\<close>)
  qed
  have wf: "mwf sts" by (simp add: sts_def containerStates_mputs)
  have get: "mget sts (k_name k) = Some \<lparr>cn_image = k_image k, cn_imageID =
      (if k_name k \<in> set names then (case idOf p (k_name k) of None \<Rightarrow> [] | Some y \<Rightarrow> y) else [])\<rparr>" if "k \<in> set (p_containers q)" for k
    unfolding sts_def containerStates_mputs mget_names [OF cs(2)] find_name [OF cs(2) that] imageIDs_get [OF ss(3)] by simp
  have only: "\<exists>k \<in> set (p_containers q). n = k_name k" if "mget sts n = Some st" for n st
    using that unfolding sts_def containerStates_mputs mget_names [OF cs(2)] by (auto simp: find_Some_iff; metis nth_mem)
  have dec': "up_decode E (up_encode E (podLastOf False names p upd)) = Inr (Some sts)"
    using js ne by (simp add: state_json_def podLastOf_def sts_def cs(1))
  have an: "p_annos q \<noteq> []" using anno by auto
  have st: "p_cstats q \<noteq> []" using ss(1) cs(3) by auto
  let ?im = "mputs (map (\<lambda>c. (k_name c, k_image c)) (p_containers q)) []"
  let ?id = "mputs (map (\<lambda>s. (s_name s, s_imageID s)) (p_cstats q)) []"
  have "fst (GetTargetUpdateFinishStatus E A j) = fst (finishLoop ?im ?id sts)"
    using dec st an ss(1) cs(3) by (simp add: GetTargetUpdateFinishStatus_def Let_def q anno dec' split: prod.split)
  also have "\<dots> \<longleftrightarrow> (\<forall>n st. mget sts n = Some st \<longrightarrow> mget ?im n = Some (cn_image st) \<longrightarrow> mget ?id n \<noteq> Some (cn_imageID st))"
    unfolding finishLoop_iff using mwf_in_iff [OF wf] by fast
  also have "\<dots> \<longleftrightarrow> (\<forall>k \<in> set (p_containers q). \<forall>x. idOf q (k_name k) = Some x \<longrightarrow>
       x \<noteq> (if k_name k \<in> set names then (case idOf p (k_name k) of None \<Rightarrow> [] | Some y \<Rightarrow> y) else []))" (is "?l \<longleftrightarrow> ?r")
  proof
    assume l: ?l
    show ?r
    proof (intro ballI allI impI)
      fix k x assume k: "k \<in> set (p_containers q)" and x: "idOf q (k_name k) = Some x"
      have "mget ?im (k_name k) = Some (k_image k)" unfolding mget_names [OF cs(2)] find_name [OF cs(2) k] by simp
      moreover have "mget ?id (k_name k) = Some x" unfolding mget_names [OF ss(2)] using x by (simp add: idOf_def)
      ultimately show "x \<noteq> (if k_name k \<in> set names then (case idOf p (k_name k) of None \<Rightarrow> [] | Some y \<Rightarrow> y) else [])"
        using l [rule_format, OF get [OF k]] by simp
    qed
  next
    assume r: ?r
    show ?l
    proof (intro allI impI)
      fix n st assume m: "mget sts n = Some st"
      then obtain k where k: "k \<in> set (p_containers q)" "n = k_name k" using only by blast
      have "mget ?id n = idOf q n" unfolding mget_names [OF ss(2)] by (simp add: idOf_def)
      then show "mget ?id n \<noteq> Some (cn_imageID st)" using r k m get [OF k(1)] by auto
    qed
  qed
  finally show ?thesis .
qed

text \<open>A later state of the updated pod: the update and what it recorded are there, and every container has one status.\<close>

definition laterPod :: "api \<Rightarrow> pod \<Rightarrow> pod \<Rightarrow> bool" where
  "laterPod A p q \<longleftrightarrow> p_containers q = p_containers p
     \<and> mget (p_annos q) (lastStatusAnno A) = mget (p_annos p) (lastStatusAnno A)
     \<and> distinct (map k_name (p_containers q)) \<and> p_containers q \<noteq> []
     \<and> length (p_cstats q) = length (p_containers q) \<and> distinct (map s_name (p_cstats q))"

lemma finished_after:
  assumes "state_json E" and "FulfillTargetUpdatedInfo E U s c i h = (None, i', h')" and "ui_inPlace i'" and "\<not> ui_onlyMeta i'"
    and "ui_target i' = Some p" and "laterPod (us_api U) p (ui_object j)" and "distinct (map s_name (p_cstats (ui_object i)))"
    and "ui_isUpdated j" and "\<not> ui_decChanged j"
  obtains cur upd h1 where
    "up_new E c (ui_curRev i) (ui_id i) (decorate U s (ui_object i) (ui_decCurrent i)) h = Inr (cur, h1)"
    "up_new E c (ui_updRev i) (ui_id i) (decorate U s (ui_object i) (ui_decUpdated i)) h1 = Inr (upd, h')"
    "fst (GetTargetUpdateFinishStatus E (us_api U) j) \<longleftrightarrow>
       (\<forall>k \<in> set (p_containers (ui_object j)). \<forall>x. idOf (ui_object j) (k_name k) = Some x \<longrightarrow>
          x \<noteq> (if k_name k \<in> changedImages cur upd then (case idOf (ui_object i) (k_name k) of None \<Rightarrow> [] | Some y \<Rightarrow> y) else []))"
proof -
  obtain cur upd h1 names where
    r: "up_new E c (ui_curRev i) (ui_id i) (decorate U s (ui_object i) (ui_decCurrent i)) h = Inr (cur, h1)"
      "up_new E c (ui_updRev i) (ui_id i) (decorate U s (ui_object i) (ui_decUpdated i)) h1 = Inr (upd, h')"
    and d: "diffPod h' cur upd = (True, ui_onlyMeta i', names)"
    and t: "\<exists>p. PatchToPod E cur upd (ui_object i) = Inr p
        \<and> ui_target i' = Some (p\<lparr>p_annos := mput (lastStatusAnno (us_api U))
             (up_encode E (podLastOf (ui_onlyMeta i') names (ui_object i) p)) (p_annos p)\<rparr>)"
    using fulfilled [OF assms(2)] assms(3) by metis
  from t assms(4,5) obtain u where p: "p = u\<lparr>p_annos := mput (lastStatusAnno (us_api U))
      (up_encode E (podLastOf False names (ui_object i) u)) (p_annos u)\<rparr>" by auto
  have l: "p_containers (ui_object j) = p_containers u"
    "mget (p_annos (ui_object j)) (lastStatusAnno (us_api U)) = Some (up_encode E (podLastOf False names (ui_object i) u))"
    "distinct (map k_name (p_containers (ui_object j)))" "p_containers (ui_object j) \<noteq> []"
    "length (p_cstats (ui_object j)) = length (p_containers (ui_object j))" "distinct (map s_name (p_cstats (ui_object j)))"
    using assms(6) unfolding laterPod_def p by simp_all metis+
  have "set names = changedImages cur upd" using diffPod_inPlace(4) [OF d assms(4)] .
  with finished_iff [OF assms(1,8,9) refl l(2,1,3,4,5,6) assms(7)] show thesis by (intro that [OF r]) simp
qed

text \<open>C5: An in-place update of images counts as finished exactly when no container of the pod still has the image id that was
  recorded: the one it had before for a container whose image changes, and none for the others.\<close>

theorem in_place_update_finishes_when:
  assumes "state_json E" and "FulfillTargetUpdatedInfo E U s c i h = (None, i', h')" and "ui_inPlace i'" and "\<not> ui_onlyMeta i'"
    and "ui_target i' = Some p" and "laterPod (us_api U) p (ui_object j)" and "distinct (map s_name (p_cstats (ui_object i)))"
    and "ui_isUpdated j" and "\<not> ui_decChanged j"
  shows "\<exists>cur upd h1. up_new E c (ui_curRev i) (ui_id i) (decorate U s (ui_object i) (ui_decCurrent i)) h = Inr (cur, h1)
    \<and> up_new E c (ui_updRev i) (ui_id i) (decorate U s (ui_object i) (ui_decUpdated i)) h1 = Inr (upd, h')
    \<and> (fst (GetTargetUpdateFinishStatus E (us_api U) j) \<longleftrightarrow>
        (\<forall>k \<in> set (p_containers (ui_object j)). \<forall>x. idOf (ui_object j) (k_name k) = Some x \<longrightarrow>
           x \<noteq> (if k_name k \<in> changedImages cur upd then (case idOf (ui_object i) (k_name k) of None \<Rightarrow> [] | Some y \<Rightarrow> y) else [])))"
  by (rule finished_after [OF assms]) blast


end
