(* ===== verification/ResourceContexts.thy ===== *)
theory ResourceContexts
  imports Decoration Expectations
begin

text \<open>
  The controller of resource contexts, \<^verbatim>\<open>pkg/controllers/resourcecontext\<close>: it deletes a context that holds
  nothing, and expects the deletion until the cache shows it.  The reads come from the cache of the informer and the deletion goes
  to the API server; both are parameters of the world \<open>'w\<close>.
\<close>

record 'w ctxclient =
  xc_get :: "'w \<Rightarrow> string \<Rightarrow> string \<Rightarrow> gerr + rctx"
  xc_delete :: "rctx \<Rightarrow> 'w \<Rightarrow> gerr option \<times> 'w"
  xc_cache :: "'w \<Rightarrow> objget"

definition ReconcileContext :: "'w ctxclient \<Rightarrow> int \<Rightarrow> string \<Rightarrow> string \<Rightarrow> 'w \<times> astore \<Rightarrow> gerr option \<times> 'w \<times> astore" where
  "ReconcileContext C now ns n s =
     (case xc_get C (fst s) ns n of
        Inl e \<Rightarrow> if e \<noteq> NotFound then (Some e, s) else (None, (fst s, aeDelete ns n (snd s)))
      | Inr x \<Rightarrow>
          (case aeIsSatisfied (xc_cache C (fst s)) now (rx_ns x) (rx_name x) (snd s) of
             Inl e \<Rightarrow> (Some e, s)
           | Inr (sat, st1) \<Rightarrow>
               if \<not> sat then (None, (fst s, st1))
               else if rx_contexts x = []
               then (case xc_delete C x (fst s) of
                       (Some e, w1) \<Rightarrow> (Some e, (w1, st1))
                     | (None, w1) \<Rightarrow>
                         (case aeExpect (rx_ns x) (rx_name x) ''ResourceContext'' (rx_name x) EDelete now st1 of
                            Inl e \<Rightarrow> (Some e, (w1, st1))
                          | Inr st2 \<Rightarrow> (None, (w1, st2))))
               else (None, (fst s, st1))))"

text \<open>The events of the watch that maintains the expectations.\<close>

datatype ctxevent = CtxCreate rctx | CtxUpdate rctx rctx | CtxDelete rctx | CtxGeneric rctx

fun onCtxEvent :: "ctxevent \<Rightarrow> astore \<Rightarrow> astore" where
  "onCtxEvent (CtxDelete x) st = aeDelete (rx_ns x) (rx_name x) st"
| "onCtxEvent _ st = st"

subsection \<open>What is deleted, and how often\<close>

text \<open>The deletion of a context is expected, and nothing else.\<close>

definition awaited :: "int \<Rightarrow> string \<Rightarrow> string \<Rightarrow> aexp" where
  "awaited now ns n =
     \<lparr>ax_ns = ns, ax_items = [(slashed ''ResourceContext'' n,
        \<lparr>ai_name = n, ai_kind = ''ResourceContext'', ai_action = EDelete, ai_rv = 0, ai_time = now\<rparr>)], ax_time = now\<rparr>"

lemma expect_awaited:
  assumes "mget st (slashed ns n) = None"
  shows "aeExpect ns n ''ResourceContext'' n EDelete now st = Inr (mput (slashed ns n) (awaited now ns n) st)"
  using assms
  by (simp add: aeExpect_def ResourceInitializers_def axExpect_def NewActiveExpectation_def Let_def awaited_def)

lemma satisfied_gone:
  assumes "aeIsSatisfied get now ns n st = Inr (True, st1)"
  shows "mget st1 (slashed ns n) = None \<and> (\<forall>k. k \<noteq> slashed ns n \<longrightarrow> mget st1 k = mget st k)"
  using assms by (auto simp: aeIsSatisfied_def split: option.splits sum.splits bool.splits)

lemma awaited_unsatisfied:
  assumes "mget st (slashed ns n) = Some (awaited now ns n)" and "get ''ResourceContext'' ns n = Inr (rv, False)"
    and "t \<le> now + ExpectationsTimeout"
  shows "aeIsSatisfied get t ns n st = Inr (False, mput (slashed ns n) (awaited now ns n) st)"
  using assms by (simp add: aeIsSatisfied_def axIsSatisfied_def awaited_def aiSatisfied_def)

lemma reconcile_cases:
  assumes "ReconcileContext C now ns n (w, st) = (r, (w', st'))"
  shows "w' = w \<or> (\<exists>x. xc_get C w ns n = Inr x \<and> rx_contexts x = [] \<and> w' = snd (xc_delete C x w)
    \<and> (\<exists>st1. aeIsSatisfied (xc_cache C w) now (rx_ns x) (rx_name x) st = Inr (True, st1)))"
  using assms by (auto simp: ReconcileContext_def split: sum.splits prod.splits if_splits option.splits)

text \<open>Further reconciliations of one context, each with the world and the time that it sees.\<close>

fun reconciles :: "'w ctxclient \<Rightarrow> string \<Rightarrow> string \<Rightarrow> ('w \<times> int) list \<Rightarrow> astore \<Rightarrow> (gerr option \<times> 'w) list" where
  "reconciles C ns n [] st = []"
| "reconciles C ns n ((w, t) # rs) st =
     (case ReconcileContext C t ns n (w, st) of (r, (w', st')) \<Rightarrow> (r, w') # reconciles C ns n rs st')"

text \<open>A world whose cache still shows the context as it was.\<close>

definition staleAt :: "'w ctxclient \<Rightarrow> string \<Rightarrow> string \<Rightarrow> 'w \<Rightarrow> bool" where
  "staleAt C ns n w \<longleftrightarrow> (\<exists>x rv. xc_get C w ns n = Inr x \<and> rx_ns x = ns \<and> rx_name x = n
     \<and> xc_cache C w ''ResourceContext'' ns n = Inr (rv, False))"

lemma stale_reconciles:
  "mget st (slashed ns n) = Some (awaited now ns n) \<Longrightarrow>
   \<forall>(w, t) \<in> set rs. staleAt C ns n w \<and> t \<le> now + ExpectationsTimeout \<Longrightarrow>
   reconciles C ns n rs st = map (\<lambda>(w, t). (None, w)) rs"
proof (induction rs arbitrary: st)
  case (Cons wt rs)
  obtain w t where wt: "wt = (w, t)" by fastforce
  with Cons.prems(2) obtain x rv where x: "xc_get C w ns n = Inr x" "rx_ns x = ns" "rx_name x = n"
    "xc_cache C w ''ResourceContext'' ns n = Inr (rv, False)" and t: "t \<le> now + ExpectationsTimeout" by (auto simp: staleAt_def)
  let ?st = "mput (slashed ns n) (awaited now ns n) st"
  have "ReconcileContext C t ns n (w, st) = (None, (w, ?st))"
    by (simp add: ReconcileContext_def x awaited_unsatisfied [where get = "xc_cache C w", OF Cons.prems(1) x(4) t])
  moreover have "reconciles C ns n rs ?st = map (\<lambda>(w, t). (None, w)) rs" using Cons.prems(2) by (intro Cons.IH) simp_all
  ultimately show ?case by (simp add: wt)
qed simp

text \<open>C40: The controller touches a context only to delete one that it reads as empty, with its expectations met; and after it has
  deleted it, no reconciliation deletes it again while the cache still shows it, until the expectation expires.\<close>

theorem empty_context_deleted_once:
  assumes "ReconcileContext C now ns n (w, st) = (None, (w', st'))" and "xc_get C w ns n = Inr x" and "rx_ns x = ns" "rx_name x = n"
    and "aeIsSatisfied (xc_cache C w) now ns n st = Inr (True, st0)"
    and "\<forall>(v, t) \<in> set rs. staleAt C ns n v \<and> t \<le> now + ExpectationsTimeout"
  shows "if rx_contexts x = [] then w' = snd (xc_delete C x w) \<and> reconciles C ns n rs st' = map (\<lambda>(v, t). (None, v)) rs
    else w' = w"
proof (cases "rx_contexts x = []")
  case True
  note s = assms(5)
  have g: "mget st0 (slashed ns n) = None" using satisfied_gone [OF s] by simp
  obtain e w1 where d: "xc_delete C x w = (e, w1)" by fastforce
  have "e = None" "w' = w1" "st' = mput (slashed ns n) (awaited now ns n) st0"
    using assms(1,2,3,4) True s d expect_awaited [OF g] by (auto simp: ReconcileContext_def split: option.splits)
  then show ?thesis using stale_reconciles [OF _ assms(6)] True d by simp
next
  case False
  then show ?thesis using reconcile_cases [OF assms(1)] assms(2) by auto
qed

end
