(* ===== verification/CollaSetAdapters.thy ===== *)
theory CollaSetAdapters
  imports CollaSetWebhook VolumeClaims DecorationController
begin

text \<open>
  The other answers the CollaSet controller gives the generic controller of kube-xset, below
  \<^verbatim>\<open>pkg/controllers/collaset\<close>: about pods and revisions (\<^verbatim>\<open>collaset_controller.go\<close>), claims
  (\<^verbatim>\<open>pvc_adapter.go\<close>) and resource contexts (\<^verbatim>\<open>resourcecontext_adapter.go\<close>), and the helpers of
  \<^verbatim>\<open>utils/pod.go\<close> and \<^verbatim>\<open>utils/collaset.go\<close>.  Building a pod from the patch of a revision (\<open>apply\<close>) and
  the check of a name (\<open>validName\<close>) are functions of Kubernetes and parameters.
\<close>

subsection \<open>Pods and instance ids\<close>

definition PodNamingSuffixPersistentSequence :: "collaset \<Rightarrow> bool" where
  "PodNamingSuffixPersistentSequence c \<longleftrightarrow> co_naming c = Some PersistentSequence"

fun CollectPodInstanceID :: "(int \<times> pod) list \<Rightarrow> int list" where
  "CollectPodInstanceID [] = []"
| "CollectPodInstanceID ((i, p) # ps) = List.insert i (CollectPodInstanceID ps)"

definition GetPodInstanceID :: "api \<Rightarrow> pod \<Rightarrow> gerr + int" where
  "GetPodInstanceID A p =
     (if p_labels p = [] then Inl (Err ''no labels found for instance ID'')
      else (case mget (p_labels p) (instIdL A) of
              None \<Rightarrow> Inl (Err (''failed to find instance ID label '' @ instIdL A))
            | Some val \<Rightarrow>
                (case parseInt32 val of
                   None \<Rightarrow> Inl (Err (''failed to parse instance ID with value '' @ val))
                 | Some i \<Rightarrow> Inr i)))"

definition GetPodsPrefix :: "(string \<Rightarrow> bool) \<Rightarrow> string \<Rightarrow> string" where
  "GetPodsPrefix validName controllerName =
     (let prefix = controllerName @ ''-'' in if \<not> validName prefix then controllerName else prefix)"

fun applyEach :: "(pod \<Rightarrow> gerr option \<times> pod) list \<Rightarrow> pod \<Rightarrow> gerr option \<times> pod" where
  "applyEach [] p = (None, p)"
| "applyEach (f # fs) p = (case f p of (Some e, p1) \<Rightarrow> (Some e, p1) | (None, p1) \<Rightarrow> applyEach fs p1)"

text \<open>The generated name stands in the name until the API server completes it.  A pod whose template has no labels has a nil map,
  and the assignment panics.\<close>

definition NewPodFrom :: "api \<Rightarrow> (string \<Rightarrow> bool) \<Rightarrow> (crevision \<Rightarrow> gerr + pod) \<Rightarrow> string \<Rightarrow> collaset \<Rightarrow> owner \<Rightarrow> crevision \<Rightarrow> string
    \<Rightarrow> (pod \<Rightarrow> gerr option \<times> pod) list \<Rightarrow> gerr + gerr option \<times> pod" where
  "NewPodFrom A validName apply revL c ow r inst fs =
     (case apply r of
        Inl e \<Rightarrow> Inl e
      | Inr p0 \<Rightarrow>
          (let prefix = GetPodsPrefix validName (co_name c);
               p1 = p0\<lparr>p_ns := co_ns c, p_owners := p_owners p0 @ [ow],
                       p_name := (if PodNamingSuffixPersistentSequence c then prefix @ inst else p_name p0)\<rparr>
           in if p_labels p0 = [] then Inl (Panic ''assignment to entry in nil map'')
              else (let p2 = p1\<lparr>p_labels := mput revL (cr_name r) (mput (instIdL A) inst (p_labels p1))\<rparr>
                    in Inr (applyEach fs (ControlByKusionStack A p2)))))"

text \<open>The order in which pods are taken: unassigned, pending, unready, lately ready, often restarted and young pods first.\<close>

definition ComparePod :: "pod \<Rightarrow> pod \<Rightarrow> bool" where
  "ComparePod l r =
     (if p_node l \<noteq> p_node r \<and> (p_node l = [] \<or> p_node r = []) then p_node l = []
      else if phaseRank (p_phase l) \<noteq> phaseRank (p_phase r) then phaseRank (p_phase l) < phaseRank (p_phase r)
      else if IsPodReady l \<noteq> IsPodReady r then \<not> IsPodReady l
      else if IsPodReady l \<and> IsPodReady r \<and> podReadyTime l \<noteq> podReadyTime r then afterOrZero (podReadyTime l) (podReadyTime r)
      else if maxContainerRestarts l \<noteq> maxContainerRestarts r then maxContainerRestarts l > maxContainerRestarts r
      else if p_created l \<noteq> p_created r then afterOrZero (p_created l) (p_created r)
      else False)"

subsection \<open>The generic controller's questions\<close>

text \<open>The host name that is set on a new pod, when one is.\<close>

definition GetPostCreateFunc :: "collaset \<Rightarrow> (pod \<Rightarrow> string) option" where
  "GetPostCreateFunc c =
     (case co_naming c of
        None \<Rightarrow> None
      | Some n \<Rightarrow> if n \<noteq> PersistentSequence then None else Some p_name)"

text \<open>The content of a revision: the template, and the templates of claims when there are any.\<close>

record xpatch =
  px_labels :: "string gomap"
  px_template :: string
  px_claims :: "pvc list option"

definition GetXSetPatch :: "collaset \<Rightarrow> xpatch" where
  "GetXSetPatch c =
     \<lparr>px_labels = co_tmplLabels c, px_template = co_template c, px_claims = (if co_vcts c = [] then None else Some (co_vcts c))\<rparr>"

definition GetXObjectFromRevision :: "(crevision \<Rightarrow> gerr + pod) \<Rightarrow> crevision \<Rightarrow> gerr + pod" where
  "GetXObjectFromRevision apply r = (case apply r of Inl e \<Rightarrow> Inl e | Inr p \<Rightarrow> Inr p)"

definition CheckReadyTime :: "pod \<Rightarrow> bool \<times> int" where
  "CheckReadyTime p = (if IsPodReady p then (True, podReadyTime p) else (False, 0))"

definition CheckAvailable :: "api \<Rightarrow> pod \<Rightarrow> bool" where
  "CheckAvailable A p = IsPodServiceAvailable A p"

definition CheckScheduled :: "pod \<Rightarrow> bool" where
  "CheckScheduled p = IsPodScheduled p"

definition CheckInactive :: "pod \<Rightarrow> bool" where
  "CheckInactive p = IsPodInactive p"

subsection \<open>Claims and resource contexts\<close>

definition RetainPvcWhenXSetDeleted :: "collaset \<Rightarrow> bool" where
  "RetainPvcWhenXSetDeleted c \<longleftrightarrow> PvcPolicyWhenDelete c = RetainClaim"

definition RetainPvcWhenXSetScaled :: "collaset \<Rightarrow> bool" where
  "RetainPvcWhenXSetScaled c \<longleftrightarrow> PvcPolicyWhenScaled c = RetainClaim"

definition GetXSetPvcTemplate :: "collaset \<Rightarrow> pvc list" where
  "GetXSetPvcTemplate c = co_vcts c"

definition GetXSpecVolumes :: "pod \<Rightarrow> (string \<times> vsource) list" where
  "GetXSpecVolumes p = p_volumes p"

definition GetXVolumeMounts :: "pod \<Rightarrow> (string \<times> string) list" where
  "GetXVolumeMounts p = concat (map k_mounts (p_containers p))"

definition SetXSpecVolumes :: "pod \<Rightarrow> (string \<times> vsource) list \<Rightarrow> pod" where
  "SetXSpecVolumes p vs = p\<lparr>p_volumes := vs\<rparr>"

definition GetResourceContextSpec :: "rctx \<Rightarrow> (int \<times> string gomap) list" where
  "GetResourceContextSpec x = map (\<lambda>d. (cd_id d, cd_data d)) (rx_contexts x)"

definition SetResourceContextSpec :: "(int \<times> string gomap) list \<Rightarrow> rctx \<Rightarrow> rctx" where
  "SetResourceContextSpec ds x = x\<lparr>rx_contexts := map (\<lambda>(i, d). \<lparr>cd_id = i, cd_data = d\<rparr>) ds\<rparr>"

subsection \<open>The revisions of decorations\<close>

text \<open>\<^verbatim>\<open>pkg/controllers/utils/poddecoration/revision/revision.go\<close>: a revision of a decoration holds its template and its
  weight, and the adapter reports that none is in use.\<close>

definition getPodDecorationPatch :: "pdeco \<Rightarrow> template \<times> int option" where
  "getPodDecorationPatch pd = (dc_template pd, dc_weight pd)"

definition decoCurrentRevision :: "pdeco \<Rightarrow> string" where
  "decoCurrentRevision pd = ds_current (dc_status pd)"

definition GetInUsedRevisions :: "pdeco \<Rightarrow> sset" where
  "GetInUsedRevisions pd = []"

end
