(* ===== verification/AdmissionExamples.thy ===== *)
theory AdmissionExamples
  imports CollaSetWebhook DecorationWebhook PodWebhook RuleAdmission InPlaceUpdateProps ResourceContexts CollaSetAdapters
    RuleExamples DecorationServer
begin

text \<open>
  Requests to the webhooks, an in-place update of a pod, and an empty resource context, on which the hypotheses of the
  properties hold.
\<close>

subsection \<open>Webhooks\<close>







definition excw :: cwenv where
  "excw = \<lparr>cw_defaults = (\<lambda>t. t), cw_convert = (\<lambda>ls t. Inr (t, [])), cw_podErrs = (\<lambda>ls t vs. []), cw_selErrs = (\<lambda>s. []),
     cw_parse = (\<lambda>s. Inr (\<lambda>ls. mget ls ''app'' = Some ''a''))\<rparr>"

definition exGoodCls :: collaset where
  "exGoodCls = noCollaSet\<lparr>co_replicas := Some 2, co_selector := Some \<lparr>se_labels = [(''app'', ''a'')], se_exprs = []\<rparr>,
     co_tmplLabels := [(''app'', ''a'')], co_updPolicy := RecreatePolicy, co_toDelete := [''p1''], co_toExclude := [''p2''],
     co_rolling := Some \<lparr>up_byLabel = False, up_byPartition = Some (Some 1)\<rparr>\<rparr>"

lemma admitted_collaset_is_sane_witness:
  "saneSpec (GetXSetSpec exGoodCls) \<and> xs_toDelete (GetXSetSpec exGoodCls) = [''p1'']
   \<and> clsValidatingHandle excw AdmCreate (Inl NotFound) (Inr (exGoodCls\<lparr>co_toExclude := [''p1'']\<rparr>)) \<noteq> Allowed"
proof -
  have 1: "clsValidatingHandle excw AdmUpdate (Inr exGoodCls) (Inr exGoodCls) = Allowed" by code_simp
  have 2: "clsValidatingHandle excw AdmCreate (Inl NotFound) (Inr (exGoodCls\<lparr>co_toExclude := [''p1'']\<rparr>)) \<noteq> Allowed" by code_simp
  have 3: "xs_toDelete (GetXSetSpec exGoodCls) = [''p1'']" by code_simp
  show ?thesis using admitted_collaset_is_sane [OF 1] 2 3 by simp
qed

definition exdw :: dwenv where
  "exdw = \<lparr>dw_mount = (\<lambda>s. (''/data'', s, [])), dw_volDefaults = (\<lambda>vs. vs), dw_annoErrs = (\<lambda>as. []), dw_convContainer = (\<lambda>c. None),
     dw_convVolume = (\<lambda>v. None), dw_volumeErrs = (\<lambda>vs. []), dw_convToleration = (\<lambda>t. None), dw_tolerationErrs = (\<lambda>ts. []),
     dw_convEnv = (\<lambda>e. None), dw_envErrs = (\<lambda>es. [])\<rparr>"

definition exMountDeco :: "string \<Rightarrow> pdeco" where
  "exMountDeco sub = noDeco\<lparr>dc_template := (dc_template noDeco)\<lparr>te_primary := [\<lparr>pp_policy = InjectAllContainers, pp_name = None,
     pp_image = None, pp_env = [], pp_mounts = [(''vol'', sub)]\<rparr>]\<rparr>\<rparr>"

lemma admitted_mounts_stay_inside_witness:
  "\<not> goesBack ''logs/a'' \<and> decoValidatingHandle exdw AdmCreate (Inr (exMountDeco ''logs/../a'')) \<noteq> Allowed"
proof -
  have 1: "decoValidatingHandle exdw AdmCreate (Inr (exMountDeco ''logs/a'')) = Allowed" by code_simp
  have 2: "te_primary (dc_template (exMountDeco ''logs/a'')) = [\<lparr>pp_policy = InjectAllContainers, pp_name = None,
     pp_image = None, pp_env = [], pp_mounts = [(''vol'', ''logs/a'')]\<rparr>]" by (simp add: exMountDeco_def)
  have 3: "dw_mount exdw ''logs/a'' = (''/data'', ''logs/a'', [])" by (simp add: exdw_def)
  have 4: "decoValidatingHandle exdw AdmCreate (Inr (exMountDeco ''logs/../a'')) \<noteq> Allowed" by code_simp
  show ?thesis using admitted_mounts_stay_inside [OF 1 _ _ _ 3] 2 4 by simp
qed

definition expw :: "pod gomap pwenv" where
  "expw = \<lparr>pw_api = api0, pw_stamp = exstamp, pw_enabled = True, pw_graceAnno = ''grace'', pw_now = 9, pw_stampNow = ''9'', pw_client = mem_client\<rparr>"

definition exguarded :: "string gomap \<Rightarrow> pod" where
  "exguarded ls = (expod ls)\<lparr>p_gates := [svcReadyGate api0]\<rparr>"

abbreviation "exgranted \<equiv> [(key api0 POperating ''pod-delete'', ''1''), (key api0 POperationType ''pod-delete'', ''delete''),
  (key api0 POperate ''pod-delete'', ''1'')]"

definition exdeletion :: "string gomap \<Rightarrow> (gerr + pod response) \<times> pod gomap" where
  "exdeletion ls = podValidatingHandle expw OpDelete (Inr (exguarded ls)) (Inl NotFound) [(''ns/p'', exguarded ls)]"

lemma pod_deletion_needs_grant_witness:
  "fst (exdeletion exgranted) = Inr Allowed \<and> fst (exdeletion []) \<noteq> Inr Allowed"
proof -
  have c: "ControlledByKusionStack api0 (exguarded ls)" for ls
    by (simp add: ControlledByKusionStack_def exguarded_def expod_def api0_def)
  have r: "podValidatingHandle expw OpDelete (Inr (exguarded ls)) (Inl NotFound) [(''ns/p'', exguarded ls)]
      = (fst (exdeletion ls), snd (exdeletion ls))" for ls by (simp add: exdeletion_def)
  have f: "pw_client expw = mem_client" "pw_api expw = api0" "pw_stampNow expw = ''9''" by (simp_all add: expw_def)
  have en: "pw_enabled expw" by (simp add: expw_def)
  have g: "svcReadyGate api0 \<in> set (p_gates (exguarded ls))" for ls by (simp add: exguarded_def)
  note t = pod_deletion_needs_grant [of expw mget, unfolded f, OF mem.api_server_axioms en c g r]
  have 1: "IsDuringOps api0 (PodDeleteOpsLifecycleAdapter api0 ''9'') (exguarded exgranted)
      \<and> mhas (p_labels (exguarded exgranted)) (key api0 POperate ''pod-delete'')" by code_simp
  have 2: "\<not> mhas (p_labels (exguarded [])) (key api0 POperate ''pod-delete'')" by code_simp
  show ?thesis using t [of exgranted] t [of "[]"] 1 2 by blast
qed

subsection \<open>An empty resource context\<close>

text \<open>The world is what the API server holds and what the cache shows.\<close>

type_synonym cworld = "rctx gomap \<times> rctx gomap"

definition exctx :: rctx where
  "exctx = \<lparr>rx_ns = ''ns'', rx_name = ''c'', rx_contexts = []\<rparr>"

definition exxc :: "cworld ctxclient" where
  "exxc = \<lparr>xc_get = (\<lambda>w ns n. case mget (snd w) (ns @ ''/'' @ n) of None \<Rightarrow> Inl NotFound | Some x \<Rightarrow> Inr x),
     xc_delete = (\<lambda>x w. (None, (mdel (rx_ns x @ ''/'' @ rx_name x) (fst w), snd w))),
     xc_cache = (\<lambda>w kind ns n. if kind = ''ResourceContext'' \<and> mhas (snd w) (ns @ ''/'' @ n) then Inr (''1'', False) else Inl NotFound)\<rparr>"

definition exctxRun :: "gerr option \<times> cworld \<times> astore" where
  "exctxRun = ReconcileContext exxc 0 ''ns'' ''c'' (([(''ns/c'', exctx)], [(''ns/c'', exctx)]), [])"

text \<open>The deletion has reached the server, the cache has not seen it when two more events arrive.\<close>

lemma empty_context_deleted_once_witness:
  "fst (snd exctxRun) = ([], [(''ns/c'', exctx)])
   \<and> reconciles exxc ''ns'' ''c'' [(fst (snd exctxRun), 1), (fst (snd exctxRun), 2)] (snd (snd exctxRun))
     = [(None, fst (snd exctxRun)), (None, fst (snd exctxRun))]"
proof -
  have 0: "fst (snd exctxRun) = ([], [(''ns/c'', exctx)])" "fst exctxRun = None" by code_simp+
  have 1: "ReconcileContext exxc 0 ''ns'' ''c'' (([(''ns/c'', exctx)], [(''ns/c'', exctx)]), [])
      = (None, (([], [(''ns/c'', exctx)]), snd (snd exctxRun)))"
    using 0 by (metis exctxRun_def prod.collapse)
  have 2: "xc_get exxc ([(''ns/c'', exctx)], [(''ns/c'', exctx)]) ''ns'' ''c'' = Inr exctx" by (simp add: exxc_def)
  have 3: "rx_ns exctx = ''ns''" "rx_name exctx = ''c''" "rx_contexts exctx = []" by (simp_all add: exctx_def)
  have 4: "aeIsSatisfied (xc_cache exxc ([(''ns/c'', exctx)], [(''ns/c'', exctx)])) 0 ''ns'' ''c'' [] = Inr (True, [])"
    by (simp add: aeIsSatisfied_def)
  have 5: "\<forall>(v, t) \<in> set [(([], [(''ns/c'', exctx)]), 1), (([], [(''ns/c'', exctx)]), 2)]. staleAt exxc ''ns'' ''c'' v \<and> t \<le> 0 + ExpectationsTimeout"
    using 3 by (simp add: staleAt_def exxc_def ExpectationsTimeout_def)
  from empty_context_deleted_once [OF 1 2 3(1,2) 4 5] 0(1) show ?thesis
    unfolding 3(3) 0(1) if_P [OF refl] list.map prod.case by blast
qed

subsection \<open>An in-place update\<close>

text \<open>A codec for the recorded state: two entries for each container.\<close>

fun encStates :: "contState gomap \<Rightarrow> decinfo list" where
  "encStates [] = []"
| "encStates ((n, st) # sts) = \<lparr>di_name = n, di_rev = cn_image st\<rparr> # \<lparr>di_name = cn_imageID st, di_rev = []\<rparr> # encStates sts"

fun decStates :: "decinfo list \<Rightarrow> contState gomap" where
  "decStates (a # b # is) = (di_name a, \<lparr>cn_image = di_rev a, cn_imageID = di_name b\<rparr>) # decStates is"
| "decStates _ = []"

definition exup :: "(pod list, container list, string list) upenv" where
  "exup = \<lparr>up_new = (\<lambda>c r i f h. f ((expod [])\<lparr>p_containers := [\<lparr>k_name = ''main'', k_image = cr_data r, k_env = [], k_mounts = [], k_rest = []\<rparr>]\<rparr>, h)),
     up_diff = (\<lambda>cur upd. Inr (p_containers upd)), up_apply = (\<lambda>p cs. Inr (p\<lparr>p_containers := cs\<rparr>)),
     up_encode = (\<lambda>st. encInfos (case st of None \<Rightarrow> [] | Some m \<Rightarrow> encStates m)),
     up_decode = (\<lambda>s. Inr (case decStates (decInfos (length s) s) of [] \<Rightarrow> None | m \<Rightarrow> Some m)),
     up_update = (\<lambda>p w. (Inr p, p # w)), up_recreate = (\<lambda>i w. (None, w)),
     up_expectUpdate = (\<lambda>k ns n rv x. (None, n # x)), up_expectDelete = (\<lambda>k ns n x. (None, n # x))\<rparr>"

lemma decStates_encStates [simp]: "decStates (encStates m) = m"
  by (induction m rule: encStates.induct) simp_all

lemma exup_json: "state_json exup"
proof -
  have "decStates (decInfos (length (encInfos is)) (encInfos is)) = decStates is" for "is"
    by (simp add: decInfos_encInfos length_encInfos)
  then show ?thesis by (simp add: state_json_def exup_def split: option.split list.split)
qed

definition exupD :: dapi where
  "exupD = \<lparr>da_sel = (\<lambda>s. Inr (\<lambda>ls. True)), da_revAnno = ''rev'', da_labelP = ''pd/'', da_hashL = ''hash'',
     da_dec = (\<lambda>s. (None, [])), da_enc = (\<lambda>is. []), da_patch = (\<lambda>s. Inr noDeco)\<rparr>"

definition exupS :: upsettings where
  "exupS = \<lparr>us_api = api0, us_patch = \<lparr>pe_merge = (\<lambda>a b. Inr b), pe_order = (\<lambda>xs. xs), pe_sort = insertionSort\<rparr>, us_deco = exupD,
     us_read = (\<lambda>ns n. Inl NotFound)\<rparr>"

definition exrev :: "string \<Rightarrow> crevision" where
  "exrev img = \<lparr>cr_ns = ''ns'', cr_name = img, cr_owners = [], cr_data = img\<rparr>"

definition exrunning :: "string \<Rightarrow> string \<Rightarrow> pod" where
  "exrunning img imgId = (expod [])\<lparr>p_containers := [\<lparr>k_name = ''main'', k_image = img, k_env = [], k_mounts = [], k_rest = []\<rparr>],
     p_cstats := [\<lparr>s_name = ''main'', s_imageID = imgId, s_restarts = 0\<rparr>]\<rparr>"

definition exinfo :: updInfo where
  "exinfo = \<lparr>ui_object = exrunning ''v1'' ''sha1'', ui_id = ''0'', ui_curRev = exrev ''v1'', ui_updRev = exrev ''v2'', ui_decCurrent = [],
     ui_decUpdated = [], ui_pvcChanged = False, ui_decChanged = False, ui_isUpdated = False, ui_target = None, ui_inPlace = False,
     ui_onlyMeta = False\<rparr>"

definition exful :: "gerr option \<times> updInfo \<times> affinity list" where
  "exful = FulfillTargetUpdatedInfo exup exupS newStrategy noCollaSet exinfo []"

abbreviation "exinfo' \<equiv> fst (snd exful)"
abbreviation "exupdated \<equiv> the (ui_target exinfo')"

lemma exful_eq: "FulfillTargetUpdatedInfo exup exupS newStrategy noCollaSet exinfo [] = (None, exinfo', snd (snd exful))"
proof -
  have "fst exful = None" by code_simp
  then show ?thesis by (metis exful_def prod.collapse)
qed

lemma exful_facts: "ui_inPlace exinfo'" "\<not> ui_onlyMeta exinfo'" "ui_target exinfo' = Some exupdated" "snd (snd exful) = []"
  by code_simp+

lemma in_place_changes_images_only_witness:
  "ui_inPlace exinfo' \<and> \<not> ui_pvcChanged exinfo \<and> ui_onlyMeta exinfo' = False"
  using in_place_changes_images_only [OF exful_eq exful_facts(1)] exful_facts by blast

text \<open>The kubelet has pulled an image with the given id.\<close>

definition expulled :: "string \<Rightarrow> updInfo" where
  "expulled imgId = exinfo\<lparr>ui_object := exupdated\<lparr>p_cstats := [\<lparr>s_name = ''main'', s_imageID = imgId, s_restarts = 1\<rparr>]\<rparr>, ui_isUpdated := True\<rparr>"

lemma expulled_later: "laterPod (us_api exupS) exupdated (ui_object (expulled imgId))"
proof -
  have "map k_name (p_containers exupdated) = [''main'']" by code_simp
  then show ?thesis by (auto simp: laterPod_def expulled_def)
qed

lemma expulled_facts: "distinct (map s_name (p_cstats (ui_object exinfo)))" "ui_isUpdated (expulled x)" "\<not> ui_decChanged (expulled x)"
  by (simp_all add: exinfo_def exrunning_def expulled_def)

lemma expulled_id: "idOf (ui_object (expulled x)) n = (if n = ''main'' then Some x else None)"
  "idOf (ui_object exinfo) n = (if n = ''main'' then Some ''sha1'' else None)"
  by (auto simp: idOf_def expulled_def exinfo_def exrunning_def)

lemma in_place_update_finishes_when_witness:
  "fst (GetTargetUpdateFinishStatus exup (us_api exupS) (expulled ''sha2''))"
proof -
  note t = in_place_update_finishes_when [OF exup_json exful_eq exful_facts(1,2,3) expulled_later [of "''sha2''"] expulled_facts(1)
    expulled_facts(2,3) [of "''sha2''"]]
  show ?thesis using t by (auto simp: expulled_id split: if_splits)
qed





end
