(* ===== verification/RefManagerProps.thy ===== *)
theory RefManagerProps
  imports VolumeServer
begin

text \<open>
  What claiming promises: what it claims is matched and controlled by the owner, and it writes only
  the owner's own objects and orphans.  The locale \<open>ref_server\<close> is what it relies on of the client;
  it is instantiated with the claims of volumes.
\<close>

locale ref_server =
  fixes T :: "'o objAcc" and C :: "('o, 'w) refWriter" and uid :: string
    and store :: "'w \<Rightarrow> string \<Rightarrow> 'o option" and okey :: "'o \<Rightarrow> string"
  assumes upd_ok: "rw_update C ob w = (Inr ob', w') \<Longrightarrow> oa_labels T ob' = oa_labels T ob \<and> oa_owners T ob' = oa_owners T ob
      \<and> store w' = (store w)(okey ob \<mapsto> ob')"
    and upd_err: "rw_update C ob w = (Inl e, w') \<Longrightarrow> store w' = store w"
    and setRef_ok: "rw_setRef C ob = Inr ob' \<Longrightarrow> oa_labels T ob' = oa_labels T ob \<and> okey ob' = okey ob
      \<and> (find o_ctrl (oa_owners T ob) = None \<longrightarrow> (\<exists>r. find o_ctrl (oa_owners T ob') = Some r \<and> o_uid r = uid))"
    and setOwners_key: "okey (oa_setOwners T os ob) = okey ob"
begin

definition mine :: "'o \<Rightarrow> bool" where
  "mine ob \<longleftrightarrow> (\<exists>r. find o_ctrl (oa_owners T ob) = Some r \<and> o_uid r = uid)"

text \<open>When an object may be written: the owner's own one that is not matched, and a matched orphan.\<close>

definition writable :: "refMgr \<Rightarrow> 'o \<Rightarrow> bool" where
  "writable m ob \<longleftrightarrow> \<not> fo_deleting (rf_owner m) \<and>
     (mine ob \<and> \<not> rf_matches m (oa_labels T ob)
      \<or> find o_ctrl (oa_owners T ob) = None \<and> rf_matches m (oa_labels T ob) \<and> \<not> oa_deleting T ob)"

lemma Release_effect:
  "Release T C m ob w = (r, ob', w') \<Longrightarrow> store w' = store w \<or> (\<exists>x. store w' = (store w)(okey ob \<mapsto> x))"
  using setOwners_key by (auto simp: Release_def Let_def dest!: upd_ok upd_err split: option.splits sum.splits prod.splits)

lemma adopt_effect:
  assumes "adoptObj C ob m w = (r, ob', m', w')"
  shows "store w' = store w \<or> (\<exists>x. store w' = (store w)(okey ob \<mapsto> x))"
    and "rf_owner m' = rf_owner m \<and> rf_matches m' = rf_matches m"
    and "r = None \<Longrightarrow> find o_ctrl (oa_owners T ob) = None \<Longrightarrow> oa_labels T ob' = oa_labels T ob \<and> mine ob'"
proof -
  obtain e m1 where c: "canAdoptOnce m = (e, m1)" by fastforce
  have m1: "rf_owner m1 = rf_owner m \<and> rf_matches m1 = rf_matches m"
    using c by (auto simp: canAdoptOnce_def split: option.splits)
  show "rf_owner m' = rf_owner m \<and> rf_matches m' = rf_matches m"
    using assms m1 c by (auto simp: adoptObj_def split: option.splits if_splits sum.splits prod.splits)
  show "store w' = store w \<or> (\<exists>x. store w' = (store w)(okey ob \<mapsto> x))"
    using assms c by (auto simp: adoptObj_def dest!: setRef_ok upd_ok upd_err split: option.splits if_splits sum.splits prod.splits)
  show "oa_labels T ob' = oa_labels T ob \<and> mine ob'" if "r = None" "find o_ctrl (oa_owners T ob) = None"
    using assms c that
    by (auto simp: adoptObj_def mine_def dest!: setRef_ok upd_ok split: option.splits if_splits sum.splits prod.splits)
qed

lemma ClaimObject_effect:
  assumes "ClaimObject T C m ob w = (x, ob', m', w')" and "fo_uid (rf_owner m) = uid"
  shows "rf_owner m' = rf_owner m \<and> rf_matches m' = rf_matches m
    \<and> (store w' = store w \<or> writable m ob \<and> (\<exists>y. store w' = (store w)(okey ob \<mapsto> y)))
    \<and> (x = Inr True \<longrightarrow> rf_matches m (oa_labels T ob') \<and> mine ob')"
proof (cases "find o_ctrl (oa_owners T ob)")
  case (Some r)
  obtain e ob1 w1 where rel: "Release T C m ob w = (e, ob1, w1)" by (metis surj_pair)
  from Release_effect [OF rel] Some assms rel show ?thesis
    by (cases e) (auto simp: ClaimObject_def writable_def mine_def split: if_splits)
next
  case None
  obtain e ob1 m1 w1 where ad: "adoptObj C ob m w = (e, ob1, m1, w1)" by (metis surj_pair)
  from adopt_effect [OF ad] None assms ad show ?thesis
    by (cases e) (auto simp: ClaimObject_def writable_def split: if_splits)
qed

lemma claimLoop_effect:
  "claimLoop T C obs (cl, es, m, w) = (cl', es', m', w') \<Longrightarrow> fo_uid (rf_owner m) = uid
   \<Longrightarrow> (\<forall>ob \<in> set cl'. ob \<in> set cl \<or> rf_matches m (oa_labels T ob) \<and> mine ob)
     \<and> (\<forall>k. store w' k \<noteq> store w k \<longrightarrow> (\<exists>ob \<in> set obs. okey ob = k \<and> writable m ob))"
proof (induction obs arbitrary: cl es m w)
  case (Cons ob obs)
  obtain x ob1 m1 w1 where c: "ClaimObject T C m ob w = (x, ob1, m1, w1)" by (metis surj_pair)
  note E = ClaimObject_effect [OF c Cons.prems(2)]
  then have same: "rf_owner m1 = rf_owner m" "rf_matches m1 = rf_matches m" by simp_all
  obtain cl1 es1 where l: "claimLoop T C obs (cl1, es1, m1, w1) = (cl', es', m', w')"
    and cl1: "set cl1 \<subseteq> set cl \<union> (if x = Inr True then {ob1} else {})"
    using Cons.prems(1) c by (cases x) (auto split: bool.splits)
  have "fo_uid (rf_owner m1) = uid" using Cons.prems(2) same by simp
  note IH = Cons.IH [OF l this]
  have wr: "writable m1 = writable m" using same by (simp add: writable_def fun_eq_iff)
  have 1: "o1 \<in> set cl \<or> rf_matches m (oa_labels T o1) \<and> mine o1" if "o1 \<in> set cl'" for o1
    using IH that cl1 E same by (auto split: if_splits)
  have 2: "\<exists>o1 \<in> set (ob # obs). okey o1 = k \<and> writable m o1" if "store w' k \<noteq> store w k" for k
  proof (cases "store w' k = store w1 k")
    case True
    with that E have "okey ob = k \<and> writable m ob" by (metis fun_upd_other)
    then show ?thesis by simp
  next
    case False
    with IH wr show ?thesis by auto
  qed
  from 1 2 show ?case by blast
qed simp

end

text \<open>The claims of volumes.\<close>

lemma memv_setRef: "ve_setRef memv_env c v = Inr (v\<lparr>v_owners := v_owners v @ [\<lparr>o_kind = ''CollaSet'', o_api = ''apps.kusionstack.io/v1alpha1'',
    o_name = co_name c, o_uid = co_uid c, o_ctrl = True\<rparr>]\<rparr>)"
  by (simp add: memv_env_def)

lemma find_append: "find P (xs @ ys) = (case find P xs of None \<Rightarrow> find P ys | Some x \<Rightarrow> Some x)"
  by (induction xs) auto

interpretation memr: ref_server pvcAcc "pvcWriter memv_env c" "co_uid c" "\<lambda>w. mget (snd w)" pvcKey for c
proof
  show "oa_labels pvcAcc v' = oa_labels pvcAcc v \<and> oa_owners pvcAcc v' = oa_owners pvcAcc v \<and> mget (snd w') = (mget (snd w))(pvcKey v \<mapsto> v')"
    if "rw_update (pvcWriter memv_env c) v w = (Inr v', w')" for v v' and w w' :: "'a \<times> pvc gomap"
    using that by (auto simp: pvcWriter_def memv_env_def memv_update_def pvcAcc_def Let_def fun_eq_iff split: if_splits)
  show "oa_labels pvcAcc v' = oa_labels pvcAcc v \<and> pvcKey v' = pvcKey v
      \<and> (find o_ctrl (oa_owners pvcAcc v) = None \<longrightarrow> (\<exists>r. find o_ctrl (oa_owners pvcAcc v') = Some r \<and> o_uid r = co_uid c))"
    if "rw_setRef (pvcWriter memv_env c) v = Inr v'" for v v'
    using that by (auto simp: pvcWriter_def memv_setRef pvcAcc_def pvcKey_def find_append)
qed (auto simp: pvcWriter_def memv_env_def memv_update_def pvcAcc_def pvcKey_def Let_def split: if_splits)

text \<open>C37: Claiming returns only objects that the selector matches and the owner controls, and it writes only objects that the owner
  controls and no longer matches, or matched orphans that are not being deleted; while the owner is being deleted it
  writes nothing.\<close>

theorem claimed_objects_match:
  assumes "ref_server T C uid store okey" and "ClaimOwned T C m obs w = (cl, es, m', w')" and "fo_uid (rf_owner m) = uid"
  shows "(\<forall>ob \<in> set cl. rf_matches m (oa_labels T ob) \<and> (\<exists>r. find o_ctrl (oa_owners T ob) = Some r \<and> o_uid r = uid))
    \<and> (\<forall>k. store w' k \<noteq> store w k \<longrightarrow> (\<exists>ob \<in> set obs. okey ob = k \<and> \<not> fo_deleting (rf_owner m)
         \<and> ((\<exists>r. find o_ctrl (oa_owners T ob) = Some r \<and> o_uid r = uid) \<and> \<not> rf_matches m (oa_labels T ob)
            \<or> find o_ctrl (oa_owners T ob) = None \<and> rf_matches m (oa_labels T ob) \<and> \<not> oa_deleting T ob)))"
  using ref_server.claimLoop_effect [OF assms(1) assms(2) [unfolded ClaimOwned_def] assms(3)]
  by (simp add: ref_server.mine_def [OF assms(1)] ref_server.writable_def [OF assms(1)])

text \<open>One claim of a foreign controller, one orphan and one that the selector no longer matches.\<close>

definition exVol :: "string \<Rightarrow> string \<Rightarrow> owner list \<Rightarrow> pvc" where
  "exVol n app os = \<lparr>v_ns = ''ns'', v_name = n, v_genName = [], v_labels = [(''app'', app)], v_owners = os, v_deleting = False,
     v_rv = ''1'', v_spec = []\<rparr>"

definition exRef :: "string \<Rightarrow> owner" where
  "exRef uid = \<lparr>o_kind = ''CollaSet'', o_api = ''apps.kusionstack.io/v1alpha1'', o_name = ''cs'', o_uid = uid, o_ctrl = True\<rparr>"

definition exVols :: "pvc list" where
  "exVols = [exVol ''a'' ''a'' [exRef ''u2''], exVol ''b'' ''a'' [], exVol ''c'' ''b'' [exRef ''u1'']]"

definition exClsR :: collaset where
  "exClsR = noCollaSet\<lparr>co_ns := ''ns'', co_name := ''cs'', co_uid := ''u1'', co_selector := Some \<lparr>se_labels = [(''app'', ''a'')], se_exprs = []\<rparr>\<rparr>"

definition exMgr :: refMgr where
  "exMgr = \<lparr>rf_matches = (\<lambda>ls. mget ls ''app'' = Some ''a''), rf_owner = \<lparr>fo_uid = ''u1'', fo_deleting = False\<rparr>, rf_schema = True, rf_once = None\<rparr>"

definition exClaimed :: "pvc list \<times> gerr list \<times> refMgr \<times> unit \<times> pvc gomap" where
  "exClaimed = ClaimOwned pvcAcc (pvcWriter memv_env exClsR) exMgr exVols ((), map (\<lambda>v. (pvcKey v, v)) exVols)"

lemma claimed_objects_match_witness:
  "length (fst exClaimed) = 1 \<and> list_all (\<lambda>v. \<exists>r. find o_ctrl (v_owners v) = Some r \<and> o_uid r = ''u1'') (fst exClaimed)"
proof -
  have u: "co_uid exClsR = ''u1''" by (simp add: exClsR_def)
  have r: "ClaimOwned pvcAcc (pvcWriter memv_env exClsR) exMgr exVols ((), map (\<lambda>v. (pvcKey v, v)) exVols)
    = (fst exClaimed, fst (snd exClaimed), fst (snd (snd exClaimed)), snd (snd (snd exClaimed)))" by (simp add: exClaimed_def)
  have o: "fo_uid (rf_owner exMgr) = co_uid exClsR" by (simp add: exMgr_def u)
  have "length (fst exClaimed) = 1" by code_simp
  with claimed_objects_match [OF memr.ref_server_axioms r o] show ?thesis by (simp add: u pvcAcc_def list_all_iff)
qed

end
