(* ===== verification/HttpClient.thy ===== *)
theory HttpClient
  imports WebhookRule
begin

text \<open>
  \<^verbatim>\<open>pkg/utils/http/http.go\<close>: the clients that call the servers of webhook rules, one for each
  certificate bundle or token, and what becomes of a response.  The transport, \<open>http.NewRequest\<close> with the JSON encoder,
  the base64 decoder and \<open>json.Unmarshal\<close> are the fields of \<open>henv\<close>.
\<close>

record hresponse =
  hr_status :: int
  hr_body :: "gerr + string"

text \<open>Of the configuration of TLS the code sets the pool for verifying clients; the pool for verifying servers stays nil, which
  stands for the roots of the system.  A pool is the list of the texts it was made from.\<close>

record tlsConfig =
  tc_roots :: "string list option"
  tc_clientCAs :: "string list option"

record hclient =
  hc_tls :: tlsConfig
  hc_timeout :: int

record clientSet =
  hs_ca :: "hclient gomap"
  hs_token :: "hclient gomap"

record ('b, 'q) henv =
  he_request :: "string \<Rightarrow> string \<Rightarrow> 'b option \<Rightarrow> gerr + 'q"
  he_header :: "string \<Rightarrow> string \<Rightarrow> 'q \<Rightarrow> 'q"
  he_base64 :: "string \<Rightarrow> gerr + string"
  he_do :: "hclient \<Rightarrow> 'q \<Rightarrow> gerr + hresponse"

definition httpTimeout :: int where
  "httpTimeout = 30 * sec"

definition newSharedClient :: clientSet where
  "newSharedClient = \<lparr>hs_ca = [], hs_token = []\<rparr>"

definition newClient :: "('b, 'q) henv \<Rightarrow> string option \<Rightarrow> string option \<Rightarrow> clientSet \<Rightarrow> (gerr + hclient) \<times> clientSet" where
  "newClient E ca token s =
     (case (case ca of
              None \<Rightarrow> Inr None
            | Some c \<Rightarrow> if c = [] \<or> c = ''Cg=='' then Inr None
                        else (case he_base64 E c of Inl e \<Rightarrow> Inl e | Inr bt \<Rightarrow> Inr (Some [bt]))) of
        Inl e \<Rightarrow> (Inl e, s)
      | Inr pool \<Rightarrow>
          (let c = \<lparr>hc_tls = \<lparr>tc_roots = None, tc_clientCAs = pool\<rparr>, hc_timeout = httpTimeout\<rparr>
           in (Inr c,
               (case ca of
                  Some x \<Rightarrow> s\<lparr>hs_ca := mput x c (hs_ca s)\<rparr>
                | None \<Rightarrow> (case token of None \<Rightarrow> s | Some k \<Rightarrow> s\<lparr>hs_token := mput k c (hs_token s)\<rparr>)))))"

definition GetClientWithCa :: "('b, 'q) henv \<Rightarrow> string \<Rightarrow> clientSet \<Rightarrow> (gerr + hclient) \<times> clientSet" where
  "GetClientWithCa E ca s = (case mget (hs_ca s) ca of None \<Rightarrow> newClient E (Some ca) None s | Some c \<Rightarrow> (Inr c, s))"

definition GetClientWithKey :: "('b, 'q) henv \<Rightarrow> string \<Rightarrow> clientSet \<Rightarrow> (gerr + hclient) \<times> clientSet" where
  "GetClientWithKey E k s = (case mget (hs_token s) k of None \<Rightarrow> newClient E None (Some k) s | Some c \<Rightarrow> (Inr c, s))"

definition buildReq :: "('b, 'q) henv \<Rightarrow> string \<Rightarrow> string \<Rightarrow> 'b option \<Rightarrow> string gomap \<Rightarrow> gerr + 'q" where
  "buildReq E meth url body header =
     rbind (he_request E meth url body) (\<lambda>q.
       Inr (fold (\<lambda>(k, v). he_header E k v) header (he_header E ''Content-Type'' ''application/json'' q)))"

definition DoHttpAndHttpsRequestWithCa :: "('b, 'q) henv \<Rightarrow> string \<Rightarrow> string \<Rightarrow> 'b option \<Rightarrow> string gomap \<Rightarrow> string \<Rightarrow> clientSet
    \<Rightarrow> (gerr + hresponse) \<times> clientSet" where
  "DoHttpAndHttpsRequestWithCa E meth url body header ca s =
     (case buildReq E meth url body header of
        Inl e \<Rightarrow> (Inl e, s)
      | Inr q \<Rightarrow> (case GetClientWithCa E ca s of (Inl e, s1) \<Rightarrow> (Inl e, s1) | (Inr c, s1) \<Rightarrow> (he_do E c q, s1)))"

definition DoHttpAndHttpsRequestWithToken :: "('b, 'q) henv \<Rightarrow> string \<Rightarrow> string \<Rightarrow> 'b option \<Rightarrow> string gomap \<Rightarrow> string \<Rightarrow> clientSet
    \<Rightarrow> (gerr + hresponse) \<times> clientSet" where
  "DoHttpAndHttpsRequestWithToken E meth url body header token s =
     (case buildReq E meth url body header of
        Inl e \<Rightarrow> (Inl e, s)
      | Inr q \<Rightarrow> (case GetClientWithKey E token s of (Inl e, s1) \<Rightarrow> (Inl e, s1) | (Inr c, s1) \<Rightarrow> (he_do E c q, s1)))"

text \<open>The data to fill is a pointer; \<open>decode\<close> is \<open>None\<close> when it is nil.\<close>

definition ParseResponse :: "hresponse option \<Rightarrow> (string \<Rightarrow> gerr + 'a) option \<Rightarrow> gerr + 'a option" where
  "ParseResponse resp decode =
     (case resp of
        None \<Rightarrow> Inl (Err ''response cannot be nil'')
      | Some r \<Rightarrow>
          (case hr_body r of
             Inl e \<Rightarrow> Inl e
           | Inr b \<Rightarrow>
               if 199 < hr_status r \<and> hr_status r < 300
               then (case decode of
                       None \<Rightarrow> Inr None
                     | Some f \<Rightarrow> (case f b of Inl e \<Rightarrow> Inl (Err (''err: '' @ errText e @ '', response: '' @ b)) | Inr x \<Rightarrow> Inr (Some x)))
               else Inl (Err (''failed by response status code, body: '' @ b))))"

subsection \<open>The calls of a webhook rule\<close>

text \<open>What \<open>WebhookRule\<close> takes as the outcome of a request.\<close>

definition webhookOutcome :: "(whreq, 'q) henv \<Rightarrow> (string \<Rightarrow> gerr + whresp) \<Rightarrow> string \<Rightarrow> string \<Rightarrow> whreq \<Rightarrow> clientSet \<Rightarrow> httpOutcome \<times> clientSet" where
  "webhookOutcome E decode ca url req s =
     (case DoHttpAndHttpsRequestWithCa E ''POST'' url (Some req) [] ca s of
        (Inl e, s1) \<Rightarrow> (NoResponse e, s1)
      | (Inr r, s1) \<Rightarrow>
          ((case ParseResponse (Some r) (Some decode) of
              Inl e \<Rightarrow> BadResponse e
            | Inr None \<Rightarrow> BadResponse (Err ''no response'')
            | Inr (Some x) \<Rightarrow> Response x), s1))"

text \<open>What the polling manager takes as the answer to a query.\<close>

definition pollAnswer :: "(unit, 'q) henv \<Rightarrow> (string \<Rightarrow> gerr + pollResp) \<Rightarrow> string \<Rightarrow> string \<Rightarrow> clientSet \<Rightarrow> (gerr + pollResp) \<times> clientSet" where
  "pollAnswer E decode ca url s =
     (case DoHttpAndHttpsRequestWithCa E ''GET'' url None [] ca s of
        (Inl e, s1) \<Rightarrow> (Inl e, s1)
      | (Inr r, s1) \<Rightarrow>
          ((case ParseResponse (Some r) (Some decode) of
              Inl e \<Rightarrow> Inl e
            | Inr None \<Rightarrow> Inl (Err ''no response'')
            | Inr (Some x) \<Rightarrow> Inr x), s1))"

subsection \<open>The cache of clients\<close>

inductive clients :: "('b, 'q) henv \<Rightarrow> clientSet \<Rightarrow> bool" for E where
  fresh: "clients E newSharedClient"
| byCa: "clients E s \<Longrightarrow> GetClientWithCa E ca s = (r, s') \<Longrightarrow> clients E s'"
| byToken: "clients E s \<Longrightarrow> GetClientWithKey E k s = (r, s') \<Longrightarrow> clients E s'"

definition bundlePool :: "('b, 'q) henv \<Rightarrow> string \<Rightarrow> string list option" where
  "bundlePool E ca = (if ca = [] \<or> ca = ''Cg=='' then None else (case he_base64 E ca of Inl e \<Rightarrow> None | Inr bt \<Rightarrow> Some [bt]))"

definition madeFor :: "('b, 'q) henv \<Rightarrow> clientSet \<Rightarrow> bool" where
  "madeFor E s \<longleftrightarrow>
     (\<forall>ca c. mget (hs_ca s) ca = Some c \<longrightarrow> tc_clientCAs (hc_tls c) = bundlePool E ca \<and> tc_roots (hc_tls c) = None)
     \<and> (\<forall>k c. mget (hs_token s) k = Some c \<longrightarrow> hc_tls c = \<lparr>tc_roots = None, tc_clientCAs = None\<rparr>)"

lemma newClient_parts:
  assumes "newClient E ca token s = (r, s')"
  shows "(\<exists>e. r = Inl e) \<and> s' = s \<or>
    (\<exists>c. r = Inr c \<and> c = \<lparr>hc_tls = \<lparr>tc_roots = None, tc_clientCAs = (case ca of None \<Rightarrow> None | Some x \<Rightarrow> bundlePool E x)\<rparr>, hc_timeout = httpTimeout\<rparr>
      \<and> s' = (case ca of Some x \<Rightarrow> s\<lparr>hs_ca := mput x c (hs_ca s)\<rparr>
                 | None \<Rightarrow> (case token of None \<Rightarrow> s | Some k \<Rightarrow> s\<lparr>hs_token := mput k c (hs_token s)\<rparr>)))"
  using assms by (cases ca) (auto simp: newClient_def bundlePool_def Let_def split: if_splits sum.splits)

lemma newClient_made:
  assumes "newClient E ca token s = (r, s')" and "madeFor E s"
  shows "madeFor E s'"
  using newClient_parts [OF assms(1)]
proof (elim disjE exE conjE)
  fix c assume c: "c = \<lparr>hc_tls = \<lparr>tc_roots = None, tc_clientCAs = (case ca of None \<Rightarrow> None | Some x \<Rightarrow> bundlePool E x)\<rparr>, hc_timeout = httpTimeout\<rparr>"
    and s': "s' = (case ca of Some x \<Rightarrow> s\<lparr>hs_ca := mput x c (hs_ca s)\<rparr>
                 | None \<Rightarrow> (case token of None \<Rightarrow> s | Some k \<Rightarrow> s\<lparr>hs_token := mput k c (hs_token s)\<rparr>))"
  show ?thesis
  proof (cases ca)
    case None
    then show ?thesis using s' c assms(2) by (cases token) (simp_all add: madeFor_def)
  next
    case (Some x)
    then show ?thesis using s' c assms(2) by (simp add: madeFor_def)
  qed
qed (use assms(2) in simp)

lemma clients_made: "clients E s \<Longrightarrow> madeFor E s"
proof (induction rule: clients.induct)
  case (byCa s ca r s')
  then show ?case using newClient_made [of E "Some ca" None s r s'] by (auto simp: GetClientWithCa_def split: option.splits)
next
  case (byToken s k r s')
  then show ?case using newClient_made [of E None "Some k" s r s'] by (auto simp: GetClientWithKey_def split: option.splits)
qed (simp add: madeFor_def newSharedClient_def)

text \<open>Whatever bundle a rule names, and whichever calls came before, the client that calls its server verifies the
  server against the roots of the system: the bundle ends in the pool for verifying clients, where no client looks.\<close>

theorem bundle_never_verifies:
  assumes "clients E s" and "GetClientWithCa E ca s = (Inr c, s')"
  shows "tc_roots (hc_tls c) = None \<and> tc_clientCAs (hc_tls c) = bundlePool E ca"
proof (cases "mget (hs_ca s) ca")
  case None
  then show ?thesis using assms(2)
    by (auto simp: GetClientWithCa_def dest!: newClient_parts)
next
  case (Some d)
  then show ?thesis using assms clients_made [OF assms(1)] by (simp add: GetClientWithCa_def madeFor_def)
qed

end
