(* ===== verification/Spec2Isabelle.thy ===== *)
theory Spec2Isabelle
  imports LifecycleExamples RuleControllerExamples PodDeletionExamples OperationJobExamples DecorationExamples AdmissionExamples
    RefManagerProps HttpClient
begin

text \<open>
  Kuperator is a set of Kubernetes controllers and admission webhooks that make changes to pods safe: whoever wants
  to update, replace or delete a pod begins a \<^emph>\<open>lifecycle\<close> on it by labels, and goes on only when the pod has been
  taken out of traffic.  This development models the Go code below src/ (paths in the theories are relative to it) as
  functions on records, and proves what the parts promise one another.

  \<^bold>\<open>How the parts interact.\<close>  A controller (deletion, operation jobs, the CollaSet controller of the package
  kube-xset, which this repository configures) writes the labels of a lifecycle: \<open>Begin\<close>.  The webhook of pods
  (\<open>Mutating\<close>) moves a lifecycle from one phase to the next whenever a pod is written.  The lifecycle controller
  (\<open>Reconcile\<close>) asks the rule controller's results (\<open>GetState\<close>) whether the pod may pass its stage, and grants the
  permission; the webhook then sets the operate label when the protection finalizers are gone; the first controller sees
  \<open>AllowOps\<close>, works, and \<open>Finish\<close>es; the webhook and the lifecycle controller bring the pod back into service.
  PodDecorations change the pods that CollaSets make, in steps: a strategy manager decides which pods get the new revision
  of a decoration, a getter asks it, the patches are applied to a new pod, and the in-place updater compares the pods
  of two revisions.

  \<^bold>\<open>Theories.\<close>
  \<^item> Basis.  \<open>Prelude\<close>: errors, association lists as Go maps, sets of strings, strings and decimal numbers.
    \<open>SortOrder\<close>: lexicographic comparison functions, and the contract of \<open>sort.Slice\<close>.  \<open>Kube\<close>: pods, and the names of
    the package kube-api with what is relied on of them (\<open>api_ok\<close>).  \<open>PodUtils\<close>: \<^verbatim>\<open>controllers/utils/pod_utils.go\<close>, the client
    of the API server and its contract, the locale \<open>api_server\<close>, interpreted on a server in memory.  \<open>Finalizers\<close>,
    \<open>SlowStart\<close>, \<open>Expectations\<close>: the helpers of those names; the expectations share the locale \<open>expectation\<close>.
    \<open>HttpClient\<close>: \<^verbatim>\<open>pkg/utils/http\<close>.
  \<^item> Lifecycles.  \<open>LifecycleIds\<close>, \<open>LifecycleOps\<close>: \<^verbatim>\<open>podopslifecycle/utils.go\<close> and \<^verbatim>\<open>controllers/utils/podopslifecycle\<close>
    (locale \<open>lifecycle_adapter\<close>, interpreted on all adapters).  \<open>LifecycleWebhook\<close>, \<open>WebhookProps\<close>, \<open>WebhookExamples\<close>:
    \<^verbatim>\<open>webhook/server/generic/pod/opslifecycle\<close>.  \<open>LifecycleController\<close>, \<open>LifecycleProps\<close>, \<open>LifecycleWaits\<close>,
    \<open>LifecycleExamples\<close>: \<^verbatim>\<open>podopslifecycle_controller.go\<close>.  \<open>PodDeletion\<close>, \<open>PodDeletionExamples\<close>: the deletion controller and the
    webhook \<^verbatim>\<open>gracedelete\<close>.
  \<^item> Rules.  \<open>RuleRegister\<close>: the register of stages and conditions, and the checker.  \<open>Rulers\<close>, \<open>Polling\<close>, \<open>WebhookRule\<close>: the
    rules of \<^verbatim>\<open>processor/rules\<close>.  \<open>Processor\<close>, \<open>ProcessorProps\<close>: one stage of one rule object.  \<open>RuleController\<close>,
    \<open>RuleServer\<close>, \<open>RuleControllerProps\<close>, \<open>RuleExamples\<close>, \<open>RuleControllerExamples\<close>: a reconciliation, over the contract of its
    server.
  \<^item> Operation jobs.  \<open>OpsCore\<close>: \<^verbatim>\<open>opscore\<close> and the helpers.  \<open>OperationJob\<close>: a reconciliation.  \<open>OpsReplace\<close>: the action that
    replaces pods.  \<open>OperationJobProps\<close>, \<open>OperationJobStatus\<close>, \<open>OperationJobServer\<close>, \<open>OperationJobWebhook\<close>,
    \<open>OperationJobExamples\<close>: what a reconciliation keeps, the status, the server, the webhook, all steps together.
  \<^item> Decorations.  \<open>Decoration\<close>: the data and \<^verbatim>\<open>anno\<close>.  \<open>PodStrategy\<close>, \<open>PodStrategyProps\<close>: \<^verbatim>\<open>strategy/manager.go\<close>.
    \<open>DecorationGetter\<close>, \<open>DecorationPatch\<close>, \<open>DecorationPatchProps\<close>: reading and applying decorations.
    \<open>DecorationController\<close>, \<open>DecorationProps\<close>, \<open>DecorationServer\<close>, \<open>DecorationExamples\<close>: the controller.
  \<^item> CollaSets.  \<open>CollaSets\<close>: the object.  \<open>RefManager\<close>, \<open>RefManagerProps\<close>: adopting and releasing.  \<open>VolumeClaims\<close>,
    \<open>VolumeClaimsProps\<close>, \<open>VolumeServer\<close>: claims of volumes (locale \<open>claim_server\<close>).  \<open>InPlaceUpdate\<close>, \<open>InPlaceUpdateProps\<close>:
    \<^verbatim>\<open>pod_updater.go\<close>.  \<open>CollaSetAdapters\<close>: the other answers to the generic controller.  \<open>ResourceContexts\<close>: the controller
    of that name.
  \<^item> Admission.  \<open>Admission\<close>: dispatch, responses, plugins.  \<open>CollaSetWebhook\<close>, \<open>DecorationWebhook\<close>, \<open>RuleAdmission\<close>,
    \<open>PodWebhook\<close>: the handlers below \<^verbatim>\<open>webhook/server/generic\<close>.  \<open>AdmissionExamples\<close>: runs of them and of the in-place
    updater.

  \<^bold>\<open>Modelling.\<close>  Go maps are association lists without double keys, in the order in which Go happens to visit them
  (\<open>mwf\<close>); where the order shows in a result it is an argument, or a theorem says that it does not matter.  Nil and
  empty maps and slices are one value unless the code tells them apart.  An error is a value of \<open>gerr\<close>; a panic is
  the error \<open>Panic\<close> and ends the call.  Integers that can overflow are machine words (expectations, partitions, hashes).
  The world of a controller is a type variable with a record of calls on it; what the properties rely on of these calls
  is a locale, interpreted on a server in memory, on which the examples run.  Reads of one run see the state of one moment,
  unless an operation writes in between; concurrent changes are steps between the runs of a controller.

  \<^bold>\<open>Bounds and fuel.\<close>  The server in memory retries a conflict four times (\<open>mem_retry\<close>), as retry.DefaultRetry does once
  and four times again.  The batches of \<open>slowLoop\<close> end because what is left shrinks (\<open>termination\<close> by a measure); the loop that
  synchronises the decorations at the start may run for ever and is a partial function with the value \<open>None\<close> then; that
  it returns is a theorem.  No other function needs fuel.

  \<^bold>\<open>What the theorems show.\<close>  Lifecycles: no permission without the vote of every rule, operating only on pods
  without protection, completion only after the finalizers are back, undoing removes everything.  Rules: the budget of
  unavailable pods is kept and every passed detail is vouched for.  Jobs: final progress is final under any interleaving, the
  partition bounds what is started, deletion releases every target.  Decorations: a partition keeps back exactly the last
  pods, order and sorting routine do not show, revisions written are read back, the current revision moves only when all pods
  carry the new one.  CollaSets: claims are created once, only claims of an instance whose template changed go, a pod
  is changed in place only in metadata and images, and the update is finished when the recorded image ids are gone.  Admission: what
  is admitted is sane for the code that reads it.  Several theorems state flaws: an update to a renamed image never
  finishes, a failed update of a decoration ignores its partition, the bundle of a webhook's server is not used.

  \<^bold>\<open>Not modelled.\<close>  The packages kube-api, kube-utils and kube-xset, Kubernetes and controller-runtime are not part of the
  repository and are parameters.  Set-up of managers, watches, field indexes, flags, feature gates, metrics, logs and
  events for users carry no logic.  \<^verbatim>\<open>SetDefaultPodSpec\<close> walks through a pod template to call defaulting functions of Kubernetes; it
  is one parameter, since the template is a text here.  \<^verbatim>\<open>pkg/utils/expectation\<close> and \<^verbatim>\<open>collaset/legacy/lifecycle_adapter.go\<close> copy
  files that are modelled.  Data races of goroutines are outside the model: a batch of concurrent calls takes effect in
  some order, which is an argument.  The host name of a pod, the history limits and the texts of errors that quote values
  are left out of the records.
\<close>

subsection \<open>From the rules to the pre-checked label\<close>









end
